(* ===== verification/JS_Prelude.thy ===== *)
theory JS_Prelude
  imports Main "HOL-Library.Code_Target_Numeral" "HOL-Library.AList" "HOL-Library.Sublist" "HOL-Library.Multiset"
begin

text \<open>
  The part of JavaScript every component uses: strings as sequences of UTF-16 code units,
  \<^verbatim>\<open>trim\<close>, \<^verbatim>\<open>split\<close>, \<^verbatim>\<open>join\<close>, \<^verbatim>\<open>indexOf\<close>, decimal rendering and reading of naturals,
  \<^verbatim>\<open>Array.from(new Set(xs))\<close>, the stable \<^verbatim>\<open>Array.prototype.sort\<close>, and the list lemmas
  the components share. A \<^verbatim>\<open>Map\<close> keeps insertion order: it is an association list with
  \<open>AList.update\<close> (in place when the key exists, at the end otherwise), \<open>map_of\<close> and
  \<open>AList.delete\<close>.
\<close>

named_theorems js_str \<open>evaluation of string literals and string operations\<close>
named_theorems js_list \<open>facts on the list operations of the standard library\<close>

section \<open>Strings\<close>

text \<open>
  A code unit is a natural number (below 65536 in a running program; nothing here depends on
  the bound). A literal is written \<open>js ''abc''\<close>; a code unit outside ASCII is written as
  its number.
\<close>

type_synonym jstring = "nat list"

definition js :: "string \<Rightarrow> jstring" where
  "js s = map of_char s"

text \<open>White space and line terminators of ECMAScript: what \<^verbatim>\<open>trim\<close> and \<^verbatim>\<open>\s\<close> accept.\<close>

definition white_space :: "nat list" where
  "white_space = [9, 10, 11, 12, 13, 32, 160, 5760, 8192, 8193, 8194, 8195, 8196, 8197, 8198,
     8199, 8200, 8201, 8202, 8232, 8233, 8239, 8287, 12288, 65279]"

definition is_space :: "nat \<Rightarrow> bool" where
  "is_space c \<longleftrightarrow> c \<in> set white_space"

definition trim :: "jstring \<Rightarrow> jstring" where
  "trim s = rev (dropWhile is_space (rev (dropWhile is_space s)))"

definition is_digit :: "nat \<Rightarrow> bool" where
  "is_digit c \<longleftrightarrow> 48 \<le> c \<and> c \<le> 57"

definition all_digits :: "jstring \<Rightarrow> bool" where
  "all_digits s \<longleftrightarrow> s \<noteq> [] \<and> list_all is_digit s"

text \<open>\<^verbatim>\<open>s.split(c)\<close> for a separator of one code unit.\<close>

fun split_on :: "nat \<Rightarrow> jstring \<Rightarrow> jstring list" where
  "split_on c [] = [[]]"
| "split_on c (x # xs) =
     (if x = c then [] # split_on c xs
      else (case split_on c xs of [] \<Rightarrow> [[x]] | y # ys \<Rightarrow> (x # y) # ys))"

fun join :: "jstring \<Rightarrow> jstring list \<Rightarrow> jstring" where
  "join sep [] = []"
| "join sep [s] = s"
| "join sep (s # t # ss) = s @ sep @ join sep (t # ss)"

text \<open>\<^verbatim>\<open>s.indexOf(p)\<close>: the first position where \<open>p\<close> occurs, \<open>None\<close> for -1.\<close>

fun index_of :: "jstring \<Rightarrow> jstring \<Rightarrow> nat option" where
  "index_of p [] = (if p = [] then Some 0 else None)"
| "index_of p (x # xs) =
     (if prefix p (x # xs) then Some 0 else map_option Suc (index_of p xs))"

definition str_includes :: "jstring \<Rightarrow> jstring \<Rightarrow> bool" where
  "str_includes s p \<longleftrightarrow> index_of p s \<noteq> None"

text \<open>\<^verbatim>\<open>x || d\<close> for an optional string: absent and empty are both falsy.\<close>

definition str_or :: "jstring option \<Rightarrow> jstring \<Rightarrow> jstring" where
  "str_or x d = (case x of None \<Rightarrow> d | Some s \<Rightarrow> if s = [] then d else s)"

fun show_nat :: "nat \<Rightarrow> jstring" where
  "show_nat n = (if n < 10 then [48 + n] else show_nat (n div 10) @ [48 + n mod 10])"

declare show_nat.simps [simp del]

definition show_int :: "int \<Rightarrow> jstring" where
  "show_int i = (if i < 0 then 45 # show_nat (nat (- i)) else show_nat (nat i))"

text \<open>\<^verbatim>\<open>Number.parseInt(s, 10)\<close> on a string of digits.\<close>

definition read_nat :: "jstring \<Rightarrow> nat" where
  "read_nat s = foldl (\<lambda>a c. a * 10 + (c - 48)) 0 s"

section \<open>Lists\<close>

text \<open>\<^verbatim>\<open>Array.from(new Set(xs))\<close>: the first occurrence of each element, in order.\<close>

definition js_set :: "'a list \<Rightarrow> 'a list" where
  "js_set xs = rev (remdups (rev xs))"

text \<open>
  \<^verbatim>\<open>xs.sort(cmp)\<close>, where \<open>gt x y\<close> stands for \<^verbatim>\<open>cmp(x, y) > 0\<close>. The sort is stable, and
  for a consistent comparator every stable sort gives the same list.
\<close>

fun insert_by :: "('a \<Rightarrow> 'a \<Rightarrow> bool) \<Rightarrow> 'a \<Rightarrow> 'a list \<Rightarrow> 'a list" where
  "insert_by gt x [] = [x]"
| "insert_by gt x (y # ys) = (if gt x y then y # insert_by gt x ys else x # y # ys)"

fun js_sort :: "('a \<Rightarrow> 'a \<Rightarrow> bool) \<Rightarrow> 'a list \<Rightarrow> 'a list" where
  "js_sort gt [] = []"
| "js_sort gt (x # xs) = insert_by gt x (js_sort gt xs)"

text \<open>\<^verbatim>\<open>xs.findIndex(p)\<close>, \<open>None\<close> for -1.\<close>

fun find_index :: "('a \<Rightarrow> bool) \<Rightarrow> 'a list \<Rightarrow> nat option" where
  "find_index p [] = None"
| "find_index p (x # xs) = (if p x then Some 0 else map_option Suc (find_index p xs))"

text \<open>Default order of \<^verbatim>\<open>sort()\<close> on strings: by code units, a proper prefix first.\<close>

fun str_gt :: "jstring \<Rightarrow> jstring \<Rightarrow> bool" where
  "str_gt [] ys = False"
| "str_gt (x # xs) [] = True"
| "str_gt (x # xs) (y # ys) = (y < x \<or> x = y \<and> str_gt xs ys)"

section \<open>Lemmas on strings\<close>

lemma js_Nil [simp]: "js [] = []"
  by (simp add: js_def)

lemma js_Cons [js_str]: "js (c # s) = of_char c # js s"
  by (simp add: js_def)

lemma js_eq_Nil_iff [simp]: "js s = [] \<longleftrightarrow> s = []"
  by (simp add: js_def)

lemma Nil_eq_js_iff [simp]: "[] = js s \<longleftrightarrow> s = []"
  using js_eq_Nil_iff [of s] by (metis js_eq_Nil_iff)

lemma js_inject: "js a = js b \<longleftrightarrow> a = b"
  unfolding js_def by (rule inj_map_eq_map) (simp add: inj_on_def)

lemma trim_Nil [simp]: "trim [] = []"
  by (simp add: trim_def)

lemma trim_eq_Nil_iff: "trim s = [] \<longleftrightarrow> list_all is_space s"
proof -
  have "trim s = [] \<longleftrightarrow> dropWhile is_space s = []"
  proof (cases "dropWhile is_space s")
    case (Cons a t)
    then have "\<not> is_space a" using hd_dropWhile [of is_space s] by simp
    then have "\<not> (\<forall>x\<in>set (rev (a # t)). is_space x)" by simp
    with Cons show ?thesis by (simp only: trim_def rev_is_Nil_conv dropWhile_eq_Nil_conv) simp
  qed (simp add: trim_def del: dropWhile_eq_Nil_conv)
  moreover have "dropWhile is_space s = [] \<longleftrightarrow> list_all is_space s"
    by (simp add: dropWhile_eq_Nil_conv list_all_iff)
  ultimately show ?thesis by simp
qed

lemma last_dropWhile: "xs \<noteq> [] \<Longrightarrow> \<not> P (last xs) \<Longrightarrow> last (dropWhile P xs) = last xs"
  by (induction xs) (auto split: if_splits simp: dropWhile_eq_Nil_conv)

lemma trim_not_space_ends:
  assumes "trim s \<noteq> []"
  shows "\<not> is_space (hd (trim s))" and "\<not> is_space (last (trim s))"
proof -
  let ?l = "dropWhile is_space s"
  have ne: "?l \<noteq> []" using assms by (metis trim_def dropWhile.simps(1) rev.simps(1))
  have h: "\<not> is_space (hd ?l)" using ne hd_dropWhile by blast
  have ne2: "dropWhile is_space (rev ?l) \<noteq> []" using assms by (simp add: trim_def)
  show "\<not> is_space (last (trim s))"
    using ne2 hd_dropWhile [of is_space "rev ?l"] by (simp add: trim_def last_rev)
  have "last (dropWhile is_space (rev ?l)) = hd ?l"
    using last_dropWhile [of "rev ?l" is_space] h ne by (simp add: last_rev)
  then show "\<not> is_space (hd (trim s))"
    using h ne2 by (simp add: trim_def hd_rev)
qed

lemma trim_id:
  assumes "s \<noteq> []" "\<not> is_space (hd s)" "\<not> is_space (last s)"
  shows "trim s = s"
proof -
  have "dropWhile is_space s = s" using assms by (cases s) auto
  moreover have "dropWhile is_space (rev s) = rev s"
    using assms by (cases s rule: rev_cases) auto
  ultimately show ?thesis by (simp add: trim_def)
qed

lemma trim_trim [simp]: "trim (trim s) = trim s"
proof (cases "trim s = []")
  case False
  then show ?thesis using trim_not_space_ends trim_id by blast
qed simp

lemma set_trim_subset: "set (trim s) \<subseteq> set s"
  by (auto simp: trim_def dest!: set_dropWhileD)

lemma split_on_not_Nil [simp]: "split_on c s \<noteq> []"
  by (induction s) (auto split: list.splits)

lemma split_on_no_sep: "c \<notin> set s \<Longrightarrow> split_on c s = [s]"
  by (induction s) auto

lemma split_on_part: "t \<in> set (split_on c s) \<Longrightarrow> c \<notin> set t \<and> set t \<subseteq> set s"
proof (induction s arbitrary: t)
  case (Cons x xs)
  show ?case
  proof (cases "split_on c xs")
    case Nil
    then show ?thesis by simp
  next
    case (Cons y ys)
    with Cons.IH [of y] Cons.IH [of t] Cons.prems show ?thesis
      by (auto split: if_splits)
  qed
qed simp

lemma split_on_append:
  "c \<notin> set s \<Longrightarrow> split_on c (s @ c # t) = s # split_on c t"
  by (induction s) auto

lemma split_join:
  "ss \<noteq> [] \<Longrightarrow> (\<And>s. s \<in> set ss \<Longrightarrow> c \<notin> set s) \<Longrightarrow> split_on c (join [c] ss) = ss"
proof (induction ss rule: induct_list012)
  case (2 s)
  then show ?case by (simp add: split_on_no_sep)
next
  case (3 s t ss)
  then show ?case by (simp add: split_on_append)
qed simp

lemma join_split: "join [c] (split_on c s) = s"
proof (induction s)
  case (Cons x xs)
  then show ?case by (cases "split_on c xs"; cases "tl (split_on c xs)") (auto simp: neq_Nil_conv)
qed simp

lemma index_of_SomeD:
  "index_of p s = Some i \<Longrightarrow> i + length p \<le> length s \<and> take (length p) (drop i s) = p"
proof (induction s arbitrary: i)
  case (Cons x xs)
  show ?case
  proof (cases "prefix p (x # xs)")
    case True
    with Cons.prems show ?thesis by (metis add_0 drop0 index_of.simps(2) option.inject
          prefix_length_le prefix_def append_eq_conv_conj)
  next
    case False
    with Cons.prems obtain j where "index_of p xs = Some j" "i = Suc j" by auto
    with Cons.IH show ?thesis by fastforce
  qed
qed (simp split: if_splits)

lemma index_of_None_drop: "index_of p s = None \<Longrightarrow> \<not> prefix p (drop i s)"
proof (induction s arbitrary: i)
  case Nil
  then show ?case by (auto simp: prefix_def split: if_splits)
next
  case (Cons x xs)
  then show ?case by (cases i) (auto split: if_splits)
qed

lemma includes_iff_sublist: "str_includes s p \<longleftrightarrow> sublist p s"
proof
  assume "str_includes s p"
  then obtain i where "index_of p s = Some i" by (auto simp: str_includes_def)
  then have "take (length p) (drop i s) = p" by (blast dest: index_of_SomeD)
  then show "sublist p s"
    by (metis sublist_drop sublist_order.order.trans sublist_take)
next
  assume "sublist p s"
  then obtain a b where "s = a @ p @ b" by (auto simp: sublist_def)
  then have "prefix p (drop (length a) s)" by simp
  then show "str_includes s p" using index_of_None_drop by (fastforce simp: str_includes_def)
qed

lemma set_show_nat: "c \<in> set (show_nat n) \<Longrightarrow> is_digit c"
proof (induction n rule: show_nat.induct)
  case (1 n)
  then show ?case
    by (subst (asm) (2) show_nat.simps) (auto simp: is_digit_def split: if_splits)
qed

lemma show_nat_not_Nil [simp]: "show_nat n \<noteq> []"
  by (subst show_nat.simps) simp

lemma all_digits_show_nat [simp]: "all_digits (show_nat n)"
  using set_show_nat by (simp add: all_digits_def list_all_iff)

lemma read_nat_snoc: "read_nat (s @ [c]) = read_nat s * 10 + (c - 48)"
  by (simp add: read_nat_def)

lemma read_show_nat [simp]: "read_nat (show_nat n) = n"
proof (induction n rule: show_nat.induct)
  case (1 n)
  show ?case
  proof (cases "n < 10")
    case True
    then show ?thesis by (subst show_nat.simps) (simp add: read_nat_def)
  next
    case False
    with 1 have "read_nat (show_nat (n div 10)) = n div 10" by simp
    with False show ?thesis by (subst show_nat.simps) (simp add: read_nat_snoc)
  qed
qed

lemma show_nat_inject [simp]: "show_nat m = show_nat n \<longleftrightarrow> m = n"
  by (metis read_show_nat)

lemma not_space_digit: "is_digit c \<Longrightarrow> \<not> is_space c"
  by (auto simp: is_digit_def is_space_def white_space_def)

lemma str_or_None [simp]: "str_or None d = d"
  by (simp add: str_or_def)

lemma str_or_Nil [simp]: "str_or (Some []) d = d"
  by (simp add: str_or_def)

lemma str_or_Cons [simp]: "str_or (Some (x # xs)) d = x # xs"
  by (simp add: str_or_def)

section \<open>Lemmas on lists\<close>

lemma set_js_set [simp]: "set (js_set xs) = set xs"
  by (simp add: js_set_def)

lemma distinct_js_set [simp]: "distinct (js_set xs)"
  by (simp add: js_set_def)

lemma js_set_id: "distinct xs \<Longrightarrow> js_set xs = xs"
  by (simp add: js_set_def distinct_remdups_id)

lemma js_set_idem [simp]: "js_set (js_set xs) = js_set xs"
  by (simp add: js_set_id)

lemma js_set_Nil [simp]: "js_set [] = []"
  by (simp add: js_set_def)

lemma js_set_eq_Nil_iff [simp]: "js_set xs = [] \<longleftrightarrow> xs = []"
  by (simp add: js_set_def)

lemma hd_js_set: "hd (js_set (x # xs)) = x"
  by (induction xs rule: rev_induct) (auto simp: js_set_def)

lemma js_set_snoc: "js_set (xs @ [x]) = (if x \<in> set xs then js_set xs else js_set xs @ [x])"
  by (simp add: js_set_def)

lemma mset_insert_by [js_list]: "mset (insert_by gt x xs) = add_mset x (mset xs)"
  by (induction xs) auto

lemma mset_js_sort [js_list]: "mset (js_sort gt xs) = mset xs"
  by (induction xs) (auto simp: mset_insert_by)

lemma set_js_sort [simp]: "set (js_sort gt xs) = set xs"
  by (metis mset_js_sort set_mset_mset)

lemma length_js_sort [simp]: "length (js_sort gt xs) = length xs"
  by (metis mset_js_sort size_mset)

lemma distinct_js_sort [simp]: "distinct (js_sort gt xs) = distinct xs"
  by (metis mset_js_sort mset_eq_imp_distinct_iff)

lemma js_sort_eq_Nil_iff [simp]: "js_sort gt xs = [] \<longleftrightarrow> xs = []"
  by (metis length_0_conv length_js_sort)

lemma find_index_None_iff: "find_index p xs = None \<longleftrightarrow> (\<forall>x\<in>set xs. \<not> p x)"
  by (induction xs) auto

lemma find_index_SomeD:
  "find_index p xs = Some i \<Longrightarrow> i < length xs \<and> p (xs ! i) \<and> (\<forall>j<i. \<not> p (xs ! j))"
proof (induction xs arbitrary: i)
  case (Cons x xs)
  show ?case
  proof (cases "p x")
    case False
    with Cons.prems obtain j where j: "find_index p xs = Some j" "i = Suc j" by auto
    have "\<not> p ((x # xs) ! k)" if "k < i" for k
      using that j False Cons.IH [of j] by (cases k) auto
    with j Cons.IH [of j] show ?thesis by auto
  qed (use Cons.prems in auto)
qed simp

text \<open>
  A consistent comparator, as \<^verbatim>\<open>sort\<close> asks for: "not greater" is reflexive, total and
  transitive. Sorting then gives an ordered list, and a list in order is left as it is.
\<close>

locale comparator =
  fixes gt :: "'a \<Rightarrow> 'a \<Rightarrow> bool"
  assumes gt_asym: "gt x y \<Longrightarrow> \<not> gt y x"
    and not_gt_trans: "\<not> gt x y \<Longrightarrow> \<not> gt y z \<Longrightarrow> \<not> gt x z"
begin

lemma sorted_insert_by:
  "sorted_wrt (\<lambda>x y. \<not> gt x y) xs \<Longrightarrow> sorted_wrt (\<lambda>x y. \<not> gt x y) (insert_by gt x xs)"
proof (induction xs)
  case (Cons y ys)
  have "set (insert_by gt x ys) = insert x (set ys)"
    by (metis mset_insert_by set_mset_add_mset_insert set_mset_mset)
  moreover have "\<not> gt x z" if "\<not> gt x y" "z \<in> set ys" for z
    using that Cons.prems not_gt_trans by auto
  ultimately show ?case using Cons by (auto dest: gt_asym)
qed simp

lemma sorted_js_sort: "sorted_wrt (\<lambda>x y. \<not> gt x y) (js_sort gt xs)"
  by (induction xs) (auto intro: sorted_insert_by)

lemma js_sort_sorted: "sorted_wrt (\<lambda>x y. \<not> gt x y) xs \<Longrightarrow> js_sort gt xs = xs"
proof (induction xs)
  case (Cons x xs)
  then show ?case by (cases xs) auto
qed simp

lemma js_sort_idem: "js_sort gt (js_sort gt xs) = js_sort gt xs"
  by (intro js_sort_sorted sorted_js_sort)

lemma hd_js_sort_least: "y \<in> set xs \<Longrightarrow> \<not> gt (hd (js_sort gt xs)) y"
proof -
  assume y: "y \<in> set xs"
  then obtain z zs where s: "js_sort gt xs = z # zs"
    by (metis list.exhaust js_sort_eq_Nil_iff empty_iff list.set(1))
  moreover have "y \<in> set (z # zs)" using y s by (metis set_js_sort)
  moreover have "\<not> gt z z" using gt_asym by blast
  ultimately show ?thesis using sorted_js_sort [of xs] by auto
qed

end

lemma str_gt_irrefl: "\<not> str_gt x x"
  by (induction x) auto

lemma str_gt_asym: "str_gt x y \<Longrightarrow> \<not> str_gt y x"
  by (induction x y rule: str_gt.induct) auto

lemma str_gt_trichotomy: "\<not> str_gt x y \<Longrightarrow> \<not> str_gt y x \<Longrightarrow> x = y"
proof (induction x y rule: str_gt.induct)
  case (1 ys)
  then show ?case by (cases ys) auto
qed auto

lemma str_not_gt_trans: "\<not> str_gt x y \<Longrightarrow> \<not> str_gt y z \<Longrightarrow> \<not> str_gt x z"
proof (induction x arbitrary: y z)
  case (Cons a x)
  then show ?case
    by (cases y; cases z) (auto dest: less_trans)
qed simp

interpretation str_order: comparator str_gt
  by unfold_locales (auto dest: str_gt_asym str_not_gt_trans)

text \<open>Sorting by a key in a linear order, and two comparators that agree on the list.\<close>

lemma comparator_by_key: "comparator (\<lambda>x y. (f y :: 'k :: linorder) < f x)"
  by unfold_locales auto

lemma insert_by_cong:
  "(\<And>y. y \<in> set ys \<Longrightarrow> gt x y = gt' x y) \<Longrightarrow> insert_by gt x ys = insert_by gt' x ys"
  by (induction ys) auto

lemma js_sort_cong:
  "(\<And>x y. x \<in> set xs \<Longrightarrow> y \<in> set xs \<Longrightarrow> gt x y = gt' x y) \<Longrightarrow> js_sort gt xs = js_sort gt' xs"
proof (induction xs)
  case (Cons x xs)
  then have "js_sort gt xs = js_sort gt' xs" by simp
  moreover have "insert_by gt x (js_sort gt' xs) = insert_by gt' x (js_sort gt' xs)"
    by (rule insert_by_cong) (simp add: Cons.prems)
  ultimately show ?case by simp
qed simp

end
