(* ===== verification/JS_Number.thy ===== *)
theory JS_Number
  imports Complex_Main JS_Prelude
begin

text \<open>
  The \<^verbatim>\<open>number\<close> type: IEEE 754 binary64. A finite number is the rational it denotes, and every
  arithmetic operation is the exact rational result rounded to the nearest double, ties to
  even, with gradual underflow and overflow to infinity. Negative zero is identified with
  zero: the modelled code never divides by a computed zero and never asks for the sign of one.
  The theory also holds \<^verbatim>\<open>Number.prototype.toString\<close>, \<^verbatim>\<open>toFixed\<close> and the reading of a decimal
  literal, and shows what the components rely on: rounding keeps signs and order against
  zero, and integers of up to 53 bits are exact.
\<close>

named_theorems js_num \<open>unfolding of number operations\<close>

datatype jsnum = NaN | PInf | NInf | Fin rat

section \<open>Rounding to double\<close>

fun bit_len :: "nat \<Rightarrow> nat" where
  "bit_len n = (if n = 0 then 0 else Suc (bit_len (n div 2)))"

declare bit_len.simps [simp del]

definition pow2 :: "int \<Rightarrow> rat" where
  "pow2 e = (if 0 \<le> e then 2 ^ nat e else 1 / 2 ^ nat (- e))"

definition pow10 :: "int \<Rightarrow> rat" where
  "pow10 e = (if 0 \<le> e then 10 ^ nat e else 1 / 10 ^ nat (- e))"

text \<open>The exponent of the leading bit of a positive rational.\<close>

definition exponent_of :: "rat \<Rightarrow> int" where
  "exponent_of x =
     (let (a, b) = quotient_of x; e = int (bit_len (nat a)) - int (bit_len (nat b))
      in if pow2 e \<le> x then e else e - 1)"

definition round_half_even :: "rat \<Rightarrow> int" where
  "round_half_even y =
     (let f = \<lfloor>y\<rfloor>; d = y - of_int f
      in if d < 1/2 then f else if 1/2 < d then f + 1 else if even f then f else f + 1)"

text \<open>Spacing of the doubles around a positive rational: 53 significant bits, at least $2^{-1074}$.\<close>

definition ulp_exp :: "rat \<Rightarrow> int" where
  "ulp_exp x = max (exponent_of x - 52) (- 1074)"

definition round_pos :: "rat \<Rightarrow> rat" where
  "round_pos x = of_int (round_half_even (x / pow2 (ulp_exp x))) * pow2 (ulp_exp x)"

definition js_round :: "rat \<Rightarrow> jsnum" where
  "js_round x =
     (if x = 0 then Fin 0
      else let r = round_pos \<bar>x\<bar>
           in if 2 ^ 1024 \<le> r then (if 0 < x then PInf else NInf)
              else if 0 < x then Fin r else Fin (- r))"

section \<open>Operations\<close>

fun num_neg :: "jsnum \<Rightarrow> jsnum" where
  "num_neg NaN = NaN"
| "num_neg PInf = NInf"
| "num_neg NInf = PInf"
| "num_neg (Fin a) = Fin (- a)"

fun num_add :: "jsnum \<Rightarrow> jsnum \<Rightarrow> jsnum" where
  "num_add (Fin a) (Fin b) = js_round (a + b)"
| "num_add NaN y = NaN"
| "num_add x NaN = NaN"
| "num_add PInf NInf = NaN"
| "num_add NInf PInf = NaN"
| "num_add PInf y = PInf"
| "num_add NInf y = NInf"
| "num_add x PInf = PInf"
| "num_add x NInf = NInf"

definition num_sub :: "jsnum \<Rightarrow> jsnum \<Rightarrow> jsnum" where
  "num_sub x y = num_add x (num_neg y)"

definition inf_of :: "bool \<Rightarrow> jsnum" where
  "inf_of pos = (if pos then PInf else NInf)"

fun num_mul :: "jsnum \<Rightarrow> jsnum \<Rightarrow> jsnum" where
  "num_mul (Fin a) (Fin b) = js_round (a * b)"
| "num_mul NaN y = NaN"
| "num_mul x NaN = NaN"
| "num_mul PInf PInf = PInf"
| "num_mul PInf NInf = NInf"
| "num_mul NInf PInf = NInf"
| "num_mul NInf NInf = PInf"
| "num_mul PInf (Fin b) = (if b = 0 then NaN else inf_of (0 < b))"
| "num_mul NInf (Fin b) = (if b = 0 then NaN else inf_of (b < 0))"
| "num_mul (Fin a) PInf = (if a = 0 then NaN else inf_of (0 < a))"
| "num_mul (Fin a) NInf = (if a = 0 then NaN else inf_of (a < 0))"

text \<open>Division by a non-zero literal or count, the only divisions the modelled code performs.\<close>

fun num_div_lit :: "jsnum \<Rightarrow> rat \<Rightarrow> jsnum" where
  "num_div_lit (Fin a) c = js_round (a / c)"
| "num_div_lit NaN c = NaN"
| "num_div_lit PInf c = inf_of (0 < c)"
| "num_div_lit NInf c = inf_of (c < 0)"

fun num_lt :: "jsnum \<Rightarrow> jsnum \<Rightarrow> bool" where
  "num_lt (Fin a) (Fin b) = (a < b)"
| "num_lt NaN y = False"
| "num_lt x NaN = False"
| "num_lt NInf NInf = False"
| "num_lt NInf y = True"
| "num_lt PInf y = False"
| "num_lt (Fin a) PInf = True"
| "num_lt (Fin a) NInf = False"

text \<open>The \<^verbatim>\<open>===\<close> of numbers: \<open>NaN\<close> differs from itself.\<close>

definition num_eq :: "jsnum \<Rightarrow> jsnum \<Rightarrow> bool" where
  "num_eq x y \<longleftrightarrow> x \<noteq> NaN \<and> x = y"

definition num_le :: "jsnum \<Rightarrow> jsnum \<Rightarrow> bool" where
  "num_le x y \<longleftrightarrow> num_lt x y \<or> num_eq x y"

definition num_gt :: "jsnum \<Rightarrow> jsnum \<Rightarrow> bool" where
  "num_gt x y \<longleftrightarrow> num_lt y x"

definition is_finite :: "jsnum \<Rightarrow> bool" where
  "is_finite x \<longleftrightarrow> (case x of Fin _ \<Rightarrow> True | _ \<Rightarrow> False)"

definition num_truthy :: "jsnum \<Rightarrow> bool" where
  "num_truthy x \<longleftrightarrow> x \<noteq> NaN \<and> x \<noteq> Fin 0"

definition num_or :: "jsnum option \<Rightarrow> jsnum \<Rightarrow> jsnum" where
  "num_or x d = (case x of None \<Rightarrow> d | Some v \<Rightarrow> if num_truthy v then v else d)"

definition num_max :: "jsnum \<Rightarrow> jsnum \<Rightarrow> jsnum" where
  "num_max x y = (if x = NaN \<or> y = NaN then NaN else if num_lt x y then y else x)"

fun num_abs :: "jsnum \<Rightarrow> jsnum" where
  "num_abs NaN = NaN"
| "num_abs PInf = PInf"
| "num_abs NInf = PInf"
| "num_abs (Fin a) = Fin \<bar>a\<bar>"

text \<open>\<^verbatim>\<open>Number.isInteger\<close>.\<close>

definition num_is_integer :: "jsnum \<Rightarrow> bool" where
  "num_is_integer x \<longleftrightarrow> (case x of Fin a \<Rightarrow> a = of_int \<lfloor>a\<rfloor> | _ \<Rightarrow> False)"

section \<open>Decimal text\<close>

text \<open>
  \<^verbatim>\<open>Number::toString\<close>: the shortest decimal digits that read back as the number, the closest
  ones among the shortest. \<open>scale10\<close> gives the exponent \<open>n\<close> with
  $10^{n-1} \le x < 10^n$; a positive double is at least $2^{-1074}$, so 330 steps suffice.
\<close>

fun scale_down :: "nat \<Rightarrow> rat \<Rightarrow> int \<Rightarrow> int" where
  "scale_down 0 x n = n"
| "scale_down (Suc fuel) x n = (if 1 \<le> x then n else scale_down fuel (x * 10) (n - 1))"

definition scale10 :: "rat \<Rightarrow> int" where
  "scale10 x = (if 1 \<le> x then int (length (show_nat (nat \<lfloor>x\<rfloor>))) else scale_down 330 (x * 10) 0)"

definition reads_back :: "rat \<Rightarrow> int \<Rightarrow> int \<Rightarrow> bool" where
  "reads_back x s e \<longleftrightarrow> js_round (of_int s * pow10 e) = Fin x"

definition shortest_at :: "rat \<Rightarrow> int \<Rightarrow> nat \<Rightarrow> (int \<times> int) option" where
  "shortest_at x n k =
     (let e = n - int k; y = x / pow10 e; f = \<lfloor>y\<rfloor>;
          near = (if y - of_int f < 1/2 \<or> y - of_int f = 1/2 \<and> even f then f else f + 1);
          far = (if near = f then f + 1 else f);
          norm = (\<lambda>s. if s = 10 ^ k then (10 ^ (k - 1), n + 1) else (s, n))
      in if reads_back x near e then Some (norm near)
         else if reads_back x far e then Some (norm far) else None)"

fun shortest :: "rat \<Rightarrow> int \<Rightarrow> nat list \<Rightarrow> (nat \<times> int \<times> int)" where
  "shortest x n [] = (17, \<lfloor>x / pow10 (n - 17)\<rfloor>, n)"
| "shortest x n (k # ks) =
     (case shortest_at x n k of Some (s, m) \<Rightarrow> (k, s, m) | None \<Rightarrow> shortest x n ks)"

definition layout :: "nat \<Rightarrow> jstring \<Rightarrow> int \<Rightarrow> jstring" where
  "layout k ds n =
     (if int k \<le> n \<and> n \<le> 21 then ds @ replicate (nat (n - int k)) 48
      else if 0 < n \<and> n \<le> 21 then take (nat n) ds @ [46] @ drop (nat n) ds
      else if - 6 < n \<and> n \<le> 0 then [48, 46] @ replicate (nat (- n)) 48 @ ds
      else let e = n - 1;
               ex = [101] @ (if 0 \<le> e then [43] else [45]) @ show_nat (nat \<bar>e\<bar>)
           in if k = 1 then ds @ ex else take 1 ds @ [46] @ drop 1 ds @ ex)"

definition show_pos :: "rat \<Rightarrow> jstring" where
  "show_pos x =
     (let (k, s, n) = shortest x (scale10 x) [1..<18] in layout k (show_nat (nat s)) n)"

fun num_to_string :: "jsnum \<Rightarrow> jstring" where
  "num_to_string NaN = js ''NaN''"
| "num_to_string PInf = js ''Infinity''"
| "num_to_string NInf = js ''-Infinity''"
| "num_to_string (Fin a) =
     (if a = 0 then js ''0'' else if 0 < a then show_pos a else 45 # show_pos (- a))"

text \<open>\<^verbatim>\<open>x.toFixed(d)\<close> for $|x| < 10^{21}$: the nearest multiple of $10^{-d}$, ties upwards.\<close>

definition pad_left :: "nat \<Rightarrow> jstring \<Rightarrow> jstring" where
  "pad_left n s = replicate (n - length s) 48 @ s"

definition to_fixed_pos :: "rat \<Rightarrow> nat \<Rightarrow> jstring" where
  "to_fixed_pos x d =
     (let s = pad_left (Suc d) (show_nat (nat \<lfloor>x * 10 ^ d + 1/2\<rfloor>)); k = length s - d
      in if d = 0 then s else take k s @ [46] @ drop k s)"

fun to_fixed :: "jsnum \<Rightarrow> nat \<Rightarrow> jstring" where
  "to_fixed (Fin a) d =
     (if 10 ^ 21 \<le> \<bar>a\<bar> then num_to_string (Fin a)
      else if a < 0 then 45 # to_fixed_pos (- a) d else to_fixed_pos a d)"
| "to_fixed x d = num_to_string x"

section \<open>Facts the components use\<close>

lemma pow2_pos [simp]: "0 < pow2 e"
  by (simp add: pow2_def)

lemma pow10_pos [simp]: "0 < pow10 e"
  by (simp add: pow10_def)

lemma round_half_even_nonneg: "0 \<le> y \<Longrightarrow> 0 \<le> round_half_even y"
  by (simp add: round_half_even_def Let_def)

lemma round_half_even_of_int [simp]: "round_half_even (of_int i) = i"
  by (simp add: round_half_even_def)

lemma round_pos_nonneg: "0 \<le> x \<Longrightarrow> 0 \<le> round_pos x"
  by (simp add: round_pos_def round_half_even_nonneg less_imp_le)

definition num_nonneg :: "jsnum \<Rightarrow> bool" where
  "num_nonneg x \<longleftrightarrow> (case x of PInf \<Rightarrow> True | Fin a \<Rightarrow> 0 \<le> a | _ \<Rightarrow> False)"

lemma num_nonneg_simps [simp]:
  "num_nonneg PInf" "\<not> num_nonneg NInf" "\<not> num_nonneg NaN" "num_nonneg (Fin a) \<longleftrightarrow> 0 \<le> a"
  by (simp_all add: num_nonneg_def)

lemma num_nonneg_round [simp]: "0 \<le> x \<Longrightarrow> num_nonneg (js_round x)"
  by (auto simp: js_round_def Let_def round_pos_nonneg)

lemma num_nonneg_add: "num_nonneg x \<Longrightarrow> num_nonneg y \<Longrightarrow> num_nonneg (num_add x y)"
  by (cases x; cases y) auto

lemma num_nonneg_mul:
  "num_nonneg x \<Longrightarrow> num_nonneg y \<Longrightarrow> is_finite x \<Longrightarrow> is_finite y \<Longrightarrow> num_nonneg (num_mul x y)"
  by (cases x; cases y) (auto simp: is_finite_def)

lemma num_nonneg_div_lit: "num_nonneg x \<Longrightarrow> 0 < c \<Longrightarrow> num_nonneg (num_div_lit x c)"
  by (cases x) (auto simp: inf_of_def)

lemma num_nonneg_max_0 [simp]: "x \<noteq> NaN \<Longrightarrow> num_nonneg (num_max (Fin 0) x)"
  by (cases x) (auto simp: num_max_def)

lemma bit_len_bounds: "0 < n \<Longrightarrow> 2 ^ (bit_len n - 1) \<le> n \<and> n < 2 ^ bit_len n"
proof (induction n rule: bit_len.induct)
  case (1 n)
  have b: "bit_len n = Suc (bit_len (n div 2))" using "1.prems" by (simp add: bit_len.simps [of n])
  show ?case
  proof (cases "n div 2 = 0")
    case True
    then have "n = 1" using "1.prems" by auto
    then show ?thesis by (simp add: bit_len.simps)
  next
    case False
    with 1 have ih: "2 ^ (bit_len (n div 2) - 1) \<le> n div 2" "n div 2 < 2 ^ bit_len (n div 2)" by auto
    have "0 < bit_len (n div 2)" using False by (simp add: bit_len.simps [of "n div 2"])
    then obtain k where k: "bit_len (n div 2) = Suc k" by (metis gr0_conv_Suc)
    with ih have "2 ^ k \<le> n div 2" "n div 2 < 2 * 2 ^ k" by simp_all
    then have "2 * 2 ^ k \<le> n \<and> n < 2 * (2 * 2 ^ k)" by linarith
    then show ?thesis by (simp add: b k)
  qed
qed

lemma js_round_of_nat_exact:
  assumes "n < 2 ^ 53"
  shows "js_round (of_nat n) = Fin (of_nat n)"
proof (cases "n = 0")
  case False
  let ?x = "of_nat n :: rat"
  have q: "quotient_of ?x = (int n, 1)" by (metis of_int_of_nat_eq quotient_of_int Rat.of_int_def)
  have "bit_len n \<le> 53"
  proof (rule ccontr)
    assume "\<not> bit_len n \<le> 53"
    then have "(2::nat) ^ 53 \<le> 2 ^ (bit_len n - 1)" by (intro power_increasing) auto
    then show False using bit_len_bounds [of n] False assms by linarith
  qed
  moreover have "bit_len (Suc 0) = Suc 0" by (simp add: bit_len.simps)
  ultimately have e: "exponent_of ?x \<le> 52" by (simp add: exponent_of_def q Let_def)
  define u where "u = ulp_exp ?x"
  have u: "u \<le> 0" using e by (simp add: u_def ulp_exp_def)
  have "?x / pow2 u = of_int (int n * 2 ^ nat (- u))"
    using u by (cases "u = 0") (auto simp: pow2_def)
  then have "round_pos ?x = of_int (int n * 2 ^ nat (- u)) * pow2 u"
    unfolding round_pos_def u_def [symmetric] by (simp only: round_half_even_of_int)
  also have "\<dots> = ?x" using u by (cases "u = 0") (auto simp: pow2_def)
  finally have "round_pos ?x = ?x" .
  moreover have "?x < 2 ^ 1024"
  proof -
    have "?x < 2 ^ 53" using assms by (metis of_nat_less_iff of_nat_numeral of_nat_power)
    also have "\<dots> \<le> 2 ^ 1024" by (intro power_increasing) auto
    finally show ?thesis .
  qed
  ultimately show ?thesis using False by (simp add: js_round_def)
qed (simp add: js_round_def)

lemma num_lt_irrefl [simp]: "\<not> num_lt x x"
  by (cases x) auto

lemma num_lt_asym: "num_lt x y \<Longrightarrow> \<not> num_lt y x"
  by (cases x; cases y) auto

lemma pow2_powi: "pow2 e = 2 powi e"
  by (simp add: pow2_def power_int_def field_simps)

text \<open>The exponent never exceeds the number, so a number that is not below the smallest double
  does not round to zero.\<close>

lemma pow2_exponent_of_le:
  assumes "0 < x"
  shows "pow2 (exponent_of x) \<le> x"
proof -
  obtain a b where q: "quotient_of x = (a, b)" by fastforce
  have b: "0 < b" and x: "x = of_int a / of_int b"
    using q quotient_of_denom_pos quotient_of_div by blast+
  have a: "0 < a" using assms b x by (simp add: zero_less_divide_iff)
  let ?m = "bit_len (nat a)" and ?n = "bit_len (nat b)"
  have ma: "2 ^ (?m - 1) \<le> nat a" and nb: "nat b < 2 ^ ?n" and m0: "0 < ?m"
    using a b bit_len_bounds [of "nat a"] bit_len_bounds [of "nat b"] by (auto simp: bit_len.simps [of "nat a"])
  have "b < 2 ^ ?n" using nb b by (simp add: nat_less_iff)
  then have "(of_int b :: rat) < of_int (2 ^ ?n)" by (simp only: of_int_less_iff)
  then have n: "(of_int b :: rat) < 2 powi ?n" by simp
  have "2 ^ (?m - 1) \<le> a" using ma a by (simp add: le_nat_iff)
  then have "of_int (2 ^ (?m - 1)) \<le> (of_int a :: rat)" by (simp only: of_int_le_iff)
  then have "2 ^ (?m - 1) \<le> (of_int a :: rat)" by (simp only: of_int_power of_int_numeral)
  moreover have "(2::rat) ^ (?m - 1) = 2 powi (int ?m - 1)" using m0 by (simp add: power_int_def nat_diff_distrib)
  ultimately have m: "2 powi (int ?m - 1) \<le> (of_int a :: rat)" by (simp only:)
  have "2 powi (int ?m - 1 - int ?n) = 2 powi (int ?m - 1) / (2 powi ?n :: rat)"
    by (simp add: power_int_diff)
  also have "\<dots> \<le> of_int a / of_int b"
    using m n b a by (intro frac_le) auto
  finally have "pow2 (int ?m - int ?n - 1) \<le> x" by (simp add: pow2_powi x algebra_simps)
  then show ?thesis by (simp add: exponent_of_def q Let_def)
qed

lemma round_half_even_pos: "1 \<le> y \<Longrightarrow> 1 \<le> round_half_even y"
  by (simp add: round_half_even_def Let_def)

lemma round_pos_pos:
  assumes "pow2 (- 1074) \<le> x"
  shows "0 < round_pos x"
proof -
  have x: "0 < x" using assms pow2_pos less_le_trans by blast
  have "pow2 (exponent_of x - 52) \<le> pow2 (exponent_of x)"
    by (simp add: pow2_powi power_int_increasing)
  then have "pow2 (ulp_exp x) \<le> x"
    using pow2_exponent_of_le [OF x] assms by (auto simp: ulp_exp_def max_def)
  then have "1 \<le> round_half_even (x / pow2 (ulp_exp x))"
    by (intro round_half_even_pos) (simp add: field_simps)
  then show ?thesis by (simp add: round_pos_def)
qed

lemma js_round_sign:
  assumes "x = 0 \<or> pow2 (- 1074) \<le> \<bar>x\<bar>"
  shows "num_gt (js_round x) (Fin 0) \<longleftrightarrow> 0 < x"
  using assms round_pos_pos [of "\<bar>x\<bar>"] by (auto simp: js_round_def Let_def num_gt_def)

text \<open>So the sign of \<^verbatim>\<open>a - b\<close> orders integers.\<close>

lemma num_sub_sign_int:
  "num_gt (num_sub (Fin (of_int i)) (Fin (of_int j))) (Fin 0) \<longleftrightarrow> j < i"
proof -
  have "pow2 (- 1074) \<le> pow2 0" unfolding pow2_powi by (rule power_int_increasing) auto
  then have "pow2 (- 1074) \<le> 1" by (simp add: pow2_def)
  moreover have "1 \<le> \<bar>of_int (i - j) :: rat\<bar>" if "i \<noteq> j"
    using that by (metis abs_ge_zero diff_0_right eq_iff_diff_eq_0 int_one_le_iff_zero_less of_int_1_le_iff of_int_abs zero_less_abs_iff)
  ultimately have "num_gt (js_round (of_int (i - j))) (Fin 0) \<longleftrightarrow> (0::rat) < of_int (i - j)"
    by (intro js_round_sign) (auto intro: order_trans)
  then show ?thesis by (simp add: num_sub_def)
qed

section \<open>Magnitudes and doubles\<close>

lemma round_half_even_le: "y \<le> of_int n \<Longrightarrow> round_half_even y \<le> n"
proof -
  assume y: "y \<le> of_int n"
  then have "\<lfloor>y\<rfloor> \<le> n" by (simp add: floor_le_iff)
  moreover have "round_half_even y \<le> \<lfloor>y\<rfloor> + 1" by (simp add: round_half_even_def Let_def)
  moreover have "\<lfloor>y\<rfloor> = n \<Longrightarrow> y = of_int n" using y by (metis of_int_floor_le order_antisym)
  ultimately show ?thesis by (cases "\<lfloor>y\<rfloor> = n") auto
qed

lemma pow2_split:
  assumes "u \<le> k"
  shows "pow2 k = of_int (2 ^ nat (k - u)) * pow2 u"
proof -
  have "(2::rat) powi k = 2 powi (k - u) * 2 powi u" by (simp add: power_int_add [symmetric])
  moreover have "(2::rat) powi (k - u) = of_int (2 ^ nat (k - u))" using assms by (simp add: power_int_def)
  ultimately show ?thesis by (simp only: pow2_powi)
qed

lemma pow2_le_iff: "pow2 j \<le> pow2 k \<longleftrightarrow> j \<le> k"
proof
  show "pow2 j \<le> pow2 k \<Longrightarrow> j \<le> k"
    using power_int_strict_increasing [of k j "2::rat"] by (force simp: pow2_powi)
qed (simp add: pow2_powi power_int_increasing)

lemma round_pos_le:
  assumes "0 < x" "x \<le> pow2 k" "- 1074 \<le> k"
  shows "round_pos x \<le> pow2 k"
proof -
  let ?u = "ulp_exp x"
  have "pow2 (exponent_of x) \<le> pow2 k" using pow2_exponent_of_le [OF assms(1)] assms(2) by linarith
  then have "exponent_of x \<le> k" by (simp add: pow2_le_iff)
  then have u: "?u \<le> k" using assms(3) by (simp add: ulp_exp_def)
  then have p: "pow2 k = of_int (2 ^ nat (k - ?u)) * pow2 ?u" by (rule pow2_split)
  have "x / pow2 ?u \<le> of_int (2 ^ nat (k - ?u))"
    using assms(2) p by (simp add: pos_divide_le_eq)
  then have "(of_int (round_half_even (x / pow2 ?u)) :: rat) \<le> of_int (2 ^ nat (k - ?u))"
    by (simp only: of_int_le_iff round_half_even_le)
  then have "of_int (round_half_even (x / pow2 ?u)) * pow2 ?u \<le> of_int (2 ^ nat (k - ?u)) * pow2 ?u"
    by (rule mult_right_mono) (simp add: less_imp_le)
  then show ?thesis by (simp only: round_pos_def p)
qed

text \<open>A finite number between 0 and $2^k$; the operations keep such bounds.\<close>

definition num_upto :: "nat \<Rightarrow> jsnum \<Rightarrow> bool" where
  "num_upto k x \<longleftrightarrow> (case x of Fin a \<Rightarrow> 0 \<le> a \<and> a \<le> 2 ^ k | _ \<Rightarrow> False)"

lemma num_upto_Fin [simp]: "num_upto k (Fin a) \<longleftrightarrow> 0 \<le> a \<and> a \<le> 2 ^ k"
  by (simp add: num_upto_def)

lemma num_uptoE:
  assumes "num_upto k x"
  obtains a where "x = Fin a" "0 \<le> a" "a \<le> 2 ^ k"
  using assms by (cases x) (auto simp: num_upto_def)

lemma num_upto_round: "0 \<le> x \<Longrightarrow> x \<le> 2 ^ k \<Longrightarrow> k \<le> 1023 \<Longrightarrow> num_upto k (js_round x)"
proof (cases "x = 0")
  case False
  assume "0 \<le> x" "x \<le> 2 ^ k" "k \<le> 1023"
  moreover have "pow2 (int k) = 2 ^ k" by (simp add: pow2_def)
  ultimately have r: "round_pos x \<le> 2 ^ k" using False round_pos_le [of x "int k"] by simp
  moreover have "(2::rat) ^ k < 2 ^ 1024" using \<open>k \<le> 1023\<close> by (intro power_strict_increasing) auto
  ultimately show ?thesis using \<open>0 \<le> x\<close> False round_pos_nonneg [of x] by (simp add: js_round_def Let_def)
qed (simp add: js_round_def)

lemma num_upto_mono: "num_upto j x \<Longrightarrow> j \<le> k \<Longrightarrow> num_upto k x"
  by (erule num_uptoE) (auto intro: order_trans power_increasing)

lemma num_upto_mul: "num_upto j x \<Longrightarrow> num_upto k y \<Longrightarrow> j + k \<le> 1023 \<Longrightarrow> num_upto (j + k) (num_mul x y)"
  by (elim num_uptoE) (simp add: num_upto_round mult_mono power_add)

lemma num_upto_add: "num_upto k x \<Longrightarrow> num_upto k y \<Longrightarrow> k < 1023 \<Longrightarrow> num_upto (Suc k) (num_add x y)"
  by (elim num_uptoE) (simp add: num_upto_round)

lemma num_upto_div_lit: "num_upto k x \<Longrightarrow> 1 \<le> c \<Longrightarrow> k \<le> 1023 \<Longrightarrow> num_upto k (num_div_lit x c)"
proof (elim num_uptoE)
  fix a
  assume a: "1 \<le> c" "k \<le> 1023" "x = Fin a" "0 \<le> a" "a \<le> 2 ^ k"
  then have "a / c \<le> a" by (simp add: divide_le_eq mult_le_cancel_left1 mult_left_le)
  then show ?thesis using a by (simp add: num_upto_round)
qed

text \<open>The rationals that are doubles: rounding leaves them as they are.\<close>

definition is_double :: "rat \<Rightarrow> bool" where
  "is_double a \<longleftrightarrow> js_round a = Fin a"

lemma round_pos_multiple: "\<exists>i. round_pos x = of_int i * pow2 (- 1074)"
proof -
  have "pow2 (ulp_exp x) = of_int (2 ^ nat (ulp_exp x - - 1074)) * pow2 (- 1074)"
    by (rule pow2_split) (simp add: ulp_exp_def)
  then show ?thesis
    unfolding round_pos_def by (metis mult.assoc of_int_mult)
qed

lemma is_double_multiple: "is_double a \<Longrightarrow> \<exists>i. a = of_int i * pow2 (- 1074)"
proof -
  assume a: "is_double a"
  obtain i where "round_pos \<bar>a\<bar> = of_int i * pow2 (- 1074)" using round_pos_multiple by blast
  then have "a = 0 \<or> a = of_int i * pow2 (- 1074) \<or> a = of_int (- i) * pow2 (- 1074)"
    using a by (auto simp: is_double_def js_round_def Let_def split: if_splits)
  then show ?thesis by (metis mult_zero_left of_int_0)
qed

lemma double_diff:
  assumes "is_double a" "is_double b" "a \<noteq> b"
  shows "pow2 (- 1074) \<le> \<bar>a - b\<bar>"
proof -
  obtain i j where ij: "a = of_int i * pow2 (- 1074)" "b = of_int j * pow2 (- 1074)"
    using assms is_double_multiple by meson
  then have "i \<noteq> j" using assms(3) by auto
  then have "1 \<le> \<bar>i - j\<bar>" by simp
  then have "1 \<le> \<bar>of_int (i - j) :: rat\<bar>" by (simp only: of_int_abs [symmetric] of_int_1_le_iff)
  then have "1 * pow2 (- 1074) \<le> \<bar>of_int (i - j)\<bar> * pow2 (- 1074)"
    by (rule mult_right_mono) (simp add: less_imp_le)
  moreover have "a - b = of_int (i - j) * pow2 (- 1074)" by (simp add: ij left_diff_distrib)
  ultimately show ?thesis by (simp add: abs_mult abs_of_pos)
qed

text \<open>So the sign of \<^verbatim>\<open>a - b\<close> orders any two doubles, and it is falsy only when they are equal.\<close>

lemma num_sub_sign_double:
  assumes "is_double a" "is_double b"
  shows "num_gt (num_sub (Fin a) (Fin b)) (Fin 0) \<longleftrightarrow> b < a"
    "num_truthy (num_sub (Fin a) (Fin b)) \<longleftrightarrow> a \<noteq> b"
proof -
  have d: "a - b = 0 \<or> pow2 (- 1074) \<le> \<bar>a - b\<bar>" using double_diff [OF assms] by auto
  show "num_gt (num_sub (Fin a) (Fin b)) (Fin 0) \<longleftrightarrow> b < a"
    using js_round_sign [OF d] by (simp add: num_sub_def)
  show "num_truthy (num_sub (Fin a) (Fin b)) \<longleftrightarrow> a \<noteq> b"
    using d round_pos_pos [of "\<bar>a - b\<bar>"] by (auto simp: num_sub_def num_truthy_def js_round_def Let_def)
qed

end
