(* ===== verification/JS_JSON.thy ===== *)
theory JS_JSON
  imports JS_Number
begin

text \<open>
  JSON values as the program sees them after \<^verbatim>\<open>JSON.parse\<close>, the parser itself (the grammar of
  ECMA-404: strings with escapes, numbers rounded to double, nested arrays and objects), the
  order of an object's own keys (integer-like keys first, ascending, then insertion order),
  truthiness, property reads and \<^verbatim>\<open>String(v)\<close>. The parser's recursion is guarded by the length
  of what is left; \<open>pvalue_consumes\<close> shows that the guards always hold.
\<close>

datatype json =
    JNull
  | JBool bool
  | JNum jsnum
  | JStr jstring
  | JArr "json list"
  | JObj "(jstring \<times> json) list"

text \<open>What the modelled code throws: a \<open>TypeError\<close> from reading a property of \<^verbatim>\<open>null\<close> or iterating a value that is
  not iterable, a \<open>SyntaxError\<close> from an unguarded \<^verbatim>\<open>JSON.parse\<close>.\<close>

datatype js_error = TypeError | SyntaxError

section \<open>Objects\<close>

text \<open>A canonical array index: the keys an object lists first, in ascending order.\<close>

definition is_index :: "jstring \<Rightarrow> bool" where
  "is_index k \<longleftrightarrow> all_digits k \<and> k = show_nat (read_nat k) \<and> read_nat k < 2 ^ 32 - 1"

fun insert_index :: "jstring \<Rightarrow> json \<Rightarrow> (jstring \<times> json) list \<Rightarrow> (jstring \<times> json) list" where
  "insert_index k v [] = [(k, v)]"
| "insert_index k v (p # ps) =
     (if is_index (fst p) \<and> read_nat (fst p) < read_nat k then p # insert_index k v ps
      else (k, v) # p # ps)"

definition obj_set :: "jstring \<Rightarrow> json \<Rightarrow> (jstring \<times> json) list \<Rightarrow> (jstring \<times> json) list" where
  "obj_set k v ps =
     (if k \<in> fst ` set ps then AList.update k v ps
      else if is_index k then insert_index k v ps
      else ps @ [(k, v)])"

definition obj_of_members :: "(jstring \<times> json) list \<Rightarrow> (jstring \<times> json) list" where
  "obj_of_members ms = fold (\<lambda>(k, v). obj_set k v) ms []"

section \<open>JSON.parse\<close>

definition skip_ws :: "jstring \<Rightarrow> jstring" where
  "skip_ws s = dropWhile (\<lambda>c. c = 32 \<or> c = 9 \<or> c = 10 \<or> c = 13) s"

definition hex_val :: "nat \<Rightarrow> nat option" where
  "hex_val c =
     (if is_digit c then Some (c - 48)
      else if 97 \<le> c \<and> c \<le> 102 then Some (c - 87)
      else if 65 \<le> c \<and> c \<le> 70 then Some (c - 55) else None)"

definition hex4 :: "nat \<Rightarrow> nat \<Rightarrow> nat \<Rightarrow> nat \<Rightarrow> nat option" where
  "hex4 a b c d =
     (case (hex_val a, hex_val b, hex_val c, hex_val d) of
        (Some p, Some q, Some r, Some s) \<Rightarrow> Some (((p * 16 + q) * 16 + r) * 16 + s)
      | _ \<Rightarrow> None)"

definition escape_val :: "nat \<Rightarrow> nat option" where
  "escape_val c =
     (if c = 34 \<or> c = 92 \<or> c = 47 then Some c
      else if c = 98 then Some 8 else if c = 102 then Some 12
      else if c = 110 then Some 10 else if c = 114 then Some 13
      else if c = 116 then Some 9 else None)"

text \<open>The rest of a string literal, after its opening quote.\<close>

fun pstr :: "jstring \<Rightarrow> (jstring \<times> jstring) option" where
  "pstr [] = None"
| "pstr (c # s) =
     (if c = 34 then Some ([], s)
      else if c < 32 then None
      else if c = 92 then
        (case s of
           [] \<Rightarrow> None
         | e # s' \<Rightarrow>
             if e = 117 then
               (case s' of
                  w # x # y # z # s'' \<Rightarrow>
                    (case hex4 w x y z of
                       None \<Rightarrow> None
                     | Some u \<Rightarrow> map_option (apfst (Cons u)) (pstr s''))
                | _ \<Rightarrow> None)
             else
               (case escape_val e of
                  None \<Rightarrow> None
                | Some u \<Rightarrow> map_option (apfst (Cons u)) (pstr s')))
      else map_option (apfst (Cons c)) (pstr s))"

text \<open>
  Numbers: an optional sign, an integer part without leading zeros, an optional fraction and
  an optional exponent; the denoted rational is rounded to the nearest double.
\<close>

definition pdigits :: "jstring \<Rightarrow> jstring \<times> jstring" where
  "pdigits s = (takeWhile is_digit s, dropWhile is_digit s)"

definition pint :: "jstring \<Rightarrow> (nat \<times> jstring) option" where
  "pint s =
     (let (ds, r) = pdigits s
      in if ds = [] then None
         else if hd ds = 48 then Some (0, tl s)
         else Some (read_nat ds, r))"

definition pfrac :: "jstring \<Rightarrow> (rat \<times> jstring) option" where
  "pfrac s =
     (case s of
        c # t \<Rightarrow>
          if c = 46 then
            (let (ds, r) = pdigits t
             in if ds = [] then None else Some (of_nat (read_nat ds) / 10 ^ length ds, r))
          else Some (0, s)
      | [] \<Rightarrow> Some (0, []))"

definition pexp :: "jstring \<Rightarrow> (int \<times> jstring) option" where
  "pexp s =
     (case s of
        c # t \<Rightarrow>
          if c = 101 \<or> c = 69 then
            (let (sg, u) = (case t of d # t' \<Rightarrow> if d = 43 then (1, t') else if d = 45 then (-1, t') else (1, t) | [] \<Rightarrow> (1, []));
                 (ds, r) = pdigits u
             in if ds = [] then None else Some (sg * int (read_nat ds), r))
          else Some (0, s)
      | [] \<Rightarrow> Some (0, []))"

definition pnumber :: "jstring \<Rightarrow> (jsnum \<times> jstring) option" where
  "pnumber s0 =
     (let (sg, s) = (case s0 of c # t \<Rightarrow> if c = 45 then (-1, t) else (1, s0) | [] \<Rightarrow> (1, []))
      in case pint s of
           None \<Rightarrow> None
         | Some (i, r) \<Rightarrow>
             (case pfrac r of
                None \<Rightarrow> None
              | Some (f, r') \<Rightarrow>
                  (case pexp r' of
                     None \<Rightarrow> None
                   | Some (e, r'') \<Rightarrow> Some (js_round (sg * (of_nat i + f) * pow10 e), r''))))"

lemma length_skip_ws: "length (skip_ws s) \<le> length s"
  by (simp add: skip_ws_def length_dropWhile_le)

lemma skip_ws_ConsD: "skip_ws s = c # t \<Longrightarrow> length t < length s"
  using length_skip_ws [of s] by simp

function (sequential) pvalue :: "jstring \<Rightarrow> (json \<times> jstring) option"
  and pelems :: "jstring \<Rightarrow> (json list \<times> jstring) option"
  and pmembers :: "jstring \<Rightarrow> ((jstring \<times> json) list \<times> jstring) option" where
  "pvalue s0 =
     (case skip_ws s0 of
        [] \<Rightarrow> None
      | c # s \<Rightarrow>
          if c = 34 then map_option (apfst JStr) (pstr s)
          else if c = 91 then
            (case skip_ws s of
               [] \<Rightarrow> None
             | d # t \<Rightarrow> if d = 93 then Some (JArr [], t) else map_option (apfst JArr) (pelems s))
          else if c = 123 then
            (case skip_ws s of
               [] \<Rightarrow> None
             | d # t \<Rightarrow> if d = 125 then Some (JObj [], t)
                        else map_option (apfst (\<lambda>ms. JObj (obj_of_members ms))) (pmembers s))
          else if prefix (js ''true'') (c # s) then Some (JBool True, drop 3 s)
          else if prefix (js ''false'') (c # s) then Some (JBool False, drop 4 s)
          else if prefix (js ''null'') (c # s) then Some (JNull, drop 3 s)
          else map_option (apfst JNum) (pnumber (c # s)))"
| "pelems s =
     (case pvalue s of
        None \<Rightarrow> None
      | Some (v, r) \<Rightarrow>
          (case skip_ws r of
             [] \<Rightarrow> None
           | d # t \<Rightarrow>
               if d = 93 then Some ([v], t)
               else if d = 44 \<and> length t < length s then map_option (apfst (Cons v)) (pelems t)
               else None))"
| "pmembers s =
     (case skip_ws s of
        [] \<Rightarrow> None
      | c # t \<Rightarrow>
          if c \<noteq> 34 then None
          else (case pstr t of
             None \<Rightarrow> None
           | Some (k, r) \<Rightarrow>
               (case skip_ws r of
                  [] \<Rightarrow> None
                | d # u \<Rightarrow>
                    if d = 58 \<and> length u < length s then
                      (case pvalue u of
                         None \<Rightarrow> None
                       | Some (v, w) \<Rightarrow>
                           (case skip_ws w of
                              [] \<Rightarrow> None
                            | e # x \<Rightarrow>
                                if e = 125 then Some ([(k, v)], x)
                                else if e = 44 \<and> length x < length s
                                then map_option (apfst (Cons (k, v))) (pmembers x)
                                else None))
                    else None)))"
  by pat_completeness auto

termination
  by (relation "measure (\<lambda>x. case x of Inl s \<Rightarrow> 2 * length s
        | Inr (Inl s) \<Rightarrow> 2 * length s + 1 | Inr (Inr s) \<Rightarrow> 2 * length s + 1)")
    (auto dest: skip_ws_ConsD)

declare pvalue.simps [simp del] pelems.simps [simp del] pmembers.simps [simp del]

text \<open>\<^verbatim>\<open>JSON.parse(s)\<close>, \<open>None\<close> when it throws a SyntaxError.\<close>

definition json_parse :: "jstring \<Rightarrow> json option" where
  "json_parse s =
     (case pvalue s of
        None \<Rightarrow> None
      | Some (v, r) \<Rightarrow> if skip_ws r = [] then Some v else None)"

section \<open>Values\<close>

text \<open>\<open>None\<close> is \<^verbatim>\<open>undefined\<close>.\<close>

definition truthy :: "json option \<Rightarrow> bool" where
  "truthy v \<longleftrightarrow>
     (case v of
        None \<Rightarrow> False
      | Some JNull \<Rightarrow> False
      | Some (JBool b) \<Rightarrow> b
      | Some (JNum x) \<Rightarrow> num_truthy x
      | Some (JStr s) \<Rightarrow> s \<noteq> []
      | Some (JArr _) \<Rightarrow> True
      | Some (JObj _) \<Rightarrow> True)"

text \<open>A value that is \<^verbatim>\<open>null\<close> or \<^verbatim>\<open>undefined\<close>.\<close>

definition nullish :: "json option \<Rightarrow> bool" where
  "nullish v \<longleftrightarrow> v = None \<or> v = Some JNull"

text \<open>\<^verbatim>\<open>v[k]\<close> for a property name that is not one of the built-in prototypes' names.\<close>

definition get_prop :: "jstring \<Rightarrow> json \<Rightarrow> json option" where
  "get_prop k v = (case v of JObj ps \<Rightarrow> map_of ps k | _ \<Rightarrow> None)"

text \<open>\<^verbatim>\<open>v?.[k]\<close>.\<close>

definition opt_prop :: "jstring \<Rightarrow> json option \<Rightarrow> json option" where
  "opt_prop k v = (case v of None \<Rightarrow> None | Some w \<Rightarrow> get_prop k w)"

fun json_to_string :: "json \<Rightarrow> jstring" where
  "json_to_string JNull = js ''null''"
| "json_to_string (JBool b) = (if b then js ''true'' else js ''false'')"
| "json_to_string (JNum x) = num_to_string x"
| "json_to_string (JStr s) = s"
| "json_to_string (JArr vs) =
     join [44] (map (\<lambda>v. if v = JNull then [] else json_to_string v) vs)"
| "json_to_string (JObj _) = js ''[object Object]''"

section \<open>Lemmas\<close>

lemma dom_insert_index: "fst ` set (insert_index k v ps) = insert k (fst ` set ps)"
  by (induction ps) auto

lemma dom_obj_set: "fst ` set (obj_set k v ps) = insert k (fst ` set ps)"
  by (simp add: obj_set_def dom_update dom_insert_index)

lemma distinct_insert_index:
  "distinct (map fst ps) \<Longrightarrow> k \<notin> fst ` set ps \<Longrightarrow> distinct (map fst (insert_index k v ps))"
  by (induction ps) (auto simp: dom_insert_index)

lemma distinct_obj_set: "distinct (map fst ps) \<Longrightarrow> distinct (map fst (obj_set k v ps))"
  by (simp add: obj_set_def distinct_update distinct_insert_index)

lemma map_of_insert_index:
  "k \<notin> fst ` set ps \<Longrightarrow> map_of (insert_index k v ps) = (map_of ps)(k \<mapsto> v)"
  by (induction ps) (auto simp: fun_upd_twist)

lemma map_of_snoc_new: "k \<notin> fst ` set ps \<Longrightarrow> map_of (ps @ [(k, v)]) = (map_of ps)(k \<mapsto> v)"
  by (induction ps) (auto simp: fun_upd_twist)

lemma map_of_obj_set: "map_of (obj_set k v ps) = (map_of ps)(k \<mapsto> v)"
  by (simp add: obj_set_def update_conv' map_of_insert_index map_of_snoc_new del: map_of_append)

lemma distinct_obj_of_members [simp]: "distinct (map fst (obj_of_members ms))"
proof -
  have "distinct (map fst ps) \<Longrightarrow> distinct (map fst (fold (\<lambda>(k, v). obj_set k v) ms ps))" for ps
    by (induction ms arbitrary: ps) (auto simp: distinct_obj_set)
  then show ?thesis by (simp add: obj_of_members_def)
qed

lemma pstr_consumes: "pstr s = Some (v, r) \<Longrightarrow> length r < length s"
proof (induction s arbitrary: v rule: measure_induct_rule [of length])
  case (less s)
  show ?case
  proof (cases s)
    case (Cons c t)
    with less.prems show ?thesis
      by (auto split: if_splits list.splits option.splits dest!: less.IH [rotated])
  qed (use less.prems in simp)
qed

lemma pdigits_consumes: "pdigits s = (ds, r) \<Longrightarrow> length r \<le> length s"
  by (auto simp: pdigits_def length_dropWhile_le)

lemma pnumber_consumes: "pnumber s = Some (v, r) \<Longrightarrow> length r < length s"
proof -
  have i: "pint s = Some (n, r) \<Longrightarrow> length r < length s" for s n r
  proof -
    assume a: "pint s = Some (n, r)"
    have "takeWhile is_digit s \<noteq> [] \<Longrightarrow> length (dropWhile is_digit s) < length s"
      by (cases s) (auto simp: length_dropWhile_le le_imp_less_Suc split: if_splits)
    with a show ?thesis
      by (cases s) (auto simp: pint_def pdigits_def simp del: takeWhile.simps dropWhile.simps
          split: if_splits)
  qed
  have f: "pfrac s = Some (q, r) \<Longrightarrow> length r \<le> length s" for s q r
    by (auto simp: pfrac_def dest: pdigits_consumes split: list.splits if_splits prod.splits)
  have e: "pexp s = Some (q, r) \<Longrightarrow> length r \<le> length s" for s q r
    by (auto simp: pexp_def dest!: pdigits_consumes split: list.splits if_splits prod.splits)
  assume "pnumber s = Some (v, r)"
  then show ?thesis
    by (auto simp: pnumber_def split: list.splits if_splits option.splits prod.splits
        dest!: i f e)
qed

text \<open>Every parser consumes input, so the guards on the recursion are always true.\<close>

lemma pvalue_consumes_if:
  assumes "\<And>t vs r. length t < length s \<Longrightarrow> pelems t = Some (vs, r) \<Longrightarrow> length r < length t"
    and "\<And>t ms r. length t < length s \<Longrightarrow> pmembers t = Some (ms, r) \<Longrightarrow> length r < length t"
    and "pvalue s = Some (v, r)"
  shows "length r < length s"
  using assms(3) unfolding pvalue.simps [of s]
  by (auto split: list.splits if_splits
      dest!: assms(1,2) [rotated] skip_ws_ConsD pstr_consumes pnumber_consumes)

lemma pelems_consumes_if:
  assumes "\<And>v r. pvalue s = Some (v, r) \<Longrightarrow> length r < length s"
    and "\<And>t vs r. length t < length s \<Longrightarrow> pelems t = Some (vs, r) \<Longrightarrow> length r < length t"
    and "pelems s = Some (vs, r)"
  shows "length r < length s"
  using assms(3) unfolding pelems.simps [of s]
  by (auto split: list.splits if_splits option.splits dest!: assms(1) assms(2) [rotated] skip_ws_ConsD)

lemma pmembers_consumes_if:
  assumes "\<And>t v r. length t < length s \<Longrightarrow> pvalue t = Some (v, r) \<Longrightarrow> length r < length t"
    and "\<And>t ms r. length t < length s \<Longrightarrow> pmembers t = Some (ms, r) \<Longrightarrow> length r < length t"
    and "pmembers s = Some (ms, r)"
  shows "length r < length s"
  using assms(3) unfolding pmembers.simps [of s]
  by (auto split: list.splits if_splits option.splits
      dest!: assms(1,2) [rotated] skip_ws_ConsD pstr_consumes)

lemma pvalue_consumes:
  "(\<forall>v r. pvalue s = Some (v, r) \<longrightarrow> length r < length s)
   \<and> (\<forall>vs r. pelems s = Some (vs, r) \<longrightarrow> length r < length s)
   \<and> (\<forall>ms r. pmembers s = Some (ms, r) \<longrightarrow> length r < length s)"
proof (induction s rule: measure_induct_rule [of length])
  case (less s)
  have v: "\<forall>v r. pvalue s = Some (v, r) \<longrightarrow> length r < length s"
    using less.IH pvalue_consumes_if by blast
  moreover have "\<forall>vs r. pelems s = Some (vs, r) \<longrightarrow> length r < length s"
    using v less.IH pelems_consumes_if by blast
  moreover have "\<forall>ms r. pmembers s = Some (ms, r) \<longrightarrow> length r < length s"
    using less.IH pmembers_consumes_if by blast
  ultimately show ?case by blast
qed

lemma truthy_simps [simp]:
  "\<not> truthy None" "\<not> truthy (Some JNull)" "truthy (Some (JBool b)) \<longleftrightarrow> b"
  "truthy (Some (JStr s)) \<longleftrightarrow> s \<noteq> []" "truthy (Some (JArr vs))" "truthy (Some (JObj ps))"
  "truthy (Some (JNum x)) \<longleftrightarrow> num_truthy x"
  by (simp_all add: truthy_def)

lemma get_prop_simps [simp]:
  "get_prop k (JObj ps) = map_of ps k" "get_prop k JNull = None" "get_prop k (JStr s) = None"
  "get_prop k (JArr vs) = None" "get_prop k (JNum x) = None" "get_prop k (JBool b) = None"
  by (simp_all add: get_prop_def)

lemma opt_prop_simps [simp]:
  "opt_prop k None = None" "opt_prop k (Some v) = get_prop k v"
  by (simp_all add: opt_prop_def)

end
