(* ===== verification/Status_Codes.thy ===== *)
theory Status_Codes
  imports JS_JSON
begin

text \<open>
  HTTP status codes in channel settings. First \<^verbatim>\<open>lib/http-status-code-rules.ts\<close>: the rules typed by
  an administrator (\<^verbatim>\<open>"401, 500-599"\<close>) are parsed into ranges, merged and rendered back. Then
  \<^verbatim>\<open>features/channels/lib/status-code-risk-guard.ts\<close>: a JSON status code mapping is scanned for
  invalid entries and for redirects of codes that must keep their meaning (504 and 524).
\<close>

section \<open>Definitions: status code rules\<close>

record StatusCodeRange =
  range_start :: nat
  range_end :: nat

record ParsedHttpStatusCodeRules =
  ok :: bool
  ranges :: "StatusCodeRange list"
  tokens :: "jstring list"
  normalized :: jstring
  invalidTokens :: "jstring list"

text \<open>\<^verbatim>\<open>/^\d+$/.test(s)\<close>.\<close>

definition isNumber :: "jstring \<Rightarrow> bool" where
  "isNumber s \<longleftrightarrow> all_digits s"

definition isValidCode :: "nat \<Rightarrow> bool" where
  "isValidCode code \<longleftrightarrow> 100 \<le> code \<and> code \<le> 599"

text \<open>
  A destructured \<^verbatim>\<open>[a, b] = cleaned.split('-')\<close> takes the first two parts; the code only gets
  there when the token contains a dash, so both exist.
\<close>

definition parseToken :: "jstring \<Rightarrow> StatusCodeRange option" where
  "parseToken token =
     (let cleaned = filter (\<lambda>c. \<not> is_space c) (trim token)
      in if cleaned = [] then None
         else if 45 \<in> set cleaned then
           (case split_on 45 cleaned of
              a # b # _ \<Rightarrow>
                if \<not> isNumber a \<or> \<not> isNumber b then None
                else let start = read_nat a; stop = read_nat b
                     in if \<not> isValidCode start \<or> \<not> isValidCode stop \<or> stop < start then None
                        else Some \<lparr>range_start = start, range_end = stop\<rparr>
            | _ \<Rightarrow> None)
         else if \<not> isNumber cleaned then None
         else let code = read_nat cleaned
              in if \<not> isValidCode code then None
                 else Some \<lparr>range_start = code, range_end = code\<rparr>)"

definition range_gt :: "StatusCodeRange \<Rightarrow> StatusCodeRange \<Rightarrow> bool" where
  "range_gt a b \<longleftrightarrow>
     (if range_start a \<noteq> range_start b then range_start b < range_start a
      else range_end b < range_end a)"

definition merge_step :: "StatusCodeRange list \<Rightarrow> StatusCodeRange \<Rightarrow> StatusCodeRange list" where
  "merge_step merged current =
     (if merged = [] \<or> range_end (last merged) + 1 < range_start current then merged @ [current]
      else butlast merged
        @ [last merged\<lparr>range_end := max (range_end (last merged)) (range_end current)\<rparr>])"

definition mergeRanges :: "StatusCodeRange list \<Rightarrow> StatusCodeRange list" where
  "mergeRanges rs = (if rs = [] then [] else foldl merge_step [] (js_sort range_gt rs))"

definition range_token :: "StatusCodeRange \<Rightarrow> jstring" where
  "range_token r =
     (if range_start r = range_end r then show_nat (range_start r)
      else show_nat (range_start r) @ [45] @ show_nat (range_end r))"

text \<open>The segments of the input: full-width commas count as commas, blanks are dropped.\<close>

definition rule_segments :: "jstring \<Rightarrow> jstring list" where
  "rule_segments raw =
     filter (\<lambda>s. s \<noteq> [])
       (map trim (split_on 44 (map (\<lambda>c. if c = 65292 then 44 else c) raw)))"

definition parseHttpStatusCodeRules :: "json option \<Rightarrow> ParsedHttpStatusCodeRules" where
  "parseHttpStatusCodeRules input =
     (let raw = trim (if nullish input then [] else json_to_string (the input))
      in if raw = []
         then \<lparr>ok = True, ranges = [], tokens = [], normalized = [], invalidTokens = []\<rparr>
         else
           let segments = rule_segments raw;
               rs = List.map_filter parseToken segments;
               invalid = filter (\<lambda>s. parseToken s = None) segments
           in if invalid \<noteq> []
              then \<lparr>ok = False, ranges = [], tokens = [], normalized = raw, invalidTokens = invalid\<rparr>
              else
                let merged = mergeRanges rs; toks = map range_token merged
                in \<lparr>ok = True, ranges = merged, tokens = toks, normalized = join [44] toks,
                     invalidTokens = []\<rparr>)"

section \<open>Definitions: the redirect guard\<close>

definition NON_REDIRECTABLE_STATUS_CODES :: "nat list" where
  "NON_REDIRECTABLE_STATUS_CODES = [504, 524]"

text \<open>\<^verbatim>\<open>/^[1-5]\d{2}$/.test(s)\<close>.\<close>

definition is_code_text :: "jstring \<Rightarrow> bool" where
  "is_code_text s \<longleftrightarrow> length s = 3 \<and> 49 \<le> s ! 0 \<and> s ! 0 \<le> 53 \<and> is_digit (s ! 1) \<and> is_digit (s ! 2)"

definition parseStatusCodeKey :: "jstring \<Rightarrow> nat option" where
  "parseStatusCodeKey rawKey =
     (let norm = trim rawKey in if \<not> is_code_text norm then None else Some (read_nat norm))"

definition parseStatusCodeMappingTarget :: "json \<Rightarrow> nat option" where
  "parseStatusCodeMappingTarget rawValue =
     (case rawValue of
        JNum x \<Rightarrow>
          (case x of
             Fin a \<Rightarrow> if num_is_integer x \<and> 100 \<le> a \<and> a \<le> 599 then Some (nat \<lfloor>a\<rfloor>) else None
           | _ \<Rightarrow> None)
      | JStr s \<Rightarrow>
          (let norm = trim s
           in if \<not> is_code_text norm then None
              else let code = read_nat norm in if 100 \<le> code \<and> code \<le> 599 then Some code else None)
      | _ \<Rightarrow> None)"

text \<open>
  The shared idiom: parse, and give up on a syntax error or on anything that is not an object.
\<close>

definition parsed_object :: "jstring \<Rightarrow> (jstring \<times> json) list option" where
  "parsed_object s = (case json_parse s of Some (JObj ps) \<Rightarrow> Some ps | _ \<Rightarrow> None)"

definition arrow_text :: "jstring \<Rightarrow> json \<Rightarrow> jstring" where
  "arrow_text k v = k @ [32, 8594, 32] @ json_to_string v"

definition collectInvalidStatusCodeEntries :: "jstring \<Rightarrow> jstring list" where
  "collectInvalidStatusCodeEntries s =
     (if trim s = [] then []
      else case parsed_object s of
        None \<Rightarrow> []
      | Some ps \<Rightarrow>
          map (\<lambda>(k, v). arrow_text k v)
            (filter (\<lambda>(k, v). parseStatusCodeKey k = None \<or> parseStatusCodeMappingTarget v = None) ps))"

definition redirect_text :: "nat \<Rightarrow> nat \<Rightarrow> jstring" where
  "redirect_text f t = show_nat f @ js '' -> '' @ show_nat t"

definition risky_entry :: "jstring \<times> json \<Rightarrow> jstring option" where
  "risky_entry e =
     (case (parseStatusCodeKey (fst e), parseStatusCodeMappingTarget (snd e)) of
        (Some fromCode, Some toCode) \<Rightarrow>
          if fromCode \<notin> set NON_REDIRECTABLE_STATUS_CODES then None
          else if fromCode = toCode then None
          else Some (redirect_text fromCode toCode)
      | _ \<Rightarrow> None)"

definition collectDisallowedStatusCodeRedirects :: "jstring \<Rightarrow> jstring list" where
  "collectDisallowedStatusCodeRedirects s =
     (if trim s = [] then []
      else case parsed_object s of
        None \<Rightarrow> []
      | Some ps \<Rightarrow> js_sort str_gt (js_set (List.map_filter risky_entry ps)))"

definition collectNewDisallowedStatusCodeRedirects :: "jstring \<Rightarrow> jstring \<Rightarrow> jstring list" where
  "collectNewDisallowedStatusCodeRedirects originalStr currentStr =
     (let currentRisky = collectDisallowedStatusCodeRedirects currentStr
      in if currentRisky = [] then []
         else filter (\<lambda>m. m \<notin> set (collectDisallowedStatusCodeRedirects originalStr)) currentRisky)"

section \<open>Merging ranges\<close>

definition in_range :: "nat \<Rightarrow> StatusCodeRange \<Rightarrow> bool" where
  "in_range c r \<longleftrightarrow> range_start r \<le> c \<and> c \<le> range_end r"

definition covers :: "StatusCodeRange list \<Rightarrow> nat \<Rightarrow> bool" where
  "covers rs c \<longleftrightarrow> (\<exists>r\<in>set rs. in_range c r)"

definition proper :: "StatusCodeRange \<Rightarrow> bool" where
  "proper r \<longleftrightarrow> isValidCode (range_start r) \<and> isValidCode (range_end r) \<and> range_start r \<le> range_end r"

definition apart :: "StatusCodeRange \<Rightarrow> StatusCodeRange \<Rightarrow> bool" where
  "apart a b \<longleftrightarrow> range_end a + 1 < range_start b"

interpretation range_order: comparator range_gt
  by unfold_locales (auto simp: range_gt_def split: if_splits)

lemma covers_append [simp]: "covers (xs @ ys) c \<longleftrightarrow> covers xs c \<or> covers ys c"
  by (auto simp: covers_def)

lemma covers_Cons [simp]: "covers (x # xs) c \<longleftrightarrow> in_range c x \<or> covers xs c"
  by (auto simp: covers_def)

lemma covers_Nil [simp]: "\<not> covers [] c"
  by (simp add: covers_def)

lemma covers_js_sort [simp]: "covers (js_sort range_gt rs) c = covers rs c"
  by (simp add: covers_def)

text \<open>What the fold keeps: the ranges so far are proper, apart, and start no later than the rest.\<close>

definition merge_inv :: "StatusCodeRange list \<Rightarrow> StatusCodeRange list \<Rightarrow> bool" where
  "merge_inv merged rest \<longleftrightarrow>
     sorted_wrt apart merged \<and> list_all proper merged
     \<and> (merged \<noteq> [] \<longrightarrow> (\<forall>r\<in>set rest. range_start (last merged) \<le> range_start r))"

lemma merge_step_extend:
  "merge_step (ms @ [m]) r =
    (if range_end m + 1 < range_start r then ms @ [m, r]
     else ms @ [m\<lparr>range_end := max (range_end m) (range_end r)\<rparr>])"
  by (simp add: merge_step_def)

lemma apart_append_last:
  assumes "sorted_wrt apart (ms @ [m])" "range_end m + 1 < range_start r" "list_all proper (ms @ [m])"
  shows "sorted_wrt apart (ms @ [m, r])"
  using assms by (auto simp: sorted_wrt_append apart_def proper_def list_all_iff)

lemma merge_step_inv:
  assumes "merge_inv merged (r # rest)" "proper r"
    and "\<forall>x\<in>set rest. range_start r \<le> range_start x"
  shows "merge_inv (merge_step merged r) rest"
proof (cases merged rule: rev_cases)
  case Nil
  then show ?thesis using assms by (simp add: merge_inv_def merge_step_def)
next
  case (snoc ms m)
  show ?thesis
  proof (cases "range_end m + 1 < range_start r")
    case True
    then show ?thesis
      using assms snoc apart_append_last [of ms m r] by (simp add: merge_step_extend snoc merge_inv_def)
  next
    case False
    then have "merge_step merged r = ms @ [m\<lparr>range_end := max (range_end m) (range_end r)\<rparr>]"
      by (simp add: merge_step_extend snoc)
    moreover have "sorted_wrt apart (ms @ [m\<lparr>range_end := max (range_end m) (range_end r)\<rparr>])"
      using assms(1) snoc by (simp add: merge_inv_def sorted_wrt_append apart_def)
    moreover have "proper (m\<lparr>range_end := max (range_end m) (range_end r)\<rparr>)"
      using assms(1,2) snoc by (simp add: merge_inv_def proper_def isValidCode_def max_def)
    ultimately show ?thesis using assms(1) snoc by (simp add: merge_inv_def)
  qed
qed

lemma merge_step_covers:
  assumes "merge_inv merged (r # rest)" "proper r"
  shows "covers (merge_step merged r) c \<longleftrightarrow> covers merged c \<or> in_range c r"
proof (cases merged rule: rev_cases)
  case Nil
  then show ?thesis by (simp add: merge_step_def)
next
  case (snoc ms m)
  then have "range_start m \<le> range_start r" "proper m" using assms by (simp_all add: merge_inv_def)
  then show ?thesis using assms(2)
    by (auto simp: merge_step_extend snoc in_range_def proper_def)
qed

lemma fold_merge:
  assumes "merge_inv merged rest" "list_all proper rest"
    and "sorted_wrt (\<lambda>a b. \<not> range_gt a b) rest"
  shows "merge_inv (foldl merge_step merged rest) []
    \<and> (\<forall>c. covers (foldl merge_step merged rest) c \<longleftrightarrow> covers merged c \<or> covers rest c)"
  using assms
proof (induction rest arbitrary: merged)
  case (Cons r rest)
  have s: "\<forall>x\<in>set rest. range_start r \<le> range_start x"
    using Cons.prems(3) by (auto simp: range_gt_def split: if_splits)
  have "merge_inv (merge_step merged r) rest"
    using Cons.prems s by (intro merge_step_inv) auto
  then show ?case
    using Cons.IH [of "merge_step merged r"] Cons.prems merge_step_covers [of merged r rest] by auto
qed simp

lemma mergeRanges_correct:
  assumes "list_all proper rs"
  shows "sorted_wrt apart (mergeRanges rs)" and "list_all proper (mergeRanges rs)"
    and "covers (mergeRanges rs) c = covers rs c"
proof -
  have "list_all proper (js_sort range_gt rs)" using assms by (simp add: list_all_iff)
  then have "merge_inv (foldl merge_step [] (js_sort range_gt rs)) []
    \<and> (\<forall>c. covers (foldl merge_step [] (js_sort range_gt rs)) c \<longleftrightarrow> covers rs c)"
    using fold_merge [of "[]" "js_sort range_gt rs"] range_order.sorted_js_sort
    by (simp add: merge_inv_def)
  then show "sorted_wrt apart (mergeRanges rs)" "list_all proper (mergeRanges rs)"
    "covers (mergeRanges rs) c = covers rs c"
    by (auto simp: mergeRanges_def merge_inv_def)
qed

lemma foldl_merge_apart:
  "sorted_wrt apart (ms @ rs) \<Longrightarrow> foldl merge_step ms rs = ms @ rs"
proof (induction rs arbitrary: ms)
  case (Cons r rs)
  have "merge_step ms r = ms @ [r]"
    using Cons.prems by (cases ms rule: rev_cases) (auto simp: merge_step_def sorted_wrt_append apart_def)
  then show ?case using Cons.IH [of "ms @ [r]"] Cons.prems by simp
qed simp

lemma apart_sorted:
  assumes "sorted_wrt apart rs" "list_all proper rs"
  shows "sorted_wrt (\<lambda>a b. \<not> range_gt a b) rs"
  using assms by (induction rs) (auto simp: apart_def range_gt_def proper_def list_all_iff)

lemma mergeRanges_apart:
  "sorted_wrt apart rs \<Longrightarrow> list_all proper rs \<Longrightarrow> mergeRanges rs = rs"
  using range_order.js_sort_sorted [of rs] apart_sorted foldl_merge_apart [of "[]" rs]
  by (simp add: mergeRanges_def)

lemma parseToken_proper: "parseToken t = Some r \<Longrightarrow> proper r"
  by (auto simp: parseToken_def proper_def Let_def split: if_splits list.splits)

section \<open>Rendering and reading back\<close>

lemma show_nat_chars: "c \<in> set (show_nat n) \<Longrightarrow> 48 \<le> c \<and> c \<le> 57"
  using set_show_nat by (auto simp: is_digit_def)

lemma range_token_chars:
  "c \<in> set (range_token r) \<Longrightarrow> \<not> is_space c \<and> c \<noteq> 44 \<and> c \<noteq> 65292"
  by (auto simp: range_token_def is_space_def white_space_def dest!: show_nat_chars split: if_splits)

lemma range_token_not_Nil [simp]: "range_token r \<noteq> []"
  by (simp add: range_token_def)

lemma trim_no_space: "(\<And>c. c \<in> set s \<Longrightarrow> \<not> is_space c) \<Longrightarrow> trim s = s"
  by (cases "s = []") (auto intro: trim_id)

lemma trim_range_token [simp]: "trim (range_token r) = range_token r"
  by (intro trim_no_space) (simp add: range_token_chars)

lemma no_dash_show_nat: "45 \<notin> set (show_nat n)"
  using show_nat_chars by fastforce

lemma split_dash_show_nat: "split_on 45 (show_nat a @ 45 # show_nat b) = [show_nat a, show_nat b]"
  by (simp add: split_on_append split_on_no_sep no_dash_show_nat)

lemma parse_range_token:
  assumes "proper r"
  shows "parseToken (range_token r) = Some r"
proof -
  have f: "filter (\<lambda>c. \<not> is_space c) (trim (range_token r)) = range_token r"
    using range_token_chars by (simp add: filter_id_conv)
  show ?thesis
  proof (cases "range_start r = range_end r")
    case True
    then show ?thesis using assms unfolding parseToken_def f Let_def
      by (simp add: range_token_def proper_def isNumber_def no_dash_show_nat)
  next
    case False
    then show ?thesis using assms unfolding parseToken_def f Let_def
      by (simp add: range_token_def proper_def isNumber_def split_dash_show_nat)
  qed
qed

lemma map_full_width_id: "(\<And>c. c \<in> set s \<Longrightarrow> c \<noteq> 65292) \<Longrightarrow>
   map (\<lambda>c. if c = 65292 then 44 else c) s = (s :: jstring)"
  by (induction s) auto

lemma set_join: "c \<in> set (join sep ss) \<Longrightarrow> c \<in> set sep \<or> (\<exists>s\<in>set ss. c \<in> set s)"
  by (induction sep ss rule: join.induct) auto

lemma rule_segments_join:
  assumes "rs \<noteq> []"
  shows "rule_segments (join [44] (map range_token rs)) = map range_token rs"
proof -
  have "\<And>c. c \<in> set (join [44] (map range_token rs)) \<Longrightarrow> c \<noteq> 65292"
    by (auto dest!: set_join range_token_chars)
  moreover have "split_on 44 (join [44] (map range_token rs)) = map range_token rs"
    using assms range_token_chars by (intro split_join) auto
  ultimately show ?thesis
    by (simp add: rule_segments_def map_full_width_id o_def cong: map_cong)
qed

lemma join_not_Nil: "rs \<noteq> [] \<Longrightarrow> join [44] (map range_token rs) \<noteq> []"
  by (cases rs; cases "tl rs") auto

lemma trim_join_tokens: "trim (join [44] (map range_token rs)) = join [44] (map range_token rs)"
proof (intro trim_no_space)
  fix c assume "c \<in> set (join [44] (map range_token rs))"
  then have "c = 44 \<or> (\<exists>r\<in>set rs. c \<in> set (range_token r))" using set_join by fastforce
  moreover have "\<not> is_space 44" by (simp add: is_space_def white_space_def)
  ultimately show "\<not> is_space c" using range_token_chars by blast
qed

lemma map_filter_all_Some: "(\<And>x. x \<in> set xs \<Longrightarrow> f x = Some (g x)) \<Longrightarrow> List.map_filter f xs = map g xs"
  by (induction xs) (auto simp: List.map_filter_simps)

lemma parse_normalized:
  assumes "sorted_wrt apart rs" "list_all proper rs" "rs \<noteq> []"
  shows "parseHttpStatusCodeRules (Some (JStr (join [44] (map range_token rs)))) =
    \<lparr>ok = True, ranges = rs, tokens = map range_token rs,
     normalized = join [44] (map range_token rs), invalidTokens = []\<rparr>"
proof -
  have p: "parseToken (range_token r) = Some r" if "r \<in> set rs" for r
    using assms(2) that parse_range_token by (simp add: list_all_iff)
  have "List.map_filter parseToken (map range_token rs) = rs"
    using p by (induction rs) (auto simp: List.map_filter_simps)
  moreover have "filter (\<lambda>s. parseToken s = None) (map range_token rs) = []"
    using p by (auto simp: filter_empty_conv)
  ultimately show ?thesis
    using assms join_not_Nil [of rs] rule_segments_join [of rs] mergeRanges_apart [of rs]
    by (simp add: parseHttpStatusCodeRules_def nullish_def trim_join_tokens Let_def)
qed

lemma parse_ok_ranges:
  assumes "ok (parseHttpStatusCodeRules i)"
  shows "sorted_wrt apart (ranges (parseHttpStatusCodeRules i))
    \<and> list_all proper (ranges (parseHttpStatusCodeRules i))
    \<and> tokens (parseHttpStatusCodeRules i) = map range_token (ranges (parseHttpStatusCodeRules i))
    \<and> normalized (parseHttpStatusCodeRules i) = join [44] (tokens (parseHttpStatusCodeRules i))"
proof -
  have "list_all proper (List.map_filter parseToken ss)" for ss
    by (induction ss) (auto simp: List.map_filter_simps dest: parseToken_proper split: option.splits)
  then show ?thesis
    using assms mergeRanges_correct(1,2)
    by (auto simp: parseHttpStatusCodeRules_def Let_def split: if_splits)
qed


section \<open>Properties\<close>

abbreviation rules_text :: "json option \<Rightarrow> jstring" where
  "rules_text i \<equiv> trim (if nullish i then [] else json_to_string (the i))"

lemma rule_segments_Nil: "rule_segments [] = []"
  by (simp add: rule_segments_def)

lemma covers_map_filter:
  "covers (List.map_filter parseToken ss) c \<longleftrightarrow> (\<exists>s\<in>set ss. \<exists>r. parseToken s = Some r \<and> in_range c r)"
  by (induction ss) (auto simp: List.map_filter_simps split: option.splits)

lemma proper_map_filter: "list_all proper (List.map_filter parseToken ss)"
  by (induction ss) (auto simp: List.map_filter_simps dest: parseToken_proper split: option.splits)

text \<open>C4: whatever text an administrator types, the parsed ranges are canonical: ordered, within
  100 to 599, pairwise disjoint and not even adjacent; and they match exactly the codes that
  one of the typed tokens names, unless some token is invalid, when there are none.\<close>

theorem parse_rules_meaning:
  "sorted_wrt apart (ranges (parseHttpStatusCodeRules i))
   \<and> list_all proper (ranges (parseHttpStatusCodeRules i))
   \<and> (covers (ranges (parseHttpStatusCodeRules i)) c \<longleftrightarrow>
        ok (parseHttpStatusCodeRules i)
        \<and> (\<exists>s\<in>set (rule_segments (rules_text i)). \<exists>r. parseToken s = Some r \<and> in_range c r))"
proof -
  have "List.map_filter parseToken ss = rs \<Longrightarrow> list_all proper rs" for ss rs
    using proper_map_filter by blast
  then show ?thesis
    using mergeRanges_correct [OF proper_map_filter]
    by (simp add: parseHttpStatusCodeRules_def Let_def rule_segments_Nil covers_map_filter)
qed

text \<open>The normalized text of accepted rules reads back as the same result: normalizing is
  idempotent, so saving and reopening the settings never changes the rules.\<close>

theorem parse_rules_roundtrip:
  assumes "ok (parseHttpStatusCodeRules i)"
  shows "parseHttpStatusCodeRules (Some (JStr (normalized (parseHttpStatusCodeRules i))))
    = parseHttpStatusCodeRules i"
proof -
  let ?p = "parseHttpStatusCodeRules i"
  have p: "?p = \<lparr>ok = True, ranges = ranges ?p, tokens = map range_token (ranges ?p),
      normalized = join [44] (map range_token (ranges ?p)), invalidTokens = []\<rparr>"
    using assms parse_ok_ranges [OF assms]
    by (auto simp: parseHttpStatusCodeRules_def Let_def split: if_splits)
  show ?thesis
  proof (cases "ranges ?p = []")
    case True
    then show ?thesis by (subst (2) p, subst p) (simp add: parseHttpStatusCodeRules_def nullish_def)
  next
    case False
    then show ?thesis
      using parse_normalized [of "ranges ?p"] parse_ok_ranges [OF assms] p by metis
  qed
qed

theorem parse_rules_roundtrip_witness:
  "parseHttpStatusCodeRules (Some (JStr (normalized
     (parseHttpStatusCodeRules (Some (JStr (js ''404, 400-402,401''))))))) =
   parseHttpStatusCodeRules (Some (JStr (js ''404, 400-402,401'')))"
proof -
  have "ok (parseHttpStatusCodeRules (Some (JStr (js ''404, 400-402,401''))))" by code_simp
  then show ?thesis by (rule parse_rules_roundtrip)
qed

text \<open>Rules are refused exactly when a token is invalid; then every invalid token is
  reported, in order, no range is returned and the text is left as typed.\<close>

theorem parse_rules_error:
  "invalidTokens (parseHttpStatusCodeRules i)
     = filter (\<lambda>s. parseToken s = None) (rule_segments (rules_text i))
   \<and> (ok (parseHttpStatusCodeRules i) \<longleftrightarrow> invalidTokens (parseHttpStatusCodeRules i) = [])
   \<and> (if ok (parseHttpStatusCodeRules i) then True
      else ranges (parseHttpStatusCodeRules i) = []
        \<and> normalized (parseHttpStatusCodeRules i) = rules_text i)"
  by (simp add: parseHttpStatusCodeRules_def Let_def rule_segments_Nil)

text \<open>A range token with further dashes is accepted and everything after its second part is
  ignored, so \<^verbatim>\<open>"400-499-599"\<close> is taken for 400 to 499 (the backend refuses such a token).\<close>

theorem parse_token_ignores_third_part:
  assumes "proper r" "range_start r < range_end r" "\<forall>c\<in>set junk. \<not> is_space c"
  shows "parseToken (show_nat (range_start r) @ [45] @ show_nat (range_end r) @ 45 # junk) = Some r"
proof -
  let ?t = "show_nat (range_start r) @ [45] @ show_nat (range_end r) @ 45 # junk"
  have ns: "\<not> is_space c" if "c \<in> set ?t" for c
  proof -
    from that consider "is_digit c" | "c = 45" | "c \<in> set junk" using set_show_nat by auto
    then show ?thesis
      by cases (simp_all add: not_space_digit assms(3), simp add: is_space_def white_space_def)
  qed
  have "trim ?t = ?t" using ns by (rule trim_no_space)
  moreover have "filter (\<lambda>c. \<not> is_space c) ?t = ?t" using ns by (intro filter_True) blast
  ultimately have f: "filter (\<lambda>c. \<not> is_space c) (trim ?t) = ?t" by (simp only:)
  have "split_on 45 ?t = show_nat (range_start r) # show_nat (range_end r) # split_on 45 junk"
    by (simp add: split_on_append no_dash_show_nat)
  then show ?thesis unfolding parseToken_def f Let_def
    using assms(1,2) by (simp add: proper_def isNumber_def)
qed

theorem parse_token_ignores_third_part_witness:
  "parseToken (show_nat 400 @ [45] @ show_nat 499 @ 45 # js ''599'')
     = Some \<lparr>range_start = 400, range_end = 499\<rparr>"
proof -
  have "\<forall>c\<in>set (js ''599''). \<not> is_space c" by code_simp
  then show ?thesis
    using parse_token_ignores_third_part
      [of "\<lparr>range_start = 400, range_end = 499\<rparr>" "js ''599''"]
    by (simp add: proper_def isValidCode_def)
qed

lemma set_map_filter: "set (List.map_filter f xs) = {y. \<exists>x\<in>set xs. f x = Some y}"
  by (induction xs) (auto simp: List.map_filter_simps split: option.splits)

lemma risky_entry_Some_iff:
  "risky_entry (k, v) = Some m \<longleftrightarrow>
     (\<exists>f t. parseStatusCodeKey k = Some f \<and> parseStatusCodeMappingTarget v = Some t
        \<and> f \<in> set NON_REDIRECTABLE_STATUS_CODES \<and> f \<noteq> t \<and> m = redirect_text f t)"
  by (auto simp: risky_entry_def split: option.splits)

lemma set_collectDisallowed:
  "m \<in> set (collectDisallowedStatusCodeRedirects s) \<longleftrightarrow>
     trim s \<noteq> [] \<and> (\<exists>ps e. parsed_object s = Some ps \<and> e \<in> set ps \<and> risky_entry e = Some m)"
  by (cases "parsed_object s")
    (auto simp: collectDisallowedStatusCodeRedirects_def set_map_filter)

text \<open>The guard reports exactly the entries of the mapping that redirect 504 or 524 to
  another valid code, each once, in code unit order.\<close>

theorem disallowed_redirects_exact:
  "(m \<in> set (collectDisallowedStatusCodeRedirects s) \<longleftrightarrow>
     trim s \<noteq> [] \<and> (\<exists>ps k v f t. parsed_object s = Some ps \<and> (k, v) \<in> set ps
       \<and> parseStatusCodeKey k = Some f \<and> parseStatusCodeMappingTarget v = Some t
       \<and> (f = 504 \<or> f = 524) \<and> f \<noteq> t \<and> m = redirect_text f t))
   \<and> distinct (collectDisallowedStatusCodeRedirects s)
   \<and> sorted_wrt (\<lambda>x y. \<not> str_gt x y) (collectDisallowedStatusCodeRedirects s)"
proof (intro conjI)
  show "m \<in> set (collectDisallowedStatusCodeRedirects s) \<longleftrightarrow>
     trim s \<noteq> [] \<and> (\<exists>ps k v f t. parsed_object s = Some ps \<and> (k, v) \<in> set ps
       \<and> parseStatusCodeKey k = Some f \<and> parseStatusCodeMappingTarget v = Some t
       \<and> (f = 504 \<or> f = 524) \<and> f \<noteq> t \<and> m = redirect_text f t)"
    by (simp add: set_collectDisallowed risky_entry_Some_iff NON_REDIRECTABLE_STATUS_CODES_def)
qed (auto simp: collectDisallowedStatusCodeRedirects_def str_order.sorted_js_sort split: option.split)

text \<open>The confirmation on save asks about exactly the risky redirects that were not in the
  saved mapping, so saving an unchanged mapping never asks.\<close>

theorem new_disallowed_redirects:
  "set (collectNewDisallowedStatusCodeRedirects old new) =
     set (collectDisallowedStatusCodeRedirects new) - set (collectDisallowedStatusCodeRedirects old)
   \<and> distinct (collectNewDisallowedStatusCodeRedirects old new)
   \<and> collectNewDisallowedStatusCodeRedirects new new = []"
  by (auto simp: collectNewDisallowedStatusCodeRedirects_def collectDisallowedStatusCodeRedirects_def
      Let_def filter_empty_conv split: option.splits)

end
