(* ===== verification/Model_Mapping.thy ===== *)
theory Model_Mapping
  imports Status_Codes
begin

text \<open>
  \<^verbatim>\<open>features/channels/lib/model-mapping-validation.ts\<close>: a channel's comma-separated model list and
  its JSON model mapping (requested model to upstream model). The theory shows that the list
  format round-trips, that the missing-source and exposed-target reports are exact and that
  acting on them clears them, and that the change test is an exact comparison.
\<close>

section \<open>Definitions\<close>

definition parseModelsString :: "jstring \<Rightarrow> jstring list" where
  "parseModelsString modelsStr =
     (if modelsStr = [] then [] else filter (\<lambda>m. m \<noteq> []) (map trim (split_on 44 modelsStr)))"

definition formatModelsArray :: "jstring list \<Rightarrow> jstring" where
  "formatModelsArray models = join [44] (js_set models)"

definition normalizeModelName :: "jstring \<Rightarrow> jstring" where
  "normalizeModelName model = trim model"

definition extractMappingSourceModels :: "jstring \<Rightarrow> jstring list" where
  "extractMappingSourceModels modelMapping =
     (let trimmed = trim modelMapping
      in if trimmed = [] then []
         else case parsed_object trimmed of
           None \<Rightarrow> []
         | Some ps \<Rightarrow> js_set (filter (\<lambda>k. k \<noteq> []) (map (\<lambda>p. trim (fst p)) ps)))"

definition string_value :: "json \<Rightarrow> jstring option" where
  "string_value v = (case v of JStr s \<Rightarrow> if trim s = [] then None else Some (trim s) | _ \<Rightarrow> None)"

definition extractRedirectModels :: "jstring \<Rightarrow> jstring list" where
  "extractRedirectModels modelMapping =
     (let trimmed = trim modelMapping
      in if trimmed = [] then []
         else case parsed_object trimmed of
           None \<Rightarrow> []
         | Some ps \<Rightarrow> js_set (List.map_filter (\<lambda>p. string_value (snd p)) ps))"

text \<open>The loop of \<^verbatim>\<open>hasModelConfigChanged\<close> over the positions of two arrays of equal length.\<close>

fun differs_at :: "jstring list \<Rightarrow> jstring list \<Rightarrow> bool" where
  "differs_at (x # xs) (y # ys) = (if x \<noteq> y then True else differs_at xs ys)"
| "differs_at _ _ = False"

definition hasModelConfigChanged ::
  "jstring list \<Rightarrow> jstring \<Rightarrow> jstring list \<Rightarrow> jstring \<Rightarrow> bool" where
  "hasModelConfigChanged currentModels currentModelMapping initialModels initialModelMapping =
     (if initialModels = [] \<and> initialModelMapping = [] then True
      else if length currentModels \<noteq> length initialModels then True
      else if differs_at currentModels initialModels then True
      else trim currentModelMapping \<noteq> trim initialModelMapping)"

definition findMissingModelsInMapping :: "jstring \<Rightarrow> jstring list \<Rightarrow> jstring list" where
  "findMissingModelsInMapping modelMapping currentModels =
     (if modelMapping = [] \<or> trim modelMapping = [] then []
      else case parsed_object modelMapping of
        None \<Rightarrow> []
      | Some ps \<Rightarrow>
          (let modelSet = set (map normalizeModelName currentModels)
           in js_set (filter (\<lambda>key. key \<noteq> [] \<and> key \<notin> modelSet)
                        (map (\<lambda>p. normalizeModelName (fst p)) ps))))"

datatype mapping_error = NotAnObject | ValuesNotStrings | NotJson

definition mapping_error_text :: "mapping_error \<Rightarrow> jstring" where
  "mapping_error_text e =
     (case e of
        NotAnObject \<Rightarrow> js ''Model mapping must be a valid JSON object''
      | ValuesNotStrings \<Rightarrow> js ''Model mapping values must be strings''
      | NotJson \<Rightarrow> js ''Model mapping must be valid JSON format'')"

text \<open>The result \<^verbatim>\<open>{valid, error?}\<close>: \<open>None\<close> when valid, the error otherwise.\<close>

definition validateModelMappingJson :: "jstring \<Rightarrow> mapping_error option" where
  "validateModelMappingJson modelMapping =
     (if modelMapping = [] \<or> trim modelMapping = [] then None
      else case json_parse modelMapping of
        None \<Rightarrow> Some NotJson
      | Some (JObj ps) \<Rightarrow>
          if list_ex (\<lambda>p. case snd p of JStr _ \<Rightarrow> False | _ \<Rightarrow> True) ps
          then Some ValuesNotStrings else None
      | Some _ \<Rightarrow> Some NotAnObject)"

definition findExposedTargetModels :: "jstring \<Rightarrow> jstring list \<Rightarrow> jstring list" where
  "findExposedTargetModels modelMapping currentModels =
     (let redirectModels = extractRedirectModels modelMapping
      in if redirectModels = [] then []
         else let modelSet = set (map normalizeModelName currentModels)
              in filter (\<lambda>model. normalizeModelName model \<in> modelSet) redirectModels)"

record ModelCategories =
  normalizedCurrentModels :: "jstring list"
  normalizedRedirectModels :: "jstring list"
  classificationSet :: "jstring list"
  redirectOnlySet :: "jstring list"

definition categorizeModelsWithRedirect :: "jstring list \<Rightarrow> jstring list \<Rightarrow> ModelCategories" where
  "categorizeModelsWithRedirect currentModels redirectModels =
     (let cur = js_set (filter (\<lambda>m. m \<noteq> []) (map normalizeModelName currentModels));
          red = js_set (filter (\<lambda>m. m \<noteq> []) (map normalizeModelName redirectModels))
      in \<lparr>normalizedCurrentModels = cur, normalizedRedirectModels = red,
          classificationSet = js_set (cur @ red),
          redirectOnlySet = js_set (filter (\<lambda>m. m \<notin> set cur) red)\<rparr>)"

section \<open>Lemmas\<close>

definition clean_name :: "jstring \<Rightarrow> bool" where
  "clean_name m \<longleftrightarrow> m \<noteq> [] \<and> trim m = m \<and> 44 \<notin> set m"

lemma parseModelsString_clean: "m \<in> set (parseModelsString s) \<Longrightarrow> clean_name m"
  using split_on_part [of _ 44 s] set_trim_subset
  by (auto simp: parseModelsString_def clean_name_def split: if_splits)

lemma join_clean_not_Nil: "ms \<noteq> [] \<Longrightarrow> (\<And>m. m \<in> set ms \<Longrightarrow> clean_name m) \<Longrightarrow> join [44] ms \<noteq> []"
  by (cases ms; cases "tl ms") (auto simp: clean_name_def)

lemma parse_join_clean:
  assumes "\<And>m. m \<in> set ms \<Longrightarrow> clean_name m"
  shows "parseModelsString (join [44] ms) = ms"
proof (cases "ms = []")
  case True
  then show ?thesis by (simp add: parseModelsString_def)
next
  case False
  have "split_on 44 (join [44] ms) = ms"
    using False assms by (intro split_join) (auto simp: clean_name_def)
  moreover have "map trim ms = ms" using assms by (intro map_idI) (simp add: clean_name_def)
  moreover have "filter (\<lambda>m. m \<noteq> []) ms = ms"
    using assms by (intro filter_True) (auto simp: clean_name_def)
  ultimately show ?thesis
    using join_clean_not_Nil [OF False assms] by (simp add: parseModelsString_def)
qed

lemma differs_at_iff: "length xs = length ys \<Longrightarrow> differs_at xs ys \<longleftrightarrow> xs \<noteq> ys"
  by (induction xs ys rule: differs_at.induct) auto

lemma set_findMissing:
  "m \<in> set (findMissingModelsInMapping mm cur) \<longleftrightarrow>
     trim mm \<noteq> [] \<and> m \<noteq> [] \<and> m \<notin> trim ` set cur
     \<and> (\<exists>ps. parsed_object mm = Some ps \<and> m \<in> (\<lambda>p. trim (fst p)) ` set ps)"
  by (cases "parsed_object mm")
    (auto simp: findMissingModelsInMapping_def normalizeModelName_def Let_def)

lemma string_value_trimmed: "string_value v = Some m \<Longrightarrow> trim m = m \<and> m \<noteq> []"
  by (auto simp: string_value_def split: json.splits if_splits)

lemma extractRedirectModels_trimmed: "m \<in> set (extractRedirectModels mm) \<Longrightarrow> trim m = m \<and> m \<noteq> []"
  by (cases "parsed_object (trim mm)")
    (auto simp: extractRedirectModels_def Let_def set_map_filter dest: string_value_trimmed
      split: if_splits)

lemma set_findExposed:
  "set (findExposedTargetModels mm cur) = set (extractRedirectModels mm) \<inter> trim ` set cur"
  using extractRedirectModels_trimmed [of _ mm]
  by (auto simp: findExposedTargetModels_def normalizeModelName_def Let_def)

section \<open>Properties\<close>

text \<open>The model list format round-trips: names read from a list, deduplicated and written,
  read back as the same names in the same order.\<close>

theorem models_string_roundtrip:
  "parseModelsString (formatModelsArray (parseModelsString s)) = js_set (parseModelsString s)"
  using parse_join_clean [of "js_set (parseModelsString s)"] parseModelsString_clean
  by (simp add: formatModelsArray_def)

text \<open>The missing-source report is exact: the non-empty trimmed keys of a mapping object that
  are not (trimmed) in the model list, each once; adding them to the list empties the report.\<close>

theorem missing_models_exact:
  "(m \<in> set (findMissingModelsInMapping mm cur) \<longleftrightarrow>
      trim mm \<noteq> [] \<and> m \<noteq> [] \<and> m \<notin> trim ` set cur
      \<and> (\<exists>ps. parsed_object mm = Some ps \<and> m \<in> (\<lambda>p. trim (fst p)) ` set ps))
   \<and> distinct (findMissingModelsInMapping mm cur)
   \<and> findMissingModelsInMapping mm (cur @ findMissingModelsInMapping mm cur) = []"
proof (intro conjI)
  show "distinct (findMissingModelsInMapping mm cur)"
    by (auto simp: findMissingModelsInMapping_def Let_def split: option.split)
  have "m \<notin> set (findMissingModelsInMapping mm (cur @ findMissingModelsInMapping mm cur))" for m
  proof
    assume m: "m \<in> set (findMissingModelsInMapping mm (cur @ findMissingModelsInMapping mm cur))"
    then have n: "m \<notin> trim ` set cur" "m \<notin> trim ` set (findMissingModelsInMapping mm cur)"
      by (auto simp: set_findMissing)
    with m have "m \<in> set (findMissingModelsInMapping mm cur)" by (auto simp: set_findMissing)
    moreover have "trim m = m" using m by (auto simp: set_findMissing)
    ultimately show False using n(2) by force
  qed
  then show "findMissingModelsInMapping mm (cur @ findMissingModelsInMapping mm cur) = []"
    by (meson last_in_set)
qed (rule set_findMissing)

text \<open>The exposed-target report is exactly the redirect targets that are also offered as
  models, and taking the reported names off the list leaves nothing to report.\<close>

theorem exposed_targets_exact:
  "set (findExposedTargetModels mm cur) = set (extractRedirectModels mm) \<inter> trim ` set cur
   \<and> findExposedTargetModels mm
       (filter (\<lambda>m. trim m \<notin> set (findExposedTargetModels mm cur)) cur) = []"
proof
  have "set (findExposedTargetModels mm
      (filter (\<lambda>m. trim m \<notin> set (findExposedTargetModels mm cur)) cur)) = {}"
    by (auto simp: set_findExposed)
  then show "findExposedTargetModels mm
      (filter (\<lambda>m. trim m \<notin> set (findExposedTargetModels mm cur)) cur) = []" by simp
qed (rule set_findExposed)

text \<open>An edited channel counts as unchanged exactly when its model list is the same, in order,
  and its mapping is the same up to surrounding white space; a new channel always counts as
  changed.\<close>

theorem model_config_changed_exact:
  "\<not> hasModelConfigChanged cur curMap ini iniMap \<longleftrightarrow>
     (ini \<noteq> [] \<or> iniMap \<noteq> []) \<and> cur = ini \<and> trim curMap = trim iniMap"
  by (auto simp: hasModelConfigChanged_def differs_at_iff)

text \<open>Validation accepts exactly blank text and JSON objects whose values are all strings, and
  reports a syntax error exactly for non-blank text that is not JSON.\<close>

theorem validate_mapping_exact:
  "(validateModelMappingJson mm = None \<longleftrightarrow>
      trim mm = [] \<or> (\<exists>ps. parsed_object mm = Some ps \<and> (\<forall>p\<in>set ps. \<exists>s. snd p = JStr s)))
   \<and> (validateModelMappingJson mm = Some NotJson \<longleftrightarrow> trim mm \<noteq> [] \<and> json_parse mm = None)"
proof -
  have all: "list_ex (\<lambda>p. case snd p of JStr _ \<Rightarrow> False | _ \<Rightarrow> True) ps
    \<longleftrightarrow> \<not> (\<forall>p\<in>set ps. \<exists>s. snd p = JStr s)" for ps :: "(jstring \<times> json) list"
    by (auto simp: list_ex_iff split: json.splits)
  show ?thesis
  proof (cases "trim mm = []")
    case True
    then show ?thesis by (simp add: validateModelMappingJson_def)
  next
    case False
    then have "mm \<noteq> []" by auto
    then show ?thesis
      using False
      by (cases "json_parse mm"; cases "the (json_parse mm)")
        (simp_all add: validateModelMappingJson_def parsed_object_def all)
  qed
qed

theorem validate_mapping_exact_witness:
  "validateModelMappingJson (js ''{\"a\": null}'') = Some ValuesNotStrings
   \<and> (validateModelMappingJson (js ''{\"a\": null}'') = None \<longleftrightarrow>
        trim (js ''{\"a\": null}'') = []
        \<or> (\<exists>ps. parsed_object (js ''{\"a\": null}'') = Some ps \<and> (\<forall>p\<in>set ps. \<exists>s. snd p = JStr s)))"
proof -
  have "validateModelMappingJson (js ''{\"a\": null}'') = Some ValuesNotStrings" by code_simp
  then show ?thesis using validate_mapping_exact [of "js ''{\"a\": null}''"] by blast
qed

text \<open>The display categories partition the names: every classified name is a current model or
  a redirect-only name and never both, and no category holds an empty or untrimmed name.\<close>

theorem categories_partition:
  "set (classificationSet (categorizeModelsWithRedirect cur red)) =
     set (normalizedCurrentModels (categorizeModelsWithRedirect cur red))
     \<union> set (redirectOnlySet (categorizeModelsWithRedirect cur red))
   \<and> set (normalizedCurrentModels (categorizeModelsWithRedirect cur red))
     \<inter> set (redirectOnlySet (categorizeModelsWithRedirect cur red)) = {}
   \<and> list_all (\<lambda>m. trim m = m \<and> m \<noteq> []) (classificationSet (categorizeModelsWithRedirect cur red))
   \<and> distinct (classificationSet (categorizeModelsWithRedirect cur red))"
  by (auto simp: categorizeModelsWithRedirect_def normalizeModelName_def Let_def list_all_iff)

end
