(* ===== verification/Playground_Types.thy ===== *)
theory Playground_Types
  imports JS_JSON
begin

text \<open>
  The data model of the playground (\<^verbatim>\<open>features/playground/types.ts\<close> and \<^verbatim>\<open>constants.ts\<close>): chat messages
  with their regenerated versions, the chat completion request and response types, the
  configuration and its defaults. An optional property is an \<open>option\<close>; a property that may also
  be \<^verbatim>\<open>null\<close> is a \<open>nullable\<close>, with \<open>None\<close> for undefined and \<open>Some None\<close> for null.
  Field names carry a prefix for their interface, since record fields share one name space.
  \<^verbatim>\<open>activeVersionIndex\<close> is an integer, since the code only assigns lengths and positions of lists to it.
\<close>

type_synonym 'a nullable = "'a option option"

section \<open>Messages\<close>

datatype MessageRole = RoleUser | RoleAssistant | RoleSystem | RoleTool

datatype MessageStatus = Loading | Streaming | Complete | ErrorStatus | Truncated

record ToolCall =
  tc_id :: jstring
  tc_name :: jstring
  tc_arguments :: jstring

record Reasoning =
  re_content :: jstring
  re_duration :: jsnum

record MessageVersion =
  v_id :: jstring
  v_content :: jstring
  v_toolCalls :: "ToolCall list option"
  v_reasoning :: "Reasoning option"
  v_refusal :: "jstring option"
  v_finishReason :: "jstring nullable"

record TokenUsage =
  prompt_tokens :: jsnum
  completion_tokens :: jsnum
  total_tokens :: jsnum
  prompt_tokens_details :: "jsnum nullable"

record MessageSource =
  src_href :: jstring
  src_title :: jstring

record Message =
  m_key :: jstring
  m_from :: MessageRole
  m_versions :: "MessageVersion list"
  m_activeVersionIndex :: "int option"
  m_model :: "jstring option"
  m_imageUrls :: "jstring list option"
  m_sources :: "MessageSource list option"
  m_reasoning :: "Reasoning option"
  m_toolCalls :: "ToolCall list option"
  m_refusal :: "jstring option"
  m_finishReason :: "jstring nullable"
  m_toolCallId :: "jstring option"
  m_toolName :: "jstring option"
  m_isReasoningStreaming :: "bool option"
  m_isReasoningComplete :: "bool option"
  m_isContentComplete :: "bool option"
  m_status :: "MessageStatus option"
  m_errorCode :: "jstring nullable"
  m_usage :: "TokenUsage option"
  m_costUsd :: "jsnum option"
  m_latencyMs :: "int option"

section \<open>API types\<close>

datatype ReasoningEffort = EffortOff | EffortMinimal | EffortLow | EffortMedium | EffortHigh

datatype PartType = PartText | PartImageUrl

record ContentPart =
  part_type :: PartType
  part_text :: "jstring option"
  part_image_url :: "jstring option"

datatype MessageContent = ContentText jstring | ContentParts "ContentPart list" | ContentNull

record ChatCompletionMessage =
  cm_role :: MessageRole
  cm_content :: MessageContent
  cm_tool_calls :: "ToolCall list option"
  cm_tool_call_id :: "jstring option"
  cm_name :: "jstring option"

record UrlCitation =
  cite_url :: jstring
  cite_title :: "jstring option"
  cite_content :: "jstring option"
  cite_start_index :: "jsnum option"
  cite_end_index :: "jsnum option"

text \<open>The readers of an annotation test its type and whether the citation is there.\<close>

record UrlCitationAnnotation =
  ann_type :: jstring
  ann_url_citation :: "UrlCitation option"

record PlaygroundToolDefinition =
  tool_name :: jstring
  tool_description :: "jstring option"
  tool_parameters :: "json option"

datatype ToolChoice = ChoiceNone | ChoiceAuto | ChoiceRequired | ChoiceFunction jstring

datatype ResponseFormat =
    FormatText
  | FormatJsonObject
  | FormatJsonSchema jstring "bool option" json

record ReasoningOptions =
  ro_max_tokens :: "jsnum option"
  ro_effort :: "ReasoningEffort option"

datatype SearchContextSize = SearchLow | SearchMedium | SearchHigh

record ChatCompletionRequest =
  rq_model :: jstring
  rq_group :: "jstring option"
  rq_messages :: "ChatCompletionMessage list"
  rq_stream :: bool
  rq_stream_options :: "bool nullable"
  rq_temperature :: "jsnum option"
  rq_top_p :: "jsnum option"
  rq_max_tokens :: "jsnum option"
  rq_frequency_penalty :: "jsnum option"
  rq_presence_penalty :: "jsnum option"
  rq_seed :: "jsnum option"
  rq_reasoning_effort :: "ReasoningEffort option"
  rq_reasoning :: "ReasoningOptions option"
  rq_web_search_options :: "SearchContextSize nullable"
  rq_tools :: "PlaygroundToolDefinition list option"
  rq_tool_choice :: "ToolChoice option"
  rq_response_format :: "ResponseFormat option"

text \<open>The message of one choice of a non-streaming response, and the response.\<close>

record ResponseMessage =
  rm_role :: MessageRole
  rm_content :: "jstring option"
  rm_reasoning_content :: "jstring option"
  rm_refusal :: "jstring option"
  rm_annotations :: "UrlCitationAnnotation list option"
  rm_tool_calls :: "ToolCall list option"

record ResponseChoice =
  ch_message :: "ResponseMessage option"
  ch_finish_reason :: jstring

record ChatCompletionResponse =
  rs_choices :: "ResponseChoice list option"
  rs_usage :: "TokenUsage option"

section \<open>Configuration\<close>

record PlaygroundConfig =
  cf_systemPrompt :: jstring
  cf_model :: jstring
  cf_compareModels :: "jstring list"
  cf_group :: jstring
  cf_temperature :: jsnum
  cf_top_p :: jsnum
  cf_max_tokens :: jsnum
  cf_frequency_penalty :: jsnum
  cf_presence_penalty :: jsnum
  cf_seed :: "jsnum option"
  cf_stream :: bool
  cf_reasoningEffort :: ReasoningEffort
  cf_reasoningMaxTokens :: jsnum
  cf_webSearch :: bool
  cf_tools :: "PlaygroundToolDefinition list"
  cf_toolChoice :: ToolChoice
  cf_responseFormat :: ResponseFormat

record ParameterEnabled =
  pe_temperature :: bool
  pe_top_p :: bool
  pe_max_tokens :: bool
  pe_frequency_penalty :: bool
  pe_presence_penalty :: bool
  pe_seed :: bool

record ModelOption =
  mo_label :: jstring
  mo_value :: jstring

record GroupOption =
  go_label :: jstring
  go_value :: jstring
  go_ratio :: jsnum
  go_desc :: "jstring option"

section \<open>Constants\<close>

definition DEFAULT_GROUP :: jstring where
  "DEFAULT_GROUP = js ''default''"

definition DEFAULT_CONFIG :: PlaygroundConfig where
  "DEFAULT_CONFIG =
     \<lparr>cf_systemPrompt = [], cf_model = js ''gpt-4o'', cf_compareModels = [],
      cf_group = DEFAULT_GROUP, cf_temperature = js_round (7/10), cf_top_p = Fin 1,
      cf_max_tokens = Fin 4096, cf_frequency_penalty = Fin 0, cf_presence_penalty = Fin 0,
      cf_seed = None, cf_stream = True, cf_reasoningEffort = EffortOff,
      cf_reasoningMaxTokens = Fin 0, cf_webSearch = False, cf_tools = [],
      cf_toolChoice = ChoiceAuto, cf_responseFormat = FormatText\<rparr>"

definition DEFAULT_PARAMETER_ENABLED :: ParameterEnabled where
  "DEFAULT_PARAMETER_ENABLED =
     \<lparr>pe_temperature = True, pe_top_p = True, pe_max_tokens = False,
      pe_frequency_penalty = True, pe_presence_penalty = True, pe_seed = False\<rparr>"

datatype ErrorMessage =
    API_REQUEST_ERROR
  | NETWORK_ERROR
  | PARSE_ERROR
  | STREAM_START_ERROR
  | CONNECTION_CLOSED
  | INTERRUPTED

fun ERROR_MESSAGES :: "ErrorMessage \<Rightarrow> jstring" where
  "ERROR_MESSAGES API_REQUEST_ERROR = js ''Request error occurred''"
| "ERROR_MESSAGES NETWORK_ERROR = js ''Network connection failed or server not responding''"
| "ERROR_MESSAGES PARSE_ERROR = js ''Error parsing response data''"
| "ERROR_MESSAGES STREAM_START_ERROR = js ''Error establishing connection''"
| "ERROR_MESSAGES CONNECTION_CLOSED = js ''Connection closed''"
| "ERROR_MESSAGES INTERRUPTED = js ''Generation was interrupted''"

text \<open>Truthiness of an optional list's length: \<^verbatim>\<open>xs?.length\<close>.\<close>

definition has_items :: "'a list option \<Rightarrow> bool" where
  "has_items xs \<longleftrightarrow> (case xs of None \<Rightarrow> False | Some ys \<Rightarrow> ys \<noteq> [])"

text \<open>\<^verbatim>\<open>a ?? b\<close> for optional values, and for values that may be null.\<close>

definition coalesce :: "'a option \<Rightarrow> 'a option \<Rightarrow> 'a option" where
  "coalesce a b = (case a of None \<Rightarrow> b | Some x \<Rightarrow> Some x)"

definition coalesce_null :: "'a nullable \<Rightarrow> 'a nullable \<Rightarrow> 'a nullable" where
  "coalesce_null a b = (case a of Some (Some x) \<Rightarrow> a | _ \<Rightarrow> b)"

lemma has_items_simps [simp]:
  "\<not> has_items None" "has_items (Some xs) \<longleftrightarrow> xs \<noteq> []"
  by (simp_all add: has_items_def)

lemma coalesce_simps [simp]:
  "coalesce None b = b" "coalesce (Some x) b = Some x"
  by (simp_all add: coalesce_def)

end
