(* ===== verification/Stream_Parser.thy ===== *)
theory Stream_Parser
  imports Playground_Types
begin

text \<open>
  The parser of the chat completion stream (\<^verbatim>\<open>features/playground/lib/stream-parser.ts\<close>): one SSE
  payload to a list of events, the accumulator that puts streamed tool calls back together and
  its snapshot. A payload is untyped JSON, so the path from the chunk to its tool calls is modelled
  with JavaScript's own property reads, and what throws a TypeError there is an \<open>Inl\<close>. The
  leaves are read at the declared type: a text is what concatenating it to a string gives, a
  falsy optional text is absent (every reader tests truthiness), a count or index that is not a
  number is \<open>NaN\<close>, and an annotation is read by \<open>annotation_of\<close>.
  The theory shows when each kind of event is produced, when the parser throws, and that
  tool calls are reassembled independently of how their fragments are interleaved.
\<close>

section \<open>Events\<close>

record ToolCallDelta =
  d_index :: jsnum
  d_id :: "jstring option"
  d_name :: "jstring option"
  d_arguments :: "jstring option"

datatype ParsedStreamEvent =
    EvDone
  | EvContent jstring
  | EvReasoning jstring
  | EvRefusal jstring
  | EvAnnotations "UrlCitationAnnotation list"
  | EvUsage TokenUsage
  | EvFinish jstring
  | EvToolCallDelta ToolCallDelta
  | EvParseError jstring

text \<open>The \<^verbatim>\<open>Map\<close> from index to tool call, in insertion order.\<close>

type_synonym ToolCallAccumulator = "(jsnum \<times> ToolCall) list"

section \<open>Reading the leaves\<close>

definition num_field :: "jstring \<Rightarrow> json \<Rightarrow> jsnum" where
  "num_field k v =
     (case get_prop k v of Some (JNum x) \<Rightarrow> x | Some JNull \<Rightarrow> Fin 0 | _ \<Rightarrow> NaN)"

definition opt_num :: "json option \<Rightarrow> jsnum option" where
  "opt_num v = (case v of Some (JNum x) \<Rightarrow> Some x | _ \<Rightarrow> None)"

definition opt_text :: "json option \<Rightarrow> jstring option" where
  "opt_text v = (if truthy v then map_option json_to_string v else None)"

definition usage_of :: "json \<Rightarrow> TokenUsage" where
  "usage_of v =
     \<lparr>prompt_tokens = num_field (js ''prompt_tokens'') v,
      completion_tokens = num_field (js ''completion_tokens'') v,
      total_tokens = num_field (js ''total_tokens'') v,
      prompt_tokens_details =
        (let d = get_prop (js ''prompt_tokens_details'') v
         in if nullish d then None else Some (opt_num (opt_prop (js ''cached_tokens'') d)))\<rparr>"

definition citation_of :: "json \<Rightarrow> UrlCitation" where
  "citation_of v =
     \<lparr>cite_url = str_or (opt_text (get_prop (js ''url'') v)) [],
      cite_title = opt_text (get_prop (js ''title'') v),
      cite_content = opt_text (get_prop (js ''content'') v),
      cite_start_index = opt_num (get_prop (js ''start_index'') v),
      cite_end_index = opt_num (get_prop (js ''end_index'') v)\<rparr>"

definition annotation_of :: "json \<Rightarrow> UrlCitationAnnotation" where
  "annotation_of v =
     \<lparr>ann_type = (case get_prop (js ''type'') v of Some (JStr s) \<Rightarrow> s | _ \<Rightarrow> []),
      ann_url_citation =
        (let c = get_prop (js ''url_citation'') v
         in if nullish c then None else map_option citation_of c)\<rparr>"

section \<open>parseSseData\<close>

text \<open>\<^verbatim>\<open>v?.[0]\<close>: an array's first element, a string's first code unit, or an object's key 0.\<close>

definition first_item :: "json option \<Rightarrow> json option" where
  "first_item v =
     (case v of
        Some (JArr (x # _)) \<Rightarrow> Some x
      | Some (JStr (c # _)) \<Rightarrow> Some (JStr [c])
      | Some (JObj ps) \<Rightarrow> map_of ps (js ''0'')
      | _ \<Rightarrow> None)"

text \<open>The truth of \<^verbatim>\<open>v?.length\<close>.\<close>

definition truthy_length :: "json option \<Rightarrow> bool" where
  "truthy_length v \<longleftrightarrow>
     (case v of
        Some (JArr xs) \<Rightarrow> xs \<noteq> []
      | Some (JStr s) \<Rightarrow> s \<noteq> []
      | Some (JObj ps) \<Rightarrow> truthy (map_of ps (js ''length''))
      | _ \<Rightarrow> False)"

text \<open>A string iterates by code points: a surrogate pair is one item.\<close>

fun code_points :: "jstring \<Rightarrow> jstring list" where
  "code_points (c # d # s) =
     (if 55296 \<le> c \<and> c < 56320 \<and> 56320 \<le> d \<and> d < 57344 then [c, d] # code_points s
      else [c] # code_points (d # s))"
| "code_points [c] = [[c]]"
| "code_points [] = []"

text \<open>What \<^verbatim>\<open>for (const tc of v)\<close> runs over; an object or a number is not iterable.\<close>

definition iterate :: "json option \<Rightarrow> js_error + json list" where
  "iterate v =
     (case v of
        Some (JArr xs) \<Rightarrow> Inr xs
      | Some (JStr s) \<Rightarrow> Inr (map JStr (code_points s))
      | _ \<Rightarrow> Inl TypeError)"

definition delta_of :: "json \<Rightarrow> ToolCallDelta" where
  "delta_of tc =
     (let i = get_prop (js ''index'') tc; f = get_prop (js ''function'') tc
      in \<lparr>d_index = (if nullish i then Fin 0 else case i of Some (JNum x) \<Rightarrow> x | _ \<Rightarrow> NaN),
          d_id = opt_text (get_prop (js ''id'') tc),
          d_name = opt_text (opt_prop (js ''name'') f),
          d_arguments = opt_text (opt_prop (js ''arguments'') f)\<rparr>)"

text \<open>The loop over \<^verbatim>\<open>delta.tool_calls\<close>: \<^verbatim>\<open>tc.index\<close> throws for a null element.\<close>

fun tool_events :: "json list \<Rightarrow> js_error + ParsedStreamEvent list" where
  "tool_events [] = Inr []"
| "tool_events (tc # tcs) =
     (if tc = JNull then Inl TypeError
      else case tool_events tcs of
             Inl e \<Rightarrow> Inl e
           | Inr evs \<Rightarrow> Inr (EvToolCallDelta (delta_of tc) # evs))"

definition annotations_of :: "json \<Rightarrow> UrlCitationAnnotation list" where
  "annotations_of v = (case v of JArr xs \<Rightarrow> map annotation_of xs | _ \<Rightarrow> [])"

definition text_event :: "(jstring \<Rightarrow> ParsedStreamEvent) \<Rightarrow> jstring \<Rightarrow> json \<Rightarrow> ParsedStreamEvent list" where
  "text_event ev k delta = (case opt_text (get_prop k delta) of None \<Rightarrow> [] | Some s \<Rightarrow> [ev s])"

definition delta_events :: "json \<Rightarrow> js_error + ParsedStreamEvent list" where
  "delta_events delta =
     (let texts = text_event EvReasoning (js ''reasoning_content'') delta
            @ text_event EvContent (js ''content'') delta
            @ text_event EvRefusal (js ''refusal'') delta;
          anns = get_prop (js ''annotations'') delta;
          tools = get_prop (js ''tool_calls'') delta;
          shown = texts
            @ (if truthy_length anns then [EvAnnotations (annotations_of (the anns))] else [])
      in if truthy_length tools
         then (case iterate tools of
                 Inl e \<Rightarrow> Inl e
               | Inr tcs \<Rightarrow> (case tool_events tcs of Inl e \<Rightarrow> Inl e | Inr evs \<Rightarrow> Inr (shown @ evs)))
         else Inr shown)"

definition chunk_events :: "json \<Rightarrow> js_error + ParsedStreamEvent list" where
  "chunk_events chunk =
     (if chunk = JNull then Inl TypeError
      else
        let usage = get_prop (js ''usage'') chunk;
            events = (if truthy usage then [EvUsage (usage_of (the usage))] else []);
            choice = first_item (get_prop (js ''choices'') chunk)
        in if \<not> truthy choice then Inr events
           else
             let fin = opt_prop (js ''finish_reason'') choice;
                 events' = events
                   @ (if nullish fin then [] else [EvFinish (json_to_string (the fin))]);
                 delta = opt_prop (js ''delta'') choice
             in if \<not> truthy delta then Inr events'
                else case delta_events (the delta) of
                       Inl e \<Rightarrow> Inl e
                     | Inr evs \<Rightarrow> Inr (events' @ evs))"

definition DONE :: jstring where
  "DONE = js ''[DONE]''"

definition parseSseData :: "jstring \<Rightarrow> js_error + ParsedStreamEvent list" where
  "parseSseData data =
     (if data = DONE then Inr [EvDone]
      else case json_parse data of
             None \<Rightarrow> Inr [EvParseError data]
           | Some chunk \<Rightarrow> chunk_events chunk)"

section \<open>Tool calls\<close>

definition applyToolCallDelta :: "ToolCallAccumulator \<Rightarrow> ToolCallDelta \<Rightarrow> ToolCallAccumulator" where
  "applyToolCallDelta acc event =
     (case map_of acc (d_index event) of
        None \<Rightarrow>
          acc @ [(d_index event,
            \<lparr>tc_id = str_or (d_id event) (js ''call_'' @ num_to_string (d_index event)),
             tc_name = str_or (d_name event) [],
             tc_arguments = str_or (d_arguments event) []\<rparr>)]
      | Some existing \<Rightarrow>
          AList.update (d_index event)
            \<lparr>tc_id = str_or (d_id event) (tc_id existing),
             tc_name = tc_name existing @ str_or (d_name event) [],
             tc_arguments = tc_arguments existing @ str_or (d_arguments event) []\<rparr> acc)"

text \<open>The comparator \<^verbatim>\<open>([a], [b]) => a - b\<close>.\<close>

definition index_gt :: "jsnum \<times> ToolCall \<Rightarrow> jsnum \<times> ToolCall \<Rightarrow> bool" where
  "index_gt p q \<longleftrightarrow> num_gt (num_sub (fst p) (fst q)) (Fin 0)"

definition finalizeToolCalls :: "ToolCallAccumulator \<Rightarrow> ToolCall list" where
  "finalizeToolCalls acc = map snd (js_sort index_gt acc)"

section \<open>What the parser emits\<close>

lemma tool_events_kind:
  "tool_events tcs = Inr evs \<Longrightarrow> evs = map (EvToolCallDelta \<circ> delta_of) tcs"
  by (induction tcs arbitrary: evs) (auto split: if_splits sum.splits)

lemma tool_events_throws: "isl (tool_events tcs) \<longleftrightarrow> JNull \<in> set tcs"
  by (induction tcs) (auto split: sum.splits)

lemma isl_iff: "isl x \<longleftrightarrow> (\<exists>e. x = Inl e)"
  by (cases x) auto

lemma text_event_cases:
  "text_event ev k d = (if truthy (get_prop k d) then [ev (json_to_string (the (get_prop k d)))] else [])"
  by (auto simp: text_event_def opt_text_def split: option.splits)

text \<open>Events that neither end the stream nor report a payload that is not JSON.\<close>

fun inner_event :: "ParsedStreamEvent \<Rightarrow> bool" where
  "inner_event EvDone = False"
| "inner_event (EvParseError _) = False"
| "inner_event _ = True"

lemma text_event_inner: "(\<And>s. inner_event (ev s)) \<Longrightarrow> list_all inner_event (text_event ev k d)"
  by (simp add: text_event_cases)

lemma tool_events_inner: "tool_events tcs = Inr evs \<Longrightarrow> list_all inner_event evs"
  by (drule tool_events_kind) (simp add: list_all_iff)

lemma delta_events_inner: "delta_events d = Inr evs \<Longrightarrow> list_all inner_event evs"
  by (auto simp: delta_events_def Let_def text_event_inner tool_events_inner split: if_splits sum.splits)

lemma chunk_events_inner: "chunk_events c = Inr evs \<Longrightarrow> list_all inner_event evs"
  by (auto simp: chunk_events_def Let_def delta_events_inner split: if_splits sum.splits)

lemma chunk_events_kinds:
  assumes "chunk_events c = Inr evs"
  shows "EvDone \<notin> set evs" "EvParseError s \<notin> set evs"
  using chunk_events_inner [OF assms] by (auto simp: list_all_iff)

lemma json_parse_DONE: "json_parse DONE = None"
  by code_simp

text \<open>The parser ends the stream exactly on the sentinel and reports a parse error exactly on a
  payload that is not JSON; both are then the only event.\<close>

theorem sse_done_and_error_exact:
  "parseSseData data = Inr evs \<Longrightarrow>
   (EvDone \<in> set evs \<longleftrightarrow> data = DONE) \<and> (EvDone \<in> set evs \<longrightarrow> evs = [EvDone])
   \<and> (EvParseError raw \<in> set evs \<longleftrightarrow> raw = data \<and> data \<noteq> DONE \<and> json_parse data = None)
   \<and> (EvParseError raw \<in> set evs \<longrightarrow> evs = [EvParseError data])"
  by (auto simp: parseSseData_def chunk_events_kinds split: if_splits option.splits)

theorem sse_done_and_error_exact_witness:
  "EvDone \<in> set [EvDone] \<and> \<not> (EvParseError (js ''x'') \<in> set [EvDone])"
proof -
  have "parseSseData DONE = Inr [EvDone]" by (simp add: parseSseData_def)
  from sse_done_and_error_exact [OF this, of "js ''x''"] show ?thesis by simp
qed

text \<open>The payload's first choice and its delta, where the parser gets to them.\<close>

definition chunk_choice :: "json \<Rightarrow> json option" where
  "chunk_choice c = first_item (get_prop (js ''choices'') c)"

definition chunk_delta :: "json \<Rightarrow> json option" where
  "chunk_delta c =
     (if truthy (chunk_choice c) then opt_prop (js ''delta'') (chunk_choice c) else None)"

definition bad_tool_calls :: "json option \<Rightarrow> bool" where
  "bad_tool_calls tools \<longleftrightarrow> truthy_length tools
     \<and> (case iterate tools of Inl _ \<Rightarrow> True | Inr tcs \<Rightarrow> JNull \<in> set tcs)"

lemma delta_events_throws:
  "isl (delta_events d) \<longleftrightarrow> bad_tool_calls (get_prop (js ''tool_calls'') d)"
proof (cases "iterate (get_prop (js ''tool_calls'') d)")
  case (Inr tcs)
  then show ?thesis
    using tool_events_throws [of tcs]
    by (cases "tool_events tcs") (simp_all add: delta_events_def bad_tool_calls_def Let_def)
qed (simp add: delta_events_def bad_tool_calls_def Let_def)

lemma chunk_events_throws:
  "isl (chunk_events c) \<longleftrightarrow> c = JNull
     \<or> truthy (chunk_delta c) \<and> bad_tool_calls (opt_prop (js ''tool_calls'') (chunk_delta c))"
proof (cases "c = JNull \<or> \<not> truthy (chunk_delta c)")
  case False
  then obtain d where "chunk_delta c = Some d" by (cases "chunk_delta c") auto
  then have "isl (chunk_events c) \<longleftrightarrow> isl (delta_events d)"
    using False
    by (auto simp: chunk_events_def chunk_delta_def chunk_choice_def Let_def split: sum.splits if_splits)
  with False \<open>chunk_delta c = Some d\<close> show ?thesis using delta_events_throws [of d] by simp
qed (auto simp: chunk_events_def chunk_delta_def chunk_choice_def Let_def)

text \<open>C37: the parser throws exactly on the JSON payload null, and on a delta whose tool calls are not
  iterable or hold a null. Neither is caught by the guard around \<^verbatim>\<open>JSON.parse\<close>, so such
  a payload is not reported as a parse error.\<close>

theorem sse_throws_exact:
  "(\<exists>e. parseSseData data = Inl e) \<longleftrightarrow>
     (\<exists>chunk. json_parse data = Some chunk
        \<and> (chunk = JNull
           \<or> truthy (chunk_delta chunk)
             \<and> bad_tool_calls (opt_prop (js ''tool_calls'') (chunk_delta chunk))))"
  using json_parse_DONE chunk_events_throws
  by (auto simp: parseSseData_def isl_iff split: option.splits)

theorem sse_null_payload_throws: "parseSseData (js ''null'') = Inl TypeError"
  by code_simp

section \<open>Reassembling tool calls\<close>

definition deltas_at :: "jsnum \<Rightarrow> ToolCallDelta list \<Rightarrow> ToolCallDelta list" where
  "deltas_at i ds = filter (\<lambda>d. d_index d = i) ds"

text \<open>
  The tool call that the fragments of one index add up to: the last non-empty id (or a made-up
  one), the concatenated names and the concatenated arguments.
\<close>

definition assembled :: "jsnum \<Rightarrow> ToolCallDelta list \<Rightarrow> ToolCall" where
  "assembled i ds =
     \<lparr>tc_id = fold (\<lambda>d cur. str_or (d_id d) cur) ds (js ''call_'' @ num_to_string i),
      tc_name = concat (map (\<lambda>d. str_or (d_name d) []) ds),
      tc_arguments = concat (map (\<lambda>d. str_or (d_arguments d) []) ds)\<rparr>"

definition accumulate :: "ToolCallDelta list \<Rightarrow> ToolCallAccumulator" where
  "accumulate ds = foldl applyToolCallDelta [] ds"

lemma deltas_at_snoc:
  "deltas_at i (ds @ [d]) = (if d_index d = i then deltas_at i ds @ [d] else deltas_at i ds)"
  by (simp add: deltas_at_def)

lemma deltas_at_Nil_iff: "deltas_at i ds = [] \<longleftrightarrow> i \<notin> d_index ` set ds"
  by (auto simp: deltas_at_def filter_empty_conv)

lemma map_of_accumulate:
  "map_of (accumulate ds) i =
     (if i \<in> d_index ` set ds then Some (assembled i (deltas_at i ds)) else None)"
proof (induction ds arbitrary: i rule: rev_induct)
  case (snoc d ds)
  have step: "accumulate (ds @ [d]) = applyToolCallDelta (accumulate ds) d" by (simp add: accumulate_def)
  show ?case
  proof (cases "d_index d \<in> d_index ` set ds")
    case True
    then show ?thesis
      using snoc.IH [of "d_index d"] snoc.IH [of i]
      by (auto simp: step applyToolCallDelta_def update_conv' deltas_at_snoc assembled_def)
  next
    case False
    then have "map_of (accumulate ds) (d_index d) = None" and "deltas_at (d_index d) ds = []"
      using snoc.IH [of "d_index d"] by (auto simp: deltas_at_Nil_iff)
    then show ?thesis
      using snoc.IH [of i] False
      by (auto simp: step applyToolCallDelta_def deltas_at_snoc assembled_def map_add_def split: option.splits)
  qed
qed (simp add: accumulate_def)

lemma distinct_accumulate: "distinct (map fst (accumulate ds))"
proof (induction ds rule: rev_induct)
  case (snoc d ds)
  then show ?case
    by (auto simp: accumulate_def applyToolCallDelta_def distinct_update map_of_eq_None_iff split: option.splits)
qed (simp add: accumulate_def)

text \<open>Tool calls are numbered by integers; this is the integer of an index.\<close>

fun num_int :: "jsnum \<Rightarrow> int" where
  "num_int (Fin a) = \<lfloor>a\<rfloor>"
| "num_int _ = 0"

interpretation index_order: comparator "\<lambda>p q. num_int (fst q) < num_int (fst p)"
  by (rule comparator_by_key)

lemma js_sort_index:
  assumes "list_all (num_is_integer \<circ> fst) acc"
  shows "js_sort index_gt acc = js_sort (\<lambda>p q. num_int (fst q) < num_int (fst p)) acc"
proof (rule js_sort_cong)
  fix p q
  assume "p \<in> set acc" "q \<in> set acc"
  then have pq: "num_is_integer (fst p)" "num_is_integer (fst q)" using assms by (auto simp: list_all_iff)
  then obtain i j where "fst p = Fin (of_int i)" "fst q = Fin (of_int j)"
    by (auto simp: num_is_integer_def split: jsnum.splits)
  then show "index_gt p q = (num_int (fst q) < num_int (fst p))"
    by (simp add: index_gt_def num_sub_sign_int)
qed

definition tool_indices :: "ToolCallDelta list \<Rightarrow> int list" where
  "tool_indices ds = sorted_list_of_set (set (map (num_int \<circ> d_index) ds))"

lemma num_int_inj: "num_is_integer x \<Longrightarrow> Fin (of_int (num_int x)) = x"
  by (cases x) (auto simp: num_is_integer_def)

lemma sorted_keys:
  assumes "list_all (num_is_integer \<circ> d_index) ds"
  shows "map (num_int \<circ> fst) (js_sort index_gt (accumulate ds)) = tool_indices ds"
proof -
  let ?s = "js_sort index_gt (accumulate ds)"
  have k: "fst ` set (accumulate ds) = d_index ` set ds"
  proof (rule set_eqI)
    show "x \<in> fst ` set (accumulate ds) \<longleftrightarrow> x \<in> d_index ` set ds" for x
      using map_of_accumulate [of ds x] map_of_eq_None_iff [of "accumulate ds" x]
      by (auto split: if_splits)
  qed
  have "\<forall>x\<in>d_index ` set ds. num_is_integer x" using assms by (simp add: list_all_iff)
  then have "\<forall>x\<in>fst ` set (accumulate ds). num_is_integer x" by (simp only: k)
  then have int: "list_all (num_is_integer \<circ> fst) (accumulate ds)" by (simp add: list_all_iff)
  have "sorted (map (num_int \<circ> fst) ?s)"
    using index_order.sorted_js_sort [of "accumulate ds"] js_sort_index [OF int]
    by (simp add: sorted_wrt_map not_less)
  moreover have "inj_on (num_int \<circ> fst) (set ?s)"
  proof (rule comp_inj_on)
    show "inj_on fst (set ?s)" using distinct_accumulate [of ds] by (simp add: distinct_map)
    show "inj_on num_int (fst ` set ?s)"
    proof (rule inj_onI)
      fix x y
      assume "x \<in> fst ` set ?s" "y \<in> fst ` set ?s" "num_int x = num_int y"
      moreover have "num_is_integer x" "num_is_integer y"
        using calculation(1,2) int by (auto simp: list_all_iff)
      ultimately show "x = y" by (metis num_int_inj)
    qed
  qed
  then have "distinct (map (num_int \<circ> fst) ?s)"
    using distinct_accumulate [of ds] by (simp add: distinct_map)
  moreover have "set (map (num_int \<circ> fst) ?s) = set (map (num_int \<circ> d_index) ds)"
    using arg_cong [OF k, of "image num_int"] by (simp add: image_image)
  ultimately show ?thesis
    using sorted_list_of_set.idem_if_sorted_distinct [of "map (num_int \<circ> fst) ?s"]
    by (simp only: tool_indices_def)
qed

lemma finalize_accumulate:
  assumes "list_all (num_is_integer \<circ> d_index) ds"
  shows "finalizeToolCalls (accumulate ds) =
    map (\<lambda>i. assembled (Fin (of_int i)) (deltas_at (Fin (of_int i)) ds)) (tool_indices ds)"
proof -
  let ?s = "js_sort index_gt (accumulate ds)"
  have "snd p = assembled (Fin (of_int (num_int (fst p)))) (deltas_at (Fin (of_int (num_int (fst p)))) ds)"
    if "p \<in> set ?s" for p
  proof -
    have "map_of (accumulate ds) (fst p) = Some (snd p)"
      using that distinct_accumulate [of ds] by simp
    then have "fst p \<in> d_index ` set ds" "snd p = assembled (fst p) (deltas_at (fst p) ds)"
      by (auto simp: map_of_accumulate split: if_splits)
    then show ?thesis using assms num_int_inj by (auto simp: list_all_iff)
  qed
  then have "map snd ?s =
      map (\<lambda>p. assembled (Fin (of_int (num_int (fst p)))) (deltas_at (Fin (of_int (num_int (fst p)))) ds)) ?s"
    by simp
  also have "\<dots> = map (\<lambda>i. assembled (Fin (of_int i)) (deltas_at (Fin (of_int i)) ds))
      (map (num_int \<circ> fst) ?s)" by simp
  finally show ?thesis by (simp add: finalizeToolCalls_def sorted_keys [OF assms])
qed

text \<open>C3: streamed tool calls come out one per index, in ascending index order, each with the
  concatenation of its name and argument fragments and its last non-empty id.\<close>

theorem tool_calls_reassembled:
  assumes "list_all (num_is_integer \<circ> d_index) ds"
  shows "finalizeToolCalls (accumulate ds) =
    map (\<lambda>i. assembled (Fin (of_int i)) (deltas_at (Fin (of_int i)) ds)) (tool_indices ds)"
  using assms by (rule finalize_accumulate)

definition example_deltas :: "ToolCallDelta list" where
  "example_deltas =
     [\<lparr>d_index = Fin 1, d_id = Some (js ''b''), d_name = Some (js ''g''), d_arguments = None\<rparr>,
      \<lparr>d_index = Fin 0, d_id = Some (js ''a''), d_name = Some (js ''f''), d_arguments = Some (js ''{'')\<rparr>,
      \<lparr>d_index = Fin 1, d_id = None, d_name = None, d_arguments = Some (js ''[]'')\<rparr>,
      \<lparr>d_index = Fin 0, d_id = None, d_name = None, d_arguments = Some (js ''}'')\<rparr>]"

theorem tool_calls_reassembled_witness:
  "finalizeToolCalls (accumulate example_deltas) =
    [\<lparr>tc_id = js ''a'', tc_name = js ''f'', tc_arguments = js ''{}''\<rparr>,
     \<lparr>tc_id = js ''b'', tc_name = js ''g'', tc_arguments = js ''[]''\<rparr>]"
proof -
  have "list_all (num_is_integer \<circ> d_index) example_deltas" by code_simp
  moreover have "tool_indices example_deltas = [0, 1]" by code_simp
  ultimately show ?thesis
    using tool_calls_reassembled [of example_deltas]
    by (simp add: example_deltas_def deltas_at_def assembled_def js_def)
qed

text \<open>How the fragments of different tool calls are interleaved does not matter: two streams
  with the same fragments in the same order at every index give the same tool calls.\<close>

theorem tool_calls_interleaving:
  assumes "list_all (num_is_integer \<circ> d_index) ds" "\<forall>i. deltas_at i ds = deltas_at i es"
  shows "finalizeToolCalls (accumulate es) = finalizeToolCalls (accumulate ds)"
proof -
  have k: "d_index ` set ds = d_index ` set es"
    using assms(2) by (intro set_eqI) (metis deltas_at_Nil_iff)
  have "\<forall>x\<in>d_index ` set ds. num_is_integer x" using assms(1) by (simp add: list_all_iff)
  then have "\<forall>x\<in>d_index ` set es. num_is_integer x" by (simp only: k)
  then have e: "list_all (num_is_integer \<circ> d_index) es" by (simp add: list_all_iff)
  have "tool_indices es = tool_indices ds"
    using arg_cong [OF k, of "image num_int"] by (simp add: tool_indices_def image_image)
  then show ?thesis
    using finalize_accumulate [OF assms(1)] finalize_accumulate [OF e] assms(2) by simp
qed

definition reordered_deltas :: "ToolCallDelta list" where
  "reordered_deltas = [example_deltas ! 1, example_deltas ! 0, example_deltas ! 3, example_deltas ! 2]"

theorem tool_calls_interleaving_witness:
  "finalizeToolCalls (accumulate reordered_deltas) = finalizeToolCalls (accumulate example_deltas)
   \<and> reordered_deltas \<noteq> example_deltas"
proof -
  have "list_all (num_is_integer \<circ> d_index) example_deltas" by code_simp
  moreover have "\<forall>i. deltas_at i example_deltas = deltas_at i reordered_deltas"
    by (simp add: deltas_at_def example_deltas_def reordered_deltas_def)
  moreover have "reordered_deltas \<noteq> example_deltas" by (simp add: example_deltas_def reordered_deltas_def)
  ultimately show ?thesis using tool_calls_interleaving [of example_deltas reordered_deltas] by simp
qed

end
