(* ===== verification/Stream_Request.thy ===== *)
theory Stream_Request
  imports Stream_Parser
begin

text \<open>
  The streaming hook (\<^verbatim>\<open>features/playground/hooks/use-stream-request.ts\<close>): the connections it keeps,
  one per stream id, and its event listeners. A connection is an object of \<open>objects\<close>, named by its
  position; its record holds the variables that the listeners close over (\<^verbatim>\<open>pendingUsage\<close>,
  \<^verbatim>\<open>finishReason\<close>, \<^verbatim>\<open>toolAcc\<close> and the target whose callbacks were passed) and whether
  \<^verbatim>\<open>close()\<close> was called on it. \<^verbatim>\<open>SSE\<close> is a third-party class: when it delivers
  an event, and with which data, is an input of the step relation, and nothing is assumed of it: every
  connection that was ever made may deliver \<^verbatim>\<open>message\<close>, \<^verbatim>\<open>error\<close> and \<^verbatim>\<open>readystatechange\<close> events
  at any time, also after the hook closed it. The callbacks do not call
  back into the hook, so a listener returns the list of the calls it makes.
  The theory shows that the hook never leaks a connection, counts exactly the open ones, and
  what it can still call back for a stream that has completed.
\<close>

record ChatTarget =
  tg_key :: jstring
  tg_model :: jstring

record Source =
  so_streamId :: jstring
  so_payload :: ChatCompletionRequest
  so_target :: ChatTarget
  so_closed :: bool
  so_pendingUsage :: "TokenUsage option"
  so_finishReason :: "jstring option"
  so_toolAcc :: ToolCallAccumulator

record StreamHook =
  sourcesRef :: "(jstring \<times> nat) list"
  completedRef :: "jstring set"
  activeCount :: nat
  objects :: "Source list"

datatype UpdateKind = UpdReasoning | UpdContent | UpdRefusal

datatype StreamCallback =
    OnUpdate UpdateKind jstring
  | OnToolCalls "ToolCall list"
  | OnAnnotations "UrlCitationAnnotation list"
  | OnComplete "TokenUsage option" "jstring option" "ToolCall list option"
  | OnError jstring "jstring option"

definition empty_hook :: StreamHook where
  "empty_hook = \<lparr>sourcesRef = [], completedRef = {}, activeCount = 0, objects = []\<rparr>"

section \<open>Operations\<close>

definition close_source :: "nat \<Rightarrow> StreamHook \<Rightarrow> StreamHook" where
  "close_source n h = h\<lparr>objects := (objects h)[n := (objects h ! n)\<lparr>so_closed := True\<rparr>]\<rparr>"

definition closeStream :: "jstring \<Rightarrow> StreamHook \<Rightarrow> StreamHook" where
  "closeStream sid h =
     (case map_of (sourcesRef h) sid of
        None \<Rightarrow> h
      | Some n \<Rightarrow>
          (let refs = AList.delete sid (sourcesRef h)
           in (close_source n h)\<lparr>sourcesRef := refs, activeCount := length refs\<rparr>))"

definition handleError ::
  "jstring \<Rightarrow> jstring \<Rightarrow> jstring option \<Rightarrow> StreamHook \<Rightarrow> StreamHook \<times> StreamCallback list" where
  "handleError sid errorMessage errorCode h =
     (if sid \<in> completedRef h then (h, []) else (closeStream sid h, [OnError errorMessage errorCode]))"

text \<open>\<open>started\<close> is whether \<^verbatim>\<open>source.stream()\<close> returned or threw.\<close>

definition sendStreamRequest ::
  "(jstring \<Rightarrow> jstring) \<Rightarrow> jstring \<Rightarrow> ChatCompletionRequest \<Rightarrow> ChatTarget \<Rightarrow> bool \<Rightarrow> StreamHook
   \<Rightarrow> StreamHook \<times> StreamCallback list" where
  "sendStreamRequest t sid payload target started h =
     (let source = \<lparr>so_streamId = sid, so_payload = payload, so_target = target, so_closed = False,
            so_pendingUsage = None, so_finishReason = None, so_toolAcc = []\<rparr>;
          n = length (objects h);
          h1 = h\<lparr>objects := objects h @ [source]\<rparr>;
          h2 = (case map_of (sourcesRef h1) sid of None \<Rightarrow> h1 | Some old \<Rightarrow> close_source old h1);
          refs = AList.update sid n (sourcesRef h2);
          h3 = h2\<lparr>sourcesRef := refs, completedRef := completedRef h2 - {sid}, activeCount := length refs\<rparr>
      in if started then (h3, [])
         else (closeStream sid h3, [OnError (t (ERROR_MESSAGES STREAM_START_ERROR)) None]))"

definition upd_source :: "nat \<Rightarrow> (Source \<Rightarrow> Source) \<Rightarrow> StreamHook \<Rightarrow> StreamHook" where
  "upd_source n f h = h\<lparr>objects := (objects h)[n := f (objects h ! n)]\<rparr>"

definition done_callback :: "Source \<Rightarrow> StreamCallback" where
  "done_callback s =
     (let toolCalls = finalizeToolCalls (so_toolAcc s)
      in OnComplete (so_pendingUsage s) (so_finishReason s)
           (if toolCalls \<noteq> [] then Some toolCalls else None))"

text \<open>The loop of the message listener of source \<open>n\<close>: done and parse errors return from it.\<close>

fun run_events ::
  "(jstring \<Rightarrow> jstring) \<Rightarrow> nat \<Rightarrow> ParsedStreamEvent list \<Rightarrow> StreamHook \<Rightarrow> StreamHook \<times> StreamCallback list" where
  "run_events t n [] h = (h, [])"
| "run_events t n (ev # evs) h =
     (let s = objects h ! n; sid = so_streamId s
      in case ev of
           EvDone \<Rightarrow>
             (closeStream sid (h\<lparr>completedRef := insert sid (completedRef h)\<rparr>), [done_callback s])
         | EvParseError raw \<Rightarrow> handleError sid (t (ERROR_MESSAGES PARSE_ERROR)) None h
         | EvUsage u \<Rightarrow> run_events t n evs (upd_source n (\<lambda>s. s\<lparr>so_pendingUsage := Some u\<rparr>) h)
         | EvFinish r \<Rightarrow> run_events t n evs (upd_source n (\<lambda>s. s\<lparr>so_finishReason := Some r\<rparr>) h)
         | EvReasoning x \<Rightarrow> apsnd (Cons (OnUpdate UpdReasoning x)) (run_events t n evs h)
         | EvContent x \<Rightarrow> apsnd (Cons (OnUpdate UpdContent x)) (run_events t n evs h)
         | EvRefusal x \<Rightarrow> apsnd (Cons (OnUpdate UpdRefusal x)) (run_events t n evs h)
         | EvAnnotations as \<Rightarrow> apsnd (Cons (OnAnnotations as)) (run_events t n evs h)
         | EvToolCallDelta d \<Rightarrow>
             (let acc = applyToolCallDelta (so_toolAcc s) d
              in apsnd (Cons (OnToolCalls (finalizeToolCalls acc)))
                   (run_events t n evs (upd_source n (\<lambda>s. s\<lparr>so_toolAcc := acc\<rparr>) h))))"

text \<open>The message listener; \<open>Inl\<close> when the parser throws out of it.\<close>

definition on_message ::
  "(jstring \<Rightarrow> jstring) \<Rightarrow> nat \<Rightarrow> jstring \<Rightarrow> StreamHook \<Rightarrow> js_error + StreamHook \<times> StreamCallback list" where
  "on_message t n data h =
     (case parseSseData data of Inl e \<Rightarrow> Inl e | Inr evs \<Rightarrow> Inr (run_events t n evs h))"

text \<open>Message and code of an error event: the body's own error when it is JSON with one.\<close>

definition error_of_data :: "(jstring \<Rightarrow> jstring) \<Rightarrow> jstring option \<Rightarrow> jstring \<times> jstring option" where
  "error_of_data t data =
     (let errorMessage = str_or data (t (ERROR_MESSAGES API_REQUEST_ERROR))
      in case data of
           None \<Rightarrow> (errorMessage, None)
         | Some s \<Rightarrow>
             if s = [] then (errorMessage, None)
             else case json_parse s of
                    None \<Rightarrow> (errorMessage, None)
                  | Some parsed \<Rightarrow>
                      (let e = get_prop (js ''error'') parsed
                       in if truthy e
                          then (str_or (opt_text (opt_prop (js ''message'') e)) errorMessage,
                                opt_text (opt_prop (js ''code'') e))
                          else (errorMessage, None)))"

definition on_error ::
  "(jstring \<Rightarrow> jstring) \<Rightarrow> nat \<Rightarrow> int \<Rightarrow> jstring option \<Rightarrow> StreamHook \<Rightarrow> StreamHook \<times> StreamCallback list" where
  "on_error t n readyState data h =
     (if readyState \<noteq> 2
      then (let (errorMessage, errorCode) = error_of_data t data
            in handleError (so_streamId (objects h ! n)) errorMessage errorCode h)
      else (h, []))"

definition on_readystatechange ::
  "(jstring \<Rightarrow> jstring) \<Rightarrow> nat \<Rightarrow> int option \<Rightarrow> int option \<Rightarrow> StreamHook \<Rightarrow> StreamHook \<times> StreamCallback list" where
  "on_readystatechange t n readyState status h =
     (case (readyState, status) of
        (Some r, Some st) \<Rightarrow>
          if 2 \<le> r \<and> st \<noteq> 200
          then handleError (so_streamId (objects h ! n))
                 (js ''HTTP '' @ show_int st @ js '': '' @ t (ERROR_MESSAGES CONNECTION_CLOSED)) None h
          else (h, [])
      | _ \<Rightarrow> (h, []))"

definition stopStream :: "jstring option \<Rightarrow> StreamHook \<Rightarrow> StreamHook" where
  "stopStream streamId h =
     (if str_or streamId [] \<noteq> [] then
        (let sid = the streamId;
             h1 = (case map_of (sourcesRef h) sid of None \<Rightarrow> h | Some n \<Rightarrow> close_source n h);
             refs = AList.delete sid (sourcesRef h1)
         in h1\<lparr>sourcesRef := refs, activeCount := length refs\<rparr>)
      else (fold (\<lambda>p. close_source (snd p)) (sourcesRef h) h)\<lparr>sourcesRef := [], activeCount := 0\<rparr>)"

definition isStreaming :: "StreamHook \<Rightarrow> bool" where
  "isStreaming h \<longleftrightarrow> 0 < activeCount h"

section \<open>The hook as a transition system\<close>

datatype stream_label =
    LSend jstring ChatCompletionRequest ChatTarget bool
  | LMessage nat jstring
  | LError nat int "jstring option"
  | LReady nat "int option" "int option"
  | LStop "jstring option"

text \<open>
  A step of the hook: the label, the calls it makes with the connection that makes them, and the new
  state. A throw out of the message listener leaves the state as it is.
\<close>

inductive stream_step ::
  "(jstring \<Rightarrow> jstring) \<Rightarrow> StreamHook \<Rightarrow> stream_label \<Rightarrow> (nat \<times> StreamCallback) list \<Rightarrow> StreamHook \<Rightarrow> bool"
  for t where
  send: "sendStreamRequest t sid payload target started h = (h', cbs) \<Longrightarrow>
     stream_step t h (LSend sid payload target started) (map (Pair (length (objects h))) cbs) h'"
| message: "n < length (objects h) \<Longrightarrow> on_message t n data h = Inr (h', cbs) \<Longrightarrow>
     stream_step t h (LMessage n data) (map (Pair n) cbs) h'"
| message_throw: "n < length (objects h) \<Longrightarrow> on_message t n data h = Inl e \<Longrightarrow>
     stream_step t h (LMessage n data) [] h"
| error: "n < length (objects h) \<Longrightarrow> on_error t n readyState data h = (h', cbs) \<Longrightarrow>
     stream_step t h (LError n readyState data) (map (Pair n) cbs) h'"
| ready: "n < length (objects h) \<Longrightarrow> on_readystatechange t n readyState status h = (h', cbs) \<Longrightarrow>
     stream_step t h (LReady n readyState status) (map (Pair n) cbs) h'"
| stop: "stream_step t h (LStop sid) [] (stopStream sid h)"

inductive reachable :: "(jstring \<Rightarrow> jstring) \<Rightarrow> StreamHook \<Rightarrow> bool" for t where
  start: "reachable t empty_hook"
| step: "reachable t h \<Longrightarrow> stream_step t h l cbs h' \<Longrightarrow> reachable t h'"

inductive_cases stream_stepE: "stream_step t h l cbs h'"

section \<open>Invariant\<close>

text \<open>A connection on which the hook has not called \<^verbatim>\<open>close()\<close>. Whether the server or the library
  ended it on their side is not visible to the hook, and a connection they ended still counts as open here.\<close>

definition is_open :: "StreamHook \<Rightarrow> nat \<Rightarrow> bool" where
  "is_open h n \<longleftrightarrow> n < length (objects h) \<and> \<not> so_closed (objects h ! n)"

definition stream_of :: "StreamHook \<Rightarrow> nat \<Rightarrow> jstring" where
  "stream_of h n = so_streamId (objects h ! n)"

text \<open>The registered connections are exactly the open ones, each under its own stream id.\<close>

definition hook_core :: "StreamHook \<Rightarrow> bool" where
  "hook_core h \<longleftrightarrow> activeCount h = length (sourcesRef h) \<and> distinct (map fst (sourcesRef h))
     \<and> (\<forall>sid n. map_of (sourcesRef h) sid = Some n \<longleftrightarrow> is_open h n \<and> stream_of h n = sid)"

definition hook_inv :: "StreamHook \<Rightarrow> bool" where
  "hook_inv h \<longleftrightarrow> hook_core h \<and> (\<forall>sid\<in>completedRef h. map_of (sourcesRef h) sid = None)"

lemma hook_coreD:
  assumes "hook_core h"
  shows "activeCount h = length (sourcesRef h)" "distinct (map fst (sourcesRef h))"
    "map_of (sourcesRef h) sid = Some n \<longleftrightarrow> is_open h n \<and> stream_of h n = sid"
  using assms by (auto simp: hook_core_def)

lemma nth_modify: "xs[n := f (xs ! n)] ! i = (if i = n \<and> n < length xs then f (xs ! n) else xs ! i)"
  by (cases "n < length xs") (auto simp: nth_list_update list_update_beyond not_less)

lemma close_source_simps [simp]:
  "sourcesRef (close_source n h) = sourcesRef h" "completedRef (close_source n h) = completedRef h"
  "length (objects (close_source n h)) = length (objects h)"
  "stream_of (close_source n h) i = stream_of h i"
  "is_open (close_source n h) i \<longleftrightarrow> is_open h i \<and> i \<noteq> n"
  by (auto simp: close_source_def is_open_def stream_of_def nth_modify)

lemma map_of_closeStream:
  "map_of (sourcesRef (closeStream sid h)) = (map_of (sourcesRef h))(sid := None)"
  by (cases "map_of (sourcesRef h) sid") (auto simp: closeStream_def Let_def delete_conv')

lemma closeStream_simps [simp]:
  "completedRef (closeStream sid h) = completedRef h"
  "length (objects (closeStream sid h)) = length (objects h)"
  "stream_of (closeStream sid h) i = stream_of h i"
  by (auto simp: closeStream_def Let_def stream_of_def split: option.splits)
    (auto simp flip: stream_of_def)

lemma is_open_fields:
  "is_open (h\<lparr>sourcesRef := r, activeCount := a\<rparr>) n = is_open h n"
  "stream_of (h\<lparr>sourcesRef := r, activeCount := a\<rparr>) n = stream_of h n"
  by (simp_all add: is_open_def stream_of_def)

lemma closeStream_core: "hook_core h \<Longrightarrow> hook_core (closeStream sid h)"
proof (cases "map_of (sourcesRef h) sid")
  case (Some n)
  assume c: "hook_core h"
  note r = hook_coreD(3) [OF c]
  have "((map_of (sourcesRef h))(sid := None)) s = Some m \<longleftrightarrow> is_open h m \<and> m \<noteq> n \<and> stream_of h m = s" for s m
    using Some r [of sid n] r [of s m] r [of sid m] by auto
  then show ?thesis
    using Some hook_coreD(2) [OF c]
    by (simp add: closeStream_def hook_core_def Let_def is_open_fields delete_conv' distinct_delete)
qed (simp add: closeStream_def)

lemma closeStream_inv: "hook_inv h \<Longrightarrow> hook_inv (closeStream sid h)"
  by (simp add: hook_inv_def closeStream_core map_of_closeStream)

lemma complete_inv:
  "hook_inv h \<Longrightarrow> hook_inv (closeStream sid (h\<lparr>completedRef := insert sid (completedRef h)\<rparr>))"
  by (simp add: hook_inv_def map_of_closeStream)
    (rule closeStream_core, simp add: hook_core_def is_open_def stream_of_def)

lemma handleError_inv: "hook_inv h \<Longrightarrow> handleError sid m c h = (h', cbs) \<Longrightarrow> hook_inv h'"
  by (auto simp: handleError_def closeStream_inv split: if_splits)

lemma upd_source_simps [simp]:
  assumes "\<And>s. so_closed (f s) = so_closed s" "\<And>s. so_streamId (f s) = so_streamId s"
  shows "is_open (upd_source n f h) i = is_open h i" "stream_of (upd_source n f h) i = stream_of h i"
    "sourcesRef (upd_source n f h) = sourcesRef h" "completedRef (upd_source n f h) = completedRef h"
    "activeCount (upd_source n f h) = activeCount h"
    "length (objects (upd_source n f h)) = length (objects h)"
  using assms by (simp_all add: upd_source_def is_open_def stream_of_def nth_modify cong: conj_cong)

lemma upd_source_inv:
  assumes "\<And>s. so_closed (f s) = so_closed s" "\<And>s. so_streamId (f s) = so_streamId s" "hook_inv h"
  shows "hook_inv (upd_source n f h)"
  using assms(3) upd_source_simps [OF assms(1,2)] by (simp add: hook_inv_def hook_core_def)

lemma upd_source_inv_simps:
  "hook_inv h \<Longrightarrow> hook_inv (upd_source n (so_pendingUsage_update u) h)"
  "hook_inv h \<Longrightarrow> hook_inv (upd_source n (so_finishReason_update r) h)"
  "hook_inv h \<Longrightarrow> hook_inv (upd_source n (so_toolAcc_update a) h)"
  by (simp_all add: upd_source_inv)

lemma run_events_inv:
  "hook_inv h \<Longrightarrow> run_events t n evs h = (h', cbs) \<Longrightarrow> hook_inv h'"
proof (induction evs arbitrary: h cbs)
  case (Cons ev evs)
  note inv = upd_source_inv_simps [OF Cons.prems(1)] Cons.prems(1)
  from Cons.prems(2) show ?case
    by (cases ev)
      (auto simp: Let_def apsnd_def map_prod_def split: prod.splits
        intro: Cons.IH [OF inv(4)] Cons.IH [OF inv(1)] Cons.IH [OF inv(2)] Cons.IH [OF inv(3)]
          complete_inv [OF inv(4)] handleError_inv [OF inv(4)])
qed simp

definition new_source :: "jstring \<Rightarrow> ChatCompletionRequest \<Rightarrow> ChatTarget \<Rightarrow> Source" where
  "new_source sid p tg = \<lparr>so_streamId = sid, so_payload = p, so_target = tg, so_closed = False,
     so_pendingUsage = None, so_finishReason = None, so_toolAcc = []\<rparr>"

lemma new_object:
  "is_open (h\<lparr>objects := objects h @ [new_source sid p tg]\<rparr>) i \<longleftrightarrow> i = length (objects h) \<or> is_open h i"
  "i < length (objects h) \<Longrightarrow> stream_of (h\<lparr>objects := objects h @ [new_source sid p tg]\<rparr>) i = stream_of h i"
  "stream_of (h\<lparr>objects := objects h @ [new_source sid p tg]\<rparr>) (length (objects h)) = sid"
  by (auto simp: is_open_def stream_of_def new_source_def nth_append)

lemma hook_fields:
  "is_open (h\<lparr>sourcesRef := r, completedRef := c, activeCount := a\<rparr>) n = is_open h n"
  "stream_of (h\<lparr>sourcesRef := r, completedRef := c, activeCount := a\<rparr>) n = stream_of h n"
  by (simp_all add: is_open_def stream_of_def)

lemma send_open:
  assumes "hook_core h" "sendStreamRequest t sid p tg True h = (h', cbs)"
  shows "is_open h' i \<longleftrightarrow> i = length (objects h) \<or> is_open h i \<and> map_of (sourcesRef h) sid \<noteq> Some i"
    "i < length (objects h) \<Longrightarrow> stream_of h' i = stream_of h i" "stream_of h' (length (objects h)) = sid"
    "map_of (sourcesRef h') = (map_of (sourcesRef h))(sid \<mapsto> length (objects h))"
    "completedRef h' = completedRef h - {sid}" "activeCount h' = length (sourcesRef h')"
    "distinct (map fst (sourcesRef h')) \<and> cbs = [] \<and> length (objects h') = Suc (length (objects h))"
proof -
  have lt: "map_of (sourcesRef h) sid = Some n \<Longrightarrow> n < length (objects h)" for n
    using hook_coreD(3) [OF assms(1)] by (auto simp: is_open_def)
  note defs = sendStreamRequest_def Let_def new_source_def [symmetric] hook_fields update_conv'
    distinct_update new_object hook_coreD(2) [OF assms(1)]
  show "is_open h' i \<longleftrightarrow> i = length (objects h) \<or> is_open h i \<and> map_of (sourcesRef h) sid \<noteq> Some i"
    using assms(2) lt by (cases "map_of (sourcesRef h) sid") (auto simp: defs)
  show "i < length (objects h) \<Longrightarrow> stream_of h' i = stream_of h i" "stream_of h' (length (objects h)) = sid"
    "map_of (sourcesRef h') = (map_of (sourcesRef h))(sid \<mapsto> length (objects h))"
    "completedRef h' = completedRef h - {sid}" "activeCount h' = length (sourcesRef h')"
    "distinct (map fst (sourcesRef h')) \<and> cbs = [] \<and> length (objects h') = Suc (length (objects h))"
    using assms(2) by (cases "map_of (sourcesRef h) sid"; auto simp: defs)+
qed

lemma send_inv_True:
  assumes "hook_inv h" "sendStreamRequest t sid p tg True h = (h', cbs)"
  shows "hook_inv h'"
proof -
  have c: "hook_core h" using assms(1) by (simp add: hook_inv_def)
  note r = hook_coreD(3) [OF c]
  note o = send_open [OF c assms(2)]
  have "map_of (sourcesRef h') x = Some n \<longleftrightarrow> is_open h' n \<and> stream_of h' n = x" for x n
  proof (cases "n = length (objects h)")
    case True
    have "map_of (sourcesRef h) x \<noteq> Some n" using r [of x n] True by (simp add: is_open_def)
    then show ?thesis using True o(1,3,4) by auto
  next
    case False
    have "is_open h n \<Longrightarrow> stream_of h' n = stream_of h n" using o(2) by (simp add: is_open_def)
    then show ?thesis using False o(1) [of n] o(4) r [of x n] r [of sid n] by auto
  qed
  then have "hook_core h'" using o(6,7) by (simp add: hook_core_def)
  then show ?thesis using assms(1) o(4,5) by (simp add: hook_inv_def)
qed

lemma send_False:
  "sendStreamRequest t sid p tg False h =
     (closeStream sid (fst (sendStreamRequest t sid p tg True h)),
      [OnError (t (ERROR_MESSAGES STREAM_START_ERROR)) None])"
  by (simp add: sendStreamRequest_def Let_def)

lemma send_inv: "hook_inv h \<Longrightarrow> sendStreamRequest t sid p tg st h = (h', cbs) \<Longrightarrow> hook_inv h'"
proof (cases st)
  case False
  assume "hook_inv h" "sendStreamRequest t sid p tg st h = (h', cbs)"
  then show ?thesis
    using False send_inv_True [of h t sid p tg "fst (sendStreamRequest t sid p tg True h)"]
    by (auto simp: send_False closeStream_inv prod_eq_iff)
qed (auto intro: send_inv_True)

lemma close_all:
  "is_open (fold (\<lambda>p. close_source (snd p)) ps h) i \<longleftrightarrow> is_open h i \<and> i \<notin> snd ` set ps"
  "stream_of (fold (\<lambda>p. close_source (snd p)) ps h) i = stream_of h i"
  "completedRef (fold (\<lambda>p. close_source (snd p)) ps h) = completedRef h"
  by (induction ps arbitrary: h) auto

lemma registered_open:
  "hook_core h \<Longrightarrow> is_open h i \<Longrightarrow> (stream_of h i, i) \<in> set (sourcesRef h)"
  by (metis hook_coreD(3) map_of_SomeD)

lemma stopAll_open: "hook_core h \<Longrightarrow> str_or sid [] = [] \<Longrightarrow> \<not> is_open (stopStream sid h) i"
  using registered_open [of h i] by (force simp: stopStream_def is_open_fields close_all)

lemma stopStream_inv: "hook_inv h \<Longrightarrow> hook_inv (stopStream sid h)"
proof (cases "str_or sid [] = []")
  case True
  assume "hook_inv h"
  then have "\<not> is_open (stopStream sid h) i" for i using stopAll_open [OF _ True] by (simp add: hook_inv_def)
  then show ?thesis using True by (simp add: hook_inv_def hook_core_def) (simp add: stopStream_def)
next
  case False
  assume inv: "hook_inv h"
  then have "stopStream sid h = closeStream (the sid) h"
    using False hook_coreD(1) [of h] map_of_eq_None_iff [of "sourcesRef h" "the sid"]
    by (cases "map_of (sourcesRef h) (the sid)")
      (simp_all add: stopStream_def closeStream_def Let_def hook_inv_def delete_idem)
  then show ?thesis using inv by (simp add: closeStream_inv)
qed

lemma stream_step_inv: "stream_step t h l cbs h' \<Longrightarrow> hook_inv h \<Longrightarrow> hook_inv h'"
proof (induction rule: stream_step.induct)
  case (send sid payload target started h h' cbs)
  then show ?case using send_inv by blast
next
  case (message n h data h' cbs)
  then show ?case by (auto simp: on_message_def intro: run_events_inv split: sum.splits)
next
  case (error n h readyState data h' cbs)
  then show ?case
    by (auto simp: on_error_def handleError_inv split: if_splits prod.splits)
next
  case (ready n h readyState status h' cbs)
  then show ?case
    by (auto simp: on_readystatechange_def handleError_inv split: if_splits option.splits)
qed (simp_all add: stopStream_inv)

lemma reachable_inv: "reachable t h \<Longrightarrow> hook_inv h"
proof (induction rule: reachable.induct)
  case start
  show ?case by (simp add: empty_hook_def hook_inv_def hook_core_def is_open_def)
qed (rule stream_step_inv)

section \<open>Properties of the hook\<close>

lemma open_eq_registered: "hook_core h \<Longrightarrow> {n. is_open h n} = snd ` set (sourcesRef h)"
proof (intro set_eqI iffI)
  fix n
  assume c: "hook_core h"
  show "n \<in> {n. is_open h n} \<Longrightarrow> n \<in> snd ` set (sourcesRef h)" using registered_open [OF c, of n] by force
  assume "n \<in> snd ` set (sourcesRef h)"
  then obtain x where "(x, n) \<in> set (sourcesRef h)" by auto
  then show "n \<in> {n. is_open h n}" using hook_coreD(2,3) [OF c] by (metis map_of_eq_Some_iff mem_Collect_eq)
qed

lemma card_open:
  assumes "hook_core h"
  shows "card {n. is_open h n} = activeCount h"
proof -
  have "inj_on snd (set (sourcesRef h))"
    using hook_coreD(2,3) [OF assms] by (auto simp: inj_on_def map_of_eq_Some_iff)
  moreover have "distinct (sourcesRef h)" using hook_coreD(2) [OF assms] by (simp add: distinct_map)
  ultimately show ?thesis
    using hook_coreD(1) [OF assms] by (simp add: open_eq_registered [OF assms] card_image distinct_card)
qed

text \<open>C1: no connection leaks: in every reachable state a stream id has a connection registered exactly
  when that connection is open and is its own, no stream has two, and the count behind \<^verbatim>\<open>isStreaming\<close>
  is the number of open connections.\<close>

theorem connections_never_leak:
  assumes "reachable t h"
  shows "(map_of (sourcesRef h) sid = Some n \<longleftrightarrow> is_open h n \<and> stream_of h n = sid)
    \<and> (is_open h n \<and> is_open h m \<and> stream_of h n = stream_of h m \<longrightarrow> n = m)
    \<and> activeCount h = card {n. is_open h n} \<and> (isStreaming h \<longleftrightarrow> (\<exists>n. is_open h n))"
proof (intro conjI)
  have c: "hook_core h" using reachable_inv [OF assms] by (simp add: hook_inv_def)
  note r = hook_coreD(3) [OF c]
  show "map_of (sourcesRef h) sid = Some n \<longleftrightarrow> is_open h n \<and> stream_of h n = sid" by (rule r)
  show "is_open h n \<and> is_open h m \<and> stream_of h n = stream_of h m \<longrightarrow> n = m"
    using r [of "stream_of h n" n] r [of "stream_of h n" m] by auto
  show "activeCount h = card {n. is_open h n}" by (simp add: card_open [OF c])
  show "isStreaming h \<longleftrightarrow> (\<exists>n. is_open h n)"
    using hook_coreD(1) [OF c] open_eq_registered [OF c] by (cases "sourcesRef h") (auto simp: isStreaming_def)
qed

definition demo_request :: ChatCompletionRequest where
  "demo_request = \<lparr>rq_model = js ''m'', rq_group = None, rq_messages = [], rq_stream = True,
     rq_stream_options = None, rq_temperature = None, rq_top_p = None, rq_max_tokens = None,
     rq_frequency_penalty = None, rq_presence_penalty = None, rq_seed = None, rq_reasoning_effort = None,
     rq_reasoning = None, rq_web_search_options = None, rq_tools = None, rq_tool_choice = None,
     rq_response_format = None\<rparr>"

definition demo_target :: ChatTarget where
  "demo_target = \<lparr>tg_key = js ''k'', tg_model = js ''m''\<rparr>"

definition demo_hook :: StreamHook where
  "demo_hook = fst (sendStreamRequest id (js ''k'') demo_request demo_target True empty_hook)"

lemma demo_reachable: "reachable id demo_hook"
  by (rule reachable.step [OF reachable.start stream_step.send [of _ _ _ _ True _ _ "[]"]])
    (simp add: demo_hook_def sendStreamRequest_def Let_def)

theorem connections_never_leak_witness:
  "reachable id demo_hook \<and> isStreaming demo_hook \<and> map_of (sourcesRef demo_hook) (js ''k'') = Some 0"
proof -
  have "is_open demo_hook 0" "stream_of demo_hook 0 = js ''k''" by code_simp+
  then show ?thesis using connections_never_leak [OF demo_reachable] demo_reachable by blast
qed

lemma handleError_facts:
  "handleError sid m c h = (h', cbs) \<Longrightarrow> completedRef h' = completedRef h
     \<and> (sid \<in> completedRef h \<longrightarrow> cbs = []) \<and> stream_of h' i = stream_of h i"
  by (auto simp: handleError_def split: if_splits)

lemma run_events_facts:
  "run_events t n evs h = (h', cbs) \<Longrightarrow> completedRef h \<subseteq> completedRef h' \<and> stream_of h' i = stream_of h i"
proof (induction evs arbitrary: h cbs)
  case (Cons ev evs)
  have f: "stream_of (h\<lparr>completedRef := c\<rparr>) i = stream_of h i" for c by (simp add: stream_of_def)
  from Cons.prems show ?case
    by (cases ev)
      (auto simp: Let_def apsnd_def map_prod_def f split: prod.splits
        dest!: Cons.IH handleError_facts [where i = i])
qed simp

lemma send_facts:
  assumes "hook_core h" "sendStreamRequest t sid p tg st h = (h', cbs)"
  shows "completedRef h' = completedRef h - {sid}" "stream_of h' (length (objects h)) = sid"
proof -
  obtain h1 c1 where t: "sendStreamRequest t sid p tg True h = (h1, c1)" by fastforce
  show "completedRef h' = completedRef h - {sid}" "stream_of h' (length (objects h)) = sid"
    using assms(2) t send_open(3) [OF assms(1) t] send_open(5) [OF assms(1) t]
    by (cases st; simp add: send_False; metis closeStream_simps(1,3))+
qed

lemma run_events_no_error:
  "run_events t n evs h = (h', cbs) \<Longrightarrow> stream_of h n \<in> completedRef h \<Longrightarrow> OnError m c \<notin> set cbs"
proof (induction evs arbitrary: h cbs)
  case (Cons ev evs)
  from Cons.prems show ?case
    by (cases ev)
      (auto simp: Let_def apsnd_def map_prod_def done_callback_def handleError_def simp flip: stream_of_def
        split: prod.splits dest!: Cons.IH)
qed simp

text \<open>C7: once a stream has completed, it stays so until the same stream id is sent again, and the hook
  reports no error for it any more, whatever the connections deliver: not the error and readystatechange
  events that follow the end of a connection, nor an unreadable message. The only calls it can still make for
  the stream come from a message that is delivered on a connection which the hook has already closed; from an
  \<^verbatim>\<open>SSE\<close> object that delivers no message after \<^verbatim>\<open>close()\<close> the stream is quiet.\<close>

theorem completed_stream_is_quiet:
  assumes "reachable t h" "sid \<in> completedRef h" "stream_step t h l cbs h'"
    and "\<And>p tg st. l \<noteq> LSend sid p tg st"
  shows "sid \<in> completedRef h' \<and>
    list_all (\<lambda>(n, cb). stream_of h' n = sid \<longrightarrow>
      \<not> is_open h n \<and> (\<exists>data. l = LMessage n data) \<and> (\<forall>m c. cb \<noteq> OnError m c)) cbs"
proof -
  have inv: "hook_inv h" using assms(1) by (rule reachable_inv)
  then have core: "hook_core h" by (simp add: hook_inv_def)
  have closed: "stream_of h n = sid \<Longrightarrow> \<not> is_open h n" for n
    using inv assms(2) hook_coreD(3) [OF core, of sid n] by (auto simp: hook_inv_def)
  from assms(3) show ?thesis
  proof (cases rule: stream_step.cases)
    case (send s p tg st cbs0)
    then show ?thesis
      using assms(2,4) send_facts [OF core send(3)] by (auto simp: list_all_iff)
  next
    case (message n data cbs0)
    obtain evs where r: "run_events t n evs h = (h', cbs0)"
      using message(4) by (auto simp: on_message_def split: sum.splits)
    show ?thesis
      using message(1,2) assms(2) closed [of n] run_events_facts [OF r, of n] run_events_no_error [OF r]
      by (fastforce simp: list_all_iff)
  next
    case (error n rs data cbs0)
    then show ?thesis
      using assms(2) by (auto simp: on_error_def list_all_iff simp flip: stream_of_def split: if_splits prod.splits
          dest!: handleError_facts [where i = n])
  next
    case (ready n rs st cbs0)
    then show ?thesis
      using assms(2) by (auto simp: on_readystatechange_def list_all_iff simp flip: stream_of_def
          split: if_splits option.splits dest!: handleError_facts [where i = n])
  next
    case (stop x)
    have "completedRef (stopStream x h) = completedRef h"
      by (auto simp: stopStream_def Let_def close_all split: option.splits)
    with stop assms(2) show ?thesis by simp
  qed (simp add: assms(2))
qed

definition done_hook :: StreamHook where
  "done_hook = fst (projr (on_message id 0 DONE demo_hook))"

lemma done_reachable: "reachable id done_hook"
proof (rule reachable.step [OF demo_reachable])
  show "stream_step id demo_hook (LMessage 0 DONE) (map (Pair 0) (snd (projr (on_message id 0 DONE demo_hook)))) done_hook"
    by (rule stream_step.message)
      (simp_all add: demo_hook_def sendStreamRequest_def empty_hook_def Let_def done_hook_def on_message_def parseSseData_def)
qed

definition late_chunk :: jstring where
  "late_chunk = js ''{\"choices\":[{\"delta\":{\"content\":\"x\"}}]}''"

definition late_result :: "StreamHook \<times> StreamCallback list" where
  "late_result = projr (on_message id 0 late_chunk done_hook)"

theorem completed_stream_is_quiet_witness:
  "js ''k'' \<in> completedRef (fst late_result)
   \<and> list_all (\<lambda>(n, cb). stream_of (fst late_result) n = js ''k'' \<longrightarrow>
       \<not> is_open done_hook n \<and> (\<exists>data. LMessage 0 late_chunk = LMessage n data) \<and> (\<forall>m c. cb \<noteq> OnError m c))
      (map (Pair 0) (snd late_result))"
proof -
  have "js ''k'' \<in> completedRef done_hook" "0 < length (objects done_hook)"
    "\<not> isl (on_message id 0 late_chunk done_hook)" by code_simp+
  moreover from this(2,3) have "stream_step id done_hook (LMessage 0 late_chunk)
      (map (Pair 0) (snd late_result)) (fst late_result)"
    by (intro stream_step.message) (auto simp: late_result_def sum.expand)
  ultimately show ?thesis using completed_stream_is_quiet [OF done_reachable] by blast
qed

text \<open>The message listener does not ask \<^verbatim>\<open>completedRef\<close>: a message that were delivered on the closed connection
  of a completed stream would be passed on.\<close>

theorem late_message_passed_on:
  "js ''k'' \<in> completedRef done_hook \<and> \<not> is_open done_hook 0 \<and> snd late_result = [OnUpdate UpdContent (js ''x'')]"
  by code_simp

text \<open>A failure is not recorded the way a completion is: after the hook has reported an error for a
  stream and closed it, a further error event of that connection is reported again.\<close>

theorem error_reported_again:
  assumes "handleError sid m c h = (h', cbs)" "cbs \<noteq> []"
  shows "handleError sid m' c' h' = (h', [OnError m' c'])"
proof -
  have "sid \<notin> completedRef h'" "map_of (sourcesRef h') sid = None"
    using assms by (auto simp: handleError_def map_of_closeStream split: if_splits)
  then show ?thesis by (simp add: handleError_def closeStream_def)
qed

theorem error_reported_again_witness:
  "snd (handleError (js ''k'') (js ''a'') None demo_hook) = [OnError (js ''a'') None]
   \<and> snd (handleError (js ''k'') (js ''b'') None (fst (handleError (js ''k'') (js ''a'') None demo_hook)))
       = [OnError (js ''b'') None]"
proof -
  have a: "snd (handleError (js ''k'') (js ''a'') None demo_hook) = [OnError (js ''a'') None]" by code_simp
  from error_reported_again [of "js ''k''" "js ''a''" None demo_hook _ _ "js ''b''" None]
  show ?thesis using a by (metis list.distinct(1) prod.collapse snd_conv)
qed

end
