(* ===== verification/Message_Utils.thy ===== *)
theory Message_Utils
  imports Playground_Types
begin

text \<open>
  \<^verbatim>\<open>features/playground/lib/message-utils.ts\<close>: creating messages, the active version of a message,
  formatting for the API, splitting \<^verbatim>\<open><think>\<close> blocks from visible text, updating one message
  of a conversation, and finalizing or sanitizing messages after a stream ends or a reload.
  Fresh identifiers (\<^verbatim>\<open>nanoid()\<close>) are arguments, in the order the code draws them, and so is the
  translation function \<^verbatim>\<open>i18next.t\<close>. The lemmas of the locale \<open>keyed_update\<close> are what the chat
  session relies on when a callback updates the message of its own stream.
\<close>

section \<open>Versions of a message\<close>

text \<open>\<^verbatim>\<open>createMessageVersion(content)\<close>; no caller passes extras.\<close>

definition createMessageVersion :: "jstring \<Rightarrow> jstring \<Rightarrow> MessageVersion" where
  "createMessageVersion nid content =
     \<lparr>v_id = nid, v_content = content, v_toolCalls = None, v_reasoning = None,
      v_refusal = None, v_finishReason = None\<rparr>"

definition getActiveVersionIndex :: "Message \<Rightarrow> nat" where
  "getActiveVersionIndex message =
     (if m_versions message = [] then 0
      else case m_activeVersionIndex message of
        Some i \<Rightarrow>
          if 0 \<le> i \<and> i < int (length (m_versions message)) then nat i
          else length (m_versions message) - 1
      | None \<Rightarrow> length (m_versions message) - 1)"

definition getCurrentVersion :: "Message \<Rightarrow> MessageVersion" where
  "getCurrentVersion message =
     (let idx = getActiveVersionIndex message
      in if idx < length (m_versions message) then m_versions message ! idx
         else createMessageVersion (js ''default'') [])"

text \<open>\<^verbatim>\<open>message.versions.map((v, i) => i === idx ? f(v) : v)\<close>.\<close>

definition map_active :: "(MessageVersion \<Rightarrow> MessageVersion) \<Rightarrow> Message \<Rightarrow> MessageVersion list" where
  "map_active f message =
     map (\<lambda>(i, v). if i = getActiveVersionIndex message then f v else v)
       (enumerate 0 (m_versions message))"

definition updateCurrentVersionContent :: "Message \<Rightarrow> jstring \<Rightarrow> Message" where
  "updateCurrentVersionContent message content =
     message\<lparr>m_versions := map_active (\<lambda>v. v\<lparr>v_content := content\<rparr>) message\<rparr>"

section \<open>Creating messages\<close>

definition blank_message :: "jstring \<Rightarrow> MessageRole \<Rightarrow> MessageVersion list \<Rightarrow> Message" where
  "blank_message k r vs =
     \<lparr>m_key = k, m_from = r, m_versions = vs, m_activeVersionIndex = None, m_model = None,
      m_imageUrls = None, m_sources = None, m_reasoning = None, m_toolCalls = None,
      m_refusal = None, m_finishReason = None, m_toolCallId = None, m_toolName = None,
      m_isReasoningStreaming = None, m_isReasoningComplete = None, m_isContentComplete = None,
      m_status = None, m_errorCode = None, m_usage = None, m_costUsd = None, m_latencyMs = None\<rparr>"

definition valid_images :: "jstring list \<Rightarrow> jstring list" where
  "valid_images urls = filter (\<lambda>url. trim url \<noteq> []) urls"

definition createUserMessage :: "jstring \<Rightarrow> jstring \<Rightarrow> jstring \<Rightarrow> jstring list \<Rightarrow> Message" where
  "createUserMessage nid1 nid2 content imageUrls =
     (let validImages = valid_images imageUrls;
          base = blank_message nid1 RoleUser [createMessageVersion nid2 content]
      in if validImages \<noteq> [] then base\<lparr>m_imageUrls := Some validImages\<rparr> else base)"

definition createToolResultMessage ::
  "jstring \<Rightarrow> jstring \<Rightarrow> jstring \<Rightarrow> jstring \<Rightarrow> jstring \<Rightarrow> Message" where
  "createToolResultMessage nid1 nid2 toolCallId toolName result =
     (blank_message nid1 RoleTool [createMessageVersion nid2 result])
       \<lparr>m_toolCallId := Some toolCallId, m_toolName := Some toolName, m_status := Some Complete\<rparr>"

definition createLoadingAssistantMessage :: "jstring \<Rightarrow> jstring \<Rightarrow> jstring option \<Rightarrow> Message" where
  "createLoadingAssistantMessage nid1 nid2 model =
     (let base = (blank_message nid1 RoleAssistant [createMessageVersion nid2 []])
            \<lparr>m_activeVersionIndex := Some 0, m_isReasoningComplete := Some False,
             m_isContentComplete := Some False, m_isReasoningStreaming := Some False,
             m_status := Some Loading\<rparr>
      in case model of
           Some m \<Rightarrow> if m \<noteq> [] then base\<lparr>m_model := Some m\<rparr> else base
         | None \<Rightarrow> base)"

definition pushAssistantVersion :: "jstring \<Rightarrow> Message \<Rightarrow> Message" where
  "pushAssistantVersion nid message =
     (let versions = m_versions message @ [createMessageVersion nid []]
      in message
        \<lparr>m_versions := versions, m_activeVersionIndex := Some (int (length versions) - 1),
         m_reasoning := None, m_toolCalls := None, m_refusal := None, m_finishReason := None,
         m_isReasoningComplete := Some False, m_isContentComplete := Some False,
         m_isReasoningStreaming := Some False, m_status := Some Loading,
         m_usage := None, m_costUsd := None, m_latencyMs := None, m_errorCode := Some None\<rparr>)"

section \<open>Formatting for the API\<close>

definition text_part :: "jstring \<Rightarrow> ContentPart" where
  "text_part t = \<lparr>part_type = PartText, part_text = Some t, part_image_url = None\<rparr>"

definition image_part :: "jstring \<Rightarrow> ContentPart" where
  "image_part url = \<lparr>part_type = PartImageUrl, part_text = None, part_image_url = Some (trim url)\<rparr>"

definition buildMessageContent :: "jstring \<Rightarrow> jstring list \<Rightarrow> MessageContent" where
  "buildMessageContent txt imageUrls =
     (let validImages = valid_images imageUrls
      in if validImages = [] then ContentText txt
         else ContentParts (text_part txt # map image_part validImages))"

definition getTextContent :: "MessageContent \<Rightarrow> jstring" where
  "getTextContent content =
     (case content of
        ContentText s \<Rightarrow> s
      | ContentParts ps \<Rightarrow>
          (case find (\<lambda>p. part_type p = PartText) ps of
             None \<Rightarrow> []
           | Some p \<Rightarrow> str_or (part_text p) [])
      | ContentNull \<Rightarrow> [])"

text \<open>\<^verbatim>\<open>current.toolCalls?.length ? current.toolCalls : message.toolCalls\<close>.\<close>

definition effective_tool_calls :: "Message \<Rightarrow> ToolCall list option" where
  "effective_tool_calls message =
     (if has_items (v_toolCalls (getCurrentVersion message))
      then v_toolCalls (getCurrentVersion message) else m_toolCalls message)"

definition formatMessageForAPI :: "Message \<Rightarrow> ChatCompletionMessage" where
  "formatMessageForAPI message =
     (let currentVersion = getCurrentVersion message
      in if m_from message = RoleTool then
           \<lparr>cm_role = RoleTool, cm_content = ContentText (v_content currentVersion),
            cm_tool_calls = None, cm_tool_call_id = Some (str_or (m_toolCallId message) []),
            cm_name = (case m_toolName message of
                         Some n \<Rightarrow> if n \<noteq> [] then Some n else None | None \<Rightarrow> None)\<rparr>
         else
           let toolCalls = effective_tool_calls message;
               images = (case m_imageUrls message of None \<Rightarrow> [] | Some us \<Rightarrow> us);
               base = \<lparr>cm_role = m_from message,
                       cm_content = buildMessageContent (v_content currentVersion) images,
                       cm_tool_calls = None, cm_tool_call_id = None, cm_name = None\<rparr>
           in if m_from message = RoleAssistant \<and> has_items toolCalls then
                base\<lparr>cm_content := (if trim (v_content currentVersion) \<noteq> []
                                    then cm_content base else ContentNull),
                     cm_tool_calls := toolCalls\<rparr>
              else base)"

definition isValidMessage :: "Message \<Rightarrow> bool" where
  "isValidMessage message =
     (if m_versions message = [] then False
      else if m_status message = Some Loading \<or> m_status message = Some Streaming then False
      else if m_from message = RoleTool then str_or (m_toolCallId message) [] \<noteq> []
      else if m_from message = RoleAssistant then
        (if has_items (effective_tool_calls message) then True
         else if trim (v_content (getCurrentVersion message)) = []
           \<and> str_or (m_refusal message) [] = [] then False
         else True)
      else True)"

section \<open>Think tags\<close>

definition OPEN_TAG :: jstring where
  "OPEN_TAG = js ''<think>''"

definition CLOSE_TAG :: jstring where
  "CLOSE_TAG = js ''</think>''"

record ThinkParse =
  visibleContent :: jstring
  reasoning :: jstring
  hasUnclosedTag :: bool

lemma length_tags [simp]: "length OPEN_TAG = 7" "length CLOSE_TAG = 8"
  by (simp_all add: OPEN_TAG_def CLOSE_TAG_def js_def)

text \<open>
  The \<^verbatim>\<open>while\<close> loop on the text from \<^verbatim>\<open>currentPos\<close> on: the visible parts, the reasoning parts,
  and whether the last tag was left open.
\<close>

function think_loop :: "jstring \<Rightarrow> jstring list \<times> jstring list \<times> bool" where
  "think_loop s =
     (case index_of OPEN_TAG s of
        None \<Rightarrow> (if s \<noteq> [] then [s] else [], [], False)
      | Some openPos \<Rightarrow>
          (let vis = (if 0 < openPos then [take openPos s] else []);
               after = drop (openPos + 7) s
           in case index_of CLOSE_TAG after of
                None \<Rightarrow> (vis, [after], True)
              | Some closePos \<Rightarrow>
                  (let (v, r, u) = think_loop (drop (closePos + 8) after)
                   in (vis @ v, take closePos after # r, u))))"
  by pat_completeness auto
termination
  by (relation "measure length") (auto dest!: index_of_SomeD intro!: diff_less)

declare think_loop.simps [simp del]

definition parseThinkTags :: "jstring \<Rightarrow> ThinkParse" where
  "parseThinkTags content =
     (if \<not> str_includes content OPEN_TAG
      then \<lparr>visibleContent = content, reasoning = [], hasUnclosedTag = False\<rparr>
      else let (v, r, u) = think_loop content
           in \<lparr>visibleContent = trim (join [] v), reasoning = trim (join [10, 10] r),
               hasUnclosedTag = u\<rparr>)"

section \<open>Updating a conversation\<close>

definition updateLastAssistantMessage :: "Message list \<Rightarrow> (Message \<Rightarrow> Message) \<Rightarrow> Message list" where
  "updateLastAssistantMessage messages updater =
     (if messages = [] then messages
      else if m_from (last messages) \<noteq> RoleAssistant then messages
      else messages[length messages - 1 := updater (last messages)])"

definition updateMessageByKey :: "Message list \<Rightarrow> jstring \<Rightarrow> (Message \<Rightarrow> Message) \<Rightarrow> Message list" where
  "updateMessageByKey messages k updater =
     (case find_index (\<lambda>m. m_key m = k) messages of
        None \<Rightarrow> messages
      | Some index \<Rightarrow> messages[index := updater (messages ! index)])"

definition request_error_text :: "(jstring \<Rightarrow> jstring) \<Rightarrow> jstring \<Rightarrow> jstring" where
  "request_error_text t errorMessage = t (ERROR_MESSAGES API_REQUEST_ERROR) @ js '': '' @ errorMessage"

definition set_error ::
  "(jstring \<Rightarrow> jstring) \<Rightarrow> jstring \<Rightarrow> jstring option \<Rightarrow> Message \<Rightarrow> Message" where
  "set_error t errorMessage errorCode message =
     (updateCurrentVersionContent message (request_error_text t errorMessage))
       \<lparr>m_status := Some ErrorStatus, m_isReasoningStreaming := Some False,
        m_errorCode := Some (case errorCode of Some c \<Rightarrow> if c \<noteq> [] then Some c else None | None \<Rightarrow> None)\<rparr>"

definition updateAssistantMessageWithError ::
  "(jstring \<Rightarrow> jstring) \<Rightarrow> Message list \<Rightarrow> jstring \<Rightarrow> jstring option \<Rightarrow> Message list" where
  "updateAssistantMessageWithError t messages errorMessage errorCode =
     updateLastAssistantMessage messages (set_error t errorMessage errorCode)"

definition setMessageErrorByKey ::
  "(jstring \<Rightarrow> jstring) \<Rightarrow> Message list \<Rightarrow> jstring \<Rightarrow> jstring \<Rightarrow> jstring option \<Rightarrow> Message list" where
  "setMessageErrorByKey t messages k errorMessage errorCode =
     updateMessageByKey messages k (set_error t errorMessage errorCode)"

definition processStreamingContent :: "Message \<Rightarrow> jstring option \<Rightarrow> Message" where
  "processStreamingContent message contentChunk =
     (let currentVersion = getCurrentVersion message;
          fullContent = v_content currentVersion @ str_or contentChunk [];
          parsed = parseThinkTags fullContent;
          finalReasoning = (if reasoning parsed \<noteq> []
             then Some \<lparr>re_content = reasoning parsed, re_duration = Fin 0\<rparr>
             else m_reasoning message)
      in (updateCurrentVersionContent message fullContent)
           \<lparr>m_reasoning := finalReasoning, m_isReasoningStreaming := Some (hasUnclosedTag parsed)\<rparr>)"

record FinalizeOptions =
  fo_toolCalls :: "ToolCall list option"
  fo_finishReason :: "jstring nullable"
  fo_refusal :: "jstring option"
  fo_truncated :: bool

definition no_options :: FinalizeOptions where
  "no_options = \<lparr>fo_toolCalls = None, fo_finishReason = None, fo_refusal = None, fo_truncated = False\<rparr>"

definition final_reasoning :: "Message \<Rightarrow> jstring option \<Rightarrow> Reasoning option" where
  "final_reasoning message apiReasoningContent =
     (let parsed = parseThinkTags (v_content (getCurrentVersion message));
          txt = str_or apiReasoningContent
                  (str_or (map_option re_content (m_reasoning message)) (reasoning parsed))
      in if txt \<noteq> []
         then Some \<lparr>re_content = txt,
                    re_duration = num_or (map_option re_duration (m_reasoning message)) (Fin 0)\<rparr>
         else None)"

definition final_tool_calls :: "Message \<Rightarrow> FinalizeOptions \<Rightarrow> ToolCall list option" where
  "final_tool_calls message options =
     (let toolCalls = coalesce (fo_toolCalls options)
            (coalesce (m_toolCalls message) (v_toolCalls (getCurrentVersion message)))
      in if has_items toolCalls then toolCalls else None)"

definition finalizeMessage :: "Message \<Rightarrow> jstring option \<Rightarrow> FinalizeOptions \<Rightarrow> Message" where
  "finalizeMessage message apiReasoningContent options =
     (let visible = visibleContent (parseThinkTags (v_content (getCurrentVersion message)));
          fr = final_reasoning message apiReasoningContent;
          tcs = final_tool_calls message options;
          rf = coalesce (fo_refusal options) (m_refusal message);
          fin = coalesce_null (fo_finishReason options) (m_finishReason message)
      in message
        \<lparr>m_versions := map_active
           (\<lambda>v. v\<lparr>v_content := visible, v_toolCalls := tcs, v_reasoning := fr,
                  v_refusal := rf, v_finishReason := fin\<rparr>) message,
         m_reasoning := fr, m_toolCalls := tcs, m_refusal := rf, m_finishReason := fin,
         m_isReasoningStreaming := Some False,
         m_status := Some (if fo_truncated options then Truncated
                           else if m_status message = Some ErrorStatus then ErrorStatus
                           else Complete)\<rparr>)"

definition in_progress :: "Message \<Rightarrow> bool" where
  "in_progress m \<longleftrightarrow> m_status m = Some Loading \<or> m_status m = Some Streaming"

definition sanitize_one :: "(jstring \<Rightarrow> jstring) \<Rightarrow> Message \<Rightarrow> Message" where
  "sanitize_one t m =
     (if m_from m = RoleAssistant \<and> in_progress m then
        (let finalized = finalizeMessage m None (no_options\<lparr>fo_truncated := True\<rparr>);
             hasContent = trim (v_content (getCurrentVersion finalized)) \<noteq> [];
             hasReasoning = (case m_reasoning finalized of
                None \<Rightarrow> False | Some r \<Rightarrow> trim (re_content r) \<noteq> []);
             hasTools = has_items (m_toolCalls finalized)
         in if hasContent \<or> hasReasoning \<or> hasTools
            then finalized\<lparr>m_status := Some Truncated, m_isReasoningStreaming := Some False\<rparr>
            else (updateCurrentVersionContent finalized
                    (request_error_text t (t (ERROR_MESSAGES INTERRUPTED))))
                   \<lparr>m_status := Some ErrorStatus, m_isReasoningStreaming := Some False\<rparr>)
      else m)"

definition sanitizeMessagesOnLoad :: "(jstring \<Rightarrow> jstring) \<Rightarrow> Message list \<Rightarrow> Message list" where
  "sanitizeMessagesOnLoad t messages = map (sanitize_one t) messages"

text \<open>\<^verbatim>\<open>text.replace(/\s+/g, ' ')\<close>.\<close>

fun collapse_ws :: "jstring \<Rightarrow> jstring" where
  "collapse_ws [] = []"
| "collapse_ws [c] = (if is_space c then [32] else [c])"
| "collapse_ws (c # d # s) =
     (if is_space c then (if is_space d then collapse_ws (d # s) else 32 # collapse_ws (d # s))
      else c # collapse_ws (d # s))"

definition NEW_CHAT :: jstring where
  "NEW_CHAT = js ''New chat''"

definition deriveConversationTitle :: "Message list \<Rightarrow> jstring" where
  "deriveConversationTitle messages =
     (case find (\<lambda>m. m_from m = RoleUser) messages of
        None \<Rightarrow> NEW_CHAT
      | Some firstUser \<Rightarrow>
          (let txt = trim (v_content (getCurrentVersion firstUser))
           in if txt = [] then NEW_CHAT
              else let oneLine = collapse_ws txt
                   in if 48 < length oneLine then take 48 oneLine @ [8230] else oneLine))"

end
