(* ===== verification/Message_Laws.thy ===== *)
theory Message_Laws
  imports Message_Utils
begin

text \<open>
  What \<^verbatim>\<open>message-utils.ts\<close> guarantees: the active version is always a version of the message and
  content updates reach exactly it; regenerating keeps the older versions; an update by key
  touches one message; think blocks are split exactly; and no message is left loading or
  streaming after a reload.
\<close>

section \<open>The active version\<close>

lemma getActiveVersionIndex_less:
  "m_versions m \<noteq> [] \<Longrightarrow> getActiveVersionIndex m < length (m_versions m)"
  by (auto simp: getActiveVersionIndex_def split: option.splits)

lemma getCurrentVersion_nth:
  "m_versions m \<noteq> [] \<Longrightarrow> getCurrentVersion m = m_versions m ! getActiveVersionIndex m"
  by (simp add: getCurrentVersion_def getActiveVersionIndex_less Let_def)

lemma getActiveVersionIndex_cong:
  "length (m_versions m) = length (m_versions n) \<Longrightarrow>
   m_activeVersionIndex m = m_activeVersionIndex n \<Longrightarrow>
   getActiveVersionIndex m = getActiveVersionIndex n"
  by (auto simp: getActiveVersionIndex_def split: option.splits)

lemma getCurrentVersion_cong:
  "m_versions m = m_versions n \<Longrightarrow> m_activeVersionIndex m = m_activeVersionIndex n \<Longrightarrow>
   getCurrentVersion m = getCurrentVersion n"
  using getActiveVersionIndex_cong [of m n] by (simp add: getCurrentVersion_def Let_def)

lemma map_active_update:
  "map_active f m =
     (if m_versions m = [] then []
      else (m_versions m)[getActiveVersionIndex m := f (m_versions m ! getActiveVersionIndex m)])"
  by (rule nth_equalityI)
    (auto simp: map_active_def nth_enumerate_eq nth_list_update getActiveVersionIndex_less)

lemma length_map_active [simp]: "length (map_active f m) = length (m_versions m)"
  by (simp add: map_active_def)

lemma map_active_eq_Nil [simp]: "map_active f m = [] \<longleftrightarrow> m_versions m = []"
  by (metis length_0_conv length_map_active)

text \<open>After a rewrite of the active version, it is still the active one, rewritten.\<close>

lemma getCurrentVersion_map_active:
  assumes "m_versions n = map_active f m" "m_activeVersionIndex n = m_activeVersionIndex m"
    and "m_versions m \<noteq> []"
  shows "getCurrentVersion n = f (getCurrentVersion m)"
proof -
  have i: "getActiveVersionIndex n = getActiveVersionIndex m"
    using assms by (intro getActiveVersionIndex_cong) simp_all
  have "m_versions n \<noteq> []" using assms by simp
  then show ?thesis
    using assms i getActiveVersionIndex_less [of m]
    by (simp add: getCurrentVersion_nth map_active_update)
qed

lemmas updateContent_simps =
  updateCurrentVersionContent_def getCurrentVersion_map_active

lemma current_updateCurrentVersionContent:
  "m_versions m \<noteq> [] \<Longrightarrow>
   getCurrentVersion (updateCurrentVersionContent m c) = (getCurrentVersion m)\<lparr>v_content := c\<rparr>"
  by (simp add: updateCurrentVersionContent_def getCurrentVersion_map_active)

lemma updateCurrentVersionContent_fields [simp]:
  "m_key (updateCurrentVersionContent m c) = m_key m"
  "m_from (updateCurrentVersionContent m c) = m_from m"
  "m_status (updateCurrentVersionContent m c) = m_status m"
  "m_model (updateCurrentVersionContent m c) = m_model m"
  "m_refusal (updateCurrentVersionContent m c) = m_refusal m"
  "m_reasoning (updateCurrentVersionContent m c) = m_reasoning m"
  "m_toolCalls (updateCurrentVersionContent m c) = m_toolCalls m"
  "m_sources (updateCurrentVersionContent m c) = m_sources m"
  "length (m_versions (updateCurrentVersionContent m c)) = length (m_versions m)"
  by (simp_all add: updateCurrentVersionContent_def)

text \<open>The active version index is a position of the version list whenever there is a version,
  whatever index was stored, and updating the content rewrites that version alone: its other
  fields, every other version and the index stay as they were.\<close>

theorem update_current_version_content:
  assumes "m_versions m \<noteq> []"
  shows "getActiveVersionIndex m < length (m_versions m)
    \<and> getActiveVersionIndex (updateCurrentVersionContent m c) = getActiveVersionIndex m
    \<and> getCurrentVersion (updateCurrentVersionContent m c) = (getCurrentVersion m)\<lparr>v_content := c\<rparr>
    \<and> m_versions (updateCurrentVersionContent m c) =
        (m_versions m)[getActiveVersionIndex m := (getCurrentVersion m)\<lparr>v_content := c\<rparr>]"
  using assms getActiveVersionIndex_less [OF assms] current_updateCurrentVersionContent [OF assms]
    getActiveVersionIndex_cong [of "updateCurrentVersionContent m c" m]
  by (simp add: updateCurrentVersionContent_def map_active_update getCurrentVersion_nth)

theorem update_current_version_content_witness:
  "getCurrentVersion (updateCurrentVersionContent
      (blank_message [] RoleUser [createMessageVersion [1] [7], createMessageVersion [2] []]) [8])
     = createMessageVersion [2] [8]"
proof -
  let ?m = "blank_message [] RoleUser [createMessageVersion [1] [7], createMessageVersion [2] []]"
  have "m_versions ?m \<noteq> []" and c: "getCurrentVersion ?m = createMessageVersion [2] []" by code_simp+
  then show ?thesis
    using update_current_version_content [of ?m "[8]"] by (simp add: c createMessageVersion_def)
qed

text \<open>Regenerating an answer keeps every earlier version, in order, and makes a new empty
  version the active one; the message is loading again and carries nothing over from the
  previous answer.\<close>

theorem push_assistant_version:
  "m_versions (pushAssistantVersion nid m) = m_versions m @ [createMessageVersion nid []]
   \<and> getActiveVersionIndex (pushAssistantVersion nid m) = length (m_versions m)
   \<and> getCurrentVersion (pushAssistantVersion nid m) = createMessageVersion nid []
   \<and> m_status (pushAssistantVersion nid m) = Some Loading
   \<and> m_reasoning (pushAssistantVersion nid m) = None
   \<and> m_toolCalls (pushAssistantVersion nid m) = None
   \<and> m_refusal (pushAssistantVersion nid m) = None
   \<and> m_usage (pushAssistantVersion nid m) = None
   \<and> m_key (pushAssistantVersion nid m) = m_key m
   \<and> m_model (pushAssistantVersion nid m) = m_model m"
  by (simp add: pushAssistantVersion_def getCurrentVersion_def getActiveVersionIndex_def Let_def)

section \<open>Updating one message\<close>

text \<open>
  The interface of an update by key: with the conversation, a key and an updater. The laws
  are what a caller needs to know to update its own message and no other.
\<close>

locale keyed_update =
  fixes key_of :: "'m \<Rightarrow> 'k"
    and upd :: "'m list \<Rightarrow> 'k \<Rightarrow> ('m \<Rightarrow> 'm) \<Rightarrow> 'm list"
  assumes upd_length: "length (upd ms k f) = length ms"
    and upd_hit: "i < length ms \<Longrightarrow> key_of (ms ! i) = k \<Longrightarrow> (\<forall>j<i. key_of (ms ! j) \<noteq> k)
      \<Longrightarrow> upd ms k f = ms[i := f (ms ! i)]"
    and upd_miss: "k \<notin> key_of ` set ms \<Longrightarrow> upd ms k f = ms"
begin

lemma upd_cases:
  obtains (miss) "k \<notin> key_of ` set ms" "upd ms k f = ms"
  | (hit) i where "i < length ms" "key_of (ms ! i) = k" "upd ms k f = ms[i := f (ms ! i)]"
proof (cases "k \<in> key_of ` set ms")
  case True
  then obtain j where "j < length ms \<and> key_of (ms ! j) = k"
    by (metis imageE in_set_conv_nth)
  then have "\<exists>i. i < length ms \<and> key_of (ms ! i) = k \<and> (\<forall>j<i. key_of (ms ! j) \<noteq> k)"
    using exists_least_iff [of "\<lambda>j. j < length ms \<and> key_of (ms ! j) = k"]
    by (metis less_trans)
  then show ?thesis using hit upd_hit by blast
next
  case False
  then show ?thesis using miss upd_miss by blast
qed

lemma upd_other:
  "i < length ms \<Longrightarrow> key_of (ms ! i) \<noteq> k \<Longrightarrow> upd ms k f ! i = ms ! i"
  by (rule upd_cases [of k ms f]) (auto simp: nth_list_update)

lemma upd_keys:
  assumes "\<And>m. key_of (f m) = key_of m"
  shows "map key_of (upd ms k f) = map key_of ms"
proof (rule upd_cases [of k ms f])
  fix i assume "i < length ms" "key_of (ms ! i) = k" "upd ms k f = ms[i := f (ms ! i)]"
  then show ?thesis using assms by (simp add: map_update list_update_same_conv)
qed simp

lemma upd_list_all:
  assumes "list_all P ms" "\<And>m. P m \<Longrightarrow> P (f m)"
  shows "list_all P (upd ms k f)"
proof (rule upd_cases [of k ms f])
  fix i assume "i < length ms" "key_of (ms ! i) = k" "upd ms k f = ms[i := f (ms ! i)]"
  then show ?thesis using assms set_update_subset_insert [of ms i "f (ms ! i)"]
    by (auto simp: list_all_iff)
qed (use assms in simp)

lemma upd_distinct_nth:
  assumes "distinct (map key_of ms)" "i < length ms"
  shows "upd ms k f ! i = (if key_of (ms ! i) = k then f (ms ! i) else ms ! i)"
proof (cases "key_of (ms ! i) = k")
  case True
  moreover have "key_of (ms ! j) \<noteq> k" if "j < i" for j
    using that assms True by (auto simp: distinct_conv_nth)
  ultimately show ?thesis using upd_hit [of i ms k f] assms(2) by simp
qed (simp add: upd_other assms(2))

text \<open>Updates under different keys commute: interleaved streams cannot disturb each other.\<close>

lemma upd_commute:
  assumes "distinct (map key_of ms)" "k \<noteq> l"
    and f: "\<And>m. key_of (f m) = key_of m" and g: "\<And>m. key_of (g m) = key_of m"
  shows "upd (upd ms k f) l g = upd (upd ms l g) k f"
proof (rule nth_equalityI)
  fix i assume i: "i < length (upd (upd ms k f) l g)"
  then have i': "i < length ms" by (simp add: upd_length)
  have "distinct (map key_of (upd ms k f))" "distinct (map key_of (upd ms l g))"
    using assms(1) upd_keys f g by simp_all
  then show "upd (upd ms k f) l g ! i = upd (upd ms l g) k f ! i"
    using i' assms by (auto simp: upd_distinct_nth upd_length f g)
qed (simp add: upd_length)

end

interpretation by_key: keyed_update m_key updateMessageByKey
proof (unfold_locales, goal_cases)
  case (1 ms k f)
  then show ?case by (simp add: updateMessageByKey_def split: option.split)
next
  case (2 i ms k f)
  obtain j where j: "find_index (\<lambda>m. m_key m = k) ms = Some j"
    using 2 find_index_None_iff [of "\<lambda>m. m_key m = k" ms] by (metis not_None_eq nth_mem)
  then have "j = i" using 2 find_index_SomeD [OF j] by (metis linorder_neqE_nat)
  then show ?case using j by (simp add: updateMessageByKey_def)
next
  case (3 k ms f)
  then have "find_index (\<lambda>m. m_key m = k) ms = None" by (auto simp: find_index_None_iff)
  then show ?case by (simp add: updateMessageByKey_def)
qed

text \<open>Updating a message by its key changes that message and no other, wherever the others
  are: with distinct keys every position holds what it held, except the one whose key was
  given, which holds the updated message.\<close>

theorem update_message_by_key_exact:
  assumes "distinct (map m_key ms)" "i < length ms"
  shows "length (updateMessageByKey ms k f) = length ms
    \<and> updateMessageByKey ms k f ! i = (if m_key (ms ! i) = k then f (ms ! i) else ms ! i)"
  using by_key.upd_length by_key.upd_distinct_nth [OF assms] by blast

theorem update_message_by_key_exact_witness:
  "updateMessageByKey [blank_message [1] RoleUser [], blank_message [2] RoleAssistant []] [2]
      (\<lambda>m. m\<lparr>m_status := Some Complete\<rparr>) ! 1 =
    (blank_message [2] RoleAssistant [])\<lparr>m_status := Some Complete\<rparr>"
  using update_message_by_key_exact
    [of "[blank_message [1] RoleUser [], blank_message [2] RoleAssistant []]" 1 "[2]"
        "\<lambda>m. m\<lparr>m_status := Some Complete\<rparr>"]
  by (simp add: blank_message_def)

lemma set_error_fields [simp]:
  "m_key (set_error t e c m) = m_key m" "m_from (set_error t e c m) = m_from m"
  "m_status (set_error t e c m) = Some ErrorStatus"
  "m_isReasoningStreaming (set_error t e c m) = Some False"
  by (simp_all add: set_error_def)

section \<open>Finalizing and sanitizing\<close>

lemma finalizeMessage_fields [simp]:
  "m_key (finalizeMessage m a opts) = m_key m" "m_from (finalizeMessage m a opts) = m_from m"
  "m_model (finalizeMessage m a opts) = m_model m"
  "m_sources (finalizeMessage m a opts) = m_sources m"
  "m_isReasoningStreaming (finalizeMessage m a opts) = Some False"
  "length (m_versions (finalizeMessage m a opts)) = length (m_versions m)"
  by (simp_all add: finalizeMessage_def Let_def)

lemma finalizeMessage_status:
  "m_status (finalizeMessage m a opts) =
     Some (if fo_truncated opts then Truncated
           else if m_status m = Some ErrorStatus then ErrorStatus else Complete)"
  by (simp add: finalizeMessage_def Let_def)

lemma finalizeMessage_not_in_progress [simp]: "\<not> in_progress (finalizeMessage m a opts)"
  by (simp add: in_progress_def finalizeMessage_status)

lemma sanitize_one_not_in_progress:
  "\<not> (m_from (sanitize_one t m) = RoleAssistant \<and> in_progress (sanitize_one t m))"
  by (auto simp: sanitize_one_def Let_def in_progress_def)

lemma sanitize_one_key [simp]: "m_key (sanitize_one t m) = m_key m"
  by (simp add: sanitize_one_def Let_def)

text \<open>C38: after messages are loaded from storage no assistant message is loading or streaming,
  messages that were not in progress are untouched, keys and order are kept, and loading again
  changes nothing.\<close>

theorem sanitize_on_load:
  "list_all (\<lambda>m. \<not> (m_from m = RoleAssistant \<and> in_progress m)) (sanitizeMessagesOnLoad t ms)
   \<and> map m_key (sanitizeMessagesOnLoad t ms) = map m_key ms
   \<and> sanitizeMessagesOnLoad t (sanitizeMessagesOnLoad t ms) = sanitizeMessagesOnLoad t ms
   \<and> sanitizeMessagesOnLoad t ms =
       map (\<lambda>m. if m_from m = RoleAssistant \<and> in_progress m then sanitize_one t m else m) ms"
proof (intro conjI)
  have id: "sanitize_one t m = m" if "\<not> (m_from m = RoleAssistant \<and> in_progress m)" for m
    using that by (auto simp: sanitize_one_def)
  show "sanitizeMessagesOnLoad t (sanitizeMessagesOnLoad t ms) = sanitizeMessagesOnLoad t ms"
    using id sanitize_one_not_in_progress by (simp add: sanitizeMessagesOnLoad_def)
  show "list_all (\<lambda>m. \<not> (m_from m = RoleAssistant \<and> in_progress m)) (sanitizeMessagesOnLoad t ms)"
    using sanitize_one_not_in_progress by (simp add: sanitizeMessagesOnLoad_def list_all_iff)
  show "sanitizeMessagesOnLoad t ms =
      map (\<lambda>m. if m_from m = RoleAssistant \<and> in_progress m then sanitize_one t m else m) ms"
    using id by (simp add: sanitizeMessagesOnLoad_def)
qed (simp add: sanitizeMessagesOnLoad_def)

section \<open>Think tags\<close>

lemma not_prefix_overlap:
  assumes "p = a # q" "a \<notin> set q" "\<not> sublist p u" "u \<noteq> []"
  shows "\<not> prefix p (u @ p @ x)"
proof
  assume pre: "prefix p (u @ p @ x)"
  show False
  proof (cases "length p \<le> length u")
    case True
    then have "prefix p u" using pre by (metis prefix_def prefix_length_prefix append_prefixD same_prefix_prefix)
    then show False using assms(3) by (simp add: prefix_imp_sublist)
  next
    case False
    let ?n = "length u"
    obtain zs where zs: "u @ p @ x = p @ zs" using pre by (auto simp: prefix_def)
    have "p ! ?n = (p @ zs) ! ?n" using False by (simp add: nth_append)
    also have "\<dots> = (u @ p @ x) ! ?n" by (simp only: zs)
    also have "\<dots> = a" using assms(1) by (simp add: nth_append)
    finally have "q ! (?n - 1) = a" using assms(1,4) by (simp add: nth_Cons')
    moreover have "?n - 1 < length q" using False assms(1,4) by (cases u) auto
    ultimately show False using assms(2) nth_mem by blast
  qed
qed

lemma index_of_tag:
  assumes "p = a # q" "a \<notin> set q" "\<not> str_includes u p"
  shows "index_of p (u @ p @ x) = Some (length u)"
  using assms(3)
proof (induction u)
  case Nil
  then show ?case using assms(1) by simp
next
  case (Cons c u)
  have "\<not> prefix p ((c # u) @ p @ x)"
    using Cons.prems not_prefix_overlap [OF assms(1,2), of "c # u"] by (simp add: includes_iff_sublist)
  moreover have "\<not> str_includes u p"
    using Cons.prems by (auto simp: includes_iff_sublist sublist_Cons_right)
  ultimately show ?case using Cons.IH by simp
qed

lemma index_of_open:
  "\<not> str_includes u OPEN_TAG \<Longrightarrow> index_of OPEN_TAG (u @ OPEN_TAG @ x) = Some (length u)"
  by (rule index_of_tag [of _ 60 "js ''think>''"]) (simp_all add: OPEN_TAG_def js_def)

lemma index_of_close:
  "\<not> str_includes u CLOSE_TAG \<Longrightarrow> index_of CLOSE_TAG (u @ CLOSE_TAG @ x) = Some (length u)"
  by (rule index_of_tag [of _ 60 "js ''/think>''"]) (simp_all add: CLOSE_TAG_def js_def)

lemma index_of_None_iff: "index_of p s = None \<longleftrightarrow> \<not> str_includes s p"
  by (simp add: str_includes_def)

definition opt_part :: "jstring \<Rightarrow> jstring list" where
  "opt_part s = (if s = [] then [] else [s])"

lemma think_loop_plain: "\<not> str_includes s OPEN_TAG \<Longrightarrow> think_loop s = (opt_part s, [], False)"
  by (subst think_loop.simps) (simp add: index_of_None_iff [symmetric] opt_part_def)

lemma think_loop_open:
  assumes "\<not> str_includes u OPEN_TAG" "\<not> str_includes r CLOSE_TAG"
  shows "think_loop (u @ OPEN_TAG @ r) = (opt_part u, [r], True)"
  using assms index_of_open [of u r]
  by (subst think_loop.simps) (simp add: index_of_None_iff [symmetric] opt_part_def)

lemma think_loop_block:
  assumes "\<not> str_includes u OPEN_TAG" "\<not> str_includes r CLOSE_TAG"
    and "think_loop x = (vs, rs, b)"
  shows "think_loop (u @ OPEN_TAG @ r @ CLOSE_TAG @ x) = (opt_part u @ vs, r # rs, b)"
proof -
  let ?s = "u @ OPEN_TAG @ r @ CLOSE_TAG @ x"
  have "index_of OPEN_TAG ?s = Some (length u)" using index_of_open [OF assms(1)] by blast
  moreover have "drop (length u + 7) ?s = r @ CLOSE_TAG @ x" by simp
  moreover have "index_of CLOSE_TAG (r @ CLOSE_TAG @ x) = Some (length r)"
    using index_of_close [OF assms(2)] by blast
  moreover have "drop (length r + 8) (r @ CLOSE_TAG @ x) = x" by simp
  ultimately show ?thesis
    by (subst think_loop.simps) (simp only: option.case Let_def assms(3) prod.case, simp add: opt_part_def)
qed

text \<open>A text written as blocks: visible text, then a think block, and so on, and a tail.\<close>

fun render_think :: "(jstring \<times> jstring) list \<Rightarrow> jstring \<Rightarrow> jstring" where
  "render_think [] tail = tail"
| "render_think ((v, r) # bs) tail = v @ OPEN_TAG @ r @ CLOSE_TAG @ render_think bs tail"

definition block_ok :: "jstring \<times> jstring \<Rightarrow> bool" where
  "block_ok b \<longleftrightarrow> \<not> str_includes (fst b) OPEN_TAG \<and> \<not> str_includes (snd b) CLOSE_TAG"

lemma think_loop_render:
  assumes "list_all block_ok bs" "think_loop tail = (vs, rs, b)"
  shows "think_loop (render_think bs tail) = (concat (map (opt_part \<circ> fst) bs) @ vs, map snd bs @ rs, b)"
  using assms(1)
proof (induction bs)
  case (Cons vr bs)
  then show ?case by (cases vr) (simp add: block_ok_def think_loop_block)
qed (simp add: assms(2))

lemma join_Nil_concat: "join [] ss = concat ss"
  by (induction ss rule: induct_list012) auto

lemma concat_opt_part: "concat (concat (map (opt_part \<circ> fst) bs)) = concat (map fst bs)"
  by (induction bs) (auto simp: opt_part_def)

lemma concat_opt_part1 [simp]: "concat (opt_part s) = s"
  by (simp add: opt_part_def)

lemma includes_mid: "str_includes (u @ p @ x) p"
  by (auto simp: includes_iff_sublist sublist_def)

lemma render_includes_open: "bs \<noteq> [] \<Longrightarrow> str_includes (render_think bs tail) OPEN_TAG"
  by (cases bs) (auto simp: includes_mid)

text \<open>C9: a text made of visible pieces and closed think blocks is split exactly: what is shown is
  the visible pieces joined and trimmed, the reasoning is the blocks joined by blank lines and
  trimmed, and no tag counts as open.\<close>

theorem think_tags_closed:
  assumes "list_all block_ok bs" "bs \<noteq> []" "\<not> str_includes tail OPEN_TAG"
  shows "parseThinkTags (render_think bs tail) =
    \<lparr>visibleContent = trim (concat (map fst bs) @ tail),
     reasoning = trim (join [10, 10] (map snd bs)), hasUnclosedTag = False\<rparr>"
  using think_loop_render [OF assms(1) think_loop_plain [OF assms(3)]]
    render_includes_open [OF assms(2), of tail]
  by (simp add: parseThinkTags_def join_Nil_concat concat_opt_part)

theorem think_tags_closed_witness:
  "parseThinkTags (render_think [(js ''Hi '', js ''plan'')] (js ''there'')) =
    \<lparr>visibleContent = js ''Hi there'', reasoning = js ''plan'', hasUnclosedTag = False\<rparr>"
proof -
  have "list_all block_ok [(js ''Hi '', js ''plan'')]" "\<not> str_includes (js ''there'') OPEN_TAG"
    and t: "trim (concat (map fst [(js ''Hi '', js ''plan'')]) @ js ''there'') = js ''Hi there''"
      "trim (join [10, 10] (map snd [(js ''Hi '', js ''plan'')])) = js ''plan''"
    by code_simp+
  then show ?thesis
    using think_tags_closed [of "[(js ''Hi '', js ''plan'')]" "js ''there''"] t by simp
qed

text \<open>While a think block is still streaming, everything after its opening tag is reasoning,
  nothing of it is shown, and the tag is reported open.\<close>

theorem think_tags_streaming:
  assumes "list_all block_ok bs" "\<not> str_includes u OPEN_TAG" "\<not> str_includes r CLOSE_TAG"
  shows "parseThinkTags (render_think bs (u @ OPEN_TAG @ r)) =
    \<lparr>visibleContent = trim (concat (map fst bs) @ u),
     reasoning = trim (join [10, 10] (map snd bs @ [r])), hasUnclosedTag = True\<rparr>"
proof -
  have "str_includes (render_think bs (u @ OPEN_TAG @ r)) OPEN_TAG"
    using render_includes_open [of bs] includes_mid [of u OPEN_TAG r] by (cases "bs = []") auto
  then show ?thesis
    using think_loop_render [OF assms(1) think_loop_open [OF assms(2,3)]]
    by (simp add: parseThinkTags_def join_Nil_concat concat_opt_part)
qed

theorem think_tags_streaming_witness:
  "parseThinkTags (render_think [] (js ''A'' @ OPEN_TAG @ js ''b</thin'')) =
    \<lparr>visibleContent = js ''A'', reasoning = js ''b</thin'', hasUnclosedTag = True\<rparr>"
proof -
  have "list_all block_ok []" "\<not> str_includes (js ''A'') OPEN_TAG"
    "\<not> str_includes (js ''b</thin'') CLOSE_TAG"
    and t: "trim (js ''A'') = js ''A''" "trim (js ''b</thin'') = js ''b</thin''" by code_simp+
  then show ?thesis
    using think_tags_streaming [of "[]" "js ''A''" "js ''b</thin''"] t by simp
qed

section \<open>What the API receives\<close>

lemma valid_images_append [simp]: "valid_images (xs @ ys) = valid_images xs @ valid_images ys"
  by (simp add: valid_images_def)

text \<open>Text survives the trip into API content and back, with or without images, and the image
  parts are exactly the non-blank URLs, trimmed and in order.\<close>

theorem message_content_roundtrip:
  "getTextContent (buildMessageContent txt urls) = txt
   \<and> (case buildMessageContent txt urls of
        ContentText s \<Rightarrow> s = txt \<and> valid_images urls = []
      | ContentParts ps \<Rightarrow>
          map part_image_url (tl ps) = map (Some \<circ> trim) (filter (\<lambda>u. trim u \<noteq> []) urls)
          \<and> list_all (\<lambda>p. part_type p = PartImageUrl) (tl ps)
      | ContentNull \<Rightarrow> False)"
  by (cases "txt"; cases "valid_images urls = []")
    (auto simp: buildMessageContent_def getTextContent_def text_part_def image_part_def Let_def
      valid_images_def str_or_def list_all_iff)

text \<open>A message that passes the validity filter is never in progress, and what is sent for it
  is well formed: a tool result names the call it answers, an assistant message carries text
  or tool calls unless it is a refusal, and content is null only next to tool calls.\<close>

theorem valid_message_formats_well:
  assumes "isValidMessage m"
  shows "\<not> in_progress m
    \<and> cm_role (formatMessageForAPI m) = m_from m
    \<and> (m_from m = RoleTool \<longrightarrow> (\<exists>i. i \<noteq> [] \<and> cm_tool_call_id (formatMessageForAPI m) = Some i))
    \<and> (cm_content (formatMessageForAPI m) = ContentNull \<longrightarrow> has_items (cm_tool_calls (formatMessageForAPI m)))
    \<and> (m_from m = RoleAssistant \<longrightarrow>
         has_items (cm_tool_calls (formatMessageForAPI m))
         \<or> trim (getTextContent (cm_content (formatMessageForAPI m))) \<noteq> []
         \<or> (\<exists>s. m_refusal m = Some s \<and> s \<noteq> []))"
proof -
  have b: "buildMessageContent s us \<noteq> ContentNull" for s us
    by (simp add: buildMessageContent_def Let_def)
  have g: "getTextContent (buildMessageContent s us) = s" for s us
    by (cases s) (auto simp: buildMessageContent_def getTextContent_def text_part_def str_or_def Let_def)
  have r: "str_or x [] \<noteq> [] \<longleftrightarrow> (\<exists>s. x = Some s \<and> s \<noteq> [])" for x
    by (auto simp: str_or_def split: option.splits)
  show ?thesis
    using assms r
    by (auto simp: isValidMessage_def formatMessageForAPI_def in_progress_def Let_def b g
        split: if_splits)
qed

theorem valid_message_formats_well_witness:
  "isValidMessage (createToolResultMessage [1] [2] (js ''call_0'') (js ''f'') (js ''ok''))
   \<and> (\<exists>i. i \<noteq> [] \<and> cm_tool_call_id (formatMessageForAPI
        (createToolResultMessage [1] [2] (js ''call_0'') (js ''f'') (js ''ok''))) = Some i)"
proof -
  let ?m = "createToolResultMessage [1] [2] (js ''call_0'') (js ''f'') (js ''ok'')"
  have v: "isValidMessage ?m" and f: "m_from ?m = RoleTool" by code_simp+
  show ?thesis using valid_message_formats_well [OF v] v f by blast
qed

section \<open>Titles\<close>

lemma collapse_ws_spaces: "c \<in> set (collapse_ws s) \<Longrightarrow> is_space c \<Longrightarrow> c = 32"
  by (induction s rule: collapse_ws.induct) (auto split: if_splits)

text \<open>A conversation title is never empty, is at most 49 code units long and is a single line:
  a plain space is the only white space in it.\<close>

theorem conversation_title_shape:
  "deriveConversationTitle ms \<noteq> [] \<and> length (deriveConversationTitle ms) \<le> 49
   \<and> set (filter is_space (deriveConversationTitle ms)) \<subseteq> {32}"
proof -
  have ne: "collapse_ws s \<noteq> []" if "s \<noteq> []" for s
    using that by (induction s rule: collapse_ws.induct) auto
  have new: "NEW_CHAT \<noteq> []" "length NEW_CHAT = 8" "set (filter is_space NEW_CHAT) \<subseteq> {32}"
    "\<not> is_space 8230" by code_simp+
  have tk: "set (filter is_space (take 48 (collapse_ws s))) \<subseteq> {32}"
    "set (filter is_space (collapse_ws s)) \<subseteq> {32}" for s
    using collapse_ws_spaces by (auto dest: in_set_takeD)
  show ?thesis
  proof (cases "find (\<lambda>m. m_from m = RoleUser) ms")
    case None
    then show ?thesis using new by (simp add: deriveConversationTitle_def)
  next
    case (Some m)
    then show ?thesis
      using new tk ne [of "trim (v_content (getCurrentVersion m))"]
      by (auto simp: deriveConversationTitle_def Let_def)
  qed
qed

end
