(* ===== verification/Payload_Builder.thy ===== *)
theory Payload_Builder
  imports Message_Laws
begin

text \<open>
  Building the chat completion request (\<^verbatim>\<open>features/playground/lib/payload-builder.ts\<close>) and the
  Markdown export (\<^verbatim>\<open>lib/export.ts\<close>): which models are active, which part of the conversation
  each of them is sent, and which parameters go with it. The theory shows that a model's
  request carries exactly the valid part of its own history, that a parameter is sent exactly when
  it is enabled, and that the export loses no message text.
\<close>

definition getActiveModels :: "PlaygroundConfig \<Rightarrow> jstring list" where
  "getActiveModels config =
     js_set (filter (\<lambda>m. m \<noteq> []) (map trim (cf_model config # cf_compareModels config)))"

definition selectModelHistory :: "Message list \<Rightarrow> jstring \<Rightarrow> Message list" where
  "selectModelHistory messages targetModel =
     filter (\<lambda>m. if m_from m \<noteq> RoleAssistant then True
                 else m_model m = None \<or> m_model m = Some targetModel) messages"

record BuildPayloadOptions =
  bo_model :: jstring
  bo_scopeHistoryToModel :: "bool option"

definition system_message :: "jstring \<Rightarrow> ChatCompletionMessage" where
  "system_message systemPrompt =
     \<lparr>cm_role = RoleSystem, cm_content = ContentText systemPrompt, cm_tool_calls = None,
      cm_tool_call_id = None, cm_name = None\<rparr>"

definition when_enabled :: "bool \<Rightarrow> 'a option \<Rightarrow> 'a option" where
  "when_enabled enabled value = (if enabled then value else None)"

definition scoped_messages :: "Message list \<Rightarrow> BuildPayloadOptions option \<Rightarrow> Message list" where
  "scoped_messages messages options =
     (case options of
        None \<Rightarrow> messages
      | Some o' \<Rightarrow>
          if bo_scopeHistoryToModel o' = Some True \<and> bo_model o' \<noteq> []
          then selectModelHistory messages (bo_model o') else messages)"

definition buildChatCompletionPayload ::
  "Message list \<Rightarrow> PlaygroundConfig \<Rightarrow> ParameterEnabled \<Rightarrow> BuildPayloadOptions option
   \<Rightarrow> ChatCompletionRequest" where
  "buildChatCompletionPayload messages config parameterEnabled options =
     (let targetModel = (case options of None \<Rightarrow> cf_model config | Some o' \<Rightarrow> bo_model o');
          processedMessages =
            map formatMessageForAPI (filter isValidMessage (scoped_messages messages options));
          systemPrompt = trim (cf_systemPrompt config);
          apiMessages = (if systemPrompt \<noteq> [] then system_message systemPrompt # processedMessages
                         else processedMessages);
          effort = cf_reasoningEffort config;
          budget = num_truthy (cf_reasoningMaxTokens config) \<and> num_gt (cf_reasoningMaxTokens config) (Fin 0);
          tools = filter (\<lambda>t. trim (tool_name t) \<noteq> []) (cf_tools config)
      in \<lparr>rq_model = targetModel, rq_group = Some (cf_group config), rq_messages = apiMessages,
          rq_stream = cf_stream config,
          rq_stream_options = (if cf_stream config then Some (Some True) else None),
          rq_temperature = when_enabled (pe_temperature parameterEnabled) (Some (cf_temperature config)),
          rq_top_p = when_enabled (pe_top_p parameterEnabled) (Some (cf_top_p config)),
          rq_max_tokens = when_enabled (pe_max_tokens parameterEnabled) (Some (cf_max_tokens config)),
          rq_frequency_penalty =
            when_enabled (pe_frequency_penalty parameterEnabled) (Some (cf_frequency_penalty config)),
          rq_presence_penalty =
            when_enabled (pe_presence_penalty parameterEnabled) (Some (cf_presence_penalty config)),
          rq_seed = when_enabled (pe_seed parameterEnabled) (cf_seed config),
          rq_reasoning_effort = (if effort \<noteq> EffortOff \<and> \<not> budget then Some effort else None),
          rq_reasoning =
            (if effort = EffortOff then None
             else if budget then
               Some \<lparr>ro_max_tokens = Some (cf_reasoningMaxTokens config), ro_effort = None\<rparr>
             else Some \<lparr>ro_max_tokens = None, ro_effort = Some effort\<rparr>),
          rq_web_search_options = (if cf_webSearch config then Some None else None),
          rq_tools = (if tools \<noteq> [] then Some tools else None),
          rq_tool_choice = (if tools \<noteq> [] then Some (cf_toolChoice config) else None),
          rq_response_format =
            (if cf_responseFormat config \<noteq> FormatText then Some (cf_responseFormat config) else None)\<rparr>)"

section \<open>Markdown export\<close>

definition export_role :: "Message \<Rightarrow> jstring" where
  "export_role message =
     (case m_from message of
        RoleUser \<Rightarrow> js ''User''
      | RoleTool \<Rightarrow> js ''Tool ('' @ str_or (m_toolCallId message) (js ''result'') @ js '')''
      | _ \<Rightarrow> if str_or (m_model message) [] \<noteq> []
             then js ''Assistant ('' @ the (m_model message) @ js '')'' else js ''Assistant'')"

definition tool_call_lines :: "ToolCall \<Rightarrow> jstring list" where
  "tool_call_lines tc =
     [js ''- **'' @ tc_name tc @ js ''** (`'' @ tc_id tc @ js ''`)'', js ''```json'',
      str_or (Some (tc_arguments tc)) (js ''{}''), js ''```'', []]"

definition message_lines :: "Message \<Rightarrow> jstring list" where
  "message_lines message =
     [js ''## '' @ export_role message, [],
      str_or (Some (v_content (getCurrentVersion message))) (js ''_(empty)_''), []]
     @ (if has_items (m_toolCalls message)
        then [js ''### Tool calls'', []] @ concat (map tool_call_lines (the (m_toolCalls message))) else [])
     @ (case m_reasoning message of
          None \<Rightarrow> []
        | Some r \<Rightarrow> if re_content r \<noteq> [] then [js ''### Reasoning'', [], re_content r, []] else [])"

definition exportConversationMarkdown :: "Message list \<Rightarrow> jstring \<Rightarrow> jstring" where
  "exportConversationMarkdown messages title =
     join [10] ([js ''# '' @ title, []] @ concat (map message_lines messages))"

section \<open>Properties\<close>

lemma active_names:
  "filter (\<lambda>m. m \<noteq> []) (map trim ms) = map trim (filter (\<lambda>m. trim m \<noteq> []) ms)"
  by (induction ms) auto

text \<open>The active models are the non-blank configured names, trimmed and without repetition, the
  primary one first; there is none exactly when every configured name is blank.\<close>

theorem active_models_exact:
  "distinct (getActiveModels config)
   \<and> set (getActiveModels config) =
       trim ` {m. (m = cf_model config \<or> m \<in> set (cf_compareModels config)) \<and> trim m \<noteq> []}
   \<and> (trim (cf_model config) = [] \<or> hd (getActiveModels config) = trim (cf_model config))
   \<and> (getActiveModels config = [] \<longleftrightarrow>
        list_all (\<lambda>m. trim m = []) (cf_model config # cf_compareModels config))"
proof (intro conjI)
  show "distinct (getActiveModels config)" by (simp add: getActiveModels_def)
  show "set (getActiveModels config) =
       trim ` {m. (m = cf_model config \<or> m \<in> set (cf_compareModels config)) \<and> trim m \<noteq> []}"
    unfolding getActiveModels_def active_names by auto
  show "trim (cf_model config) = [] \<or> hd (getActiveModels config) = trim (cf_model config)"
    by (simp add: getActiveModels_def hd_js_set)
  show "getActiveModels config = [] \<longleftrightarrow>
        list_all (\<lambda>m. trim m = []) (cf_model config # cf_compareModels config)"
    by (auto simp: getActiveModels_def filter_empty_conv list_all_iff)
qed

text \<open>The request fields that a compared model is sent its history with.\<close>

abbreviation compare_options :: "jstring \<Rightarrow> BuildPayloadOptions option" where
  "compare_options target \<equiv> Some \<lparr>bo_model = target, bo_scopeHistoryToModel = Some True\<rparr>"

definition in_history :: "jstring \<Rightarrow> Message \<Rightarrow> bool" where
  "in_history target m \<longleftrightarrow>
     isValidMessage m \<and> (m_from m \<noteq> RoleAssistant \<or> m_model m = None \<or> m_model m = Some target)"

lemma history_filter:
  "filter isValidMessage (selectModelHistory ms target) = filter (in_history target) ms"
  by (auto simp: selectModelHistory_def in_history_def intro: filter_cong)

lemma in_history_not_in_progress: "in_history target m \<Longrightarrow> \<not> in_progress m"
  by (auto simp: in_history_def isValidMessage_def in_progress_def split: if_splits)

text \<open>A compared model is sent the conversation's valid messages in order, without the other models'
  answers and without anything in progress, behind the system prompt if there is one.\<close>

theorem payload_history_exact:
  assumes "target \<noteq> []"
  shows "rq_messages (buildChatCompletionPayload ms config pe (compare_options target)) =
      (if trim (cf_systemPrompt config) = [] then [] else [system_message (trim (cf_systemPrompt config))])
      @ map formatMessageForAPI (filter (in_history target) ms)
    \<and> list_all (\<lambda>m. \<not> in_progress m
        \<and> (m_from m = RoleAssistant \<longrightarrow> m_model m \<in> {None, Some target})) (filter (in_history target) ms)"
proof
  show "rq_messages (buildChatCompletionPayload ms config pe (compare_options target)) =
      (if trim (cf_systemPrompt config) = [] then [] else [system_message (trim (cf_systemPrompt config))])
      @ map formatMessageForAPI (filter (in_history target) ms)"
    using assms by (simp add: buildChatCompletionPayload_def scoped_messages_def history_filter Let_def)
  show "list_all (\<lambda>m. \<not> in_progress m
        \<and> (m_from m = RoleAssistant \<longrightarrow> m_model m \<in> {None, Some target})) (filter (in_history target) ms)"
    using in_history_not_in_progress by (auto simp: list_all_iff) (auto simp: in_history_def)
qed

definition demo_history :: "Message list" where
  "demo_history =
     [createUserMessage [1] [2] (js ''hi'') [],
      (createLoadingAssistantMessage [3] [4] (Some (js ''a'')))
        \<lparr>m_status := Some Complete, m_versions := [createMessageVersion [5] (js ''A'')]\<rparr>,
      (createLoadingAssistantMessage [6] [7] (Some (js ''b'')))
        \<lparr>m_status := Some Complete, m_versions := [createMessageVersion [8] (js ''B'')]\<rparr>,
      createLoadingAssistantMessage [9] [10] (Some (js ''b''))]"

theorem payload_history_exact_witness:
  "map cm_content (rq_messages (buildChatCompletionPayload demo_history DEFAULT_CONFIG
       DEFAULT_PARAMETER_ENABLED (compare_options (js ''b'')))) =
     [ContentText (js ''hi''), ContentText (js ''B'')]"
proof -
  have "trim (cf_systemPrompt DEFAULT_CONFIG) = []" by (simp add: DEFAULT_CONFIG_def)
  moreover have "map cm_content (map formatMessageForAPI (filter (in_history (js ''b'')) demo_history)) =
      [ContentText (js ''hi''), ContentText (js ''B'')]" by code_simp
  ultimately show ?thesis
    using payload_history_exact [of "js ''b''" demo_history DEFAULT_CONFIG DEFAULT_PARAMETER_ENABLED] by simp
qed

text \<open>
  What the API's types promise of a request: reasoning by effort or by a positive budget and never
  off, a tool choice with and only with tools that have a name, usage asked for exactly
  when streaming, and no response format for plain text.
\<close>

definition reasoning_ok :: "ChatCompletionRequest \<Rightarrow> bool" where
  "reasoning_ok p \<longleftrightarrow>
     (case rq_reasoning p of
        None \<Rightarrow> rq_reasoning_effort p = None
      | Some r \<Rightarrow>
          (case (ro_max_tokens r, ro_effort r) of
             (Some n, None) \<Rightarrow> num_gt n (Fin 0) \<and> rq_reasoning_effort p = None
           | (None, Some e) \<Rightarrow> e \<noteq> EffortOff \<and> rq_reasoning_effort p = Some e
           | _ \<Rightarrow> False))"

definition well_formed_request :: "ChatCompletionRequest \<Rightarrow> bool" where
  "well_formed_request p \<longleftrightarrow>
     reasoning_ok p
     \<and> (case rq_tools p of
          None \<Rightarrow> rq_tool_choice p = None
        | Some ts \<Rightarrow> ts \<noteq> [] \<and> list_all (\<lambda>t. trim (tool_name t) \<noteq> []) ts \<and> rq_tool_choice p \<noteq> None)
     \<and> rq_stream_options p = (if rq_stream p then Some (Some True) else None)
     \<and> rq_response_format p \<noteq> Some FormatText"

text \<open>Every request the builder makes satisfies the API contract, whatever the configuration, and
  carries each sampling parameter exactly when it is enabled (for the seed, enabled and set).\<close>

theorem payload_well_formed:
  "well_formed_request (buildChatCompletionPayload ms config pe options)
   \<and> (let p = buildChatCompletionPayload ms config pe options
      in (rq_temperature p \<noteq> None \<longleftrightarrow> pe_temperature pe)
         \<and> (rq_top_p p \<noteq> None \<longleftrightarrow> pe_top_p pe)
         \<and> (rq_max_tokens p \<noteq> None \<longleftrightarrow> pe_max_tokens pe)
         \<and> (rq_frequency_penalty p \<noteq> None \<longleftrightarrow> pe_frequency_penalty pe)
         \<and> (rq_presence_penalty p \<noteq> None \<longleftrightarrow> pe_presence_penalty pe)
         \<and> (rq_seed p \<noteq> None \<longleftrightarrow> pe_seed pe \<and> cf_seed config \<noteq> None))"
  by (auto simp: buildChatCompletionPayload_def well_formed_request_def reasoning_ok_def Let_def
      when_enabled_def list_all_iff)

lemma join_member: "x \<in> set xs \<Longrightarrow> sublist x (join sep xs)"
proof (induction sep xs rule: join.induct)
  case (3 sep y z zs)
  show ?case
  proof (cases "x = y")
    case False
    then obtain ps ss where "join sep (z # zs) = ps @ x @ ss" using 3 by (auto simp: sublist_def)
    then have "join sep (y # z # zs) = (y @ sep @ ps) @ x @ ss" by simp
    then show ?thesis unfolding sublist_def by blast
  qed (simp add: sublist_append_rightI)
qed simp_all

text \<open>The Markdown export keeps the text of every message that has one, and its reasoning.\<close>

theorem export_keeps_text:
  assumes "m \<in> set ms"
  shows "str_includes (exportConversationMarkdown ms title) (v_content (getCurrentVersion m))
    \<and> (case m_reasoning m of None \<Rightarrow> True
        | Some r \<Rightarrow> str_includes (exportConversationMarkdown ms title) (re_content r))"
proof -
  have m: "l \<in> set (message_lines m) \<Longrightarrow> str_includes (exportConversationMarkdown ms title) l" for l
    unfolding includes_iff_sublist exportConversationMarkdown_def
    by (rule join_member) (use assms in auto)
  have empty: "str_includes s []" for s by (simp add: includes_iff_sublist)
  show ?thesis
    using m [of "v_content (getCurrentVersion m)"]
    by (cases "v_content (getCurrentVersion m)"; cases "m_reasoning m")
      (auto simp: message_lines_def empty intro!: m split: if_splits)
qed

theorem export_keeps_text_witness:
  "str_includes (exportConversationMarkdown demo_history (js ''T'')) (js ''A'')"
proof -
  have "demo_history ! 1 \<in> set demo_history" by (simp add: demo_history_def)
  moreover have "v_content (getCurrentVersion (demo_history ! 1)) = js ''A''" by code_simp
  ultimately show ?thesis using export_keeps_text [of "demo_history ! 1" demo_history "js ''T''"] by simp
qed

end
