(* ===== verification/Cost.thy ===== *)
theory Cost
  imports Playground_Types
begin

text \<open>
  The cost of a response (\<^verbatim>\<open>features/playground/lib/cost.ts\<close>), in double arithmetic as the code
  computes it, and its text. The theory shows when a cost is known, that it is a finite
  non-negative amount for inputs in range (no overflow, no NaN), and that the text shows the amount
  rounded to the number of decimals chosen for its size.
\<close>

record ModelPricing =
  mp_quotaType :: jsnum
  mp_modelRatio :: jsnum
  mp_completionRatio :: jsnum
  mp_modelPrice :: "jsnum option"
  mp_cacheRatio :: "jsnum nullable"
  mp_supportedEndpointTypes :: "jstring list option"
  mp_tags :: "jstring option"
  mp_enableGroups :: "jstring list option"
  mp_audioRatio :: "jsnum nullable"
  mp_audioCompletionRatio :: "jsnum nullable"

definition effective_ratio :: "jsnum \<Rightarrow> jsnum" where
  "effective_ratio groupRatio =
     (if is_finite groupRatio \<and> num_gt groupRatio (Fin 0) then groupRatio else Fin 1)"

definition cached_tokens :: "TokenUsage \<Rightarrow> jsnum" where
  "cached_tokens usage =
     (case prompt_tokens_details usage of Some (Some c) \<Rightarrow> c | _ \<Rightarrow> Fin 0)"

definition effective_cache_ratio :: "ModelPricing \<Rightarrow> jsnum" where
  "effective_cache_ratio pricing =
     (case mp_cacheRatio pricing of
        Some (Some r) \<Rightarrow> if is_finite r then r else Fin 1
      | _ \<Rightarrow> Fin 1)"

definition token_cost :: "TokenUsage \<Rightarrow> ModelPricing \<Rightarrow> jsnum \<Rightarrow> jsnum" where
  "token_cost usage pricing ratio =
     (let inputPerM = num_mul (num_mul (mp_modelRatio pricing) (Fin 2)) ratio;
          outputPerM = num_mul inputPerM (mp_completionRatio pricing);
          cached = cached_tokens usage;
          nonCached = num_max (Fin 0) (num_sub (prompt_tokens usage) cached);
          cacheRatio = effective_cache_ratio pricing;
          inputCost = num_div_lit
            (num_add (num_mul nonCached inputPerM) (num_mul (num_mul cached inputPerM) cacheRatio)) 1000000;
          outputCost = num_div_lit (num_mul (completion_tokens usage) outputPerM) 1000000
      in num_add inputCost outputCost)"

definition computeCostUsd ::
  "TokenUsage option \<Rightarrow> ModelPricing option \<Rightarrow> jsnum \<Rightarrow> jsnum option" where
  "computeCostUsd usage pricing groupRatio =
     (case pricing of
        None \<Rightarrow> None
      | Some p \<Rightarrow>
          (let ratio = effective_ratio groupRatio
           in if num_eq (mp_quotaType p) (Fin 1) then
                (case mp_modelPrice p of None \<Rightarrow> None | Some price \<Rightarrow> Some (num_mul price ratio))
              else (case usage of None \<Rightarrow> None | Some u \<Rightarrow> Some (token_cost u p ratio))))"

definition cost_digits :: "jsnum \<Rightarrow> nat" where
  "cost_digits cost =
     (let a = num_abs cost
      in if num_lt a (js_round (1 / 10000)) then 7
         else if num_lt a (js_round (1 / 1000)) then 6
         else if num_lt a (js_round (1 / 100)) then 5
         else if num_lt a (Fin 1) then 4 else 2)"

definition formatCostUsd :: "jsnum option \<Rightarrow> jstring" where
  "formatCostUsd cost =
     (case cost of
        None \<Rightarrow> [8212]
      | Some c \<Rightarrow>
          if \<not> is_finite c then [8212]
          else if num_eq c (Fin 0) then js ''$0''
          else js ''$'' @ to_fixed c (cost_digits c))"

section \<open>Properties\<close>

text \<open>The cost is unknown exactly without a price: no pricing row, a per-request model with no price,
  or a per-token model with no usage.\<close>

theorem cost_known_exact:
  "computeCostUsd usage pricing ratio = None \<longleftrightarrow>
     (case pricing of
        None \<Rightarrow> True
      | Some p \<Rightarrow> if num_eq (mp_quotaType p) (Fin 1) then mp_modelPrice p = None else usage = None)"
  by (auto simp: computeCostUsd_def Let_def split: option.splits)

text \<open>Amounts between 0 and $2^{64}$: token counts, ratios and prices of any real catalogue.\<close>

definition pricing_in_range :: "ModelPricing \<Rightarrow> bool" where
  "pricing_in_range p \<longleftrightarrow> num_upto 64 (mp_modelRatio p) \<and> num_upto 64 (mp_completionRatio p)
     \<and> (case mp_modelPrice p of None \<Rightarrow> True | Some x \<Rightarrow> num_upto 64 x)
     \<and> (case mp_cacheRatio p of Some (Some r) \<Rightarrow> num_upto 64 r | _ \<Rightarrow> True)"

definition usage_in_range :: "TokenUsage \<Rightarrow> bool" where
  "usage_in_range u \<longleftrightarrow> num_upto 64 (prompt_tokens u) \<and> num_upto 64 (completion_tokens u)
     \<and> num_upto 64 (cached_tokens u)"

lemma num_upto_1 [simp]: "num_upto k (Fin 1)"
  by simp

lemma num_upto_max_sub:
  assumes "num_upto k x" "num_upto k y" "k \<le> 1023"
  shows "num_upto k (num_max (Fin 0) (num_sub x y))"
proof -
  obtain a b where ab: "x = Fin a" "y = Fin b" "0 \<le> a" "a \<le> 2 ^ k" "0 \<le> b" "b \<le> 2 ^ k"
    using assms(1,2) by (auto elim!: num_uptoE)
  show ?thesis
  proof (cases "b \<le> a")
    case True
    then have "num_upto k (js_round (a - b))" using ab assms(3) by (intro num_upto_round) auto
    then show ?thesis using ab by (auto simp: num_sub_def num_max_def elim: num_uptoE)
  next
    case False
    let ?r = "round_pos \<bar>a - b\<bar>"
    have "\<bar>a - b\<bar> \<le> pow2 (int k)" using ab False by (simp add: pow2_def)
    then have "?r \<le> 2 ^ k" using False round_pos_le [of "\<bar>a - b\<bar>" "int k"] by (simp add: pow2_def)
    moreover have "(2::rat) ^ k < 2 ^ 1024" using assms(3) by (intro power_strict_increasing) auto
    ultimately have "js_round (a - b) = Fin (- ?r)" "0 \<le> ?r"
      using False round_pos_nonneg [of "\<bar>a - b\<bar>"] by (auto simp: js_round_def Let_def)
    then show ?thesis using ab by (simp add: num_sub_def num_max_def)
  qed
qed

lemma effective_ratio_upto: "num_upto 64 r \<or> \<not> is_finite r \<Longrightarrow> num_upto 64 (effective_ratio r)"
  by (auto simp: effective_ratio_def)

lemma token_cost_in_range:
  assumes "pricing_in_range p" "usage_in_range u" "num_upto 64 ratio"
  shows "num_upto 259 (token_cost u p ratio)"
proof -
  have c: "num_upto 64 (effective_cache_ratio p)"
    using assms(1) by (auto simp: effective_cache_ratio_def pricing_in_range_def split: option.splits)
  have i: "num_upto 129 (num_mul (num_mul (mp_modelRatio p) (Fin 2)) ratio)" (is "num_upto _ ?i")
    using num_upto_mul [OF num_upto_mul [of 64 "mp_modelRatio p" 1 "Fin 2"] assms(3)] assms(1)
    by (simp add: pricing_in_range_def)
  have o': "num_upto 193 (num_mul ?i (mp_completionRatio p))"
    using num_upto_mul [OF i, of 64 "mp_completionRatio p"] assms(1) by (simp add: pricing_in_range_def)
  have n: "num_upto 257 (num_mul (num_max (Fin 0) (num_sub (prompt_tokens u) (cached_tokens u))) ?i)"
    using num_upto_mono [OF num_upto_mul [OF num_upto_max_sub i], of 64 _ _ 257] assms(2)
    by (simp add: usage_in_range_def)
  have h: "num_upto 257 (num_mul (num_mul (cached_tokens u) ?i) (effective_cache_ratio p))"
    using num_upto_mul [OF num_upto_mul [OF _ i, of 64 "cached_tokens u"] c] assms(2)
    by (simp add: usage_in_range_def)
  have q: "num_upto 258 (num_mul (completion_tokens u) (num_mul ?i (mp_completionRatio p)))"
    using num_upto_mul [OF _ o', of 64 "completion_tokens u"] assms(2)
    by (auto simp: usage_in_range_def intro: num_upto_mono)
  have s: "num_upto 258 (num_add (num_mul (num_max (Fin 0) (num_sub (prompt_tokens u) (cached_tokens u))) ?i)
      (num_mul (num_mul (cached_tokens u) ?i) (effective_cache_ratio p)))"
    using num_upto_add [OF n h] by simp
  show ?thesis
    using num_upto_add [OF num_upto_div_lit [OF s] num_upto_div_lit [OF q], of 1000000 1000000]
    by (simp add: token_cost_def Let_def)
qed

text \<open>C39: for token counts, ratios and prices in range the cost is a finite amount that is not
  negative: rounding never overflows, and no NaN can arise.\<close>

theorem cost_finite_nonneg:
  assumes "pricing_in_range p" "usage_in_range u" "num_upto 64 ratio"
    and "computeCostUsd (Some u) (Some p) ratio = Some c"
  shows "\<exists>a. c = Fin a \<and> 0 \<le> a"
proof -
  have r: "num_upto 64 (effective_ratio ratio)" using assms(3) by (simp add: effective_ratio_upto)
  have "num_upto 259 c"
  proof (cases "num_eq (mp_quotaType p) (Fin 1)")
    case True
    then obtain price where "mp_modelPrice p = Some price" "c = num_mul price (effective_ratio ratio)"
      using assms(4) by (auto simp: computeCostUsd_def Let_def split: option.splits)
    then have "num_upto 128 c"
      using assms(1) num_upto_mul [OF _ r, of 64 price] by (simp add: pricing_in_range_def)
    then show ?thesis by (rule num_upto_mono) simp
  next
    case False
    then have "c = token_cost u p (effective_ratio ratio)"
      using assms(4) by (simp add: computeCostUsd_def Let_def)
    then show ?thesis using token_cost_in_range [OF assms(1,2) r] by simp
  qed
  then show ?thesis by (auto elim: num_uptoE)
qed

definition demo_pricing :: ModelPricing where
  "demo_pricing = \<lparr>mp_quotaType = Fin 1, mp_modelRatio = Fin 1, mp_completionRatio = Fin 1,
     mp_modelPrice = Some (Fin 0), mp_cacheRatio = None, mp_supportedEndpointTypes = None, mp_tags = None,
     mp_enableGroups = None, mp_audioRatio = None, mp_audioCompletionRatio = None\<rparr>"

definition demo_usage :: TokenUsage where
  "demo_usage = \<lparr>prompt_tokens = Fin 3, completion_tokens = Fin 4, total_tokens = Fin 7,
     prompt_tokens_details = None\<rparr>"

theorem cost_finite_nonneg_witness: "\<exists>a. num_mul (Fin 0) (Fin 2) = Fin a \<and> 0 \<le> a"
proof -
  have "pricing_in_range demo_pricing" "usage_in_range demo_usage" "num_upto 64 (Fin 2)"
    by (simp_all add: pricing_in_range_def usage_in_range_def demo_pricing_def demo_usage_def cached_tokens_def)
  moreover have "computeCostUsd (Some demo_usage) (Some demo_pricing) (Fin 2) = Some (num_mul (Fin 0) (Fin 2))"
    by (simp add: computeCostUsd_def demo_pricing_def num_eq_def effective_ratio_def is_finite_def num_gt_def)
  ultimately show ?thesis by (rule cost_finite_nonneg)
qed

lemma read_nat_zeros: "read_nat (replicate k 48 @ s) = read_nat s"
  by (induction k) (simp_all add: read_nat_def)

lemma digits_to_fixed_pos:
  assumes "0 \<le> x"
  shows "read_nat (filter is_digit (to_fixed_pos x d)) = nat \<lfloor>x * 10 ^ d + 1/2\<rfloor>"
proof -
  let ?s = "pad_left (Suc d) (show_nat (nat \<lfloor>x * 10 ^ d + 1/2\<rfloor>))"
  have split: "filter is_digit (take k w @ 46 # drop k w) = filter is_digit w" for k w
    using filter_append [of is_digit "take k w" "drop k w"] by (simp add: is_digit_def)
  have "\<forall>c\<in>set ?s. is_digit c" using set_show_nat by (auto simp: pad_left_def is_digit_def)
  then have "filter is_digit ?s = ?s" by (simp add: filter_id_conv)
  moreover have "filter is_digit (to_fixed_pos x d) = filter is_digit ?s"
    unfolding to_fixed_pos_def Let_def append_Cons append_Nil by (simp only: split if_distrib [of "filter is_digit"] if_cancel)
  ultimately show ?thesis by (simp add: pad_left_def read_nat_zeros)
qed

lemma cost_digits_range: "cost_digits c \<in> {2, 4, 5, 6, 7}"
  by (simp add: cost_digits_def Let_def)

text \<open>The text of a finite cost is a dollar amount (never the dash of an unknown one), and its digits
  are the cost's size times a power of ten, rounded to nearest, with two to seven decimals.\<close>

theorem format_cost_rounds:
  assumes "\<bar>a\<bar> < 10 ^ 21"
  shows "hd (formatCostUsd (Some (Fin a))) = 36
    \<and> (\<exists>d\<in>{2, 4, 5, 6, 7}.
         read_nat (filter is_digit (formatCostUsd (Some (Fin a)))) = nat \<lfloor>\<bar>a\<bar> * 10 ^ d + 1/2\<rfloor>)"
proof (cases "a = 0")
  case True
  then show ?thesis
    by (auto simp: formatCostUsd_def is_finite_def num_eq_def js_def is_digit_def read_nat_def)
next
  case False
  let ?d = "cost_digits (Fin a)"
  have f: "formatCostUsd (Some (Fin a)) =
      36 # (if a < 0 then 45 # to_fixed_pos (- a) ?d else to_fixed_pos a ?d)"
    using False assms by (simp add: formatCostUsd_def is_finite_def num_eq_def js_def)
  have "read_nat (filter is_digit (formatCostUsd (Some (Fin a)))) = nat \<lfloor>\<bar>a\<bar> * 10 ^ ?d + 1/2\<rfloor>"
    using digits_to_fixed_pos [of a ?d] digits_to_fixed_pos [of "- a" ?d]
    by (auto simp: f is_digit_def)
  then show ?thesis using cost_digits_range f by (metis list.sel(1))
qed

theorem format_cost_rounds_witness:
  "\<exists>d\<in>{2, 4, 5, 6, 7}.
     read_nat (filter is_digit (formatCostUsd (Some (Fin (5/2))))) = nat \<lfloor>(5/2 :: rat) * 10 ^ d + 1/2\<rfloor>"
  using format_cost_rounds [of "5/2"] by simp

end
