(* ===== verification/Chat_Laws.thy ===== *)
theory Chat_Laws
  imports Chat_Session
begin

text \<open>
  Properties of the chat session. The locale \<open>message_updater\<close> is the contract of what a callback
  may do to its message; it is interpreted on every updater of the handler, and the facts about
  whole conversations are proved from it.
\<close>

section \<open>Updaters keep a message's identity\<close>

lemma processStreamingContent_fields [simp]:
  "m_key (processStreamingContent m c) = m_key m" "m_from (processStreamingContent m c) = m_from m"
  "m_activeVersionIndex (processStreamingContent m c) = m_activeVersionIndex m"
  "length (m_versions (processStreamingContent m c)) = length (m_versions m)"
  by (simp_all add: processStreamingContent_def Let_def updateCurrentVersionContent_def)

locale message_updater =
  fixes f :: "Message \<Rightarrow> Message"
  assumes keeps_key: "m_key (f m) = m_key m"
    and keeps_from: "m_from (f m) = m_from m"
begin

lemma keeps_keys: "map m_key (updateMessageByKey ms k f) = map m_key ms"
  by (rule by_key.upd_keys) (rule keeps_key)

lemma keeps_roles: "map m_from (updateMessageByKey ms k f) = map m_from ms"
proof (rule by_key.upd_cases [of k ms f])
  fix i assume "i < length ms" "updateMessageByKey ms k f = ms[i := f (ms ! i)]"
  then show ?thesis by (simp add: map_update keeps_from list_update_same_conv)
qed simp

lemma commutes_with:
  assumes "message_updater g" "distinct (map m_key ms)" "k \<noteq> l"
  shows "updateMessageByKey (updateMessageByKey ms k f) l g =
    updateMessageByKey (updateMessageByKey ms l g) k f"
  using by_key.upd_commute [OF assms(2,3) keeps_key message_updater.keeps_key [OF assms(1)]] .

end

interpretation update: message_updater "on_update kind chunk" for kind chunk
  by unfold_locales (simp_all add: on_update_def split: UpdateKind.splits)

interpretation tool_update: message_updater "on_tool_calls tcs" for tcs
  by unfold_locales (simp_all add: on_tool_calls_def)

interpretation source_update: message_updater "on_annotations as" for as
  by unfold_locales (simp_all add: on_annotations_def)

interpretation completion: message_updater "on_complete cx model latency usage fin tcs"
  for cx model latency usage fin tcs
  by unfold_locales (simp_all add: on_complete_def)

interpretation failure: message_updater "set_error t e c" for t e c
  by unfold_locales simp_all

interpretation answer: message_updater "response_message cx model latency resp choice"
  for cx model latency resp choice
  by unfold_locales (simp_all add: response_message_def Let_def)

text \<open>The updater a callback runs, and what it leaves of the rest of the state.\<close>

fun cb_updater :: "ChatContext \<Rightarrow> ChatTarget \<Rightarrow> int option \<Rightarrow> StreamCallback \<Rightarrow> Message \<Rightarrow> Message" where
  "cb_updater cx target latency (OnUpdate kind chunk) = on_update kind chunk"
| "cb_updater cx target latency (OnToolCalls tcs) = on_tool_calls tcs"
| "cb_updater cx target latency (OnAnnotations as) = on_annotations as"
| "cb_updater cx target latency (OnComplete usage fin tcs) =
     on_complete cx (tg_model target) latency usage fin tcs"
| "cb_updater cx target latency (OnError e code) = set_error (cx_t cx) e code"

fun ends_request :: "StreamCallback \<Rightarrow> bool" where
  "ends_request (OnComplete _ _ _) = True"
| "ends_request (OnError _ _) = True"
| "ends_request _ = False"

definition latency_of :: "ChatTarget \<Rightarrow> int \<Rightarrow> ChatState \<Rightarrow> int option" where
  "latency_of target now s =
     map_option (\<lambda>startedAt. now - startedAt) (map_of (st_requestStart s) (tg_key target))"

lemma apply_callback_alt:
  "apply_callback cx target now cb s =
     s\<lparr>st_messages := updateMessageByKey (st_messages s) (tg_key target)
          (cb_updater cx target (latency_of target now s) cb),
       st_requestStart := (if ends_request cb then AList.delete (tg_key target) (st_requestStart s)
                           else st_requestStart s)\<rparr>"
  by (cases cb) (simp_all add: apply_callback_def latency_of_def setMessageErrorByKey_def Let_def)

lemma cb_updater_ok: "message_updater (cb_updater cx target latency cb)"
  by (cases cb) (simp_all add: update.message_updater_axioms tool_update.message_updater_axioms
      source_update.message_updater_axioms completion.message_updater_axioms failure.message_updater_axioms)

lemma apply_callback_frame [simp]:
  "st_hook (apply_callback cx target now cb s) = st_hook s"
  "map m_key (st_messages (apply_callback cx target now cb s)) = map m_key (st_messages s)"
  "map m_from (st_messages (apply_callback cx target now cb s)) = map m_from (st_messages s)"
  by (simp_all add: apply_callback_alt message_updater.keeps_keys [OF cb_updater_ok]
      message_updater.keeps_roles [OF cb_updater_ok])

lemma apply_callbacks_frame [simp]:
  "st_hook (apply_callbacks cx target now cbs s) = st_hook s"
  "map m_key (st_messages (apply_callbacks cx target now cbs s)) = map m_key (st_messages s)"
  "map m_from (st_messages (apply_callbacks cx target now cbs s)) = map m_from (st_messages s)"
  unfolding apply_callbacks_def by (induction cbs arbitrary: s) simp_all

text \<open>C2: callbacks of streams for different messages commute: whatever order the answers of compared models
  arrive in, the session ends in the same state.\<close>

theorem compared_streams_commute:
  assumes "distinct (map m_key (st_messages s))" "tg_key a \<noteq> tg_key b"
  shows "apply_callback cx b now' cb' (apply_callback cx a now cb s) =
    apply_callback cx a now cb (apply_callback cx b now' cb' s)"
proof -
  have d: "map_of (AList.delete k xs) l = map_of xs l" if "k \<noteq> l" for k l and xs :: "(jstring \<times> int) list"
    using that by (simp add: delete_conv')
  have la: "latency_of a now (apply_callback cx b now' cb' s) = latency_of a now s"
    using assms(2) d [of "tg_key b" "tg_key a"] by (simp add: latency_of_def apply_callback_alt)
  have lb: "latency_of b now' (apply_callback cx a now cb s) = latency_of b now' s"
    using assms(2) d [of "tg_key a" "tg_key b"] by (simp add: latency_of_def apply_callback_alt)
  have m: "updateMessageByKey (updateMessageByKey (st_messages s) (tg_key a) f) (tg_key b) g =
      updateMessageByKey (updateMessageByKey (st_messages s) (tg_key b) g) (tg_key a) f"
    if "message_updater f" "message_updater g" for f g
    using message_updater.commutes_with [OF that assms] .
  show ?thesis
    by (simp only: apply_callback_alt [of cx b now' cb' "apply_callback cx a now cb s"]
        apply_callback_alt [of cx a now cb "apply_callback cx b now' cb' s"] la lb)
      (simp add: apply_callback_alt m [OF cb_updater_ok cb_updater_ok] delete_twist)
qed

section \<open>The session refines the hook\<close>

lemma sendStreamingTo_hook:
  "st_hook (sendStreamingTo cx now started messages target s) =
     fst (sendStreamRequest (cx_t cx) (tg_key target) (request_payload cx messages target) target started (st_hook s))"
  by (simp add: sendStreamingTo_def Let_def split: prod.splits)

lemma on_response_frame [simp]:
  "st_hook (on_response cx now req result s) = st_hook s"
  "map m_key (st_messages (on_response cx now req result s)) = map m_key (st_messages s)"
  "map m_from (st_messages (on_response cx now req result s)) = map m_from (st_messages s)"
  by (simp_all add: on_response_def Let_def setMessageErrorByKey_def answer.keeps_keys answer.keeps_roles
      failure.keeps_keys failure.keeps_roles split: sum.splits option.splits list.splits)

lemma truncate_message_fields [simp]:
  "m_key (truncate_message m) = m_key m" "m_from (truncate_message m) = m_from m"
  by (simp_all add: truncate_message_def)

lemma chat_step_hook: "chat_step cx s s' \<Longrightarrow> reachable (cx_t cx) (st_hook s) \<Longrightarrow> reachable (cx_t cx) (st_hook s')"
proof (induction rule: chat_step.induct)
  case (send_streaming s now started messages target)
  then show ?case
    by (simp add: sendStreamingTo_hook) (rule reachable.step, assumption, rule stream_step.send, simp add: prod_eq_iff)
next
  case (message n s data r now)
  then show ?case
    using reachable.step [OF message.prems stream_step.message [of n _ _ data "fst r" "snd r"]]
    by (auto simp: with_hook_def is_open_def)
next
  case (error n s now readyState data)
  then show ?case
    using reachable.step [OF error.prems stream_step.error [of n _ _ readyState data]]
    by (auto simp: with_hook_def prod_eq_iff)
next
  case (ready n s now readyState status)
  then show ?case
    using reachable.step [OF ready.prems stream_step.ready [of n _ _ readyState status]]
    by (auto simp: with_hook_def prod_eq_iff)
next
  case (stop s)
  then show ?case using reachable.step [OF stop stream_step.stop] by (simp add: stopGeneration_def)
qed (simp_all add: sendNonStreamingTo_def)

lemma chat_step_frame:
  "chat_step cx s s' \<Longrightarrow> map m_key (st_messages s') = map m_key (st_messages s)
     \<and> map m_from (st_messages s') = map m_from (st_messages s)"
  by (induction rule: chat_step.induct)
    (simp_all add: sendStreamingTo_def sendNonStreamingTo_def with_hook_def stopGeneration_def Let_def
      split: prod.splits)

lemma chat_reachable_hook: "chat_reachable cx ms s \<Longrightarrow> reachable (cx_t cx) (st_hook s)"
  by (induction rule: chat_reachable.induct) (auto simp: start_state_def reachable.start chat_step_hook)

lemma chat_reachable_frame:
  "chat_reachable cx ms s \<Longrightarrow> map m_key (st_messages s) = map m_key ms \<and> map m_from (st_messages s) = map m_from ms"
  by (induction rule: chat_reachable.induct) (auto simp: start_state_def dest: chat_step_frame)

text \<open>C5: every run of the session is a run of the streaming hook, so its connections never leak, and no event
  adds, drops, reorders or re-attributes a message.\<close>

theorem session_refines_hook:
  assumes "chat_reachable cx ms s"
  shows "reachable (cx_t cx) (st_hook s) \<and> hook_inv (st_hook s)
    \<and> map m_key (st_messages s) = map m_key ms \<and> map m_from (st_messages s) = map m_from ms"
  using chat_reachable_hook [OF assms] reachable_inv [OF chat_reachable_hook [OF assms]]
    chat_reachable_frame [OF assms] by blast

definition demo_context :: ChatContext where
  "demo_context = \<lparr>cx_config = DEFAULT_CONFIG, cx_enabled = DEFAULT_PARAMETER_ENABLED,
     cx_pricingMap = (\<lambda>_. None), cx_groupRatio = Fin 1, cx_t = (\<lambda>s. s)\<rparr>"

definition demo_messages :: "Message list" where
  "demo_messages = [createUserMessage (js ''u'') (js ''v'') (js ''hi'') [],
     createLoadingAssistantMessage (js ''k'') (js ''w'') (Some (js ''m''))]"

definition demo_chat :: ChatState where
  "demo_chat = sendStreamingTo demo_context 0 True demo_messages demo_target (start_state demo_messages)"

lemma demo_chat_reachable: "chat_reachable demo_context demo_messages demo_chat"
  unfolding demo_chat_def
  by (rule chat_reachable.step [OF chat_reachable.start chat_step.send_streaming])
    (simp add: demo_context_def DEFAULT_CONFIG_def)

theorem session_refines_hook_witness:
  "hook_inv (st_hook demo_chat) \<and> map m_key (st_messages demo_chat) = [js ''u'', js ''k'']"
proof -
  have "map m_key demo_messages = [js ''u'', js ''k'']" by code_simp
  then show ?thesis using session_refines_hook [OF demo_chat_reachable] by simp
qed

theorem compared_streams_commute_witness:
  "apply_callback demo_context demo_target 2 (OnUpdate UpdContent [66])
       (apply_callback demo_context \<lparr>tg_key = js ''u'', tg_model = []\<rparr> 1 (OnUpdate UpdContent [65]) demo_chat) =
   apply_callback demo_context \<lparr>tg_key = js ''u'', tg_model = []\<rparr> 1 (OnUpdate UpdContent [65])
       (apply_callback demo_context demo_target 2 (OnUpdate UpdContent [66]) demo_chat)"
proof -
  have "map m_key (st_messages demo_chat) = map m_key demo_messages"
    using chat_reachable_frame [OF demo_chat_reachable] by simp
  also have "\<dots> = [js ''u'', js ''k'']" by code_simp
  finally have "distinct (map m_key (st_messages demo_chat))" by (simp add: js_def)
  then show ?thesis by (rule compared_streams_commute) (simp add: demo_target_def js_def)
qed

lemma sendChat_reachable:
  assumes "chat_reachable cx ms s"
  shows "chat_reachable cx ms (sendChat cx now started messages targets s)"
  unfolding sendChat_def using assms
proof (induction targets arbitrary: s)
  case (Cons target targets)
  have "chat_reachable cx ms (if cf_stream (cx_config cx)
      then sendStreamingTo cx now (started (tg_key target)) messages target s
      else sendNonStreamingTo cx now messages target s)"
    using chat_reachable.step [OF Cons.prems] chat_step.send_streaming chat_step.send_request by simp
  then show ?case using Cons.IH by (auto split: if_splits)
qed simp

section \<open>Stopping\<close>

lemma truncate_not_in_progress:
  "\<not> (m_from (truncate_message m) = RoleAssistant \<and> in_progress (truncate_message m))"
  by (auto simp: truncate_message_def in_progress_def)

text \<open>C8: stopping ends generation: no connection is open, nothing is counted as generating, no assistant
  message is in progress, those that were are truncated, and every other message is as it was.\<close>

theorem stop_generation_quiesces:
  assumes "chat_reachable cx ms s"
  shows "\<not> isGenerating (stopGeneration s) \<and> (\<forall>n. \<not> is_open (st_hook (stopGeneration s)) n)
    \<and> list_all (\<lambda>m. \<not> (m_from m = RoleAssistant \<and> in_progress m)) (st_messages (stopGeneration s))
    \<and> list_all2 (\<lambda>m m'. if m_from m = RoleAssistant \<and> in_progress m
          then m_key m' = m_key m \<and> m_status m' = Some Truncated else m' = m)
        (st_messages s) (st_messages (stopGeneration s))"
proof -
  have inv: "hook_core (st_hook s)"
    using reachable_inv [OF chat_reachable_hook [OF assms]] by (simp add: hook_inv_def)
  have o: "\<not> is_open (st_hook (stopGeneration s)) n" for n
    using stopAll_open [OF inv] by (simp add: stopGeneration_def)
  moreover have "\<not> isGenerating (stopGeneration s)"
    by (simp add: isGenerating_def stopGeneration_def isStreaming_def stopStream_def)
  moreover have "list_all (\<lambda>m. \<not> (m_from m = RoleAssistant \<and> in_progress m)) (st_messages (stopGeneration s))"
    using truncate_not_in_progress by (simp add: stopGeneration_def list_all_iff)
  moreover have "list_all2 (\<lambda>m m'. if m_from m = RoleAssistant \<and> in_progress m
        then m_key m' = m_key m \<and> m_status m' = Some Truncated else m' = m)
      (st_messages s) (st_messages (stopGeneration s))"
    by (auto simp: stopGeneration_def list_all2_conv_all_nth truncate_message_def)
  ultimately show ?thesis by blast
qed

theorem stop_generation_quiesces_witness:
  "isGenerating demo_chat \<and> \<not> isGenerating (stopGeneration demo_chat)"
proof -
  have "activeCount (st_hook demo_chat) = 1"
    by (simp add: demo_chat_def sendStreamingTo_hook sendStreamRequest_def start_state_def empty_hook_def Let_def)
  then have "isGenerating demo_chat" by (simp add: isGenerating_def isStreaming_def)
  then show ?thesis using stop_generation_quiesces [OF demo_chat_reachable] by blast
qed

section \<open>An answer from its first chunk to its end\<close>

lemma content_update:
  assumes "m_versions m \<noteq> []" "m_status m \<noteq> Some ErrorStatus"
  shows "v_content (getCurrentVersion (on_update UpdContent c m)) = v_content (getCurrentVersion m) @ c"
    "m_versions (on_update UpdContent c m) \<noteq> []" "m_status (on_update UpdContent c m) = Some Streaming"
proof -
  let ?m = "updateCurrentVersionContent m (v_content (getCurrentVersion m) @ c)"
  have v: "m_versions (on_update UpdContent c m) = m_versions ?m"
    "m_activeVersionIndex (on_update UpdContent c m) = m_activeVersionIndex ?m"
    using assms(2) by (cases c; simp add: on_update_def processStreamingContent_def Let_def)+
  have "getCurrentVersion (on_update UpdContent c m) = getCurrentVersion ?m"
    by (rule getCurrentVersion_cong) (simp_all add: v)
  then show "v_content (getCurrentVersion (on_update UpdContent c m)) = v_content (getCurrentVersion m) @ c"
    using current_updateCurrentVersionContent [OF assms(1)] by simp
  show "m_versions (on_update UpdContent c m) \<noteq> []"
    using assms(1) v(1) by (simp add: updateCurrentVersionContent_def)
  show "m_status (on_update UpdContent c m) = Some Streaming" using assms(2) by (simp add: on_update_def)
qed

lemma content_updates:
  assumes "m_versions m \<noteq> []" "m_status m \<noteq> Some ErrorStatus"
  shows "v_content (getCurrentVersion (fold (on_update UpdContent) cs m)) =
      v_content (getCurrentVersion m) @ concat cs
    \<and> m_versions (fold (on_update UpdContent) cs m) \<noteq> []
    \<and> m_status (fold (on_update UpdContent) cs m) = (if cs = [] then m_status m else Some Streaming)"
  using assms
proof (induction cs arbitrary: m)
  case (Cons c cs)
  note step = content_update [OF Cons.prems]
  from Cons.IH [OF step(2)] step show ?case by simp
qed simp

lemma updateMessageByKey_at:
  assumes "distinct (map m_key ms)" "i < length ms"
  shows "updateMessageByKey ms (m_key (ms ! i)) f = ms[i := f (ms ! i)]"
proof (rule by_key.upd_hit [OF assms(2) refl], intro allI impI)
  fix j assume "j < i"
  then show "m_key (ms ! j) \<noteq> m_key (ms ! i)" using assms by (auto simp: distinct_conv_nth)
qed

lemma callbacks_at:
  assumes "distinct (map m_key (st_messages s))" "i < length (st_messages s)"
    "m_key (st_messages s ! i) = tg_key target" "list_all (\<lambda>cb. \<not> ends_request cb) cbs"
  shows "apply_callbacks cx target now cbs s = s\<lparr>st_messages := (st_messages s)
      [i := fold (\<lambda>cb. cb_updater cx target (latency_of target now s) cb) cbs (st_messages s ! i)]\<rparr>"
  using assms
proof (induction cbs arbitrary: s)
  case (Cons cb cbs)
  let ?f = "cb_updater cx target (latency_of target now s) cb"
  let ?s = "apply_callback cx target now cb s"
  have s: "?s = s\<lparr>st_messages := (st_messages s)[i := ?f (st_messages s ! i)]\<rparr>"
    using Cons.prems updateMessageByKey_at [of "st_messages s" i ?f] by (simp add: apply_callback_alt)
  then have l: "latency_of target now ?s = latency_of target now s" by (simp add: latency_of_def)
  have "distinct (map m_key (st_messages ?s))" using Cons.prems(1) by (simp only: apply_callback_frame)
  moreover have "m_key (st_messages ?s ! i) = tg_key target"
    using Cons.prems(2,3) message_updater.keeps_key [OF cb_updater_ok] by (simp add: s)
  ultimately have "apply_callbacks cx target now cbs ?s = ?s\<lparr>st_messages := (st_messages ?s)
      [i := fold (\<lambda>cb. cb_updater cx target (latency_of target now ?s) cb) cbs (st_messages ?s ! i)]\<rparr>"
    using Cons.IH [of ?s] Cons.prems(2,4) by (simp add: s)
  then show ?case using Cons.prems(2) by (simp add: apply_callbacks_def l) (simp add: s)
qed (simp add: apply_callbacks_def)

lemma finalize_current_content:
  assumes "m_versions m \<noteq> []"
  shows "v_content (getCurrentVersion ((finalizeMessage m a opts)\<lparr>m_status := x, m_usage := u, m_costUsd := y,
      m_latencyMs := l\<rparr>)) = visibleContent (parseThinkTags (v_content (getCurrentVersion m)))"
proof -
  let ?n = "(finalizeMessage m a opts)\<lparr>m_status := x, m_usage := u, m_costUsd := y, m_latencyMs := l\<rparr>"
  define f where "f v = v\<lparr>v_content := visibleContent (parseThinkTags (v_content (getCurrentVersion m))),
     v_toolCalls := final_tool_calls m opts, v_reasoning := final_reasoning m a,
     v_refusal := coalesce (fo_refusal opts) (m_refusal m),
     v_finishReason := coalesce_null (fo_finishReason opts) (m_finishReason m)\<rparr>" for v :: MessageVersion
  have "getCurrentVersion ?n = f (getCurrentVersion m)"
    by (rule getCurrentVersion_map_active [OF _ _ assms]) (simp_all add: finalizeMessage_def Let_def f_def)
  then show ?thesis by (simp add: f_def)
qed

text \<open>C6: an answer that arrives in any number of chunks ends up as one complete message: its shown text is
  the concatenated chunks with the think blocks split off, it carries the usage, cost and latency of its
  request, and every other message is as it was.\<close>

theorem streamed_answer_end_to_end:
  assumes "distinct (map m_key (st_messages s))" "i < length (st_messages s)"
    and "m_key (st_messages s ! i) = tg_key target"
    and "m_versions (st_messages s ! i) \<noteq> []" "\<not> finished (st_messages s ! i)"
    and "s' = apply_callbacks cx target now (map (OnUpdate UpdContent) cs @ [OnComplete usage fin tcs]) s"
  shows "v_content (getCurrentVersion (st_messages s' ! i)) =
      visibleContent (parseThinkTags (v_content (getCurrentVersion (st_messages s ! i)) @ concat cs))
    \<and> m_status (st_messages s' ! i) = Some Complete \<and> m_usage (st_messages s' ! i) = usage
    \<and> m_costUsd (st_messages s' ! i) = costFor cx (tg_model target) usage
    \<and> m_latencyMs (st_messages s' ! i) = latency_of target now s
    \<and> (\<forall>j<length (st_messages s). j \<noteq> i \<longrightarrow> st_messages s' ! j = st_messages s ! j)"
proof -
  let ?m = "st_messages s ! i" and ?ms = "st_messages s"
  let ?c = "fold (on_update UpdContent) cs ?m"
  let ?f = "on_complete cx (tg_model target) (latency_of target now s) usage fin tcs"
  have e: "m_status ?m \<noteq> Some ErrorStatus" using assms(5) by (simp add: finished_def)
  note up = content_updates [OF assms(4) e, of cs]
  have key: "m_key (fold (on_update UpdContent) cs m) = m_key m" for m
    by (induction cs arbitrary: m) (simp_all add: update.keeps_key)
  have s1: "apply_callbacks cx target now (map (OnUpdate UpdContent) cs) s = s\<lparr>st_messages := ?ms[i := ?c]\<rparr>"
    using callbacks_at [OF assms(1,2,3), of "map (OnUpdate UpdContent) cs" cx now]
    by (simp add: fold_map comp_def list_all_iff)
  have "distinct (map m_key (?ms[i := ?c]))"
    using assms(1) list_update_id [of "map m_key ?ms" i] assms(2) by (simp add: map_update key)
  then have "updateMessageByKey (?ms[i := ?c]) (tg_key target) ?f = ?ms[i := ?f ?c]"
    using updateMessageByKey_at [of "?ms[i := ?c]" i ?f] assms(2,3) key [of ?m] by simp
  moreover have "s' = apply_callback cx target now (OnComplete usage fin tcs) (s\<lparr>st_messages := ?ms[i := ?c]\<rparr>)"
    using assms(6) s1 by (simp add: apply_callbacks_def)
  ultimately have ms': "st_messages s' = ?ms[i := ?f ?c]"
    by (simp add: apply_callback_alt latency_of_def)
  have "\<not> finished ?c" using up assms(5) by (simp add: finished_def)
  then have c: "?f ?c = (finalizeMessage ?c None \<lparr>fo_toolCalls = tcs, fo_finishReason = Some fin,
        fo_refusal = None, fo_truncated = False\<rparr>)\<lparr>m_status := Some Complete, m_usage := usage,
        m_costUsd := costFor cx (tg_model target) usage, m_latencyMs := latency_of target now s\<rparr>"
    by (simp add: on_complete_def)
  have "v_content (getCurrentVersion (?f ?c)) = visibleContent (parseThinkTags (v_content (getCurrentVersion ?c)))"
    unfolding c using up by (simp add: finalize_current_content)
  then show ?thesis using ms' up c assms(2) by simp
qed

lemma demo_chat_messages: "st_messages demo_chat = demo_messages"
  by (simp add: demo_chat_def sendStreamingTo_def sendStreamRequest_def start_state_def apply_callbacks_def Let_def)

theorem streamed_answer_end_to_end_witness:
  "v_content (getCurrentVersion (st_messages (apply_callbacks demo_context demo_target 5
       (map (OnUpdate UpdContent) [js ''<think>x</th'', js ''ink>Hi''] @ [OnComplete None None None]) demo_chat) ! 1))
     = js ''Hi''"
proof -
  have "distinct (map m_key demo_messages)" "1 < length demo_messages"
    "m_key (demo_messages ! 1) = tg_key demo_target" "m_versions (demo_messages ! 1) \<noteq> []"
    "\<not> finished (demo_messages ! 1)" by code_simp+
  moreover have "visibleContent (parseThinkTags (v_content (getCurrentVersion (demo_messages ! 1))
      @ concat [js ''<think>x</th'', js ''ink>Hi''])) = js ''Hi''" by code_simp
  ultimately show ?thesis
    using streamed_answer_end_to_end [of demo_chat 1 demo_target _ demo_context 5
        "[js ''<think>x</th'', js ''ink>Hi'']" None None None, OF _ _ _ _ _ refl]
    unfolding demo_chat_messages by simp
qed

section \<open>Where the handler falls short\<close>

text \<open>
  The closing tag of an empty think block that is split between two chunks leaves its fragment as
  the message's reasoning: the first chunk parses to a reasoning that the second no longer has, and an
  empty reasoning never replaces one.
\<close>

definition split_empty_block :: Message where
  "split_empty_block = fold (on_update UpdContent) [js ''<think></thi'', js ''nk>Hi''] (demo_messages ! 1)"

theorem think_fragment_left:
  "map_option re_content (m_reasoning (on_complete cx model latency usage fin None split_empty_block)) =
     Some (js ''</thi'')"
proof -
  have "\<not> finished split_empty_block"
    "map_option re_content (final_reasoning split_empty_block None) = Some (js ''</thi'')" by code_simp+
  then show ?thesis by (simp add: on_complete_def finalizeMessage_def Let_def)
qed

text \<open>A response that arrives after stopping still completes its truncated message.\<close>

theorem late_response_overrides_stop:
  assumes "distinct (map m_key (st_messages s))" "i < length (st_messages s)"
    and "m_key (st_messages s ! i) = tg_key (pr_target req)" "rs_choices r = Some (choice # rest)"
  shows "m_status (st_messages (on_response cx now req (Inr r) (stopGeneration s)) ! i) = Some Complete"
proof -
  let ?ms = "st_messages (stopGeneration s)"
  have ms: "?ms = map truncate_message (st_messages s)" by (simp add: stopGeneration_def)
  have "distinct (map m_key ?ms)" "i < length ?ms" "m_key (?ms ! i) = tg_key (pr_target req)"
    using assms(1-3) by (simp_all add: ms comp_def)
  then show ?thesis
    using updateMessageByKey_at [of ?ms i] assms(4)
    by (simp add: on_response_def Let_def response_message_def)
qed

text \<open>And it uncounts a request that was sent after stopping: generation counts as over while that
  request is under way.\<close>

definition resend :: "ChatState \<Rightarrow> ChatState" where
  "resend s = sendNonStreamingTo demo_context 1 demo_messages demo_target
     (stopGeneration (sendNonStreamingTo demo_context 0 demo_messages demo_target s))"

theorem late_response_hides_pending:
  "isGenerating (resend (start_state demo_messages))
   \<and> (let s = resend (start_state demo_messages);
          s' = on_response demo_context 2 (st_inflight s ! 0) (Inr \<lparr>rs_choices = None, rs_usage = None\<rparr>)
                 (s\<lparr>st_inflight := drop 1 (st_inflight s)\<rparr>)
      in st_inflight s' \<noteq> [] \<and> \<not> isGenerating s')"
  by (simp add: resend_def isGenerating_def isStreaming_def sendNonStreamingTo_def stopGeneration_def
      on_response_def start_state_def stopStream_def empty_hook_def Let_def)

text \<open>A response without choices leaves its message as it is, so it stays loading.\<close>

theorem empty_response_leaves_loading:
  "st_messages (on_response cx now req (Inr \<lparr>rs_choices = Some [], rs_usage = u\<rparr>) s) = st_messages s"
  by (simp add: on_response_def Let_def)

text \<open>A non-streaming answer replaces all versions of its message by one.\<close>

theorem response_drops_versions:
  "length (m_versions (response_message cx model latency r choice m)) = 1"
  by (simp add: response_message_def Let_def)

end
