(* ===== verification/Pricing_Types.thy ===== *)
theory Pricing_Types
  imports Playground_Types
begin

text \<open>
  The data model of the pricing page (\<^verbatim>\<open>features/pricing/types.ts\<close> and \<^verbatim>\<open>constants.ts\<close>) and the small
  helpers of \<^verbatim>\<open>lib/model-helpers.ts\<close>: prices of a model for the cheapest of its groups, and the groups a
  user can pick. The enriched model extends the plain one, so functions that the code calls on
  both take a record of either type. A \<^verbatim>\<open>Record\<close> is the list of its own entries in order.
\<close>

section \<open>Types\<close>

record PricingVendor =
  pv_id :: jsnum
  pv_name :: jstring
  pv_icon :: "jstring option"
  pv_description :: "jstring option"
  pv_description_key :: "jstring option"

record PricingModel =
  pm_id :: jsnum
  model_name :: jstring
  description :: "jstring option"
  description_key :: "jstring option"
  icon :: "jstring option"
  vendor_id :: "jsnum option"
  vendor_name :: "jstring option"
  vendor_icon :: "jstring option"
  vendor_description :: "jstring option"
  vendor_description_key :: "jstring option"
  quota_type :: jsnum
  model_ratio :: jsnum
  completion_ratio :: jsnum
  model_price :: "jsnum option"
  cache_ratio :: "jsnum nullable"
  create_cache_ratio :: "jsnum nullable"
  image_ratio :: "jsnum nullable"
  audio_ratio :: "jsnum nullable"
  audio_completion_ratio :: "jsnum nullable"
  enable_groups :: "jstring list"
  tags :: "jstring option"
  supported_endpoint_types :: "jstring list option"
  pm_key :: "jstring option"
  group_ratio :: "(jstring \<times> jsnum) list option"
  billing_mode :: "jstring option"
  billing_expr :: "jstring option"
  pricing_version :: "jstring option"

record EnrichedPricingModel = PricingModel +
  promptPriceUsdPerM :: jsnum
  completionPriceUsdPerM :: jsnum

datatype TokenUnit = UnitM | UnitK

datatype PriceType =
  PriceInput | PriceOutput | PriceCache | PriceCreateCache | PriceImage | PriceAudioInput | PriceAudioOutput

section \<open>Constants\<close>

datatype SortOption = SORT_NAME | SORT_PRICE_LOW | SORT_PRICE_HIGH

fun SORT_OPTIONS :: "SortOption \<Rightarrow> jstring" where
  "SORT_OPTIONS SORT_NAME = js ''name''"
| "SORT_OPTIONS SORT_PRICE_LOW = js ''price-low''"
| "SORT_OPTIONS SORT_PRICE_HIGH = js ''price-high''"

definition DEFAULT_SORT :: SortOption where
  "DEFAULT_SORT = SORT_NAME"

definition FILTER_ALL :: jstring where
  "FILTER_ALL = js ''all''"

datatype QuotaTypeOption = QUOTA_ALL | QUOTA_TOKEN | QUOTA_REQUEST

fun QUOTA_TYPES :: "QuotaTypeOption \<Rightarrow> jstring" where
  "QUOTA_TYPES QUOTA_ALL = js ''all''"
| "QUOTA_TYPES QUOTA_TOKEN = js ''token''"
| "QUOTA_TYPES QUOTA_REQUEST = js ''request''"

datatype EndpointTypeOption =
    EP_ALL | EP_OPENAI | EP_OPENAI_RESPONSE | EP_ANTHROPIC | EP_GEMINI | EP_GEMINI_EMBEDDING
  | EP_JINA_RERANK | EP_IMAGE_GENERATION | EP_EMBEDDINGS | EP_OPENAI_VIDEO | EP_AUDIO | EP_AUDIO_TTS
  | EP_AUDIO_STT | EP_AUDIO_SPEECH_TO_SPEECH | EP_AUDIO_SFX | EP_AUDIO_MUSIC | EP_AUDIO_ISOLATION
  | EP_AUDIO_ALIGNMENT | EP_MODEL_3D | EP_MODEL_3D_TEXT | EP_MODEL_3D_IMAGE | EP_MODEL_3D_MULTI_IMAGE
  | EP_MODEL_3D_POST_PROCESS | EP_MODEL_3D_ANIMATION | EP_MODEL_3D_REMESH | EP_MODEL_3D_CONVERT
  | EP_MODEL_3D_RESIZE | EP_MODEL_3D_RETEXTURE | EP_MODEL_3D_RIGGING | EP_MODEL_3D_CHARACTER_ANIMATION

fun ENDPOINT_TYPES :: "EndpointTypeOption \<Rightarrow> jstring" where
  "ENDPOINT_TYPES EP_ALL = js ''all''"
| "ENDPOINT_TYPES EP_OPENAI = js ''openai''"
| "ENDPOINT_TYPES EP_OPENAI_RESPONSE = js ''openai-response''"
| "ENDPOINT_TYPES EP_ANTHROPIC = js ''anthropic''"
| "ENDPOINT_TYPES EP_GEMINI = js ''gemini''"
| "ENDPOINT_TYPES EP_GEMINI_EMBEDDING = js ''gemini-embedding''"
| "ENDPOINT_TYPES EP_JINA_RERANK = js ''jina-rerank''"
| "ENDPOINT_TYPES EP_IMAGE_GENERATION = js ''image-generation''"
| "ENDPOINT_TYPES EP_EMBEDDINGS = js ''embeddings''"
| "ENDPOINT_TYPES EP_OPENAI_VIDEO = js ''openai-video''"
| "ENDPOINT_TYPES EP_AUDIO = js ''audio''"
| "ENDPOINT_TYPES EP_AUDIO_TTS = js ''audio-tts''"
| "ENDPOINT_TYPES EP_AUDIO_STT = js ''audio-stt''"
| "ENDPOINT_TYPES EP_AUDIO_SPEECH_TO_SPEECH = js ''audio-speech-to-speech''"
| "ENDPOINT_TYPES EP_AUDIO_SFX = js ''audio-sfx''"
| "ENDPOINT_TYPES EP_AUDIO_MUSIC = js ''audio-music''"
| "ENDPOINT_TYPES EP_AUDIO_ISOLATION = js ''audio-isolation''"
| "ENDPOINT_TYPES EP_AUDIO_ALIGNMENT = js ''audio-alignment''"
| "ENDPOINT_TYPES EP_MODEL_3D = js ''model-3d''"
| "ENDPOINT_TYPES EP_MODEL_3D_TEXT = js ''model-3d-text''"
| "ENDPOINT_TYPES EP_MODEL_3D_IMAGE = js ''model-3d-image''"
| "ENDPOINT_TYPES EP_MODEL_3D_MULTI_IMAGE = js ''model-3d-multi-image''"
| "ENDPOINT_TYPES EP_MODEL_3D_POST_PROCESS = js ''model-3d-post-process''"
| "ENDPOINT_TYPES EP_MODEL_3D_ANIMATION = js ''model-3d-animation''"
| "ENDPOINT_TYPES EP_MODEL_3D_REMESH = js ''model-3d-remesh''"
| "ENDPOINT_TYPES EP_MODEL_3D_CONVERT = js ''model-3d-convert''"
| "ENDPOINT_TYPES EP_MODEL_3D_RESIZE = js ''model-3d-resize''"
| "ENDPOINT_TYPES EP_MODEL_3D_RETEXTURE = js ''model-3d-retexture''"
| "ENDPOINT_TYPES EP_MODEL_3D_RIGGING = js ''model-3d-rigging''"
| "ENDPOINT_TYPES EP_MODEL_3D_CHARACTER_ANIMATION = js ''model-3d-character-animation''"

definition QUOTA_TOKEN_VALUE :: jsnum where
  "QUOTA_TOKEN_VALUE = Fin 0"

definition QUOTA_REQUEST_VALUE :: jsnum where
  "QUOTA_REQUEST_VALUE = Fin 1"

definition EXCLUDED_GROUPS :: "jstring list" where
  "EXCLUDED_GROUPS = [[], js ''auto'']"

definition PROMPT_PRICE_MAX_USD_PER_M :: jsnum where
  "PROMPT_PRICE_MAX_USD_PER_M = Fin 100"

text \<open>\<^verbatim>\<open>Math.ceil\<close> and \<^verbatim>\<open>Math.min\<close>.\<close>

fun num_ceil :: "jsnum \<Rightarrow> jsnum" where
  "num_ceil (Fin a) = Fin (of_int \<lceil>a\<rceil>)"
| "num_ceil x = x"

definition num_min :: "jsnum \<Rightarrow> jsnum \<Rightarrow> jsnum" where
  "num_min x y = (if x = NaN \<or> y = NaN then NaN else if num_lt y x then y else x)"

definition computePromptPriceCeiling :: "jsnum list \<Rightarrow> jsnum" where
  "computePromptPriceCeiling pricesUsdPerM =
     (let m = fold (\<lambda>p m. if is_finite p \<and> num_gt p m then p else m) pricesUsdPerM (Fin 0)
      in if num_le m (Fin 0) then PROMPT_PRICE_MAX_USD_PER_M
         else num_min PROMPT_PRICE_MAX_USD_PER_M (num_ceil m))"

section \<open>Helpers of a model\<close>

definition getAvailableGroups :: "'a PricingModel_scheme \<Rightarrow> (jstring \<times> 'b) list \<Rightarrow> jstring list" where
  "getAvailableGroups model usableGroup =
     filter (\<lambda>g. g \<in> set (enable_groups model))
       (filter (\<lambda>g. g \<notin> set EXCLUDED_GROUPS) (map fst usableGroup))"

definition isTokenBasedModel :: "'a PricingModel_scheme \<Rightarrow> bool" where
  "isTokenBasedModel model \<longleftrightarrow> num_eq (quota_type model) QUOTA_TOKEN_VALUE"

definition minGroupRatio :: "'a PricingModel_scheme \<Rightarrow> jsnum" where
  "minGroupRatio model =
     (let ratios = (case group_ratio model of None \<Rightarrow> [] | Some rs \<Rightarrow> rs);
          m = fold (\<lambda>g m. case map_of ratios g of
                 Some r \<Rightarrow> if num_lt r m then r else m
               | None \<Rightarrow> m) (enable_groups model) PInf
      in if is_finite m then m else Fin 1)"

definition getInputPriceUsdPerM :: "'a PricingModel_scheme \<Rightarrow> jsnum" where
  "getInputPriceUsdPerM model =
     (if \<not> num_eq (quota_type model) QUOTA_TOKEN_VALUE then NaN
      else num_mul (num_mul (model_ratio model) (Fin 2)) (minGroupRatio model))"

definition getOutputPriceUsdPerM :: "'a PricingModel_scheme \<Rightarrow> jsnum" where
  "getOutputPriceUsdPerM model =
     (if \<not> num_eq (quota_type model) QUOTA_TOKEN_VALUE then NaN
      else num_mul (num_mul (num_mul (model_ratio model) (Fin 2)) (completion_ratio model))
             (minGroupRatio model))"

definition isFreeModel :: "'a PricingModel_scheme \<Rightarrow> bool" where
  "isFreeModel model \<longleftrightarrow>
     (let p = getInputPriceUsdPerM model in is_finite p \<and> num_le p (Fin 0))"

section \<open>Properties\<close>

lemma num_le_trans_lt: "\<not> num_lt x m \<Longrightarrow> num_lt r m \<Longrightarrow> x \<noteq> NaN \<Longrightarrow> \<not> num_lt x r"
  by (cases x; cases m; cases r) auto

lemma min_fold:
  assumes "m \<noteq> NaN"
  shows "let r = fold (\<lambda>x m. if num_lt x m then x else m) xs m
     in r \<noteq> NaN \<and> (r = m \<or> r \<in> set xs) \<and> \<not> num_lt m r \<and> (\<forall>x\<in>set xs. \<not> num_lt x r)"
  using assms
proof (induction xs arbitrary: m)
  case (Cons x xs)
  let ?m = "if num_lt x m then x else m"
  let ?r = "fold (\<lambda>x m. if num_lt x m then x else m) xs ?m"
  have m: "?m \<noteq> NaN" using Cons.prems by auto
  have ih: "?r \<noteq> NaN" "?r = ?m \<or> ?r \<in> set xs" "\<not> num_lt ?m ?r" "\<forall>x\<in>set xs. \<not> num_lt x ?r"
    using Cons.IH [OF m] by (simp_all only: Let_def) blast+
  moreover have "\<not> num_lt m ?r"
    using ih(1,3) m by (cases m; cases x; cases ?r) (auto split: if_splits)
  moreover have "\<not> num_lt x ?r"
    using ih(1,3) m by (cases m; cases x; cases ?r) (auto split: if_splits)
  ultimately show ?case by (auto split: if_splits)
qed simp

lemma minGroupRatio_fold:
  "fold (\<lambda>g m. case map_of ratios g of Some r \<Rightarrow> if num_lt r m then r else m | None \<Rightarrow> m) gs m =
   fold (\<lambda>x m. if num_lt x m then x else m) (List.map_filter (map_of ratios) gs) m"
  by (induction gs arbitrary: m) (simp_all add: map_filter_simps split: option.splits)

text \<open>The ratios of the groups that a model is enabled for.\<close>

definition enabled_ratios :: "'a PricingModel_scheme \<Rightarrow> jsnum list" where
  "enabled_ratios model =
     List.map_filter (map_of (case group_ratio model of None \<Rightarrow> [] | Some rs \<Rightarrow> rs)) (enable_groups model)"

text \<open>The ratio behind a model's listed price is the least ratio of the groups it is enabled for, and 1
  when none of them has a finite one.\<close>

theorem min_group_ratio_least:
  assumes "enabled_ratios model \<noteq> []" "list_all is_finite (enabled_ratios model)"
  shows "minGroupRatio model \<in> set (enabled_ratios model)
    \<and> list_all (\<lambda>r. \<not> num_lt r (minGroupRatio model)) (enabled_ratios model)"
proof -
  let ?rs = "enabled_ratios model"
  let ?r = "fold (\<lambda>x m. if num_lt x m then x else m) ?rs PInf"
  have r: "?r \<noteq> NaN" "?r = PInf \<or> ?r \<in> set ?rs" "\<forall>x\<in>set ?rs. \<not> num_lt x ?r"
    using min_fold [of PInf ?rs] by (simp_all add: Let_def)
  obtain x where x: "x \<in> set ?rs" "is_finite x" using assms by (cases ?rs) (auto simp: list_all_iff)
  have "?r \<noteq> PInf" using r(3) x by (auto simp: is_finite_def split: jsnum.splits)
  then have "?r \<in> set ?rs" using r(2) by blast
  then have "is_finite ?r" using assms(2) by (simp add: list_all_iff)
  then have "minGroupRatio model = ?r"
    by (simp add: minGroupRatio_def minGroupRatio_fold Let_def enabled_ratios_def)
  then show ?thesis using \<open>?r \<in> set ?rs\<close> r(3) by (simp add: list_all_iff)
qed

text \<open>The price slider always has a positive bound of at most 100 dollars.\<close>

theorem price_ceiling_bounds:
  "\<exists>a. computePromptPriceCeiling ps = Fin a \<and> 0 < a \<and> a \<le> 100"
proof -
  let ?m = "fold (\<lambda>p m. if is_finite p \<and> num_gt p m then p else m) ps (Fin 0)"
  have "is_finite x \<Longrightarrow> is_finite (fold (\<lambda>p m. if is_finite p \<and> num_gt p m then p else m) ps x)" for x
    by (induction ps arbitrary: x) auto
  then have "is_finite ?m" by (simp add: is_finite_def)
  then obtain b where b: "?m = Fin b" by (cases ?m) (auto simp: is_finite_def)
  show ?thesis
  proof (cases "b \<le> 0")
    case False
    then have "0 < \<lceil>b\<rceil>" by simp
    then have "(0::rat) < of_int \<lceil>b\<rceil>" by (simp only: of_int_0_less_iff)
    then show ?thesis
      using False by (auto simp: computePromptPriceCeiling_def b Let_def num_le_def num_eq_def num_min_def
          PROMPT_PRICE_MAX_USD_PER_M_def)
  qed (auto simp: computePromptPriceCeiling_def b Let_def num_le_def num_eq_def PROMPT_PRICE_MAX_USD_PER_M_def)
qed

definition blank_model :: PricingModel where
  "blank_model = \<lparr>pm_id = Fin 0, model_name = [], description = None, description_key = None, icon = None,
     vendor_id = None, vendor_name = None, vendor_icon = None, vendor_description = None,
     vendor_description_key = None, quota_type = Fin 0, model_ratio = Fin 1, completion_ratio = Fin 1,
     model_price = None, cache_ratio = None, create_cache_ratio = None, image_ratio = None,
     audio_ratio = None, audio_completion_ratio = None, enable_groups = [], tags = None,
     supported_endpoint_types = None, pm_key = None, group_ratio = None, billing_mode = None,
     billing_expr = None, pricing_version = None\<rparr>"

definition demo_model :: PricingModel where
  "demo_model = blank_model\<lparr>enable_groups := [js ''vip'', js ''default''],
     group_ratio := Some [(js ''default'', Fin 1), (js ''vip'', Fin (1/2))]\<rparr>"

theorem min_group_ratio_least_witness: "minGroupRatio demo_model \<in> {Fin 1, Fin (1/2)}"
proof -
  have r: "enabled_ratios demo_model = [Fin (1/2), Fin 1]" by code_simp
  then show ?thesis using min_group_ratio_least [of demo_model] by (auto simp: is_finite_def)
qed

end
