(* ===== verification/Pricing_Filters.thy ===== *)
theory Pricing_Filters
  imports Pricing_Types
begin

text \<open>
  Model types and facets (\<^verbatim>\<open>features/pricing/lib/model-type.ts\<close>) and the filters and sort orders of the
  pricing page (\<^verbatim>\<open>lib/filters.ts\<close>). Two things of the engine are arguments: \<open>lower\<close>
  (\<^verbatim>\<open>toLowerCase\<close>, the Unicode case tables) and \<open>lc\<close> (\<^verbatim>\<open>localeCompare\<close>, the collation of
  the browser's locale, as the sign of its result). What the sort relies on is the locale
  \<open>collation\<close>. Facet counts are insertion-ordered \<^verbatim>\<open>Map\<close>s.
\<close>

section \<open>Model types\<close>

datatype ModelTypeValue = MT_IMAGE | MT_EMBEDDING | MT_RERANK | MT_VIDEO | MT_AUDIO | MT_MODEL_3D | MT_CHAT

fun MODEL_TYPE_VALUES :: "ModelTypeValue \<Rightarrow> jstring" where
  "MODEL_TYPE_VALUES MT_IMAGE = js ''Image''"
| "MODEL_TYPE_VALUES MT_EMBEDDING = js ''Embedding''"
| "MODEL_TYPE_VALUES MT_RERANK = js ''Rerank''"
| "MODEL_TYPE_VALUES MT_VIDEO = js ''Video''"
| "MODEL_TYPE_VALUES MT_AUDIO = js ''Audio''"
| "MODEL_TYPE_VALUES MT_MODEL_3D = js ''3D''"
| "MODEL_TYPE_VALUES MT_CHAT = js ''Chat''"

definition CHAT_ENDPOINT_TYPES :: "jstring list" where
  "CHAT_ENDPOINT_TYPES = map ENDPOINT_TYPES [EP_OPENAI, EP_OPENAI_RESPONSE, EP_ANTHROPIC, EP_GEMINI]"

definition AUDIO_ENDPOINT_TYPES :: "jstring list" where
  "AUDIO_ENDPOINT_TYPES = map ENDPOINT_TYPES
     [EP_AUDIO, EP_AUDIO_TTS, EP_AUDIO_STT, EP_AUDIO_SPEECH_TO_SPEECH, EP_AUDIO_SFX, EP_AUDIO_MUSIC,
      EP_AUDIO_ISOLATION, EP_AUDIO_ALIGNMENT]"

definition MODEL_3D_ENDPOINT_TYPES :: "jstring list" where
  "MODEL_3D_ENDPOINT_TYPES = map ENDPOINT_TYPES
     [EP_MODEL_3D, EP_MODEL_3D_TEXT, EP_MODEL_3D_IMAGE, EP_MODEL_3D_MULTI_IMAGE, EP_MODEL_3D_POST_PROCESS,
      EP_MODEL_3D_ANIMATION, EP_MODEL_3D_REMESH, EP_MODEL_3D_CONVERT, EP_MODEL_3D_RESIZE,
      EP_MODEL_3D_RETEXTURE, EP_MODEL_3D_RIGGING, EP_MODEL_3D_CHARACTER_ANIMATION]"

definition MODEL_TYPE_DISPLAY_ORDER :: "ModelTypeValue list" where
  "MODEL_TYPE_DISPLAY_ORDER =
     [MT_IMAGE, MT_EMBEDDING, MT_RERANK, MT_VIDEO, MT_AUDIO, MT_MODEL_3D, MT_CHAT]"

definition hasPositiveAudioRatio :: "'a PricingModel_scheme \<Rightarrow> bool" where
  "hasPositiveAudioRatio model \<longleftrightarrow>
     (case audio_ratio model of Some (Some x) \<Rightarrow> num_gt x (Fin 0) | _ \<Rightarrow> False)
     \<or> (case audio_completion_ratio model of Some (Some x) \<Rightarrow> num_gt x (Fin 0) | _ \<Rightarrow> False)"

definition endpoints_of :: "'a PricingModel_scheme \<Rightarrow> jstring list" where
  "endpoints_of model = (case supported_endpoint_types model of None \<Rightarrow> [] | Some es \<Rightarrow> es)"

text \<open>The rules of \<open>deriveModelTypes\<close>: which types are added to \<^verbatim>\<open>matched\<close>.\<close>

fun type_matches :: "'a PricingModel_scheme \<Rightarrow> ModelTypeValue \<Rightarrow> bool" where
  "type_matches model MT_IMAGE = (ENDPOINT_TYPES EP_IMAGE_GENERATION \<in> set (endpoints_of model))"
| "type_matches model MT_EMBEDDING =
     (ENDPOINT_TYPES EP_EMBEDDINGS \<in> set (endpoints_of model)
      \<or> ENDPOINT_TYPES EP_GEMINI_EMBEDDING \<in> set (endpoints_of model))"
| "type_matches model MT_RERANK = (ENDPOINT_TYPES EP_JINA_RERANK \<in> set (endpoints_of model))"
| "type_matches model MT_VIDEO = (ENDPOINT_TYPES EP_OPENAI_VIDEO \<in> set (endpoints_of model))"
| "type_matches model MT_AUDIO =
     (list_ex (\<lambda>e. e \<in> set AUDIO_ENDPOINT_TYPES) (endpoints_of model) \<or> hasPositiveAudioRatio model)"
| "type_matches model MT_MODEL_3D = list_ex (\<lambda>e. e \<in> set MODEL_3D_ENDPOINT_TYPES) (endpoints_of model)"
| "type_matches model MT_CHAT = list_ex (\<lambda>e. e \<in> set CHAT_ENDPOINT_TYPES) (endpoints_of model)"

definition deriveModelTypes :: "'a PricingModel_scheme \<Rightarrow> ModelTypeValue list" where
  "deriveModelTypes model = filter (type_matches model) MODEL_TYPE_DISPLAY_ORDER"

section \<open>Facets\<close>

record FacetOption =
  fc_value :: jstring
  fc_label :: jstring
  fc_count :: nat

text \<open>\<^verbatim>\<open>counts.set(v, (counts.get(v) ?? 0) + 1)\<close>.\<close>

definition count_one :: "'v \<Rightarrow> ('v \<times> nat) list \<Rightarrow> ('v \<times> nat) list" where
  "count_one v counts =
     AList.update v (Suc (case map_of counts v of None \<Rightarrow> 0 | Some n \<Rightarrow> n)) counts"

definition count_all :: "('m \<Rightarrow> 'v list) \<Rightarrow> 'm list \<Rightarrow> ('v \<times> nat) list" where
  "count_all values models = fold count_one (concat (map values models)) []"

text \<open>The comparator \<^verbatim>\<open>b.count - a.count || a.label.localeCompare(b.label)\<close>.\<close>

definition facet_gt :: "(jstring \<Rightarrow> jstring \<Rightarrow> int) \<Rightarrow> FacetOption \<Rightarrow> FacetOption \<Rightarrow> bool" where
  "facet_gt lc a b \<longleftrightarrow>
     (let d = int (fc_count b) - int (fc_count a)
      in 0 < (if d \<noteq> 0 then d else lc (fc_label a) (fc_label b)))"

definition facets_of :: "(jstring \<Rightarrow> jstring \<Rightarrow> int) \<Rightarrow> (jstring \<times> nat) list \<Rightarrow> FacetOption list" where
  "facets_of lc counts =
     js_sort (facet_gt lc) (map (\<lambda>(v, n). \<lparr>fc_value = v, fc_label = v, fc_count = n\<rparr>) counts)"

text \<open>The name behind a model's vendor: \<^verbatim>\<open>new Map(...)\<close> keeps the last of two equal ids.\<close>

definition vendor_names :: "PricingVendor list \<Rightarrow> 'a PricingModel_scheme \<Rightarrow> jstring list" where
  "vendor_names vendors m =
     (case vendor_id m of
        None \<Rightarrow> []
      | Some i \<Rightarrow>
          (case map_of (rev (map (\<lambda>v. (pv_id v, pv_name v)) vendors)) i of
             None \<Rightarrow> []
           | Some name \<Rightarrow> if name = [] then [] else [name]))"

definition extractVendors ::
  "(jstring \<Rightarrow> jstring \<Rightarrow> int) \<Rightarrow> 'a PricingModel_scheme list \<Rightarrow> PricingVendor list \<Rightarrow> FacetOption list" where
  "extractVendors lc models vendors = facets_of lc (count_all (vendor_names vendors) models)"

definition extractModelTypeFacets :: "'a PricingModel_scheme list \<Rightarrow> FacetOption list" where
  "extractModelTypeFacets models =
     (let counts = count_all deriveModelTypes models
      in map (\<lambda>v. \<lparr>fc_value = MODEL_TYPE_VALUES v, fc_label = MODEL_TYPE_VALUES v,
                   fc_count = (case map_of counts v of None \<Rightarrow> 0 | Some n \<Rightarrow> n)\<rparr>)
           (filter (\<lambda>t. map_of counts t \<noteq> None) MODEL_TYPE_DISPLAY_ORDER))"

text \<open>\<^verbatim>\<open>tagsString.split(/[,;|\s]+/)\<close>, trimmed, without empty pieces.\<close>

definition is_tag_sep :: "nat \<Rightarrow> bool" where
  "is_tag_sep c \<longleftrightarrow> c = 44 \<or> c = 59 \<or> c = 124 \<or> is_space c"

lemma skip_run:
  "\<not> dropWhile (\<lambda>c. \<not> p c) s = [] \<Longrightarrow> length (dropWhile p (dropWhile (\<lambda>c. \<not> p c) s)) < length s"
proof -
  let ?r = "dropWhile (\<lambda>c. \<not> p c) s"
  assume r: "\<not> ?r = []"
  then have "p (hd ?r)" using hd_dropWhile [of "\<lambda>c. \<not> p c" s] by blast
  then have "length (dropWhile p ?r) < length ?r"
    using r by (cases ?r) (auto simp: length_dropWhile_le le_imp_less_Suc)
  also have "\<dots> \<le> length s" by (rule length_dropWhile_le)
  finally show ?thesis .
qed

function split_runs :: "(nat \<Rightarrow> bool) \<Rightarrow> jstring \<Rightarrow> jstring list" where
  "split_runs p s =
     (let w = takeWhile (\<lambda>c. \<not> p c) s; r = dropWhile (\<lambda>c. \<not> p c) s
      in if r = [] then [w] else w # split_runs p (dropWhile p r))"
  by pat_completeness auto
termination
  by (relation "measure (\<lambda>(p, s). length s)")
    (simp_all only: wf_measure in_measure prod.case skip_run not_False_eq_True)

declare split_runs.simps [simp del]

definition parseTags :: "jstring option \<Rightarrow> jstring list" where
  "parseTags tagsString =
     (if str_or tagsString [] = [] then []
      else filter (\<lambda>t. t \<noteq> []) (map trim (split_runs is_tag_sep (the tagsString))))"

definition lower_tags :: "(jstring \<Rightarrow> jstring) \<Rightarrow> 'a PricingModel_scheme \<Rightarrow> jstring list" where
  "lower_tags lower m = map lower (parseTags (tags m))"

definition extractAllTags ::
  "(jstring \<Rightarrow> jstring) \<Rightarrow> (jstring \<Rightarrow> jstring \<Rightarrow> int) \<Rightarrow> 'a PricingModel_scheme list \<Rightarrow> jstring list" where
  "extractAllTags lower lc models =
     js_sort (\<lambda>a b. 0 < lc a b) (js_set (concat (map (lower_tags lower) models)))"

definition extractProviders ::
  "(jstring \<Rightarrow> jstring \<Rightarrow> int) \<Rightarrow> 'a PricingModel_scheme list \<Rightarrow> PricingVendor list \<Rightarrow> FacetOption list" where
  "extractProviders lc models vendors = extractVendors lc models vendors"

definition extractEndpointTypes ::
  "(jstring \<Rightarrow> jstring \<Rightarrow> int) \<Rightarrow> 'a PricingModel_scheme list \<Rightarrow> FacetOption list" where
  "extractEndpointTypes lc models = facets_of lc (count_all endpoints_of models)"

definition facet_groups :: "'a PricingModel_scheme \<Rightarrow> jstring list" where
  "facet_groups m = filter (\<lambda>g. \<not> (g = [] \<or> g = js ''auto'')) (enable_groups m)"

definition extractGroups ::
  "(jstring \<Rightarrow> jstring \<Rightarrow> int) \<Rightarrow> 'a PricingModel_scheme list \<Rightarrow> FacetOption list" where
  "extractGroups lc models = facets_of lc (count_all facet_groups models)"

definition extractTagFacets ::
  "(jstring \<Rightarrow> jstring) \<Rightarrow> (jstring \<Rightarrow> jstring \<Rightarrow> int) \<Rightarrow> 'a PricingModel_scheme list \<Rightarrow> FacetOption list" where
  "extractTagFacets lower lc models = facets_of lc (count_all (lower_tags lower) models)"

section \<open>Filters\<close>

definition opt_includes :: "(jstring \<Rightarrow> jstring) \<Rightarrow> jstring option \<Rightarrow> jstring \<Rightarrow> bool" where
  "opt_includes lower field q = (case field of None \<Rightarrow> False | Some s \<Rightarrow> str_includes (lower s) q)"

definition filterBySearch ::
  "(jstring \<Rightarrow> jstring) \<Rightarrow> 'a PricingModel_scheme list \<Rightarrow> jstring \<Rightarrow> 'a PricingModel_scheme list" where
  "filterBySearch lower models query =
     (if query = [] then models
      else let lowerQuery = lower query
           in filter (\<lambda>m. opt_includes lower (Some (model_name m)) lowerQuery
                \<or> opt_includes lower (description m) lowerQuery \<or> opt_includes lower (tags m) lowerQuery
                \<or> opt_includes lower (vendor_name m) lowerQuery) models)"

definition filterByVendor :: "'a PricingModel_scheme list \<Rightarrow> jstring \<Rightarrow> 'a PricingModel_scheme list" where
  "filterByVendor models vendor =
     (if vendor = FILTER_ALL then models else filter (\<lambda>m. vendor_name m = Some vendor) models)"

definition filterByGroup :: "'a PricingModel_scheme list \<Rightarrow> jstring \<Rightarrow> 'a PricingModel_scheme list" where
  "filterByGroup models grp =
     (if grp = FILTER_ALL then models else filter (\<lambda>m. grp \<in> set (enable_groups m)) models)"

definition filterByQuotaType :: "'a PricingModel_scheme list \<Rightarrow> jstring \<Rightarrow> 'a PricingModel_scheme list" where
  "filterByQuotaType models quotaType =
     (if quotaType = QUOTA_TYPES QUOTA_ALL then models
      else let targetType = (if quotaType = QUOTA_TYPES QUOTA_TOKEN then QUOTA_TOKEN_VALUE else QUOTA_REQUEST_VALUE)
           in filter (\<lambda>m. num_eq (quota_type m) targetType) models)"

definition filterByEndpointType :: "'a PricingModel_scheme list \<Rightarrow> jstring \<Rightarrow> 'a PricingModel_scheme list" where
  "filterByEndpointType models endpointType =
     (if endpointType = ENDPOINT_TYPES EP_ALL then models
      else filter (\<lambda>m. endpointType \<in> set (endpoints_of m)) models)"

definition filterByTag ::
  "(jstring \<Rightarrow> jstring) \<Rightarrow> 'a PricingModel_scheme list \<Rightarrow> jstring \<Rightarrow> 'a PricingModel_scheme list" where
  "filterByTag lower models tag =
     (if tag = FILTER_ALL then models
      else let tagLower = lower tag
           in filter (\<lambda>m. if str_or (tags m) [] = [] then False
                          else tagLower \<in> set (map lower (parseTags (tags m)))) models)"

definition matchesAny :: "'v list \<Rightarrow> 'v list \<Rightarrow> bool" where
  "matchesAny selected values \<longleftrightarrow> (if selected = [] then True else list_ex (\<lambda>s. s \<in> set values) selected)"

record ModelFilters =
  mf_search :: jstring
  mf_providers :: "jstring list"
  mf_modelTypes :: "ModelTypeValue list"
  mf_groups :: "jstring list"
  mf_categories :: "jstring list"
  mf_endpointTypes :: "jstring list"
  mf_quotaTypes :: "jstring list"
  mf_promptPriceRange :: "jsnum \<times> jsnum"
  mf_sortBy :: jstring

definition inPromptPriceRange :: "EnrichedPricingModel \<Rightarrow> jsnum \<times> jsnum \<Rightarrow> bool" where
  "inPromptPriceRange model rng =
     (let lo = fst rng; hi = snd rng; price = promptPriceUsdPerM model
      in if \<not> is_finite price then \<not> (num_le (Fin 0) hi \<and> num_gt lo (Fin 0))
         else if num_gt lo (Fin 0) \<and> num_lt price lo then False
         else if num_le (Fin 0) hi \<and> num_gt price hi then False
         else True)"

definition search_text :: "'a PricingModel_scheme \<Rightarrow> jstring" where
  "search_text m =
     (let show = (\<lambda>f. case f of None \<Rightarrow> [] | Some s \<Rightarrow> s)
      in model_name m @ [32] @ show (description m) @ [32] @ show (tags m) @ [32] @ show (vendor_name m))"

definition passes_filters :: "(jstring \<Rightarrow> jstring) \<Rightarrow> ModelFilters \<Rightarrow> EnrichedPricingModel \<Rightarrow> bool" where
  "passes_filters lower filters m =
     (let q = lower (trim (mf_search filters))
      in if q \<noteq> [] \<and> \<not> str_includes (lower (search_text m)) q then False
         else if \<not> matchesAny (mf_providers filters)
             (case vendor_name m of None \<Rightarrow> [] | Some v \<Rightarrow> if v = [] then [] else [v]) then False
         else if \<not> matchesAny (mf_modelTypes filters) (deriveModelTypes m) then False
         else if \<not> matchesAny (mf_groups filters) (enable_groups m) then False
         else if \<not> matchesAny (mf_categories filters) (lower_tags lower m) then False
         else if \<not> matchesAny (mf_endpointTypes filters) (endpoints_of m) then False
         else if \<not> matchesAny (mf_quotaTypes filters)
             (if num_eq (quota_type m) QUOTA_TOKEN_VALUE then [QUOTA_TYPES QUOTA_TOKEN]
              else [QUOTA_TYPES QUOTA_REQUEST]) then False
         else if \<not> inPromptPriceRange m (mf_promptPriceRange filters) then False
         else True)"

section \<open>Sorting\<close>

definition getModelSortPrice :: "EnrichedPricingModel \<Rightarrow> jsnum" where
  "getModelSortPrice model =
     (let usd = promptPriceUsdPerM model
      in if is_finite usd then usd
         else if num_eq (quota_type model) QUOTA_REQUEST_VALUE then num_or (model_price model) (Fin 0)
         else num_or (Some (model_ratio model)) (Fin 0))"

definition priceSortTier :: "EnrichedPricingModel \<Rightarrow> int" where
  "priceSortTier model = (if num_eq (quota_type model) QUOTA_REQUEST_VALUE then 1 else 0)"

definition name_gt :: "(jstring \<Rightarrow> jstring \<Rightarrow> int) \<Rightarrow> EnrichedPricingModel \<Rightarrow> EnrichedPricingModel \<Rightarrow> bool" where
  "name_gt lc a b \<longleftrightarrow> 0 < lc (model_name a) (model_name b)"

definition price_gt ::
  "(jstring \<Rightarrow> jstring \<Rightarrow> int) \<Rightarrow> bool \<Rightarrow> EnrichedPricingModel \<Rightarrow> EnrichedPricingModel \<Rightarrow> bool" where
  "price_gt lc low a b \<longleftrightarrow>
     (let tier = priceSortTier a - priceSortTier b;
          d = (if low then num_sub (getModelSortPrice a) (getModelSortPrice b)
               else num_sub (getModelSortPrice b) (getModelSortPrice a))
      in if tier \<noteq> 0 then 0 < tier else if num_truthy d then num_gt d (Fin 0) else name_gt lc a b)"

definition sortModels ::
  "(jstring \<Rightarrow> jstring \<Rightarrow> int) \<Rightarrow> EnrichedPricingModel list \<Rightarrow> jstring \<Rightarrow> EnrichedPricingModel list" where
  "sortModels lc models sortBy =
     (if sortBy = SORT_OPTIONS SORT_NAME then js_sort (name_gt lc) models
      else if sortBy = SORT_OPTIONS SORT_PRICE_LOW then js_sort (price_gt lc True) models
      else if sortBy = SORT_OPTIONS SORT_PRICE_HIGH then js_sort (price_gt lc False) models
      else js_sort (name_gt lc) models)"

definition filterAndSortModels ::
  "(jstring \<Rightarrow> jstring) \<Rightarrow> (jstring \<Rightarrow> jstring \<Rightarrow> int) \<Rightarrow> EnrichedPricingModel list \<Rightarrow> ModelFilters
   \<Rightarrow> EnrichedPricingModel list" where
  "filterAndSortModels lower lc models filters =
     sortModels lc (filter (passes_filters lower filters) models) (mf_sortBy filters)"

end
