(* ===== verification/Pricing_Laws.thy ===== *)
theory Pricing_Laws
  imports Pricing_Filters
begin

text \<open>
  Properties of the pricing page: what a facet counts, that a facet's count is the number of
  models the filter on it keeps, and what filtering and sorting return. The locale \<open>collation\<close>
  is what the code relies on of \<^verbatim>\<open>localeCompare\<close>; comparison by code units satisfies it. The locale
  \<open>facet_source\<close> is the contract of the four facet extractions.
\<close>

section \<open>Collation\<close>

locale collation =
  fixes lc :: "jstring \<Rightarrow> jstring \<Rightarrow> int"
  assumes lc_flip: "0 < lc x y \<longleftrightarrow> lc y x < 0"
    and lc_trans: "lc x y \<le> 0 \<Longrightarrow> lc y z \<le> 0 \<Longrightarrow> lc x z \<le> 0"
begin

lemma lc_asym: "0 < lc x y \<Longrightarrow> \<not> 0 < lc y x"
  using lc_flip by fastforce

lemma name_comparator: "comparator (name_gt lc)"
  by unfold_locales (auto simp: name_gt_def not_less dest: lc_asym lc_trans)

end

sublocale collation \<subseteq> by_facet: comparator "facet_gt lc"
proof unfold_locales
  fix x y z
  show "facet_gt lc x y \<Longrightarrow> \<not> facet_gt lc y x"
    by (auto simp: facet_gt_def Let_def split: if_splits dest: lc_asym)
  show "\<not> facet_gt lc x y \<Longrightarrow> \<not> facet_gt lc y z \<Longrightarrow> \<not> facet_gt lc x z"
    by (auto simp: facet_gt_def Let_def not_less split: if_splits dest: lc_trans)
qed

text \<open>Comparison by code units, as the default order of strings has it.\<close>

definition code_unit_compare :: "jstring \<Rightarrow> jstring \<Rightarrow> int" where
  "code_unit_compare x y = (if str_gt x y then 1 else if str_gt y x then - 1 else 0)"

interpretation code_units: collation code_unit_compare
proof unfold_locales
  fix x y z
  show "0 < code_unit_compare x y \<longleftrightarrow> code_unit_compare y x < 0"
    by (auto simp: code_unit_compare_def dest: str_gt_asym)
  show "code_unit_compare x y \<le> 0 \<Longrightarrow> code_unit_compare y z \<le> 0 \<Longrightarrow> code_unit_compare x z \<le> 0"
    by (auto simp: code_unit_compare_def dest: str_not_gt_trans split: if_splits)
qed

section \<open>Counting\<close>

lemma map_of_count_one:
  "map_of (count_one v counts) = (map_of counts)(v \<mapsto> Suc (case map_of counts v of None \<Rightarrow> 0 | Some n \<Rightarrow> n))"
  by (simp add: count_one_def update_conv')

lemma count_loop:
  "map_of (fold count_one vs counts) v =
     (if v \<in> set vs then Some ((case map_of counts v of None \<Rightarrow> 0 | Some n \<Rightarrow> n) + count_list vs v)
      else map_of counts v)"
proof (induction vs arbitrary: counts)
  case (Cons w vs)
  then show ?case
    by (auto simp: map_of_count_one count_list_0_iff count_notin split: option.splits)
qed simp

lemma map_of_count_all:
  "map_of (count_all vals ms) v =
     (let vs = concat (map vals ms) in if v \<in> set vs then Some (count_list vs v) else None)"
  by (simp add: count_all_def count_loop Let_def)

lemma distinct_count_loop: "distinct (map fst cs) \<Longrightarrow> distinct (map fst (fold count_one vs cs))"
  by (induction vs arbitrary: cs) (simp_all add: count_one_def distinct_update)

lemma distinct_count_all: "distinct (map fst (count_all vals ms))"
  unfolding count_all_def by (rule distinct_count_loop) simp

lemma count_list_distinct: "distinct xs \<Longrightarrow> count_list xs v = (if v \<in> set xs then 1 else 0)"
  by (induction xs) (auto simp: count_notin)

text \<open>What a list of facets says about the values of some models.\<close>

definition facets_exact ::
  "(jstring \<Rightarrow> jstring \<Rightarrow> int) \<Rightarrow> jstring list \<Rightarrow> FacetOption list \<Rightarrow> bool" where
  "facets_exact lc vs fs \<longleftrightarrow>
     distinct (map fc_value fs) \<and> fc_value ` set fs = set vs
     \<and> (\<forall>f\<in>set fs. fc_label f = fc_value f \<and> fc_count f = count_list vs (fc_value f))
     \<and> sorted_wrt (\<lambda>a b. fc_count b < fc_count a \<or> fc_count a = fc_count b \<and> lc (fc_label a) (fc_label b) \<le> 0) fs"

locale facet_source = collation +
  fixes vals :: "'m \<Rightarrow> jstring list"
    and facets :: "'m list \<Rightarrow> FacetOption list"
  assumes extract_counts: "facets ms = facets_of lc (count_all vals ms)"
begin

lemma in_extract:
  "f \<in> set (facets ms) \<longleftrightarrow> fc_label f = fc_value f \<and> fc_value f \<in> set (concat (map vals ms))
     \<and> fc_count f = count_list (concat (map vals ms)) (fc_value f)"
proof -
  have "f \<in> set (facets ms) \<longleftrightarrow> fc_label f = fc_value f \<and> (fc_value f, fc_count f) \<in> set (count_all vals ms)"
    by (cases f) (auto simp: extract_counts facets_of_def)
  also have "(fc_value f, fc_count f) \<in> set (count_all vals ms) \<longleftrightarrow>
      map_of (count_all vals ms) (fc_value f) = Some (fc_count f)"
    using distinct_count_all [of vals ms] by simp
  also have "\<dots> \<longleftrightarrow> fc_value f \<in> set (concat (map vals ms))
      \<and> fc_count f = count_list (concat (map vals ms)) (fc_value f)"
    unfolding map_of_count_all Let_def by auto
  finally show ?thesis .
qed

lemma exact: "facets_exact lc (concat (map vals ms)) (facets ms)"
proof -
  let ?fs = "map (\<lambda>(v, n). \<lparr>fc_value = v, fc_label = v, fc_count = n\<rparr>) (count_all vals ms)"
  have "mset (map fc_value (facets ms)) = mset (map fst (count_all vals ms))"
    by (simp add: extract_counts facets_of_def mset_js_sort case_prod_beta comp_def flip: mset_map)
      (simp add: mset_js_sort image_mset.compositionality comp_def case_prod_beta)
  then have "distinct (map fc_value (facets ms))"
    using distinct_count_all [of vals ms] by (metis mset_eq_imp_distinct_iff)
  moreover have "fc_value ` set (facets ms) = set (concat (map vals ms))"
  proof (intro set_eqI iffI)
    fix v assume "v \<in> set (concat (map vals ms))"
    then have "\<lparr>fc_value = v, fc_label = v, fc_count = count_list (concat (map vals ms)) v\<rparr> \<in> set (facets ms)"
      by (simp only: in_extract) simp
    then show "v \<in> fc_value ` set (facets ms)" by force
  qed (auto simp: in_extract)
  moreover have "sorted_wrt (\<lambda>a b. \<not> facet_gt lc a b) (facets ms)"
    unfolding extract_counts facets_of_def by (rule by_facet.sorted_js_sort)
  then have "sorted_wrt (\<lambda>a b. fc_count b < fc_count a \<or> fc_count a = fc_count b \<and> lc (fc_label a) (fc_label b) \<le> 0)
      (facets ms)"
    by (rule sorted_wrt_mono_rel [rotated]) (auto simp: facet_gt_def Let_def split: if_splits)
  ultimately show ?thesis by (auto simp: facets_exact_def in_extract)
qed

text \<open>The count of a facet is how many models have its value, if none has it twice.\<close>

lemma count_is_models:
  assumes "f \<in> set (facets ms)" "list_all (\<lambda>m. distinct (vals m)) ms"
  shows "fc_count f = length (filter (\<lambda>m. fc_value f \<in> set (vals m)) ms)"
proof -
  have "count_list (concat (map vals ms)) v = length (filter (\<lambda>m. v \<in> set (vals m)) ms)" for v
    using assms(2) by (induction ms) (auto simp: count_list_distinct)
  then show ?thesis using assms(1) by (simp add: in_extract)
qed

end

sublocale collation \<subseteq> endpoint_facets: facet_source lc endpoints_of "extractEndpointTypes lc"
  by unfold_locales (simp add: extractEndpointTypes_def)

sublocale collation \<subseteq> group_facets: facet_source lc facet_groups "extractGroups lc"
  by unfold_locales (simp add: extractGroups_def)

sublocale collation \<subseteq> tag_facets: facet_source lc "lower_tags lower" "extractTagFacets lower lc" for lower
  by unfold_locales (simp add: extractTagFacets_def)

sublocale collation \<subseteq> vendor_facets: facet_source lc "vendor_names vendors" "\<lambda>ms. extractVendors lc ms vendors" for vendors
  by unfold_locales (simp add: extractVendors_def)

context collation
begin

lemma endpoints_exact: "facets_exact lc (concat (map endpoints_of ms)) (extractEndpointTypes lc ms)"
  by (rule endpoint_facets.exact)

lemma groups_exact: "facets_exact lc (concat (map facet_groups ms)) (extractGroups lc ms)"
  by (rule group_facets.exact)

lemma tags_exact: "facets_exact lc (concat (map (lower_tags lower) ms)) (extractTagFacets lower lc ms)"
  by (rule tag_facets.exact)

lemma vendors_exact: "facets_exact lc (concat (map (vendor_names vendors) ms)) (extractVendors lc ms vendors)"
  by (rule vendor_facets.exact)

lemma endpoint_count:
  "f \<in> set (extractEndpointTypes lc ms) \<Longrightarrow> list_all (\<lambda>m. distinct (endpoints_of m)) ms \<Longrightarrow>
   fc_count f = length (filter (\<lambda>m. fc_value f \<in> set (endpoints_of m)) ms)"
  by (rule endpoint_facets.count_is_models)

lemma group_count:
  "f \<in> set (extractGroups lc ms) \<Longrightarrow> list_all (\<lambda>m. distinct (facet_groups m)) ms \<Longrightarrow>
   fc_count f = length (filter (\<lambda>m. fc_value f \<in> set (facet_groups m)) ms)"
  by (rule group_facets.count_is_models)

lemma group_value: "f \<in> set (extractGroups lc ms) \<Longrightarrow> fc_value f \<noteq> [] \<and> fc_value f \<noteq> js ''auto''"
  by (auto simp: group_facets.in_extract facet_groups_def)

end

text \<open>Every facet list of the page is exact: one entry per value that occurs, its count the number of
  occurrences, in descending order of count and then by collation.\<close>

theorem page_facets_exact:
  assumes "collation lc"
  shows "facets_exact lc (concat (map endpoints_of ms)) (extractEndpointTypes lc ms)
    \<and> facets_exact lc (concat (map facet_groups ms)) (extractGroups lc ms)
    \<and> facets_exact lc (concat (map (lower_tags lower) ms)) (extractTagFacets lower lc ms)
    \<and> facets_exact lc (concat (map (vendor_names vendors) ms)) (extractVendors lc ms vendors)"
  using collation.endpoints_exact [OF assms] collation.groups_exact [OF assms]
    collation.tags_exact [OF assms] collation.vendors_exact [OF assms] by blast

theorem page_facets_exact_witness:
  "facets_exact code_unit_compare [js ''vip'', js ''default''] (extractGroups code_unit_compare [demo_model])"
proof -
  have "concat (map facet_groups [demo_model]) = [js ''vip'', js ''default'']" by code_simp
  then show ?thesis
    using page_facets_exact [OF code_units.collation_axioms, of "[demo_model]"] by metis
qed

section \<open>Tags\<close>

lemma split_runs_single: "list_all (\<lambda>c. \<not> p c) s \<Longrightarrow> split_runs p s = [s]"
  by (subst split_runs.simps) (simp add: list_all_iff Let_def takeWhile_eq_all_conv dropWhile_eq_Nil_conv)

lemma split_runs_step:
  assumes "list_all (\<lambda>c. \<not> p c) w" "p c" "r = [] \<or> \<not> p (hd r)"
  shows "split_runs p (w @ c # r) = w # split_runs p r"
proof -
  have w: "takeWhile (\<lambda>c. \<not> p c) (w @ c # r) = w" "dropWhile (\<lambda>c. \<not> p c) (w @ c # r) = c # r"
    using assms(1,2) by (simp_all add: takeWhile_append2 dropWhile_append2 list_all_iff)
  have "dropWhile p r = r" using assms(3) by (cases r) auto
  then show ?thesis using assms(2) w by (subst split_runs.simps) (simp add: Let_def)
qed

text \<open>A tag as the parser returns them.\<close>

definition is_tag :: "jstring \<Rightarrow> bool" where
  "is_tag t \<longleftrightarrow> t \<noteq> [] \<and> list_all (\<lambda>c. \<not> is_tag_sep c) t"

lemma comma: "is_tag_sep 44"
  by (simp add: is_tag_sep_def)

lemma split_runs_join:
  "list_all is_tag ts \<Longrightarrow> ts \<noteq> [] \<Longrightarrow> split_runs is_tag_sep (join [44] ts) = ts"
proof (induction ts rule: induct_list012)
  case (3 x y zs)
  have "join [44] (y # zs) \<noteq> [] \<and> \<not> is_tag_sep (hd (join [44] (y # zs)))"
    using "3.prems" by (cases zs; cases y) (auto simp: is_tag_def)
  then show ?case
    using 3 split_runs_step [of is_tag_sep x 44 "join [44] (y # zs)"] comma by (simp add: is_tag_def)
qed (simp_all add: is_tag_def split_runs_single)

lemma split_runs_parts: "w \<in> set (split_runs p s) \<Longrightarrow> list_all (\<lambda>c. \<not> p c) w"
proof (induction p s rule: split_runs.induct)
  case (1 p s)
  let ?r = "dropWhile (\<lambda>c. \<not> p c) s"
  have "split_runs p s = takeWhile (\<lambda>c. \<not> p c) s # (if ?r = [] then [] else split_runs p (dropWhile p ?r))"
    by (subst split_runs.simps) (simp add: Let_def)
  with "1.prems" consider "w = takeWhile (\<lambda>c. \<not> p c) s" | "?r \<noteq> []" "w \<in> set (split_runs p (dropWhile p ?r))"
    by (auto split: if_splits)
  then show ?case
  proof cases
    case 1
    then show ?thesis using set_takeWhileD [of _ "\<lambda>c. \<not> p c" s] by (simp add: list_all_iff)
  qed (use "1.IH" in blast)
qed

lemma is_tag_trim: "list_all (\<lambda>c. \<not> is_tag_sep c) w \<Longrightarrow> trim w = w"
proof -
  assume "list_all (\<lambda>c. \<not> is_tag_sep c) w"
  then have "\<not> is_space c" if "c \<in> set w" for c using that by (simp add: list_all_iff is_tag_sep_def)
  then show ?thesis by (cases "w = []") (simp_all add: trim_id)
qed

text \<open>Parsing a tag string yields separator-free, non-empty tags, and parsing a comma-separated list of such tags
  gives them back.\<close>

theorem parse_tags_roundtrip:
  "list_all is_tag (parseTags s)
   \<and> (list_all is_tag ts \<longrightarrow> parseTags (Some (join [44] ts)) = ts)"
proof (intro conjI impI)
  show "list_all is_tag (parseTags s)"
    using split_runs_parts [of _ is_tag_sep "the s"] is_tag_trim by (auto simp: parseTags_def list_all_iff is_tag_def)
  assume ts: "list_all is_tag ts"
  show "parseTags (Some (join [44] ts)) = ts"
  proof (cases "ts = []")
    case False
    have "join [44] ts \<noteq> []" using ts False by (cases ts rule: list.exhaust; cases "tl ts") (auto simp: is_tag_def)
    moreover have "map trim ts = ts" using ts is_tag_trim by (auto simp: list_all_iff is_tag_def intro: map_idI)
    moreover have "filter (\<lambda>t. t \<noteq> []) ts = ts" using ts by (auto simp: list_all_iff is_tag_def filter_id_conv)
    ultimately show ?thesis
      using split_runs_join [OF ts False] by (cases "join [44] ts") (auto simp: parseTags_def)
  qed (simp add: parseTags_def)
qed

theorem parse_tags_roundtrip_witness:
  "parseTags (Some (join [44] [js ''a'', js ''b''])) = [js ''a'', js ''b'']"
proof -
  have "list_all is_tag [js ''a'', js ''b'']" by code_simp
  then show ?thesis using parse_tags_roundtrip [of None "[js ''a'', js ''b'']"] by blast
qed

section \<open>Filtering and sorting\<close>

text \<open>A model whose sort price is a double, and that price.\<close>

definition priced :: "EnrichedPricingModel \<Rightarrow> bool" where
  "priced m \<longleftrightarrow> (case getModelSortPrice m of Fin a \<Rightarrow> is_double a | _ \<Rightarrow> False)"

definition per_request :: "EnrichedPricingModel \<Rightarrow> bool" where
  "per_request m \<longleftrightarrow> num_eq (quota_type m) (Fin 1)"

definition sort_price :: "EnrichedPricingModel \<Rightarrow> rat" where
  "sort_price m = (case promptPriceUsdPerM m of
     Fin a \<Rightarrow> a
   | _ \<Rightarrow> (case if per_request m then model_price m else Some (model_ratio m) of Some (Fin a) \<Rightarrow> a | _ \<Rightarrow> 0))"

lemma sort_price_read: "getModelSortPrice m = Fin a \<Longrightarrow> sort_price m = a"
  by (auto simp: getModelSortPrice_def sort_price_def per_request_def QUOTA_REQUEST_VALUE_def num_or_def num_truthy_def is_finite_def Let_def
      split: if_splits option.splits jsnum.splits)

lemma tier_read: "priceSortTier m = (if per_request m then 1 else 0)"
  by (simp add: priceSortTier_def per_request_def QUOTA_REQUEST_VALUE_def)

text \<open>Models that are not billed by request first, then by price (falling when \<open>low\<close> is false), then by name.\<close>

definition price_before ::
  "(jstring \<Rightarrow> jstring \<Rightarrow> int) \<Rightarrow> bool \<Rightarrow> EnrichedPricingModel \<Rightarrow> EnrichedPricingModel \<Rightarrow> bool" where
  "price_before lc low a b \<longleftrightarrow>
     (let p = (if low then sort_price a else - sort_price a); q = (if low then sort_price b else - sort_price b)
      in \<not> per_request a \<and> per_request b
         \<or> per_request a = per_request b \<and> (p < q \<or> p = q \<and> lc (model_name a) (model_name b) \<le> 0))"

lemma price_gt_exact:
  assumes "priced a" "priced b"
  shows "price_gt lc low a b \<longleftrightarrow> \<not> price_before lc low a b"
proof -
  obtain x y where xy: "getModelSortPrice a = Fin x" "getModelSortPrice b = Fin y" "is_double x" "is_double y"
    using assms by (auto simp: priced_def split: jsnum.splits)
  show ?thesis
    using num_sub_sign_double [OF xy(3,4)] num_sub_sign_double [OF xy(4,3)]
    by (auto simp: price_gt_def price_before_def sort_price_read [OF xy(1)] sort_price_read [OF xy(2)] tier_read name_gt_def xy(1,2)
        Let_def not_less not_le)
qed

context collation
begin

lemma price_comparator: "comparator (\<lambda>a b. \<not> price_before lc low a b)"
proof unfold_locales
  fix a b c
  show "\<not> price_before lc low a b \<Longrightarrow> \<not> \<not> price_before lc low b a"
    using lc_asym by (auto simp: price_before_def Let_def not_le not_less)
  show "\<not> \<not> price_before lc low a b \<Longrightarrow> \<not> \<not> price_before lc low b c \<Longrightarrow> \<not> \<not> price_before lc low a c"
    using lc_trans by (auto simp: price_before_def Let_def split: if_splits)
qed

lemma sorted_by_price:
  assumes "list_all priced ms"
  shows "sorted_wrt (price_before lc low) (js_sort (price_gt lc low) ms)"
proof -
  have "js_sort (price_gt lc low) ms = js_sort (\<lambda>a b. \<not> price_before lc low a b) ms"
    using assms price_gt_exact by (intro js_sort_cong) (auto simp: list_all_iff)
  then show ?thesis using comparator.sorted_js_sort [OF price_comparator] by simp
qed

lemma sorted_by_name: "sorted_wrt (\<lambda>a b. lc (model_name a) (model_name b) \<le> 0) (js_sort (name_gt lc) ms)"
  using comparator.sorted_js_sort [OF name_comparator, of ms] by (simp add: name_gt_def not_less)

end

lemma mset_sortModels: "mset (sortModels lc ms x) = mset ms"
  by (simp add: sortModels_def mset_js_sort)

text \<open>The filters written out: what each of them asks of a model. A list of selected values asks for one that the model has, and
  asks nothing when it is empty; a price that is not finite fails only a range with both ends.\<close>

definition wanted :: "(jstring \<Rightarrow> jstring) \<Rightarrow> ModelFilters \<Rightarrow> EnrichedPricingModel \<Rightarrow> bool" where
  "wanted lower f m \<longleftrightarrow>
     sublist (lower (trim (mf_search f)))
       (lower (model_name m @ [32] @ case_option [] id (description m) @ [32] @ case_option [] id (tags m) @ [32]
          @ case_option [] id (vendor_name m)))
     \<and> (mf_providers f = [] \<or> (\<exists>v. vendor_name m = Some v \<and> v \<noteq> [] \<and> v \<in> set (mf_providers f)))
     \<and> (mf_modelTypes f = [] \<or> (\<exists>ty\<in>set (mf_modelTypes f). ty \<in> set (deriveModelTypes m)))
     \<and> (mf_groups f = [] \<or> (\<exists>g\<in>set (mf_groups f). g \<in> set (enable_groups m)))
     \<and> (mf_categories f = [] \<or> (\<exists>tag\<in>set (parseTags (tags m)). lower tag \<in> set (mf_categories f)))
     \<and> (mf_endpointTypes f = [] \<or> (\<exists>es. supported_endpoint_types m = Some es \<and> (\<exists>e\<in>set es. e \<in> set (mf_endpointTypes f))))
     \<and> (mf_quotaTypes f = [] \<or> (if num_eq (quota_type m) (Fin 0) then js ''token'' else js ''request'') \<in> set (mf_quotaTypes f))
     \<and> (let (lo, hi) = mf_promptPriceRange f; p = promptPriceUsdPerM m
        in if is_finite p then (num_gt lo (Fin 0) \<longrightarrow> \<not> num_lt p lo) \<and> (num_le (Fin 0) hi \<longrightarrow> \<not> num_gt p hi)
           else \<not> (num_gt lo (Fin 0) \<and> num_le (Fin 0) hi))"

lemma matchesAny_iff: "matchesAny sel vs \<longleftrightarrow> sel = [] \<or> (\<exists>x\<in>set sel. x \<in> set vs)"
  by (auto simp: matchesAny_def list_ex_iff)

lemma passes_wanted: "passes_filters lower f m = wanted lower f m"
proof -
  let ?q = "lower (trim (mf_search f))"
  have search: "\<not> (?q \<noteq> [] \<and> \<not> str_includes (lower (search_text m)) ?q) \<longleftrightarrow>
      sublist ?q (lower (model_name m @ [32] @ case_option [] id (description m) @ [32] @ case_option [] id (tags m) @ [32]
        @ case_option [] id (vendor_name m)))"
    by (cases "?q = []") (simp_all add: includes_iff_sublist search_text_def Let_def id_def split: option.split)
  have providers: "matchesAny (mf_providers f) (case vendor_name m of None \<Rightarrow> [] | Some v \<Rightarrow> if v = [] then [] else [v])
      \<longleftrightarrow> mf_providers f = [] \<or> (\<exists>v. vendor_name m = Some v \<and> v \<noteq> [] \<and> v \<in> set (mf_providers f))"
    by (cases "vendor_name m") (auto simp: matchesAny_iff)
  have categories: "matchesAny (mf_categories f) (lower_tags lower m)
      \<longleftrightarrow> mf_categories f = [] \<or> (\<exists>tag\<in>set (parseTags (tags m)). lower tag \<in> set (mf_categories f))"
    by (auto simp: matchesAny_iff lower_tags_def)
  have endpoints: "matchesAny (mf_endpointTypes f) (endpoints_of m) \<longleftrightarrow> mf_endpointTypes f = []
      \<or> (\<exists>es. supported_endpoint_types m = Some es \<and> (\<exists>e\<in>set es. e \<in> set (mf_endpointTypes f)))"
    by (cases "supported_endpoint_types m") (auto simp: matchesAny_iff endpoints_of_def)
  have quotas: "matchesAny (mf_quotaTypes f) (if num_eq (quota_type m) QUOTA_TOKEN_VALUE then [QUOTA_TYPES QUOTA_TOKEN]
        else [QUOTA_TYPES QUOTA_REQUEST])
      \<longleftrightarrow> mf_quotaTypes f = [] \<or> (if num_eq (quota_type m) (Fin 0) then js ''token'' else js ''request'') \<in> set (mf_quotaTypes f)"
    by (simp add: matchesAny_iff QUOTA_TOKEN_VALUE_def)
  have rng: "inPromptPriceRange m (mf_promptPriceRange f) \<longleftrightarrow> (let (lo, hi) = mf_promptPriceRange f; p = promptPriceUsdPerM m
        in if is_finite p then (num_gt lo (Fin 0) \<longrightarrow> \<not> num_lt p lo) \<and> (num_le (Fin 0) hi \<longrightarrow> \<not> num_gt p hi)
           else \<not> (num_gt lo (Fin 0) \<and> num_le (Fin 0) hi))"
    by (auto simp: inPromptPriceRange_def Let_def split: prod.split)
  have chain: "(if a then False else if b then False else if c then False else if d then False else if e then False
      else if g then False else if h then False else if i then False else True)
      \<longleftrightarrow> \<not> a \<and> \<not> b \<and> \<not> c \<and> \<not> d \<and> \<not> e \<and> \<not> g \<and> \<not> h \<and> \<not> i" for a b c d e g h i by simp
  show ?thesis
    unfolding passes_filters_def Let_def [of ?q] chain not_not search providers categories endpoints quotas rng
      matchesAny_iff [of "mf_modelTypes f"] matchesAny_iff [of "mf_groups f"] wanted_def ..
qed

text \<open>C34: the page shows exactly the models that pass every filter, each as often as the catalogue has it: the search text occurs in
  the name, description, tags and vendor of the model; the selected providers, model types, groups, categories, endpoint types
  and quota types each name one that the model has, where any are selected; and the price is in the range. They are
  in the chosen order: by name, or by price, rising or falling, with the models that are not billed by request first and
  equal prices by name. The hypotheses: the collation is a total preorder and every price that is sorted by is finite.\<close>

theorem filter_and_sort_exact:
  assumes "collation lc" "list_all priced models"
  shows "mset (filterAndSortModels lower lc models filters) = mset (filter (wanted lower filters) models)
    \<and> (if mf_sortBy filters \<in> {SORT_OPTIONS SORT_PRICE_LOW, SORT_OPTIONS SORT_PRICE_HIGH}
       then sorted_wrt (price_before lc (mf_sortBy filters = SORT_OPTIONS SORT_PRICE_LOW))
              (filterAndSortModels lower lc models filters)
       else sorted_wrt (\<lambda>a b. lc (model_name a) (model_name b) \<le> 0) (filterAndSortModels lower lc models filters))"
proof (intro conjI)
  show "mset (filterAndSortModels lower lc models filters) = mset (filter (wanted lower filters) models)"
    by (simp add: filterAndSortModels_def mset_sortModels passes_wanted)
  have p: "list_all priced (filter (passes_filters lower filters) models)"
    using assms(2) by (auto simp: list_all_iff)
  have ne: "js ''price-low'' \<noteq> js ''name''" "js ''price-high'' \<noteq> js ''name''" "js ''price-high'' \<noteq> js ''price-low''"
    by (simp_all add: js_def)
  show "if mf_sortBy filters \<in> {SORT_OPTIONS SORT_PRICE_LOW, SORT_OPTIONS SORT_PRICE_HIGH}
       then sorted_wrt (price_before lc (mf_sortBy filters = SORT_OPTIONS SORT_PRICE_LOW))
              (filterAndSortModels lower lc models filters)
       else sorted_wrt (\<lambda>a b. lc (model_name a) (model_name b) \<le> 0) (filterAndSortModels lower lc models filters)"
    using collation.sorted_by_price [OF assms(1) p] collation.sorted_by_name [OF assms(1)] ne
    by (auto simp: filterAndSortModels_def sortModels_def)
qed

section \<open>Counts and filters\<close>

text \<open>The filters of the page with nothing selected.\<close>

definition no_filters :: ModelFilters where
  "no_filters = \<lparr>mf_search = [], mf_providers = [], mf_modelTypes = [], mf_groups = [], mf_categories = [],
     mf_endpointTypes = [], mf_quotaTypes = [], mf_promptPriceRange = (Fin 0, Fin (- 1)),
     mf_sortBy = SORT_OPTIONS SORT_PRICE_LOW\<rparr>"

lemma no_range: "inPromptPriceRange m (Fin 0, Fin (- 1))"
  by (simp add: inPromptPriceRange_def Let_def num_gt_def num_le_def num_eq_def)

lemma only_kept:
  assumes "lower [] = []"
  shows "length (filterAndSortModels lower lc ms (no_filters\<lparr>mf_groups := gs, mf_endpointTypes := es\<rparr>))
    = length (filter (\<lambda>m. matchesAny gs (enable_groups m) \<and> matchesAny es (endpoints_of m)) ms)"
proof -
  have "passes_filters lower (no_filters\<lparr>mf_groups := gs, mf_endpointTypes := es\<rparr>) m
      \<longleftrightarrow> matchesAny gs (enable_groups m) \<and> matchesAny es (endpoints_of m)" for m
    using assms by (simp add: passes_filters_def no_filters_def no_range matchesAny_def [of "[]"] trim_def Let_def)
  then have "filter (passes_filters lower (no_filters\<lparr>mf_groups := gs, mf_endpointTypes := es\<rparr>)) ms
      = filter (\<lambda>m. matchesAny gs (enable_groups m) \<and> matchesAny es (endpoints_of m)) ms" by (simp cong: filter_cong)
  then show ?thesis using mset_sortModels [THEN mset_eq_length] by (simp add: filterAndSortModels_def)
qed

text \<open>C35: the number shown next to a group or an endpoint type is the number of models that the page shows when it alone is
  selected. The hypotheses: no model lists a group or an endpoint type twice, the collation is a total preorder, and the empty search
  is empty in lower case.\<close>

theorem facet_count_is_filter_count:
  assumes "collation lc" "list_all (\<lambda>m. distinct (enable_groups m) \<and> distinct (endpoints_of m)) ms" "lower [] = []"
  shows "(f \<in> set (extractGroups lc ms) \<longrightarrow>
      fc_count f = length (filterAndSortModels lower lc ms (no_filters\<lparr>mf_groups := [fc_value f]\<rparr>)))
    \<and> (f \<in> set (extractEndpointTypes lc ms) \<longrightarrow>
      fc_count f = length (filterAndSortModels lower lc ms (no_filters\<lparr>mf_endpointTypes := [fc_value f]\<rparr>)))"
proof (intro conjI impI)
  note kept = only_kept [where lower = lower and lc = lc and ms = ms, OF assms(3)]
  have none: "matchesAny [] vs" for vs :: "jstring list" by (simp add: matchesAny_def)
  {
    assume f: "f \<in> set (extractEndpointTypes lc ms)"
    then have "fc_count f = length (filter (\<lambda>m. matchesAny [fc_value f] (endpoints_of m)) ms)"
      using collation.endpoint_count [OF assms(1) f] assms(2) by (simp add: matchesAny_def list_all_iff)
    then show "fc_count f = length (filterAndSortModels lower lc ms (no_filters\<lparr>mf_endpointTypes := [fc_value f]\<rparr>))"
      using kept [where gs = "[]" and es = "[fc_value f]"] by (simp add: none no_filters_def)
  next
    assume f: "f \<in> set (extractGroups lc ms)"
    have "list_all (\<lambda>m. distinct (facet_groups m)) ms" using assms(2) by (simp add: facet_groups_def list_all_iff)
    then have "fc_count f = length (filter (\<lambda>m. fc_value f \<in> set (facet_groups m)) ms)"
      using collation.group_count [OF assms(1) f] by simp
    moreover have "fc_value f \<noteq> []" "fc_value f \<noteq> js ''auto''"
      using collation.group_value [OF assms(1) f] by auto
    ultimately have "fc_count f = length (filter (\<lambda>m. matchesAny [fc_value f] (enable_groups m)) ms)"
      by (simp add: matchesAny_def facet_groups_def)
    then show "fc_count f = length (filterAndSortModels lower lc ms (no_filters\<lparr>mf_groups := [fc_value f]\<rparr>))"
      using kept [where gs = "[fc_value f]" and es = "[]"] by (simp add: none no_filters_def)
  }
qed

text \<open>A page with two models.\<close>

definition demo_catalogue :: "EnrichedPricingModel list" where
  "demo_catalogue = map (\<lambda>(n, q). PricingModel.extend (demo_model\<lparr>model_name := n, quota_type := q\<rparr>)
       \<lparr>promptPriceUsdPerM = Fin 0, completionPriceUsdPerM = Fin 0\<rparr>)
     [(js ''b'', Fin 1), (js ''a'', Fin 0)]"

theorem facet_count_is_filter_count_witness:
  "length (filterAndSortModels (\<lambda>s. s) code_unit_compare demo_catalogue (no_filters\<lparr>mf_groups := [js ''vip'']\<rparr>)) = 2"
proof -
  have "list_all (\<lambda>m. distinct (enable_groups m) \<and> distinct (endpoints_of m)) demo_catalogue" by code_simp
  moreover have "\<lparr>fc_value = js ''vip'', fc_label = js ''vip'', fc_count = 2\<rparr>
      \<in> set (extractGroups code_unit_compare demo_catalogue)" by code_simp
  ultimately show ?thesis
    using facet_count_is_filter_count [OF code_units.collation_axioms, of demo_catalogue "\<lambda>s. s"
        "\<lparr>fc_value = js ''vip'', fc_label = js ''vip'', fc_count = 2\<rparr>"] by simp
qed

text \<open>A group that a model lists twice is counted twice next to its facet and kept once by the filter.\<close>

theorem repeated_group_counted_twice:
  "map fc_count (extractGroups code_unit_compare [blank_model\<lparr>enable_groups := [js ''vip'', js ''vip'']\<rparr>]) = [2]
   \<and> length (filterByGroup [blank_model\<lparr>enable_groups := [js ''vip'', js ''vip'']\<rparr>] (js ''vip'')) = 1"
  by code_simp

theorem filter_and_sort_exact_witness:
  "mset (filterAndSortModels (\<lambda>s. s) code_unit_compare demo_catalogue no_filters)
     = mset (filter (wanted (\<lambda>s. s) no_filters) demo_catalogue)
   \<and> sorted_wrt (price_before code_unit_compare True)
     (filterAndSortModels (\<lambda>s. s) code_unit_compare demo_catalogue no_filters)"
proof -
  have "list_all priced demo_catalogue"
    by (simp add: demo_catalogue_def priced_def getModelSortPrice_def is_finite_def is_double_def js_round_def
        PricingModel.defs)
  then show ?thesis
    using filter_and_sort_exact [OF code_units.collation_axioms, of demo_catalogue "\<lambda>s. s" no_filters]
    by (simp add: no_filters_def)
qed

end
