(* ===== verification/Model_Capabilities.thy ===== *)
theory Model_Capabilities
  imports Cost Pricing_Filters
begin

text \<open>
  What the playground knows of a model (\<^verbatim>\<open>features/playground/lib/model-capabilities.ts\<close>): whether it is a
  chat model, whether it can reason, and which group to use it with. The case-insensitive regular
  expressions are written out: without the \<^verbatim>\<open>u\<close> flag they fold ASCII letters only (a character
  outside ASCII never matches one inside).
\<close>

definition ascii_lower :: "jstring \<Rightarrow> jstring" where
  "ascii_lower s = map (\<lambda>c. if 65 \<le> c \<and> c \<le> 90 then c + 32 else c) s"

definition SPECIALTY_NAMES :: "jstring list" where
  "SPECIALTY_NAMES = map js
     [''tts'', ''whisper'', ''transcribe'', ''speech'', ''audio'', ''eleven_'', ''scribe'', ''embedding'',
      ''embed-'', ''rerank'', ''dall-e'', ''flux'', ''stable-diffusion'', ''midjourney'', ''sora'', ''veo'',
      ''suno'', ''udio'', ''music'', ''sfx'', ''sound-effect'']"

definition specialty_name :: "jstring \<Rightarrow> bool" where
  "specialty_name name \<longleftrightarrow> list_ex (str_includes (ascii_lower name)) SPECIALTY_NAMES"

text \<open>\<^verbatim>\<open>(^|[/:])o[1-4]([.-]|$)\<close>; the flag says whether the text starts at \<^verbatim>\<open>^\<close> or after \<^verbatim>\<open>[/:]\<close>.\<close>

fun o_series :: "bool \<Rightarrow> jstring \<Rightarrow> bool" where
  "o_series start [] = False"
| "o_series start (c # s) =
     (start \<and> c = 111
        \<and> (case s of [] \<Rightarrow> False
           | d # r \<Rightarrow> 49 \<le> d \<and> d \<le> 52 \<and> (case r of [] \<Rightarrow> True | e # _ \<Rightarrow> e = 46 \<or> e = 45))
      \<or> o_series (c = 47 \<or> c = 58) s)"

definition line_terminator :: "nat \<Rightarrow> bool" where
  "line_terminator c \<longleftrightarrow> c \<in> {10, 13, 8232, 8233}"

text \<open>\<^verbatim>\<open>claude-.*(?:thinking|4)\<close>: the dot stops at a line terminator.\<close>

fun claude_thinking :: "jstring \<Rightarrow> bool" where
  "claude_thinking [] = False"
| "claude_thinking (c # s) =
     (prefix (js ''claude-'') (c # s)
        \<and> (let line = takeWhile (\<lambda>c. \<not> line_terminator c) (drop 7 (c # s))
           in str_includes line (js ''thinking'') \<or> str_includes line (js ''4''))
      \<or> claude_thinking s)"

definition reasoning_name :: "jstring \<Rightarrow> bool" where
  "reasoning_name name \<longleftrightarrow>
     (let n = ascii_lower name
      in o_series True n
         \<or> list_ex (str_includes n)
             (map js [''gpt-5'', ''deepseek-r'', ''qwq'', ''reasoning'', ''thinking'', ''glm-z'', ''grok-3'', ''grok-4'',
                      ''gemini-2.5''])
         \<or> claude_thinking n)"

definition reasoning_tag :: "jstring \<Rightarrow> bool" where
  "reasoning_tag tagText \<longleftrightarrow>
     list_ex (str_includes (ascii_lower tagText)) [js ''reasoning'', js ''thinking'']"

definition toPricingModel :: "jstring \<Rightarrow> ModelPricing \<Rightarrow> PricingModel" where
  "toPricingModel name row =
     \<lparr>pm_id = Fin 0, model_name = name, description = None, description_key = None, icon = None,
      vendor_id = None, vendor_name = None, vendor_icon = None, vendor_description = None,
      vendor_description_key = None, quota_type = mp_quotaType row, model_ratio = mp_modelRatio row,
      completion_ratio = mp_completionRatio row, model_price = mp_modelPrice row,
      cache_ratio = mp_cacheRatio row, create_cache_ratio = None, image_ratio = None,
      audio_ratio = mp_audioRatio row, audio_completion_ratio = mp_audioCompletionRatio row,
      enable_groups = (case mp_enableGroups row of None \<Rightarrow> [] | Some gs \<Rightarrow> gs), tags = mp_tags row,
      supported_endpoint_types = mp_supportedEndpointTypes row, pm_key = None, group_ratio = None,
      billing_mode = None, billing_expr = None, pricing_version = None\<rparr>"

definition isChatModel :: "jstring \<Rightarrow> ModelPricing option \<Rightarrow> bool" where
  "isChatModel name row =
     (case row of
        Some r \<Rightarrow>
          if has_items (mp_supportedEndpointTypes r)
          then MT_CHAT \<in> set (deriveModelTypes (toPricingModel name r))
          else \<not> specialty_name name
      | None \<Rightarrow> \<not> specialty_name name)"

definition supportsReasoning :: "jstring \<Rightarrow> ModelPricing option \<Rightarrow> bool" where
  "supportsReasoning name row =
     (case Option.bind row mp_tags of
        Some tagText \<Rightarrow> if tagText \<noteq> [] \<and> reasoning_tag tagText then True else reasoning_name name
      | None \<Rightarrow> reasoning_name name)"

definition filterChatModels :: "ModelOption list \<Rightarrow> (jstring \<Rightarrow> ModelPricing option) \<Rightarrow> ModelOption list" where
  "filterChatModels models pricingMap = filter (\<lambda>m. isChatModel (mo_value m) (pricingMap (mo_value m))) models"

section \<open>Groups\<close>

definition ratio_of :: "GroupOption list \<Rightarrow> jstring \<Rightarrow> jsnum" where
  "ratio_of userGroups g = (case find (\<lambda>x. go_value x = g) userGroups of None \<Rightarrow> Fin 1 | Some x \<Rightarrow> go_ratio x)"

definition group_candidates :: "jstring list option \<Rightarrow> jstring list \<Rightarrow> jstring list" where
  "group_candidates enableGroups userValues =
     (if has_items enableGroups then
        let intersection = filter (\<lambda>g. g \<in> set (the enableGroups)) userValues
        in if intersection \<noteq> [] then intersection else userValues
      else userValues)"

definition ratio_gt :: "GroupOption list \<Rightarrow> jstring \<Rightarrow> jstring \<Rightarrow> bool" where
  "ratio_gt userGroups a b \<longleftrightarrow> num_gt (num_sub (ratio_of userGroups a) (ratio_of userGroups b)) (Fin 0)"

definition pickGroupForModel :: "jstring \<Rightarrow> jstring list option \<Rightarrow> GroupOption list \<Rightarrow> jstring" where
  "pickGroupForModel current enableGroups userGroups =
     (let userValues = map go_value userGroups; fallback = str_or (Some current) (js ''default'')
      in if userValues = [] then fallback
         else let candidates = group_candidates enableGroups userValues
              in if current \<noteq> [] \<and> current \<in> set candidates then current
                 else if js ''default'' \<in> set candidates then js ''default''
                 else case js_sort (ratio_gt userGroups) candidates of [] \<Rightarrow> fallback | g # _ \<Rightarrow> g)"

section \<open>Properties\<close>

text \<open>A model with endpoint evidence is offered for chat exactly when one of its endpoints is a chat
  endpoint, whatever it is called; without evidence, exactly when its name is of no speciality.\<close>

theorem chat_model_exact:
  "isChatModel name row \<longleftrightarrow>
     (case Option.bind row mp_supportedEndpointTypes of
        Some (e # es) \<Rightarrow> list_ex (\<lambda>x. x \<in> set CHAT_ENDPOINT_TYPES) (e # es)
      | _ \<Rightarrow> \<not> specialty_name name)"
  by (cases row)
    (auto simp: isChatModel_def deriveModelTypes_def MODEL_TYPE_DISPLAY_ORDER_def toPricingModel_def
      endpoints_of_def has_items_def split: option.splits list.splits)

definition groups_priced :: "GroupOption list \<Rightarrow> bool" where
  "groups_priced userGroups \<longleftrightarrow> list_all (\<lambda>x. case go_ratio x of Fin a \<Rightarrow> is_double a | _ \<Rightarrow> False) userGroups"

definition ratio_value :: "GroupOption list \<Rightarrow> jstring \<Rightarrow> rat" where
  "ratio_value userGroups g = (case ratio_of userGroups g of Fin a \<Rightarrow> a | _ \<Rightarrow> 0)"

interpretation by_ratio: comparator "\<lambda>a b. ratio_value ug b < ratio_value ug a" for ug
  by (rule comparator_by_key)

lemma ratio_gt_exact:
  assumes "groups_priced ug"
  shows "ratio_gt ug a b \<longleftrightarrow> ratio_value ug b < ratio_value ug a"
proof -
  have one: "is_double 1" using js_round_of_nat_exact [of 1] by (simp add: is_double_def)
  have "\<exists>x. ratio_of ug g = Fin x \<and> is_double x" for g
  proof (cases "find (\<lambda>x. go_value x = g) ug")
    case (Some x)
    then have "x \<in> set ug" by (auto simp: find_Some_iff)
    then have "case go_ratio x of Fin a \<Rightarrow> is_double a | _ \<Rightarrow> False"
      using assms by (simp add: groups_priced_def list_all_iff)
    then show ?thesis using Some by (cases "go_ratio x") (simp_all add: ratio_of_def)
  qed (simp add: ratio_of_def one)
  then obtain x y where "ratio_of ug a = Fin x" "is_double x" "ratio_of ug b = Fin y" "is_double y" by metis
  then show ?thesis using num_sub_sign_double(1) by (simp add: ratio_gt_def ratio_value_def)
qed

lemma group_candidates_ok:
  assumes "vs \<noteq> []"
  shows "group_candidates eg vs \<noteq> []" "set (group_candidates eg vs) \<subseteq> set vs"
    "\<exists>g\<in>set vs. has_items eg \<and> g \<in> set (the eg) \<Longrightarrow> set (group_candidates eg vs) = set vs \<inter> set (the eg)"
  using assms by (auto simp: group_candidates_def Let_def filter_empty_conv)

text \<open>The picked group is one of the user's own and, when the user has one that the model allows, one of
  those; the current group is kept when it qualifies; and otherwise, without a default, no
  candidate is cheaper.\<close>

theorem picked_group_valid:
  assumes "userGroups \<noteq> []" "groups_priced userGroups"
  shows "let g = pickGroupForModel current enableGroups userGroups;
             cs = group_candidates enableGroups (map go_value userGroups)
         in g \<in> set cs \<and> g \<in> go_value ` set userGroups
            \<and> (current \<noteq> [] \<and> current \<in> set cs \<longrightarrow> g = current)
            \<and> (g \<noteq> current \<and> g \<noteq> js ''default'' \<longrightarrow> (\<forall>c\<in>set cs. ratio_value userGroups g \<le> ratio_value userGroups c))"
proof -
  let ?vs = "map go_value userGroups"
  let ?cs = "group_candidates enableGroups ?vs"
  let ?s = "js_sort (ratio_gt userGroups) ?cs"
  have vs: "?vs \<noteq> []" using assms(1) by simp
  note cs = group_candidates_ok [OF vs, of enableGroups]
  have s: "?s = js_sort (\<lambda>a b. ratio_value userGroups b < ratio_value userGroups a) ?cs"
    by (rule js_sort_cong) (rule ratio_gt_exact [OF assms(2)])
  obtain g gs where g: "?s = g # gs" using cs(1) by (metis js_sort_eq_Nil_iff list.exhaust)
  have "g \<in> set ?cs" using g by (metis list.set_intros(1) set_js_sort)
  moreover have "\<forall>c\<in>set ?cs. ratio_value userGroups g \<le> ratio_value userGroups c"
    using by_ratio.hd_js_sort_least [of _ ?cs userGroups] g s by (auto simp: not_less)
  moreover have "?cs \<noteq> [] \<and> set ?cs \<subseteq> go_value ` set userGroups" using cs by auto
  ultimately show ?thesis
    using g assms(1) by (auto simp: pickGroupForModel_def Let_def)
qed

definition demo_groups :: "GroupOption list" where
  "demo_groups = [\<lparr>go_label = js ''a'', go_value = js ''a'', go_ratio = Fin 1, go_desc = None\<rparr>,
     \<lparr>go_label = js ''b'', go_value = js ''b'', go_ratio = Fin 0, go_desc = None\<rparr>]"

theorem picked_group_valid_witness:
  "pickGroupForModel (js ''a'') (Some [js ''a'']) demo_groups = js ''a''"
proof -
  have "is_double 1" "is_double 0"
    using js_round_of_nat_exact [of 1] js_round_of_nat_exact [of 0] by (simp_all add: is_double_def)
  then have "groups_priced demo_groups" by (simp add: groups_priced_def demo_groups_def)
  moreover have "demo_groups \<noteq> []" by (simp add: demo_groups_def)
  moreover have "js ''a'' \<in> set (group_candidates (Some [js ''a'']) (map go_value demo_groups))" by code_simp
  ultimately show ?thesis
    using picked_group_valid [of demo_groups "js ''a''" "Some [js ''a'']"] by (simp add: Let_def)
qed

end
