(* ===== verification/Channel_Utils.thy ===== *)
theory Channel_Utils
  imports Stream_Parser Pricing_Laws
begin

text \<open>
  Helpers of the channel pages (\<^verbatim>\<open>features/channels/lib/channel-utils.ts\<close>, \<^verbatim>\<open>upstream-update-utils.ts\<close>,
  \<^verbatim>\<open>multi-key-utils.ts\<close>, \<^verbatim>\<open>ollama-utils.ts\<close> and the types and status tables they read): statuses,
  masking and deduplicating keys, model and group lists, and grouping channels by
  tag. An untyped value is a \<open>json option\<close>, \<open>None\<close> for undefined. The theory shows that the loop that builds
  tag rows is a group-by with the documented aggregates, that deduplication is idempotent, that
  groups list the default one first, and how far the key mask hides a key.
\<close>

section \<open>Types and tables\<close>

record ChannelInfo =
  is_multi_key :: bool
  multi_key_size :: jsnum
  multi_key_status_list :: "(jstring \<times> jsnum) list option"
  multi_key_disabled_reason :: "(jstring \<times> jstring) list option"
  multi_key_disabled_time :: "(jstring \<times> jsnum) list option"
  multi_key_polling_index :: jsnum
  multi_key_mode :: jstring

record Channel =
  c_id :: jsnum
  c_type :: jsnum
  c_key :: jstring
  c_openai_organization :: "jstring nullable"
  c_test_model :: "jstring nullable"
  c_status :: jsnum
  c_name :: jstring
  c_weight :: "jsnum nullable"
  c_created_time :: jsnum
  c_test_time :: jsnum
  c_response_time :: jsnum
  c_base_url :: "jstring nullable"
  c_other :: jstring
  c_balance :: jsnum
  c_balance_updated_time :: jsnum
  c_models :: jstring
  c_group :: jstring
  c_used_quota :: jsnum
  c_model_mapping :: "jstring nullable"
  c_status_code_mapping :: "jstring nullable"
  c_priority :: "jsnum nullable"
  c_auto_ban :: "jsnum nullable"
  c_other_info :: jstring
  c_tag :: "jstring nullable"
  c_setting :: "jstring nullable"
  c_param_override :: "jstring nullable"
  c_header_override :: "jstring nullable"
  c_remark :: jstring
  c_max_input_tokens :: jsnum
  c_channel_info :: "ChannelInfo option"
  c_settings :: jstring

datatype Variant = VNeutral | VSuccess | VInfo | VWarning | VDanger

record Badge =
  b_variant :: Variant
  b_label :: jstring

definition CHANNEL_STATUS_CONFIG :: "(jsnum \<times> Badge) list" where
  "CHANNEL_STATUS_CONFIG =
     [(Fin 0, \<lparr>b_variant = VNeutral, b_label = js ''Unknown''\<rparr>),
      (Fin 1, \<lparr>b_variant = VSuccess, b_label = js ''Enabled''\<rparr>),
      (Fin 2, \<lparr>b_variant = VDanger, b_label = js ''Disabled''\<rparr>),
      (Fin 3, \<lparr>b_variant = VDanger, b_label = js ''Auto Disabled''\<rparr>)]"

definition MULTI_KEY_STATUS_CONFIG :: "(jsnum \<times> Badge) list" where
  "MULTI_KEY_STATUS_CONFIG =
     [(Fin 1, \<lparr>b_variant = VSuccess, b_label = js ''Enabled''\<rparr>),
      (Fin 2, \<lparr>b_variant = VNeutral, b_label = js ''Manual Disabled''\<rparr>),
      (Fin 3, \<lparr>b_variant = VDanger, b_label = js ''Auto Disabled''\<rparr>)]"

definition RESPONSE_TIME_THRESHOLDS :: "jsnum \<times> jsnum \<times> jsnum \<times> jsnum" where
  "RESPONSE_TIME_THRESHOLDS = (Fin 500, Fin 1000, Fin 2000, Fin 5000)"

datatype ResponseTimeRating = RateExcellent | RateGood | RateFair | RatePoor | RateUnknown

fun RESPONSE_TIME_CONFIG :: "ResponseTimeRating \<Rightarrow> Badge" where
  "RESPONSE_TIME_CONFIG RateExcellent = \<lparr>b_variant = VSuccess, b_label = js ''Excellent''\<rparr>"
| "RESPONSE_TIME_CONFIG RateGood = \<lparr>b_variant = VInfo, b_label = js ''Good''\<rparr>"
| "RESPONSE_TIME_CONFIG RateFair = \<lparr>b_variant = VWarning, b_label = js ''Fair''\<rparr>"
| "RESPONSE_TIME_CONFIG RatePoor = \<lparr>b_variant = VDanger, b_label = js ''Poor''\<rparr>"
| "RESPONSE_TIME_CONFIG RateUnknown = \<lparr>b_variant = VNeutral, b_label = js ''Not tested''\<rparr>"

section \<open>Status\<close>

definition getChannelStatusBadge :: "jsnum \<Rightarrow> Badge" where
  "getChannelStatusBadge status =
     (case map_of CHANNEL_STATUS_CONFIG status of
        Some b \<Rightarrow> b | None \<Rightarrow> the (map_of CHANNEL_STATUS_CONFIG (Fin 0)))"

definition channelStatusShowsDangerBadge :: "jsnum \<Rightarrow> bool" where
  "channelStatusShowsDangerBadge status \<longleftrightarrow> b_variant (getChannelStatusBadge status) = VDanger"

definition getMultiKeyStatusBadge :: "jsnum \<Rightarrow> Badge" where
  "getMultiKeyStatusBadge status =
     (case map_of MULTI_KEY_STATUS_CONFIG status of
        Some b \<Rightarrow> b | None \<Rightarrow> the (map_of MULTI_KEY_STATUS_CONFIG (Fin 1)))"

definition getMultiKeyStatusConfig :: "jsnum \<Rightarrow> Badge" where
  "getMultiKeyStatusConfig status =
     (case map_of MULTI_KEY_STATUS_CONFIG status of
        Some b \<Rightarrow> b | None \<Rightarrow> \<lparr>b_variant = VNeutral, b_label = js ''Unknown''\<rparr>)"

definition isChannelEnabled :: "Channel \<Rightarrow> bool" where
  "isChannelEnabled channel \<longleftrightarrow> num_eq (c_status channel) (Fin 1)"

definition isMultiKeyChannel :: "Channel \<Rightarrow> bool" where
  "isMultiKeyChannel channel = (case c_channel_info channel of None \<Rightarrow> False | Some i \<Rightarrow> is_multi_key i)"

definition getBalanceVariant :: "jsnum \<Rightarrow> Variant" where
  "getBalanceVariant balance =
     (if num_eq balance (Fin 0) then VNeutral
      else if num_lt balance (Fin 1) then VDanger
      else if num_lt balance (Fin 10) then VWarning else VSuccess)"

definition getResponseTimeConfig :: "jsnum \<Rightarrow> Badge" where
  "getResponseTimeConfig timeMs =
     RESPONSE_TIME_CONFIG
       (case RESPONSE_TIME_THRESHOLDS of (e, g, f, p) \<Rightarrow>
          if num_eq timeMs (Fin 0) then RateUnknown
          else if num_le timeMs e then RateExcellent
          else if num_le timeMs g then RateGood
          else if num_le timeMs f then RateFair
          else if num_le timeMs p then RatePoor
          else RatePoor)"

text \<open>All keys of a multi-key channel disabled, as the third check of both functions has it.\<close>

definition all_keys_disabled :: "Channel \<Rightarrow> bool" where
  "all_keys_disabled channel =
     (case c_channel_info channel of
        None \<Rightarrow> False
      | Some i \<Rightarrow> is_multi_key i
          \<and> (case multi_key_status_list i of
               None \<Rightarrow> False
             | Some l \<Rightarrow> num_le (multi_key_size i) (Fin (of_nat (length l)))))"

definition low_balance :: "Channel \<Rightarrow> bool" where
  "low_balance channel \<longleftrightarrow> num_gt (c_balance channel) (Fin 0) \<and> num_lt (c_balance channel) (Fin 1)"

definition channelNeedsAttention :: "Channel \<Rightarrow> bool" where
  "channelNeedsAttention channel =
     (if num_eq (c_status channel) (Fin 3) then True
      else if low_balance channel then True
      else if all_keys_disabled channel then True
      else False)"

definition getAttentionReason :: "Channel \<Rightarrow> jstring option" where
  "getAttentionReason channel =
     (if num_eq (c_status channel) (Fin 3) then Some (js ''Auto-disabled'')
      else if low_balance channel then Some (js ''Low balance'')
      else if all_keys_disabled channel then Some (js ''All keys disabled'')
      else None)"

section \<open>Keys\<close>

text \<open>\<^verbatim>\<open>s.slice(-k)\<close>.\<close>

definition last_units :: "nat \<Rightarrow> jstring \<Rightarrow> jstring" where
  "last_units k s = drop (length s - k) s"

definition key_lines :: "jstring \<Rightarrow> jstring list" where
  "key_lines key = filter (\<lambda>k. trim k \<noteq> []) (split_on 10 key)"

definition formatChannelKey :: "jstring \<Rightarrow> bool \<Rightarrow> jstring" where
  "formatChannelKey key isMultiKey =
     (if key = [] then []
      else if isMultiKey then show_nat (length (key_lines key)) @ js '' keys''
      else if length key \<le> 16 then take 4 key @ js ''...'' @ last_units 4 key
      else take 8 key @ js ''...'' @ last_units 8 key)"

definition formatKeyPreview :: "jstring \<Rightarrow> nat \<Rightarrow> jstring" where
  "formatKeyPreview key maxLength =
     (if key = [] then []
      else if length key \<le> maxLength then key
      else take maxLength key @ js ''...'')"

definition countKeys :: "jstring \<Rightarrow> nat" where
  "countKeys key = (if key = [] then 0 else length (key_lines key))"

record DedupResult =
  deduplicatedText :: jstring
  beforeCount :: int
  afterCount :: int
  removedCount :: int

definition add_key :: "jstring \<Rightarrow> jstring list \<Rightarrow> jstring list" where
  "add_key line keys =
     (let trimmedLine = trim line
      in if trimmedLine \<noteq> [] \<and> trimmedLine \<notin> set keys then keys @ [trimmedLine] else keys)"

definition deduplicateKeys :: "jstring \<Rightarrow> DedupResult" where
  "deduplicateKeys keysText =
     (if keysText = [] \<or> trim keysText = []
      then \<lparr>deduplicatedText = [], beforeCount = 0, afterCount = 0, removedCount = 0\<rparr>
      else let keyLines = split_on 10 keysText;
               before = int (length keyLines);
               keys = fold add_key keyLines [];
               after = int (length keys)
           in \<lparr>deduplicatedText = join [10] keys, beforeCount = before, afterCount = after,
               removedCount = before - after\<rparr>)"

section \<open>Models and groups\<close>

definition parse_list :: "jstring \<Rightarrow> jstring list" where
  "parse_list s = filter (\<lambda>m. m \<noteq> []) (map trim (split_on 44 s))"

definition parseModelsList :: "jstring \<Rightarrow> jstring list" where
  "parseModelsList models = (if models = [] then [] else parse_list models)"

definition group_gt :: "(jstring \<Rightarrow> jstring \<Rightarrow> int) \<Rightarrow> jstring \<Rightarrow> jstring \<Rightarrow> bool" where
  "group_gt lc a b =
     (if a = js ''default'' then False else if b = js ''default'' then True else 0 < lc a b)"

definition parseGroupsList :: "(jstring \<Rightarrow> jstring \<Rightarrow> int) \<Rightarrow> jstring \<Rightarrow> jstring list" where
  "parseGroupsList lc groups = (if groups = [] then [] else js_sort (group_gt lc) (parse_list groups))"

definition formatModelsString :: "jstring list \<Rightarrow> jstring" where
  "formatModelsString models = join [44] models"

definition formatGroupsString :: "jstring list \<Rightarrow> jstring" where
  "formatGroupsString groups = join [44] groups"

definition validateChannelName :: "jstring \<Rightarrow> bool" where
  "validateChannelName name \<longleftrightarrow> trim name \<noteq> []"

definition validateApiKey :: "jstring \<Rightarrow> bool" where
  "validateApiKey key \<longleftrightarrow> trim key \<noteq> []"

definition validateModels :: "jstring \<Rightarrow> bool" where
  "validateModels models \<longleftrightarrow> parseModelsList models \<noteq> []"

definition validateGroups :: "(jstring \<Rightarrow> jstring \<Rightarrow> int) \<Rightarrow> jstring \<Rightarrow> bool" where
  "validateGroups lc groups \<longleftrightarrow> parseGroupsList lc groups \<noteq> []"

section \<open>Settings\<close>

definition parseChannelSettings :: "jstring nullable \<Rightarrow> json" where
  "parseChannelSettings settingStr =
     (case settingStr of
        Some (Some s) \<Rightarrow> if s = [] then JObj [] else (case json_parse s of Some v \<Rightarrow> v | None \<Rightarrow> JObj [])
      | _ \<Rightarrow> JObj [])"

definition parseChannelOtherSettings :: "jstring nullable \<Rightarrow> json" where
  "parseChannelOtherSettings settingsStr =
     (case settingsStr of
        Some (Some s) \<Rightarrow> if s = [] \<or> s = js ''{}'' then JObj []
                         else (case json_parse s of Some v \<Rightarrow> v | None \<Rightarrow> JObj [])
      | _ \<Rightarrow> JObj [])"

definition validateChannelSettings :: "jstring \<Rightarrow> bool" where
  "validateChannelSettings settings \<longleftrightarrow> settings = [] \<or> trim settings = [] \<or> json_parse settings \<noteq> None"

text \<open>\<^verbatim>\<open>normalizeModelList(v)\<close>: a truthy value without \<^verbatim>\<open>map\<close> throws.\<close>

definition normalizeModelList :: "json option \<Rightarrow> js_error + jstring list" where
  "normalizeModelList models =
     (if \<not> truthy models then Inr []
      else case models of
        Some (JArr vs) \<Rightarrow>
          Inr (js_set (filter (\<lambda>s. s \<noteq> [])
            (map (\<lambda>v. trim (if truthy (Some v) then json_to_string v else [])) vs)))
      | _ \<Rightarrow> Inl TypeError)"

record UpstreamUpdateMeta =
  um_enabled :: bool
  um_pendingAddModels :: "jstring list"
  um_pendingRemoveModels :: "jstring list"

definition parsed_settings :: "json option \<Rightarrow> json option" where
  "parsed_settings settings =
     (case settings of
        Some (JObj ps) \<Rightarrow> Some (JObj ps)
      | Some (JStr s) \<Rightarrow> json_parse s
      | _ \<Rightarrow> None)"

definition is_object :: "json option \<Rightarrow> bool" where
  "is_object v \<longleftrightarrow> (case v of Some (JObj _) \<Rightarrow> True | Some (JArr _) \<Rightarrow> True | _ \<Rightarrow> False)"

definition parseUpstreamUpdateMeta :: "json option \<Rightarrow> js_error + UpstreamUpdateMeta" where
  "parseUpstreamUpdateMeta settings =
     (let parsed = parsed_settings settings
      in if \<not> is_object parsed
         then Inr \<lparr>um_enabled = False, um_pendingAddModels = [], um_pendingRemoveModels = []\<rparr>
         else
           case normalizeModelList (opt_prop (js ''upstream_model_update_last_detected_models'') parsed) of
             Inl e \<Rightarrow> Inl e
           | Inr adds \<Rightarrow>
               (case normalizeModelList (opt_prop (js ''upstream_model_update_last_removed_models'') parsed) of
                  Inl e \<Rightarrow> Inl e
                | Inr removes \<Rightarrow>
                    Inr \<lparr>um_enabled =
                           opt_prop (js ''upstream_model_update_check_enabled'') parsed = Some (JBool True),
                         um_pendingAddModels = adds, um_pendingRemoveModels = removes\<rparr>))"

section \<open>Tag rows\<close>

text \<open>
  A tag row: the fields it overwrites of the first channel's copy, and its children. The key, id, tag and
  name of a row are all its tag; \<open>None\<close> is the undefined status it starts with.
\<close>

record TagRow =
  tr_key :: jstring
  tr_first :: Channel
  tr_type :: jsnum
  tr_status :: "jsnum option"
  tr_group :: jstring
  tr_used_quota :: jsnum
  tr_response_time :: jsnum
  tr_priority :: "jsnum nullable"
  tr_weight :: "jsnum nullable"
  tr_balance :: jsnum
  tr_test_time :: jsnum
  tr_created_time :: jsnum
  tr_balance_updated_time :: jsnum
  tr_models :: jstring
  tr_children :: "Channel list"

definition channel_tag :: "Channel \<Rightarrow> jstring" where
  "channel_tag channel = (case c_tag channel of Some (Some t) \<Rightarrow> t | _ \<Rightarrow> [])"

definition new_row :: "jstring \<Rightarrow> Channel \<Rightarrow> TagRow" where
  "new_row tag channel =
     \<lparr>tr_key = tag, tr_first = channel, tr_type = Fin 0, tr_status = None, tr_group = [], tr_used_quota = Fin 0,
      tr_response_time = Fin 0, tr_priority = Some (Some (Fin (- 1))), tr_weight = Some (Some (Fin (- 1))),
      tr_balance = Fin 0, tr_test_time = Fin 0, tr_created_time = Fin 0, tr_balance_updated_time = Fin 0,
      tr_models = [], tr_children = []\<rparr>"

text \<open>The aggregate of priorities and weights: -1 stands for a row without children.\<close>

definition merge_value :: "jsnum nullable \<Rightarrow> jsnum nullable \<Rightarrow> jsnum nullable" where
  "merge_value row child =
     (if row = Some (Some (Fin (- 1))) then child
      else if row \<noteq> child \<or> row = Some (Some NaN) then Some None else row)"

definition merge_group :: "jstring \<Rightarrow> jstring \<Rightarrow> jstring" where
  "merge_group row child =
     (if row = [] then child
      else let existingGroups = set (filter (\<lambda>g. g \<noteq> []) (split_on 44 row));
               newGroups = filter (\<lambda>g. g \<noteq> []) (split_on 44 child)
           in fold (\<lambda>g acc. if g \<notin> existingGroups then acc @ [44] @ g else acc) newGroups row)"

definition add_child :: "Channel \<Rightarrow> TagRow \<Rightarrow> TagRow" where
  "add_child channel row =
     (let kids = tr_children row @ [channel]; childCount = length kids
      in row\<lparr>tr_children := kids,
             tr_used_quota := num_add (tr_used_quota row) (c_used_quota channel),
             tr_response_time := num_div_lit
               (num_add (num_mul (tr_response_time row) (Fin (of_nat (childCount - 1)))) (c_response_time channel))
               (of_nat childCount),
             tr_priority := merge_value (tr_priority row) (c_priority channel),
             tr_weight := merge_value (tr_weight row) (c_weight channel),
             tr_group := merge_group (tr_group row) (c_group channel),
             tr_status := (if num_eq (c_status channel) (Fin 1) then Some (Fin 1)
                           else if tr_status row = None then Some (c_status channel) else tr_status row)\<rparr>)"

definition tag_step :: "Channel \<Rightarrow> TagRow list \<Rightarrow> TagRow list" where
  "tag_step channel rows =
     (let tag = channel_tag channel;
          rows1 = (if tag \<in> tr_key ` set rows then rows else rows @ [new_row tag channel])
      in map (\<lambda>r. if tr_key r = tag then add_child channel r else r) rows1)"

definition aggregateChannelsByTag :: "Channel list \<Rightarrow> TagRow list" where
  "aggregateChannelsByTag channels = fold tag_step channels []"

section \<open>Ollama\<close>

text \<open>\<^verbatim>\<open>getString(v)?.trim()\<close>, empty when there is none.\<close>

definition string_prop :: "jstring \<Rightarrow> json \<Rightarrow> jstring" where
  "string_prop k v = (case get_prop k v of Some (JStr s) \<Rightarrow> s | _ \<Rightarrow> [])"

definition first_nonempty :: "jstring list \<Rightarrow> jstring" where
  "first_nonempty ss = (case filter (\<lambda>s. s \<noteq> []) ss of [] \<Rightarrow> [] | s # _ \<Rightarrow> s)"

text \<open>\<open>alt\<close> is the property \<^verbatim>\<open>ollama_base_url\<close>, which the channel type does not have.\<close>

definition resolveOllamaBaseUrl :: "Channel option \<Rightarrow> json option \<Rightarrow> jstring" where
  "resolveOllamaBaseUrl channel alt =
     (case channel of
        None \<Rightarrow> []
      | Some c \<Rightarrow>
          (let direct = (case c_base_url c of Some (Some u) \<Rightarrow> trim u | _ \<Rightarrow> []);
               alternative = (case alt of Some (JStr u) \<Rightarrow> trim u | _ \<Rightarrow> []);
               parsed = (if c_other_info c = [] then None else json_parse (c_other_info c))
           in if direct \<noteq> [] then direct
              else if alternative \<noteq> [] then alternative
              else if is_object parsed
                then first_nonempty (map (\<lambda>k. trim (string_prop k (the parsed)))
                       [js ''base_url'', js ''public_url'', js ''api_url''])
              else []))"

definition formatBytes :: "jsnum option \<Rightarrow> jstring" where
  "formatBytes bytes =
     (case bytes of
        None \<Rightarrow> js ''-''
      | Some b \<Rightarrow>
          if b = NaN then js ''-''
          else if num_lt b (Fin 1024) then num_to_string b @ js '' B''
          else let kb = num_div_lit b 1024
               in if num_lt kb (Fin 1024) then to_fixed kb 1 @ js '' KB''
                  else let mb = num_div_lit kb 1024
                       in if num_lt mb (Fin 1024) then to_fixed mb 1 @ js '' MB''
                          else to_fixed (num_div_lit mb 1024) 2 @ js '' GB'')"

section \<open>Properties of keys\<close>

lemma fold_add_key: "fold add_key ls [] = js_set (filter (\<lambda>k. k \<noteq> []) (map trim ls))"
  by (induction ls rule: rev_induct) (simp_all add: add_key_def Let_def js_set_snoc)

text \<open>The keys of a text: its lines, trimmed, without blank ones and without repetition.\<close>

definition distinct_keys :: "jstring \<Rightarrow> jstring list" where
  "distinct_keys s = js_set (filter (\<lambda>k. k \<noteq> []) (map trim (split_on 10 s)))"

lemma distinct_keys_props:
  "k \<in> set (distinct_keys s) \<Longrightarrow> k \<noteq> [] \<and> trim k = k \<and> 10 \<notin> set k"
  using split_on_part [of _ 10 s] set_trim_subset by (fastforce simp: distinct_keys_def)

lemma distinct_keys_join:
  assumes "ks \<noteq> []" "distinct ks" "\<And>k. k \<in> set ks \<Longrightarrow> k \<noteq> [] \<and> trim k = k \<and> 10 \<notin> set k"
  shows "distinct_keys (join [10] ks) = ks"
proof -
  have "split_on 10 (join [10] ks) = ks" using assms by (intro split_join) auto
  moreover have "map trim ks = ks" using assms(3) by (auto intro: map_idI)
  moreover have "filter (\<lambda>k. k \<noteq> []) ks = ks" using assms(3) by (auto simp: filter_id_conv)
  ultimately show ?thesis using assms(2) by (simp add: distinct_keys_def js_set_id)
qed

lemma blank_no_keys: "trim s = [] \<Longrightarrow> distinct_keys s = []"
proof -
  assume "trim s = []"
  then have "\<forall>c\<in>set s. is_space c" by (simp add: trim_eq_Nil_iff list_all_iff)
  then have "\<forall>l\<in>set (split_on 10 s). trim l = []"
    using split_on_part [of _ 10 s] by (fastforce simp: trim_eq_Nil_iff list_all_iff)
  then show ?thesis by (simp add: distinct_keys_def filter_empty_conv)
qed

lemma deduplicateKeys_alt:
  "deduplicateKeys s =
     (if trim s = [] then \<lparr>deduplicatedText = [], beforeCount = 0, afterCount = 0, removedCount = 0\<rparr>
      else \<lparr>deduplicatedText = join [10] (distinct_keys s), beforeCount = int (length (split_on 10 s)),
            afterCount = int (length (distinct_keys s)),
            removedCount = int (length (split_on 10 s)) - int (length (distinct_keys s))\<rparr>)"
  by (cases "s = []") (simp_all add: deduplicateKeys_def fold_add_key distinct_keys_def Let_def)

lemma deduplicateKeys_text: "deduplicatedText (deduplicateKeys s) = join [10] (distinct_keys s)"
  using blank_no_keys [of s] by (simp add: deduplicateKeys_alt)

text \<open>Deduplicating a key list keeps every distinct key once, in order of first appearance, and doing it
  again changes nothing and removes nothing.\<close>

theorem deduplicate_keys_idempotent:
  "distinct_keys (deduplicatedText (deduplicateKeys s)) = distinct_keys s
   \<and> deduplicatedText (deduplicateKeys (deduplicatedText (deduplicateKeys s))) = deduplicatedText (deduplicateKeys s)
   \<and> removedCount (deduplicateKeys (deduplicatedText (deduplicateKeys s))) = 0
   \<and> afterCount (deduplicateKeys s) = int (length (distinct_keys s))"
proof -
  let ?ks = "distinct_keys s"
  let ?t = "deduplicatedText (deduplicateKeys s)"
  have t: "?t = join [10] ?ks" by (rule deduplicateKeys_text)
  have d: "distinct ?ks" by (simp add: distinct_keys_def)
  have ks: "distinct_keys ?t = ?ks"
    using distinct_keys_join [OF _ d] distinct_keys_props t blank_no_keys [of "[]"] by (cases "?ks = []") auto
  have "length (split_on 10 ?t) = length ?ks" if "?ks \<noteq> []"
    using split_join [OF that, of 10] distinct_keys_props t by metis
  then have "removedCount (deduplicateKeys ?t) = 0"
    using ks t by (cases "?ks = []") (simp_all add: deduplicateKeys_alt)
  moreover have "afterCount (deduplicateKeys s) = int (length ?ks)"
    using blank_no_keys [of s] by (simp add: deduplicateKeys_alt)
  ultimately show ?thesis using ks deduplicateKeys_text [of ?t] t by simp
qed

text \<open>The mask of a key of four to eight characters shows all of it: the key can be read off the text.\<close>

theorem short_key_exposed:
  assumes "4 \<le> length key" "length key \<le> 8"
  shows "key = take (length key - 4) (formatChannelKey key False)
    @ drop (length (formatChannelKey key False) - 4) (formatChannelKey key False)"
proof -
  have f: "formatChannelKey key False = take 4 key @ js ''...'' @ drop (length key - 4) key"
    using assms by (auto simp: formatChannelKey_def last_units_def)
  show ?thesis unfolding f using assms by (simp add: js_def min_def)
qed

text \<open>The mask of a single key of more than sixteen characters shows its first and last eight and nothing
  in between: two keys that agree there have the same text.\<close>

theorem long_key_masked:
  assumes "16 < length k" "16 < length l" "take 8 k = take 8 l" "last_units 8 k = last_units 8 l"
  shows "formatChannelKey k False = formatChannelKey l False \<and> length (formatChannelKey k False) = 19"
  using assms by (auto simp: formatChannelKey_def last_units_def js_def)

theorem long_key_masked_witness:
  "formatChannelKey (replicate 8 65 @ [66] @ replicate 8 67) False =
     formatChannelKey (replicate 8 65 @ [68, 69] @ replicate 8 67) False"
  using long_key_masked [of "replicate 8 65 @ [66] @ replicate 8 67" "replicate 8 65 @ [68, 69] @ replicate 8 67"]
  by (simp add: last_units_def numeral_eq_Suc)

section \<open>Properties of groups and attention\<close>

context collation
begin

lemma group_comparator: "comparator (group_gt lc)"
  by unfold_locales (auto simp: group_gt_def not_less dest: lc_asym lc_trans split: if_splits)

lemma default_group_first:
  assumes "js ''default'' \<in> set gs"
  shows "hd (js_sort (group_gt lc) gs) = js ''default''"
  using comparator.hd_js_sort_least [OF group_comparator assms] by (auto simp: group_gt_def split: if_splits)

end

lemma set_parse_list: "set (parse_list s) = trim ` set (split_on 44 s) - {[]}"
  by (auto simp: parse_list_def)

text \<open>A channel's groups are the non-blank names of its text, with the default group first whenever the
  channel has it and the others in collation order.\<close>

theorem groups_default_first:
  assumes "collation lc"
  shows "set (parseGroupsList lc s) = trim ` set (split_on 44 s) - {[]}
    \<and> (js ''default'' \<in> set (parseGroupsList lc s) \<longrightarrow> hd (parseGroupsList lc s) = js ''default'')
    \<and> sorted_wrt (\<lambda>a b. a = js ''default'' \<or> b \<noteq> js ''default'' \<and> lc a b \<le> 0) (parseGroupsList lc s)"
proof (intro conjI)
  show "set (parseGroupsList lc s) = trim ` set (split_on 44 s) - {[]}"
    by (simp add: parseGroupsList_def set_parse_list)
  show "js ''default'' \<in> set (parseGroupsList lc s) \<longrightarrow> hd (parseGroupsList lc s) = js ''default''"
    using collation.default_group_first [OF assms] by (simp add: parseGroupsList_def)
  have "sorted_wrt (\<lambda>a b. \<not> group_gt lc a b) (js_sort (group_gt lc) (parse_list s))"
    by (rule comparator.sorted_js_sort [OF collation.group_comparator [OF assms]])
  then show "sorted_wrt (\<lambda>a b. a = js ''default'' \<or> b \<noteq> js ''default'' \<and> lc a b \<le> 0) (parseGroupsList lc s)"
    by (cases "s = []") (auto simp: parseGroupsList_def group_gt_def not_less elim!: sorted_wrt_mono_rel [rotated]
        split: if_splits)
qed

theorem groups_default_first_witness:
  "hd (parseGroupsList code_unit_compare (js ''b, a ,default'')) = js ''default''"
proof -
  have "js ''default'' \<in> set (parseGroupsList code_unit_compare (js ''b, a ,default''))" by code_simp
  then show ?thesis using groups_default_first [OF code_units.collation_axioms] by blast
qed

text \<open>A channel is flagged for attention exactly when there is a reason to show for it.\<close>

theorem attention_has_reason: "channelNeedsAttention c \<longleftrightarrow> getAttentionReason c \<noteq> None"
  by (simp add: channelNeedsAttention_def getAttentionReason_def)

section \<open>Properties of tag rows\<close>

text \<open>Grouping by tag, as a specification: one row per tag, over the channels that have it.\<close>

definition row_of :: "Channel list \<Rightarrow> jstring \<Rightarrow> TagRow" where
  "row_of cs tag =
     (let kids = filter (\<lambda>c. channel_tag c = tag) cs in fold add_child kids (new_row tag (hd kids)))"

lemma add_child_key [simp]: "tr_key (add_child c r) = tr_key r"
  by (simp add: add_child_def Let_def)

lemma tr_key_fold [simp]: "tr_key (fold add_child cs r) = tr_key r"
  by (induction cs arbitrary: r) simp_all

lemma tr_key_row_of [simp]: "tr_key (row_of cs tag) = tag"
  by (simp add: row_of_def Let_def new_row_def)

lemma row_of_snoc:
  "row_of (cs @ [c]) tag =
     (if channel_tag c = tag
      then add_child c (if tag \<in> channel_tag ` set cs then row_of cs tag else new_row tag c)
      else row_of cs tag)"
proof (cases "tag \<in> channel_tag ` set cs")
  case True
  then have "filter (\<lambda>c. channel_tag c = tag) cs \<noteq> []" by (auto simp: filter_empty_conv)
  then show ?thesis using True by (simp add: row_of_def Let_def)
next
  case False
  then have "filter (\<lambda>c. channel_tag c = tag) cs = []" by (auto simp: filter_empty_conv)
  then show ?thesis using False by (simp add: row_of_def Let_def)
qed

lemma aggregate_group_by: "aggregateChannelsByTag cs = map (row_of cs) (js_set (map channel_tag cs))"
proof (induction cs rule: rev_induct)
  case (snoc c cs)
  let ?tag = "channel_tag c" and ?tags = "js_set (map channel_tag cs)"
  have step: "aggregateChannelsByTag (cs @ [c]) = tag_step c (map (row_of cs) ?tags)"
    using snoc by (simp add: aggregateChannelsByTag_def)
  have keys: "tr_key ` set (map (row_of cs) ?tags) = channel_tag ` set cs" by (simp add: image_image)
  show ?case
  proof (cases "?tag \<in> channel_tag ` set cs")
    case True
    then show ?thesis
      unfolding step tag_step_def keys by (simp add: js_set_snoc row_of_snoc)
  next
    case False
    then have ne: "t \<noteq> ?tag" if "t \<in> set ?tags" for t using that by (metis set_js_set set_map)
    have "map (row_of (cs @ [c])) ?tags = map (row_of cs) ?tags"
    proof (rule map_cong)
      fix t
      assume "t \<in> set ?tags"
      then have "channel_tag c \<noteq> t" using ne by blast
      then show "row_of (cs @ [c]) t = row_of cs t" by (simp add: row_of_snoc)
    qed simp
    moreover have "map (\<lambda>r. if tr_key r = ?tag then add_child c r else r) (map (row_of cs) ?tags) = map (row_of cs) ?tags"
      using ne by simp
    moreover have "row_of (cs @ [c]) ?tag = add_child c (new_row ?tag c)" using False by (simp add: row_of_snoc)
    moreover have "tr_key (new_row ?tag c) = ?tag" by (simp add: new_row_def)
    ultimately show ?thesis
      using False unfolding step tag_step_def keys by (simp add: js_set_snoc Let_def)
  qed
qed (simp add: aggregateChannelsByTag_def)

lemma fold_children: "tr_children (fold add_child cs r) = tr_children r @ cs"
  by (induction cs arbitrary: r) (simp_all add: add_child_def Let_def)

lemma fold_status:
  "tr_status (fold add_child cs r) =
     (if list_ex isChannelEnabled cs then Some (Fin 1)
      else case tr_status r of Some x \<Rightarrow> Some x | None \<Rightarrow> (case cs of [] \<Rightarrow> None | c # _ \<Rightarrow> Some (c_status c)))"
  by (induction cs arbitrary: r)
    (auto simp: add_child_def Let_def isChannelEnabled_def num_eq_def split: option.splits list.splits)

text \<open>C40: grouping channels by tag gives one row per tag in order of first appearance, whose children are
  exactly the channels with that tag in order; a row is enabled if any child is, and otherwise has its first
  child's status.\<close>

theorem tag_rows_group_by:
  "aggregateChannelsByTag cs = map (row_of cs) (js_set (map channel_tag cs))
   \<and> list_all (\<lambda>r. tr_children r = filter (\<lambda>c. channel_tag c = tr_key r) cs
        \<and> tr_status r = (if list_ex isChannelEnabled (tr_children r) then Some (Fin 1)
                         else Some (c_status (hd (tr_children r))))) (aggregateChannelsByTag cs)"
proof
  have "tr_children (row_of cs t) = filter (\<lambda>c. channel_tag c = t) cs
      \<and> tr_status (row_of cs t) = (if list_ex isChannelEnabled (tr_children (row_of cs t)) then Some (Fin 1)
          else Some (c_status (hd (tr_children (row_of cs t)))))" if "t \<in> channel_tag ` set cs" for t
  proof -
    obtain k ks where "filter (\<lambda>c. channel_tag c = t) cs = k # ks"
      using \<open>t \<in> channel_tag ` set cs\<close> by (metis (mono_tags, lifting) filter_empty_conv imageE list.exhaust)
    then have r: "row_of cs t = fold add_child (k # ks) (new_row t k)" "filter (\<lambda>c. channel_tag c = t) cs = k # ks"
      by (simp_all add: row_of_def Let_def)
    have "tr_children (row_of cs t) = k # ks" unfolding r fold_children by (simp add: new_row_def)
    moreover have "tr_status (row_of cs t) = (if list_ex isChannelEnabled (k # ks) then Some (Fin 1) else Some (c_status k))"
      unfolding r fold_status by (simp add: new_row_def)
    ultimately show ?thesis using r(2) by simp
  qed
  then show "list_all (\<lambda>r. tr_children r = filter (\<lambda>c. channel_tag c = tr_key r) cs
        \<and> tr_status r = (if list_ex isChannelEnabled (tr_children r) then Some (Fin 1)
                         else Some (c_status (hd (tr_children r))))) (aggregateChannelsByTag cs)"
    by (simp add: aggregate_group_by list_all_iff)
qed (rule aggregate_group_by)

text \<open>A child whose own priority is -1 is taken for a row without children: priorities -1 and 5 aggregate
  to 5, where different ones should give null.\<close>

theorem priority_sentinel_clash:
  "merge_value (merge_value (tr_priority (new_row tag c)) (Some (Some (Fin (- 1))))) (Some (Some (Fin 5))) =
     Some (Some (Fin 5))
   \<and> merge_value (merge_value (tr_priority (new_row tag c)) (Some (Some (Fin 5)))) (Some (Some (Fin (- 1)))) = Some None"
  by (simp add: merge_value_def new_row_def)

end
