(* ===== verification/JS_Regex.thy ===== *)
theory JS_Regex
  imports JS_JSON
begin

text \<open>
  Regular expressions as the program uses them: the backtracking matcher of ECMAScript on code
  units. A pattern is a syntax tree; matching lists every way to match at a position in the
  order in which the backtracking search finds them, each with the code unit before the new
  position, the text that is left and the captures, so the result of a match is the head of
  the list. \<open>rx_exec\<close> searches for the first position that matches and \<open>rx_match_all\<close> is the
  loop over a pattern with the global flag. The lemmas evaluate patterns on symbolic text: a
  greedy run of a class, captured or not, is determined by where its class ends.
\<close>

named_theorems rx_sem \<open>evaluation of patterns\<close>

datatype rx =
    Eps
  | Lit jstring
  | Cls "nat \<Rightarrow> bool"
  | Seq rx rx
  | Alt rx rx
  | Star rx
  | Grp nat rx
  | Bref nat
  | Eol
  | WordB

type_synonym captures = "(nat \<times> jstring) list"
type_synonym rx_state = "nat option \<times> jstring \<times> captures"

definition capture :: "captures \<Rightarrow> nat \<Rightarrow> jstring" where
  "capture c n = (case map_of c n of None \<Rightarrow> [] | Some u \<Rightarrow> u)"

definition is_word :: "nat \<Rightarrow> bool" where
  "is_word c \<longleftrightarrow> is_digit c \<or> 65 \<le> c \<and> c \<le> 90 \<or> 97 \<le> c \<and> c \<le> 122 \<or> c = 95"

definition after :: "nat option \<Rightarrow> jstring \<Rightarrow> nat option" where
  "after p u = (if u = [] then p else Some (last u))"

definition eat :: "jstring \<Rightarrow> rx_state \<Rightarrow> rx_state list" where
  "eat u st =
     (case st of (p, s, c) \<Rightarrow> if prefix u s then [(after p u, drop (length u) s, c)] else [])"

text \<open>
  An iteration of a star that consumes nothing is given up, as the standard prescribes, which
  is also what makes the recursion end.
\<close>

function (sequential) rx_all :: "rx \<Rightarrow> rx_state \<Rightarrow> rx_state list" where
  "rx_all Eps st = [st]"
| "rx_all (Lit u) st = eat u st"
| "rx_all (Cls P) (p, [], c) = []"
| "rx_all (Cls P) (p, x # s, c) = (if P x then [(Some x, s, c)] else [])"
| "rx_all (Seq r k) st = concat (map (rx_all k) (rx_all r st))"
| "rx_all (Alt r k) st = rx_all r st @ rx_all k st"
| "rx_all (Star r) (p, s, c) =
     concat (map (\<lambda>st. if length (fst (snd st)) < length s then rx_all (Star r) st else [])
       (rx_all r (p, s, c))) @ [(p, s, c)]"
| "rx_all (Grp n r) (p, s, c) =
     map (\<lambda>(p', s', c'). (p', s', (n, take (length s - length s') s) # c')) (rx_all r (p, s, c))"
| "rx_all (Bref n) (p, s, c) = eat (capture c n) (p, s, c)"
| "rx_all Eol (p, s, c) = (if s = [] then [(p, s, c)] else [])"
| "rx_all WordB (p, s, c) =
     (if (case p of None \<Rightarrow> False | Some x \<Rightarrow> is_word x) \<noteq> (case s of [] \<Rightarrow> False | x # _ \<Rightarrow> is_word x)
      then [(p, s, c)] else [])"
  by pat_completeness auto

termination
  by (relation "measures [\<lambda>(r, st). size r, \<lambda>(r, st). length (fst (snd st))]") auto

definition Plus :: "rx \<Rightarrow> rx" where
  "Plus r = Seq r (Star r)"

definition Opt :: "rx \<Rightarrow> rx" where
  "Opt r = Alt r Eps"

fun rseq :: "rx list \<Rightarrow> rx" where
  "rseq [] = Eps"
| "rseq (r # rs) = Seq r (rseq rs)"

fun ralt :: "rx list \<Rightarrow> rx" where
  "ralt [] = Cls (\<lambda>_. False)"
| "ralt [r] = r"
| "ralt (r # s # rs) = Alt r (ralt (s # rs))"

text \<open>The pattern at the start of the text, for a pattern anchored with \<^verbatim>\<open>^\<close>: its captures.\<close>

definition rx_at :: "rx \<Rightarrow> jstring \<Rightarrow> captures option" where
  "rx_at r s = (case rx_all r (None, s, []) of [] \<Rightarrow> None | st # _ \<Rightarrow> Some (snd (snd st)))"

definition rx_test :: "rx \<Rightarrow> jstring \<Rightarrow> bool" where
  "rx_test r s \<longleftrightarrow> rx_at r s \<noteq> None"

text \<open>\<^verbatim>\<open>re.exec(s)\<close> from the current position: the first position where the pattern matches.\<close>

fun rx_exec :: "rx \<Rightarrow> nat option \<Rightarrow> jstring \<Rightarrow> rx_state option" where
  "rx_exec r p [] = (case rx_all r (p, [], []) of [] \<Rightarrow> None | st # _ \<Rightarrow> Some st)"
| "rx_exec r p (x # s) =
     (case rx_all r (p, x # s, []) of [] \<Rightarrow> rx_exec r (Some x) s | st # _ \<Rightarrow> Some st)"

text \<open>
  The loop \<^verbatim>\<open>while ((m = re.exec(s)) !== null)\<close>: the captures of the successive matches. The
  patterns of the program never match the empty text, so every round moves on.
\<close>

function rx_match_all :: "rx \<Rightarrow> nat option \<Rightarrow> jstring \<Rightarrow> captures list" where
  "rx_match_all r p s =
     (case rx_exec r p s of
        None \<Rightarrow> []
      | Some (p', s', c) \<Rightarrow> if length s' < length s then c # rx_match_all r p' s' else [c])"
  by pat_completeness auto

termination
  by (relation "measure (\<lambda>(r, p, s). length s)") auto

declare rx_match_all.simps [simp del]

section \<open>Evaluation\<close>

lemma eat_simps [rx_sem]:
  "eat [] (p, s, c) = [(p, s, c)]"
  "eat (x # u) (p, [], c) = []"
  "eat (x # u) (p, y # s, c) = (if x = y then eat u (Some y, s, c) else [])"
  by (auto simp: eat_def after_def)

lemma eat_append: "eat u (p, u @ s, c) = [(after p u, s, c)]"
  by (simp add: eat_def)

lemma concat_map_concat: "concat (map f (concat (map g xs))) = concat (map (\<lambda>x. concat (map f (g x))) xs)"
  by (induction xs) simp_all

lemma seq_assoc [rx_sem]: "rx_all (Seq (Seq a b) k) st = rx_all (Seq a (Seq b k)) st"
proof -
  have "rx_all (Seq b k) = (\<lambda>st. concat (map (rx_all k) (rx_all b st)))" by (rule ext) simp
  then show ?thesis by (simp add: concat_map_concat)
qed

lemma seq_simps [rx_sem]:
  "rx_all (Seq Eps k) st = rx_all k st"
  "rx_all (Seq (Lit u) k) st = concat (map (rx_all k) (eat u st))"
  "rx_all (Seq (Cls P) k) (p, [], c) = []"
  "rx_all (Seq (Cls P) k) (p, x # s, c) = (if P x then rx_all k (Some x, s, c) else [])"
  "rx_all (Seq (Alt a b) k) st = rx_all (Seq a k) st @ rx_all (Seq b k) st"
  by simp_all

lemmas after_simps [rx_sem] = after_def

text \<open>
  A star followed by the rest of a pattern, on a run of code units that the body takes one by
  one and at which the rest cannot start: the run is taken whole.
\<close>

lemma star_then:
  assumes "\<And>x p s c. x \<in> set u \<Longrightarrow> rx_all r (p, x # s, c) = [(Some x, s, c)]"
    and "\<And>p. rx_all r (p, v, c) = []"
    and "\<And>x p s. x \<in> set u \<Longrightarrow> rx_all k (p, x # s, c) = []"
  shows "rx_all (Seq (Star r) k) (p, u @ v, c) = rx_all k (after p u, v, c)"
  using assms
proof (induction u arbitrary: p)
  case Nil
  then show ?case by (simp add: after_def)
next
  case (Cons x u)
  have "rx_all (Seq (Star r) k) (p, (x # u) @ v, c)
      = rx_all (Seq (Star r) k) (Some x, u @ v, c) @ rx_all k (p, x # u @ v, c)"
    using Cons.prems(1) [of x] by simp
  also have "\<dots> = rx_all k (after (Some x) u, v, c)"
    using Cons.IH [of "Some x"] Cons.prems by simp
  finally show ?case by (simp add: after_def)
qed

lemma plus_then:
  assumes "u \<noteq> []"
    and "\<And>x p s c. x \<in> set u \<Longrightarrow> rx_all r (p, x # s, c) = [(Some x, s, c)]"
    and "\<And>p. rx_all r (p, v, c) = []"
    and "\<And>x p s. x \<in> set u \<Longrightarrow> rx_all k (p, x # s, c) = []"
  shows "rx_all (Seq (Plus r) k) (p, u @ v, c) = rx_all k (after p u, v, c)"
proof -
  obtain x w where u: "u = x # w" using assms(1) by (cases u) auto
  have "rx_all (Seq (Plus r) k) (p, u @ v, c) = rx_all (Seq (Star r) k) (Some x, w @ v, c)"
    using assms(2) [of x] by (simp add: Plus_def u concat_map_concat)
  also have "\<dots> = rx_all k (after (Some x) w, v, c)"
    by (rule star_then) (use assms u in auto)
  finally show ?thesis by (simp add: after_def u)
qed

text \<open>The same for a captured run: \<open>grp\<close> names the run before the rest is tried.\<close>

lemma grp_star_then:
  assumes "\<And>x p s c. x \<in> set u \<Longrightarrow> rx_all r (p, x # s, c) = [(Some x, s, c)]"
    and "\<And>p. rx_all r (p, v, c) = []"
    and "\<And>x p s c. x \<in> set u \<Longrightarrow> rx_all k (p, x # s, c) = []"
  shows "rx_all (Seq (Grp n (Star r)) k) (p, u @ v, c) = rx_all k (after p u, v, (n, u) # c)"
proof -
  define g where "g = (\<lambda>w (p', s', c'). rx_all k (p', s', (n, take (length w - length s') w) # c'))"
  have "concat (map (g (w @ u @ v)) (rx_all (Star r) (p, u @ v, c)))
      = rx_all k (after p u, v, (n, w @ u) # c)" for w
    using assms
  proof (induction u arbitrary: p w)
    case Nil
    then show ?case by (simp add: g_def after_def)
  next
    case (Cons x u)
    have "concat (map (g (w @ (x # u) @ v)) (rx_all (Star r) (p, (x # u) @ v, c)))
        = concat (map (g ((w @ [x]) @ u @ v)) (rx_all (Star r) (Some x, u @ v, c)))"
      using Cons.prems(1) [of x] Cons.prems(3) [of x] by (simp add: g_def)
    also have "\<dots> = rx_all k (after (Some x) u, v, (n, (w @ [x]) @ u) # c)"
      by (rule Cons.IH) (use Cons.prems in auto)
    finally show ?case by (simp add: after_def)
  qed
  from this [of "[]"] show ?thesis by (simp add: g_def comp_def case_prod_unfold)
qed

lemma grp_plus_eq:
  assumes "\<And>c. rx_all r (p, x # s, c) = [(Some x, s, c)]"
  shows "rx_all (Grp n (Plus r)) (p, x # s, c)
    = map (\<lambda>(p', s', c'). (p', s', (n, take (length (x # s) - length s') (x # s)) # c'))
        (rx_all (Star r) (Some x, s, c))"
  using assms by (simp add: Plus_def)

lemma grp_plus_then:
  assumes "u \<noteq> []"
    and "\<And>x p s c. x \<in> set u \<Longrightarrow> rx_all r (p, x # s, c) = [(Some x, s, c)]"
    and "\<And>p. rx_all r (p, v, c) = []"
    and "\<And>x p s c. x \<in> set u \<Longrightarrow> rx_all k (p, x # s, c) = []"
  shows "rx_all (Seq (Grp n (Plus r)) k) (p, u @ v, c) = rx_all k (after p u, v, (n, u) # c)"
proof -
  obtain x w where u: "u = x # w" using assms(1) by (cases u) auto
  have "rx_all (Seq (Grp n (Star r)) k) (p, u @ v, c)
      = rx_all (Seq (Grp n (Plus r)) k) (p, u @ v, c) @ rx_all k (p, u @ v, (n, []) # c)"
    using assms(2) [of x] by (simp add: u Plus_def)
  moreover have "rx_all k (p, u @ v, (n, []) # c) = []" using assms(4) [of x] by (simp add: u)
  ultimately show ?thesis using grp_star_then [of u r v c k n p] assms(2-4) by simp
qed

text \<open>Runs of a class.\<close>

lemma cls_run:
  assumes "list_all P u" "v = [] \<or> \<not> P (hd v)"
    and "\<And>x p s c. P x \<Longrightarrow> rx_all k (p, x # s, c) = []"
  shows cls_star_then: "rx_all (Seq (Star (Cls P)) k) (p, u @ v, c) = rx_all k (after p u, v, c)"
    and cls_grp_star_then:
      "rx_all (Seq (Grp n (Star (Cls P))) k) (p, u @ v, c) = rx_all k (after p u, v, (n, u) # c)"
    and cls_plus_then:
      "u \<noteq> [] \<Longrightarrow> rx_all (Seq (Plus (Cls P)) k) (p, u @ v, c) = rx_all k (after p u, v, c)"
    and cls_grp_plus_then:
      "u \<noteq> [] \<Longrightarrow> rx_all (Seq (Grp n (Plus (Cls P))) k) (p, u @ v, c) = rx_all k (after p u, v, (n, u) # c)"
proof -
  have b: "x \<in> set u \<Longrightarrow> rx_all (Cls P) (q, x # s, d) = [(Some x, s, d)]" for x q s d
    using assms(1) by (simp add: list_all_iff)
  have e: "rx_all (Cls P) (q, v, c) = []" for q
    using assms(2) by (cases v) auto
  have k: "x \<in> set u \<Longrightarrow> rx_all k (q, x # s, d) = []" for x q s d
    using assms(1,3) by (simp add: list_all_iff)
  show "rx_all (Seq (Star (Cls P)) k) (p, u @ v, c) = rx_all k (after p u, v, c)"
    by (rule star_then) (use b e k in blast)+
  show "rx_all (Seq (Grp n (Star (Cls P))) k) (p, u @ v, c) = rx_all k (after p u, v, (n, u) # c)"
    by (rule grp_star_then) (use b e k in blast)+
  show "rx_all (Seq (Plus (Cls P)) k) (p, u @ v, c) = rx_all k (after p u, v, c)" if "u \<noteq> []"
    by (rule plus_then) (use b e k that in blast)+
  show "rx_all (Seq (Grp n (Plus (Cls P))) k) (p, u @ v, c) = rx_all k (after p u, v, (n, u) # c)"
    if "u \<noteq> []"
    by (rule grp_plus_then) (use b e k that in blast)+
qed

section \<open>Matching with a continuation\<close>

text \<open>
  The same search with what follows as a function of the state. A group hands its capture on to
  the continuation, so a captured pattern that can end at several places is evaluated together
  with what decides between them.
\<close>

named_theorems rx_run \<open>evaluation of patterns under a continuation\<close>

definition run :: "rx \<Rightarrow> rx_state \<Rightarrow> (rx_state \<Rightarrow> 'a list) \<Rightarrow> 'a list" where
  "run r st K = concat (map K (rx_all r st))"

definition close_grp :: "nat \<Rightarrow> jstring \<Rightarrow> (rx_state \<Rightarrow> 'a list) \<Rightarrow> rx_state \<Rightarrow> 'a list" where
  "close_grp n s K st =
     (case st of (p', s', c') \<Rightarrow> K (p', s', (n, take (length s - length s') s) # c'))"

lemma rx_all_run: "rx_all r st = run r st (\<lambda>st. [st])"
  by (simp add: run_def)

lemma close_grp_simps [rx_run]:
  "close_grp n s K (p', s', c') = K (p', s', (n, take (length s - length s') s) # c')"
  by (simp add: close_grp_def)

lemma run_simps [rx_run]:
  "run Eps st K = K st"
  "run (Lit u) st K = concat (map K (eat u st))"
  "run (Cls P) (p, [], c) K = []"
  "run (Cls P) (p, x # s, c) K = (if P x then K (Some x, s, c) else [])"
  "run (Seq a b) st K = run a st (\<lambda>st. run b st K)"
  "run (Alt a b) st K = run a st K @ run b st K"
  "run (Grp n r) (p, s, c) K = run r (p, s, c) (close_grp n s K)"
  "run Eol (p, s, c) K = (if s = [] then K (p, s, c) else [])"
  "run WordB (p, s, c) K =
     (if (case p of None \<Rightarrow> False | Some x \<Rightarrow> is_word x) \<noteq> (case s of [] \<Rightarrow> False | x # _ \<Rightarrow> is_word x)
      then K (p, s, c) else [])"
  by (simp_all add: run_def concat_map_concat case_prod_unfold comp_def close_grp_def [abs_def])

lemma run_star:
  "run (Star r) (p, s, c) K =
     run r (p, s, c) (\<lambda>st. if length (fst (snd st)) < length s then run (Star r) st K else []) @ K (p, s, c)"
  by (simp add: run_def [abs_def] concat_map_concat if_distrib cong: if_cong)

lemma run_rseq [rx_run]: "run (rseq (r # rs)) st K = run r st (\<lambda>st. run (rseq rs) st K)" "run (rseq []) st K = K st"
  by (simp_all add: run_simps)

lemma run_opt [rx_run]: "run (Opt r) st K = run r st K @ K st"
  by (simp add: Opt_def run_simps)

lemma run_cls_star:
  assumes "list_all P u" "v = [] \<or> \<not> P (hd v)"
    and "\<And>x p s. x \<in> set u \<Longrightarrow> K (p, x # s, c) = []"
  shows "run (Star (Cls P)) (p, u @ v, c) K = K (after p u, v, c)"
  using assms
proof (induction u arbitrary: p)
  case Nil
  then show ?case by (cases v) (simp_all add: run_star run_simps after_def)
next
  case (Cons x u)
  then show ?case using Cons.IH [of "Some x"]
    by (simp add: run_star [of _ _ "x # u @ v"] run_simps after_def)
qed

lemma run_cls_plus:
  assumes "u \<noteq> []" "list_all P u" "v = [] \<or> \<not> P (hd v)"
    and "\<And>x p s. x \<in> set u \<Longrightarrow> K (p, x # s, c) = []"
  shows "run (Plus (Cls P)) (p, u @ v, c) K = K (after p u, v, c)"
proof -
  obtain x w where u: "u = x # w" using assms(1) by (cases u) auto
  have "run (Star (Cls P)) (Some x, w @ v, c) K = K (after (Some x) w, v, c)"
    by (rule run_cls_star) (use assms u in auto)
  then show ?thesis using assms(2) by (simp add: Plus_def u run_simps after_def)
qed

text \<open>Without a restriction on the continuation, the longest run comes first.\<close>

lemma run_cls_star_first:
  assumes "list_all P u" "v = [] \<or> \<not> P (hd v)"
  shows "\<exists>rest. run (Star (Cls P)) (p, u @ v, c) K = K (after p u, v, c) @ rest"
  using assms
proof (induction u arbitrary: p)
  case Nil
  then show ?case by (cases v) (simp_all add: run_star run_simps after_def)
next
  case (Cons x u)
  then obtain rest where "run (Star (Cls P)) (Some x, u @ v, c) K = K (after (Some x) u, v, c) @ rest" by auto
  then show ?case using Cons.prems
    by (simp add: run_star [of _ _ "x # u @ v"] run_simps after_def)
qed

lemma run_cls_plus_first:
  assumes "u \<noteq> []" "list_all P u" "v = [] \<or> \<not> P (hd v)"
  shows "\<exists>rest. run (Plus (Cls P)) (p, u @ v, c) K = K (after p u, v, c) @ rest"
proof -
  obtain x w where u: "u = x # w" using assms(1) by (cases u) auto
  then show ?thesis using assms(2,3) run_cls_star_first [of P w v "Some x" c K]
    by (cases "w = []") (auto simp: Plus_def run_simps after_def)
qed

lemma rx_match_all_skip:
  assumes "rx_exec r p s = rx_exec r q t" "length t \<le> length s"
    and "\<And>p' t' c. rx_exec r q t = Some (p', t', c) \<Longrightarrow> length t' < length t"
  shows "rx_match_all r p s = rx_match_all r q t"
  using assms by (subst (1 2) rx_match_all.simps) (force split: option.splits)

lemma rx_match_all_step:
  "rx_exec r p s = Some (p', s', c) \<Longrightarrow> length s' < length s \<Longrightarrow> rx_match_all r p s = c # rx_match_all r p' s'"
  by (subst rx_match_all.simps) simp

lemma rx_exec_here: "rx_all r (p, s, []) = st # more \<Longrightarrow> rx_exec r p s = Some st"
  by (cases s) simp_all

end
