(* ===== verification/JS_Convert.thy ===== *)
theory JS_Convert
  imports JS_JSON
begin

text \<open>
  Conversions between text and values: \<^verbatim>\<open>JSON.stringify\<close> of a string (with the escapes of the
  standard, lone surrogates included) and \<^verbatim>\<open>Number(s)\<close> of a string (decimal literals, the
  radix prefixes, \<^verbatim>\<open>Infinity\<close>, and \<^verbatim>\<open>NaN\<close> for anything else). A quoted string parses back.
\<close>

section \<open>JSON.stringify of a string\<close>

definition hex_digit :: "nat \<Rightarrow> nat" where
  "hex_digit n = (if n < 10 then 48 + n else 87 + n)"

definition unicode_escape :: "nat \<Rightarrow> jstring" where
  "unicode_escape c =
     [92, 117, hex_digit (c div 4096 mod 16), hex_digit (c div 256 mod 16),
      hex_digit (c div 16 mod 16), hex_digit (c mod 16)]"

definition quote_unit :: "nat \<Rightarrow> jstring" where
  "quote_unit c =
     (if c = 34 then [92, 34] else if c = 92 then [92, 92]
      else if c = 8 then [92, 98] else if c = 9 then [92, 116]
      else if c = 10 then [92, 110] else if c = 12 then [92, 102]
      else if c = 13 then [92, 114]
      else if c < 32 then unicode_escape c else [c])"

definition high_surrogate :: "nat \<Rightarrow> bool" where
  "high_surrogate c \<longleftrightarrow> 55296 \<le> c \<and> c \<le> 56319"

definition low_surrogate :: "nat \<Rightarrow> bool" where
  "low_surrogate c \<longleftrightarrow> 56320 \<le> c \<and> c \<le> 57343"

fun quote_units :: "jstring \<Rightarrow> jstring" where
  "quote_units [] = []"
| "quote_units [c] =
     (if high_surrogate c \<or> low_surrogate c then unicode_escape c else quote_unit c)"
| "quote_units (c # d # s) =
     (if high_surrogate c \<and> low_surrogate d then c # d # quote_units s
      else (if high_surrogate c \<or> low_surrogate c then unicode_escape c else quote_unit c)
        @ quote_units (d # s))"

definition json_quote :: "jstring \<Rightarrow> jstring" where
  "json_quote s = [34] @ quote_units s @ [34]"

section \<open>Number of a string\<close>

definition unsigned_decimal :: "jstring \<Rightarrow> rat option" where
  "unsigned_decimal s =
     (let (ds, r) = pdigits s;
          (fs, r') = (case r of c # t \<Rightarrow> if c = 46 then pdigits t else ([], r) | [] \<Rightarrow> ([], []))
      in if ds = [] \<and> fs = [] then None
         else case pexp r' of
           Some (e, []) \<Rightarrow>
             Some ((of_nat (read_nat ds) + of_nat (read_nat fs) / 10 ^ length fs) * pow10 e)
         | _ \<Rightarrow> None)"

fun digits_in :: "nat \<Rightarrow> nat \<Rightarrow> jstring \<Rightarrow> nat option" where
  "digits_in b a [] = Some a"
| "digits_in b a (c # s) =
     (case hex_val c of None \<Rightarrow> None | Some d \<Rightarrow> if d < b then digits_in b (a * b + d) s else None)"

definition radix_of :: "nat \<Rightarrow> nat option" where
  "radix_of c =
     (if c = 120 \<or> c = 88 then Some 16 else if c = 111 \<or> c = 79 then Some 8
      else if c = 98 \<or> c = 66 then Some 2 else None)"

definition decimal_number :: "jstring \<Rightarrow> jsnum" where
  "decimal_number t =
     (let (neg, u) = (case t of c # v \<Rightarrow> if c = 45 then (True, v) else if c = 43 then (False, v) else (False, t)
                      | [] \<Rightarrow> (False, []))
      in if u = js ''Infinity'' then (if neg then NInf else PInf)
         else case unsigned_decimal u of
           None \<Rightarrow> NaN
         | Some q \<Rightarrow> js_round (if neg then - q else q))"

definition to_number :: "jstring \<Rightarrow> jsnum" where
  "to_number s =
     (case trim s of
        [] \<Rightarrow> Fin 0
      | c # t \<Rightarrow>
          (case t of
             d # u \<Rightarrow>
               (case (if c = 48 then radix_of d else None) of
                  Some b \<Rightarrow>
                    if u = [] then NaN
                    else (case digits_in b 0 u of None \<Rightarrow> NaN | Some n \<Rightarrow> js_round (of_nat n))
                | None \<Rightarrow> decimal_number (c # t))
           | [] \<Rightarrow> decimal_number (c # t)))"

section \<open>Quoted text parses back\<close>

lemma hex_val_digit: "n < 16 \<Longrightarrow> hex_val (hex_digit n) = Some n"
  by (auto simp: hex_val_def hex_digit_def is_digit_def)

lemma hex_digits_value:
  assumes "c < 65536"
  shows "((c div 4096 mod 16 * 16 + c div 256 mod 16) * 16 + c div 16 mod 16) * 16 + c mod 16 = (c::nat)"
proof -
  have "c div 4096 mod 16 = c div 4096" using assms by simp
  moreover have "c div 256 = c div 4096 * 16 + c div 256 mod 16"
    using div_mult_mod_eq [of "c div 256" 16] by (simp add: div_mult2_eq [symmetric])
  moreover have "c div 16 = c div 256 * 16 + c div 16 mod 16"
    using div_mult_mod_eq [of "c div 16" 16] by (simp add: div_mult2_eq [symmetric])
  ultimately show ?thesis using div_mult_mod_eq [of c 16] by simp
qed

lemma pstr_unicode_escape:
  "c < 65536 \<Longrightarrow> pstr (unicode_escape c @ s) = map_option (apfst (Cons c)) (pstr s)"
proof -
  assume "c < 65536"
  then have "hex4 (hex_digit (c div 4096 mod 16)) (hex_digit (c div 256 mod 16))
      (hex_digit (c div 16 mod 16)) (hex_digit (c mod 16)) = Some c"
    using hex_digits_value [of c] by (simp add: hex4_def hex_val_digit del: mod_less)
  then show ?thesis by (simp add: unicode_escape_def)
qed

lemma pstr_quote_unit:
  "c < 65536 \<Longrightarrow> pstr (quote_unit c @ s) = map_option (apfst (Cons c)) (pstr s)"
  by (simp add: quote_unit_def pstr_unicode_escape escape_val_def)

lemma pstr_quote_units:
  "list_all (\<lambda>c. c < 65536) s \<Longrightarrow> pstr (quote_units s @ 34 # r) = Some (s, r)"
  by (induction s rule: quote_units.induct)
    (auto simp: pstr_unicode_escape pstr_quote_unit high_surrogate_def low_surrogate_def)

lemma json_parse_quote:
  assumes "list_all (\<lambda>c. c < 65536) s"
  shows "json_parse (json_quote s) = Some (JStr s)"
proof -
  have "pvalue (json_quote s) = Some (JStr s, [])"
    using pstr_quote_units [OF assms, of "[]"]
    by (simp add: pvalue.simps json_quote_def skip_ws_def)
  then show ?thesis by (simp add: json_parse_def skip_ws_def)
qed

text \<open>Plain text: printable, without quotes, backslashes and surrogates; quoting adds only the quotes.\<close>

definition printable :: "nat \<Rightarrow> bool" where
  "printable c \<longleftrightarrow> 32 \<le> c \<and> c < 65536 \<and> c \<noteq> 34 \<and> c \<noteq> 92 \<and> \<not> high_surrogate c \<and> \<not> low_surrogate c"

lemma quote_units_printable: "list_all printable s \<Longrightarrow> quote_units s = s"
  by (induction s rule: quote_units.induct) (auto simp: printable_def quote_unit_def)

lemma json_quote_printable: "list_all printable s \<Longrightarrow> json_quote s = 34 # s @ [34]"
  by (simp add: json_quote_def quote_units_printable)

end
