(* ===== verification/Billing_Expr.thy ===== *)
theory Billing_Expr
  imports JS_Regex JS_Convert
begin

text \<open>
  Billing expressions (\<^verbatim>\<open>features/pricing/lib/billing-expr.ts\<close>): the registry of billing
  variables, the parser of tiers, the parser and the printer of request rules (conditional
  multipliers), and the split of an expression into its tiered part and its rules. The regular
  expressions of the file are written out as patterns of \<open>JS_Regex\<close>. An unguarded
  \<^verbatim>\<open>JSON.parse\<close> makes the rule parser return an error.
\<close>

section \<open>Variable registry\<close>

datatype BillingSide = SideInput | SideOutput | SideCondition

record BillingVar =
  bv_key :: jstring
  bv_field :: "jstring option"
  bv_tierField :: "jstring option"
  bv_label :: jstring
  bv_shortLabel :: jstring
  bv_side :: BillingSide
  bv_isBase :: bool
  bv_isConditionOnly :: bool
  bv_group :: "jstring option"

definition price_var ::
  "string \<Rightarrow> string \<Rightarrow> string \<Rightarrow> string \<Rightarrow> string \<Rightarrow> BillingSide \<Rightarrow> bool \<Rightarrow> string option \<Rightarrow> BillingVar" where
  "price_var key field tierField label shortLabel side base grp =
     \<lparr>bv_key = js key, bv_field = Some (js field), bv_tierField = Some (js tierField),
      bv_label = js label, bv_shortLabel = js shortLabel, bv_side = side, bv_isBase = base,
      bv_isConditionOnly = False, bv_group = map_option js grp\<rparr>"

definition BILLING_VARS :: "BillingVar list" where
  "BILLING_VARS =
     [price_var ''p'' ''inputPrice'' ''input_unit_cost'' ''Input price'' ''Input'' SideInput True None,
      price_var ''c'' ''outputPrice'' ''output_unit_cost'' ''Completion price'' ''Output'' SideOutput True None,
      \<lparr>bv_key = js ''len'', bv_field = None, bv_tierField = None, bv_label = js ''Input length'',
       bv_shortLabel = js ''Length'', bv_side = SideCondition, bv_isBase = False,
       bv_isConditionOnly = True, bv_group = None\<rparr>,
      price_var ''cr'' ''cacheReadPrice'' ''cache_read_unit_cost'' ''Cache read price'' ''Cache Read''
        SideInput False (Some ''cache''),
      price_var ''cc'' ''cacheCreatePrice'' ''cache_create_unit_cost'' ''Cache create price'' ''Cache Write''
        SideInput False (Some ''cache''),
      price_var ''cc1h'' ''cacheCreate1hPrice'' ''cache_create_1h_unit_cost'' ''Cache create (1h) price''
        ''Cache Write (1h)'' SideInput False (Some ''cache''),
      price_var ''img'' ''imagePrice'' ''image_unit_cost'' ''Image input price'' ''Image In''
        SideInput False (Some ''media''),
      price_var ''img_o'' ''imageOutputPrice'' ''image_output_unit_cost'' ''Image output price'' ''Image Out''
        SideOutput False (Some ''media''),
      price_var ''ai'' ''audioInputPrice'' ''audio_input_unit_cost'' ''Audio input price'' ''Audio In''
        SideInput False (Some ''media''),
      price_var ''doc'' ''documentInputPrice'' ''document_input_unit_cost'' ''Document input price'' ''Document In''
        SideInput False (Some ''media''),
      price_var ''vid'' ''videoInputPrice'' ''video_input_unit_cost'' ''Video input price'' ''Video In''
        SideInput False (Some ''media''),
      price_var ''ao'' ''audioOutputPrice'' ''audio_output_unit_cost'' ''Audio output price'' ''Audio Out''
        SideOutput False (Some ''media'')]"

definition BILLING_PRICING_VARS :: "BillingVar list" where
  "BILLING_PRICING_VARS = filter (\<lambda>v. \<not> bv_isConditionOnly v) BILLING_VARS"

definition BILLING_CONDITION_VARS :: "jstring list" where
  "BILLING_CONDITION_VARS = map bv_key (filter (\<lambda>v. bv_isBase v \<or> bv_isConditionOnly v) BILLING_VARS)"

definition BILLING_VAR_KEY_TO_FIELD :: "(jstring \<times> jstring) list" where
  "BILLING_VAR_KEY_TO_FIELD =
     map (\<lambda>v. (bv_key v, case bv_field v of Some f \<Rightarrow> f | None \<Rightarrow> js ''null'')) BILLING_PRICING_VARS"

definition BILLING_EXTRA_VARS :: "BillingVar list" where
  "BILLING_EXTRA_VARS = filter (\<lambda>v. \<not> bv_isBase v \<and> \<not> bv_isConditionOnly v) BILLING_VARS"

text \<open>Pairs of \<^verbatim>\<open>field\<close> and \<^verbatim>\<open>exprVar\<close>.\<close>

definition BILLING_CACHE_VAR_MAP :: "(jstring \<times> jstring) list" where
  "BILLING_CACHE_VAR_MAP =
     map (\<lambda>v. (case bv_tierField v of Some f \<Rightarrow> f | None \<Rightarrow> js ''null'', bv_key v)) BILLING_EXTRA_VARS"

section \<open>Character classes\<close>

text \<open>\<^verbatim>\<open>[\d.eE+-]\<close>, \<^verbatim>\<open>[\d.eE+]\<close>, \<^verbatim>\<open>.\<close> and \<^verbatim>\<open>[^"]\<close>.\<close>

definition num_char :: "nat \<Rightarrow> bool" where
  "num_char c \<longleftrightarrow> is_digit c \<or> c = 46 \<or> c = 101 \<or> c = 69 \<or> c = 43 \<or> c = 45"

definition cond_num_char :: "nat \<Rightarrow> bool" where
  "cond_num_char c \<longleftrightarrow> is_digit c \<or> c = 46 \<or> c = 101 \<or> c = 69 \<or> c = 43"

definition dot_char :: "nat \<Rightarrow> bool" where
  "dot_char c \<longleftrightarrow> c \<notin> {10, 13, 8232, 8233}"

definition not_quote :: "nat \<Rightarrow> bool" where
  "not_quote c \<longleftrightarrow> c \<noteq> 34"

definition spaces :: rx where
  "spaces = Star (Cls is_space)"

definition BILLING_VAR_REGEX :: rx where
  "BILLING_VAR_REGEX =
     rseq [WordB, Grp 1 (ralt (map (\<lambda>v. Lit (bv_key v)) BILLING_PRICING_VARS)), spaces, Lit (js ''*''),
       spaces, Grp 2 (Plus (Cls num_char))]"

definition NUMERIC_LITERAL_REGEX :: rx where
  "NUMERIC_LITERAL_REGEX =
     rseq [Opt (Lit (js ''-'')),
       Alt (rseq [Plus (Cls is_digit), Opt (Lit (js ''.'')), Star (Cls is_digit)])
           (rseq [Lit (js ''.''), Plus (Cls is_digit)]),
       Opt (rseq [Cls (\<lambda>c. c = 101 \<or> c = 69), Opt (Cls (\<lambda>c. c = 43 \<or> c = 45)), Plus (Cls is_digit)]),
       Eol]"

definition is_numeric :: "jstring \<Rightarrow> bool" where
  "is_numeric s \<longleftrightarrow> rx_test NUMERIC_LITERAL_REGEX s"

section \<open>Request rule constants and types\<close>

definition MATCH_EQ :: jstring where "MATCH_EQ = js ''eq''"
definition MATCH_CONTAINS :: jstring where "MATCH_CONTAINS = js ''contains''"
definition MATCH_GT :: jstring where "MATCH_GT = js ''gt''"
definition MATCH_GTE :: jstring where "MATCH_GTE = js ''gte''"
definition MATCH_LT :: jstring where "MATCH_LT = js ''lt''"
definition MATCH_LTE :: jstring where "MATCH_LTE = js ''lte''"
definition MATCH_EXISTS :: jstring where "MATCH_EXISTS = js ''exists''"
definition MATCH_RANGE :: jstring where "MATCH_RANGE = js ''range''"

lemmas match_modes = MATCH_EQ_def MATCH_CONTAINS_def MATCH_GT_def MATCH_GTE_def MATCH_LT_def
  MATCH_LTE_def MATCH_EXISTS_def MATCH_RANGE_def

datatype CondSource = SOURCE_PARAM | SOURCE_HEADER | SOURCE_TIME

definition TIME_FUNCS :: "jstring list" where
  "TIME_FUNCS = [js ''hour'', js ''minute'', js ''weekday'', js ''month'', js ''day'']"

text \<open>The source of a path condition is a parameter of the request or a header.\<close>

record ParamHeaderCondition =
  ph_header :: bool
  ph_path :: jstring
  ph_mode :: jstring
  ph_value :: jstring

record TimeCondition =
  tc_timeFunc :: jstring
  tc_timezone :: jstring
  tc_mode :: jstring
  tc_value :: jstring
  tc_rangeStart :: jstring
  tc_rangeEnd :: jstring

datatype RequestCondition = TimeCond TimeCondition | PathCond ParamHeaderCondition

record RequestRuleGroup =
  rg_conditions :: "RequestCondition list"
  rg_multiplier :: jstring

record TierCondition =
  cond_var :: jstring
  cond_op :: jstring
  cond_value :: jsnum

record ParsedTier =
  pt_label :: jstring
  pt_conditions :: "TierCondition list"
  pt_fields :: "(jstring \<times> jsnum) list"

section \<open>Tier parser\<close>

definition VERSION_REGEX :: rx where
  "VERSION_REGEX =
     rseq [Lit (js ''v''), Grp 1 (Plus (Cls is_digit)), Lit (js '':''), Grp 2 (Star (Cls (\<lambda>_. True))), Eol]"

definition stripExprVersion :: "jstring \<Rightarrow> jsnum \<times> jstring" where
  "stripExprVersion exprStr =
     (if exprStr = [] then (Fin 1, [])
      else case rx_at VERSION_REGEX exprStr of
        Some m \<Rightarrow> (to_number (capture m 1), capture m 2)
      | None \<Rightarrow> (Fin 1, exprStr))"

text \<open>The first coefficient of each variable counts.\<close>

definition coefficients :: "jstring \<Rightarrow> (jstring \<times> jsnum) list" where
  "coefficients bodyStr =
     fold (\<lambda>m cs. if map_of cs (capture m 1) = None
                  then cs @ [(capture m 1, to_number (capture m 2))] else cs)
       (rx_match_all BILLING_VAR_REGEX None bodyStr) []"

definition parseTierBody :: "jstring \<Rightarrow> (jstring \<times> jsnum) list" where
  "parseTierBody bodyStr =
     (let coeffs = coefficients bodyStr
      in map (\<lambda>(varName, field). (field, num_or (map_of coeffs varName) (Fin 0))) BILLING_VAR_KEY_TO_FIELD)"

definition cond_atom :: "(rx \<Rightarrow> rx) \<Rightarrow> (rx \<Rightarrow> rx) \<Rightarrow> (rx \<Rightarrow> rx) \<Rightarrow> rx" where
  "cond_atom g1 g2 g3 =
     rseq [g1 (ralt [Lit (js ''p''), Lit (js ''c''), Lit (js ''len'')]), spaces,
       g2 (ralt [Lit (js ''<''), Lit (js ''<=''), Lit (js ''>''), Lit (js ''>='')]), spaces,
       g3 (Plus (Cls cond_num_char))]"

definition AND_REGEX :: rx where
  "AND_REGEX = rseq [spaces, Lit (js ''&&''), spaces]"

definition COND_GROUP :: rx where
  "COND_GROUP =
     Seq (cond_atom id id id) (Star (Seq AND_REGEX (cond_atom id id id)))"

definition CONDITION_REGEX :: rx where
  "CONDITION_REGEX = Seq (cond_atom (Grp 1) (Grp 2) (Grp 3)) Eol"

text \<open>The part of the tier pattern before the body of the tier.\<close>

definition TIER_HEAD :: "rx list" where
  "TIER_HEAD =
     [Opt (rseq [Grp 1 COND_GROUP, spaces, Lit (js ''?''), spaces]),
      Lit (js ''tier('' @ [34]), Grp 2 (Star (Cls not_quote)), Lit ([34] @ js '',''), spaces]"

definition TIER_REGEX :: rx where
  "TIER_REGEX = rseq (TIER_HEAD @ [Grp 3 (Plus (Cls (\<lambda>c. c \<noteq> 41))), Lit (js '')'')])"

text \<open>\<^verbatim>\<open>s.split(re)\<close> for a pattern that never matches the empty text.\<close>

function rx_split :: "rx \<Rightarrow> nat option \<Rightarrow> jstring \<Rightarrow> jstring \<Rightarrow> jstring list" where
  "rx_split r p cur s =
     (case s of
        [] \<Rightarrow> [cur]
      | x # t \<Rightarrow>
          (case rx_all r (p, s, []) of
             [] \<Rightarrow> rx_split r (Some x) (cur @ [x]) t
           | (p', s', _) # _ \<Rightarrow>
               if length s' < length s then cur # rx_split r p' [] s'
               else rx_split r (Some x) (cur @ [x]) t))"
  by pat_completeness auto

termination
  by (relation "measure (\<lambda>(r, p, cur, s). length s)") auto

declare rx_split.simps [simp del]

definition parse_condition :: "jstring \<Rightarrow> TierCondition option" where
  "parse_condition cp =
     map_option (\<lambda>m. \<lparr>cond_var = capture m 1, cond_op = capture m 2, cond_value = to_number (capture m 3)\<rparr>)
       (rx_at CONDITION_REGEX (trim cp))"

definition parse_conditions :: "jstring \<Rightarrow> TierCondition list" where
  "parse_conditions condStr =
     (if condStr = [] then [] else List.map_filter parse_condition (rx_split AND_REGEX None [] condStr))"

definition parseTiersFromExpr :: "jstring \<Rightarrow> ParsedTier list" where
  "parseTiersFromExpr exprStr =
     (if exprStr = [] then []
      else map (\<lambda>m. \<lparr>pt_label = capture m 2, pt_conditions = parse_conditions (capture m 1),
                     pt_fields = parseTierBody (capture m 3)\<rparr>)
             (rx_match_all TIER_REGEX None (snd (stripExprVersion exprStr))))"

text \<open>\<^verbatim>\<open>s.replace(re, t)\<close> with the global flag, for a pattern that never matches the empty text.\<close>

function rx_replace :: "rx \<Rightarrow> jstring \<Rightarrow> nat option \<Rightarrow> jstring \<Rightarrow> jstring" where
  "rx_replace r w p s =
     (case s of
        [] \<Rightarrow> []
      | x # t \<Rightarrow>
          (case rx_all r (p, s, []) of
             [] \<Rightarrow> x # rx_replace r w (Some x) t
           | (p', s', _) # _ \<Rightarrow>
               if length s' < length s then w @ rx_replace r w p' s' else x # rx_replace r w (Some x) t))"
  by pat_completeness auto

termination
  by (relation "measure (\<lambda>(r, w, p, s). length s)") auto

declare rx_replace.simps [simp del]

definition equals_sign :: "nat \<Rightarrow> bool" where
  "equals_sign c \<longleftrightarrow> c = 61 \<or> c = 65309"

definition normalizeTierLabel :: "(jstring \<Rightarrow> jstring) \<Rightarrow> jstring option \<Rightarrow> jstring" where
  "normalizeTierLabel lower label =
     (case label of
        None \<Rightarrow> []
      | Some l \<Rightarrow>
          if l = [] then []
          else lower (rx_replace (Plus (Cls is_space)) [] None
            (rx_replace (ralt [Seq (Lit (js ''>'')) (Opt (Cls equals_sign)), Lit [8805],
                 Seq (Lit [65310]) (Opt (Cls equals_sign))]) (js ''>'') None
              (rx_replace (ralt [Seq (Lit (js ''<'')) (Opt (Cls equals_sign)), Lit [8804],
                 Seq (Lit [65308]) (Opt (Cls equals_sign))]) (js ''<'') None l))))"

section \<open>Request rule parser\<close>

definition paren_step :: "nat \<Rightarrow> int \<Rightarrow> int" where
  "paren_step c d = (if c = 40 then d + 1 else if c = 41 then d - 1 else d)"

text \<open>
  The loop of \<^verbatim>\<open>splitTopLevelMultiply\<close> and \<^verbatim>\<open>splitTopLevelAnd\<close>: \<open>cur\<close> is the text since
  \<^verbatim>\<open>start\<close>, and a separator found outside parentheses ends a part.
\<close>

function split_top :: "jstring \<Rightarrow> int \<Rightarrow> jstring \<Rightarrow> jstring \<Rightarrow> jstring list" where
  "split_top sep d cur s =
     (case s of
        [] \<Rightarrow> [trim cur]
      | c # t \<Rightarrow>
          (let d' = paren_step c d
           in if d' = 0 \<and> prefix sep s then trim cur # split_top sep d' [] (drop (length sep - 1) t)
              else split_top sep d' (cur @ [c]) t))"
  by pat_completeness auto

termination
  by (relation "measure (\<lambda>(sep, d, cur, s). length s)") auto

declare split_top.simps [simp del]

definition splitTopLevelMultiply :: "jstring \<Rightarrow> jstring list" where
  "splitTopLevelMultiply expr = filter (\<lambda>s. s \<noteq> []) (split_top (js '' * '') 0 [] expr)"

definition splitTopLevelAnd :: "jstring \<Rightarrow> jstring list" where
  "splitTopLevelAnd expr = filter (\<lambda>s. s \<noteq> []) (split_top (js '' && '') 0 [] expr)"

text \<open>The parsed literal, \<open>JNull\<close> for \<^verbatim>\<open>null\<close>.\<close>

definition parseExprLiteral :: "jstring \<Rightarrow> json" where
  "parseExprLiteral raw =
     (let txt' = trim raw
      in if txt' = js ''true'' \<or> txt' = js ''false'' then JStr txt'
         else if is_numeric txt' then JStr txt'
         else case json_parse txt' of Some v \<Rightarrow> v | None \<Rightarrow> JNull)"

definition time_func :: rx where
  "time_func = Grp 1 (ralt (map Lit TIME_FUNCS))"

definition quoted_name :: "nat \<Rightarrow> rx list" where
  "quoted_name n = [Lit (js ''('' @ [34]), Grp n (Plus (Cls not_quote)), Lit ([34] @ js '')'')]"

definition time_range :: "rx list" where
  "time_range =
     [time_func] @ quoted_name 2 @ [Lit (js '' >= ''), Grp 3 (Plus (Cls num_char)), Lit (js '' || ''),
      Bref 1, Lit (js ''('' @ [34]), Bref 2, Lit ([34] @ js '') < ''), Grp 4 (Plus (Cls num_char))]"

definition TIME_RANGE_REGEX :: rx where
  "TIME_RANGE_REGEX = rseq (time_range @ [Eol])"

definition TIME_RANGE_PAREN_REGEX :: rx where
  "TIME_RANGE_PAREN_REGEX = rseq ([Lit (js ''('')] @ time_range @ [Lit (js '')''), Eol])"

definition TIME_CMP_REGEX :: rx where
  "TIME_CMP_REGEX =
     rseq ([time_func] @ quoted_name 2 @ [Lit (js '' ''),
       Grp 3 (ralt [Lit (js ''==''), Lit (js ''>=''), Lit (js ''<'')]), Lit (js '' ''),
       Grp 4 (Plus (Cls num_char)), Eol])"

definition range_condition :: "captures \<Rightarrow> RequestCondition" where
  "range_condition m =
     TimeCond \<lparr>tc_timeFunc = capture m 1, tc_timezone = capture m 2, tc_mode = MATCH_RANGE,
       tc_value = [], tc_rangeStart = capture m 3, tc_rangeEnd = capture m 4\<rparr>"

definition time_op_mode :: "jstring \<Rightarrow> jstring" where
  "time_op_mode op =
     (if op = js ''=='' then MATCH_EQ else if op = js ''>='' then MATCH_GTE
      else if op = js ''<'' then MATCH_LT else MATCH_EQ)"

definition tryParseTimeCondition :: "jstring \<Rightarrow> RequestCondition option" where
  "tryParseTimeCondition expr =
     (case rx_at TIME_RANGE_REGEX expr of
        Some m \<Rightarrow> Some (range_condition m)
      | None \<Rightarrow>
        (case rx_at TIME_RANGE_PAREN_REGEX expr of
           Some m \<Rightarrow> Some (range_condition m)
         | None \<Rightarrow>
           (case rx_at TIME_CMP_REGEX expr of
              Some m \<Rightarrow>
                Some (TimeCond \<lparr>tc_timeFunc = capture m 1, tc_timezone = capture m 2,
                  tc_mode = time_op_mode (capture m 3), tc_value = capture m 4,
                  tc_rangeStart = [], tc_rangeEnd = []\<rparr>)
            | None \<Rightarrow> None)))"

definition json_string_rx :: rx where
  "json_string_rx =
     rseq [Lit [34], Star (Alt (Cls (\<lambda>c. c \<noteq> 34 \<and> c \<noteq> 92)) (Seq (Lit [92]) (Cls dot_char))), Lit [34]]"

definition HEADER_EXISTS_REGEX :: rx where
  "HEADER_EXISTS_REGEX = rseq ([Lit (js ''header'')] @ quoted_name 1 @ [Lit (js '' != '' @ [34, 34]), Eol])"

definition PARAM_EXISTS_REGEX :: rx where
  "PARAM_EXISTS_REGEX = rseq ([Lit (js ''param'')] @ quoted_name 1 @ [Lit (js '' != nil''), Eol])"

definition HEADER_HAS_REGEX :: rx where
  "HEADER_HAS_REGEX =
     rseq ([Lit (js ''has(header'')] @ quoted_name 1 @ [Lit (js '', ''), Grp 2 json_string_rx, Lit (js '')''), Eol])"

definition PARAM_HAS_REGEX :: rx where
  "PARAM_HAS_REGEX =
     rseq ([Lit (js ''param'')] @ quoted_name 1 @ [Lit (js '' != nil && has(param'')] @ quoted_name 2
       @ [Lit (js '', ''), Grp 3 json_string_rx, Lit (js '')''), Eol])"

definition PARAM_CMP_REGEX :: rx where
  "PARAM_CMP_REGEX =
     rseq ([Lit (js ''param'')] @ quoted_name 1 @ [Lit (js '' != nil && param'')] @ quoted_name 2
       @ [Lit (js '' ''), Grp 3 (ralt [Lit (js ''>''), Lit (js ''>=''), Lit (js ''<''), Lit (js ''<='')]),
          Lit (js '' ''), Grp 4 (Plus (Cls num_char)), Eol])"

definition EQ_REGEX :: rx where
  "EQ_REGEX =
     rseq ([Grp 1 (ralt [Lit (js ''param''), Lit (js ''header'')])] @ quoted_name 2
       @ [Lit (js '' == ''), Grp 3 (Plus (Cls dot_char)), Eol])"

definition path_condition :: "bool \<Rightarrow> jstring \<Rightarrow> jstring \<Rightarrow> jstring \<Rightarrow> RequestCondition" where
  "path_condition header path mode v =
     PathCond \<lparr>ph_header = header, ph_path = path, ph_mode = mode, ph_value = v\<rparr>"

text \<open>\<^verbatim>\<open>JSON.parse(text) as string\<close>, outside every \<^verbatim>\<open>try\<close>.\<close>

definition parse_string :: "jstring \<Rightarrow> js_error + jstring" where
  "parse_string s = (case json_parse s of None \<Rightarrow> Inl SyntaxError | Some v \<Rightarrow> Inr (json_to_string v))"

definition param_op_mode :: "jstring \<Rightarrow> jstring" where
  "param_op_mode op =
     (if op = js ''>'' then MATCH_GT else if op = js ''>='' then MATCH_GTE
      else if op = js ''<'' then MATCH_LT else MATCH_LTE)"

text \<open>\<open>Inl\<close> is an exception, \<open>Inr None\<close> is \<^verbatim>\<open>null\<close>.\<close>

definition tryParseRequestCondition :: "jstring \<Rightarrow> js_error + RequestCondition option" where
  "tryParseRequestCondition expr =
     (case tryParseTimeCondition expr of
        Some tc \<Rightarrow> Inr (Some tc)
      | None \<Rightarrow>
     (case rx_at HEADER_EXISTS_REGEX expr of
        Some m \<Rightarrow> Inr (Some (path_condition True (capture m 1) MATCH_EXISTS []))
      | None \<Rightarrow>
     (case rx_at PARAM_EXISTS_REGEX expr of
        Some m \<Rightarrow> Inr (Some (path_condition False (capture m 1) MATCH_EXISTS []))
      | None \<Rightarrow>
     (case rx_at HEADER_HAS_REGEX expr of
        Some m \<Rightarrow> map_sum id (\<lambda>v. Some (path_condition True (capture m 1) MATCH_CONTAINS v))
                    (parse_string (capture m 2))
      | None \<Rightarrow>
     (case (case rx_at PARAM_HAS_REGEX expr of
              Some m \<Rightarrow> if capture m 1 = capture m 2 then Some m else None | None \<Rightarrow> None) of
        Some m \<Rightarrow> map_sum id (\<lambda>v. Some (path_condition False (capture m 1) MATCH_CONTAINS v))
                    (parse_string (capture m 3))
      | None \<Rightarrow>
     (case (case rx_at PARAM_CMP_REGEX expr of
              Some m \<Rightarrow> if capture m 1 = capture m 2 then Some m else None | None \<Rightarrow> None) of
        Some m \<Rightarrow> Inr (Some (path_condition False (capture m 1) (param_op_mode (capture m 3)) (capture m 4)))
      | None \<Rightarrow>
     (case rx_at EQ_REGEX expr of
        Some m \<Rightarrow>
          (let parsedValue = parseExprLiteral (capture m 3)
           in if parsedValue = JNull then Inr None
              else Inr (Some (path_condition (capture m 1 = js ''header'') (capture m 2) MATCH_EQ
                     (json_to_string parsedValue))))
      | None \<Rightarrow> Inr None)))))))"

text \<open>A loop that collects what \<open>f\<close> gives and returns \<^verbatim>\<open>null\<close> at the first \<^verbatim>\<open>null\<close>.\<close>

fun collect :: "('a \<Rightarrow> js_error + 'b option) \<Rightarrow> 'a list \<Rightarrow> js_error + 'b list option" where
  "collect f [] = Inr (Some [])"
| "collect f (x # xs) =
     (case f x of
        Inl e \<Rightarrow> Inl e
      | Inr None \<Rightarrow> Inr None
      | Inr (Some y) \<Rightarrow> map_sum id (map_option (Cons y)) (collect f xs))"

definition RULE_FACTOR_REGEX :: rx where
  "RULE_FACTOR_REGEX =
     rseq [Lit (js ''(''), Grp 1 (Plus (Cls (\<lambda>_. True))), Lit (js '' ? ''), Grp 2 (Plus (Cls num_char)),
       Lit (js '' : 1)''), Eol]"

definition tryParseRuleGroupFactor :: "jstring \<Rightarrow> js_error + RequestRuleGroup option" where
  "tryParseRuleGroupFactor part =
     (case rx_at RULE_FACTOR_REGEX part of
        None \<Rightarrow> Inr None
      | Some m \<Rightarrow>
          (case collect (\<lambda>ap. tryParseRequestCondition (trim ap)) (splitTopLevelAnd (capture m 1)) of
             Inl e \<Rightarrow> Inl e
           | Inr None \<Rightarrow> Inr None
           | Inr (Some conditions) \<Rightarrow>
               if conditions = [] then Inr None
               else Inr (Some \<lparr>rg_conditions = conditions, rg_multiplier = capture m 2\<rparr>)))"

definition tryParseRequestRuleExpr :: "jstring \<Rightarrow> js_error + RequestRuleGroup list option" where
  "tryParseRequestRuleExpr expr =
     (let trimmed = trim expr
      in if trimmed = [] then Inr (Some [])
         else collect tryParseRuleGroupFactor (splitTopLevelMultiply trimmed))"

section \<open>Splitting and combining\<close>

text \<open>The loop of \<^verbatim>\<open>hasFullOuterParens\<close>: false as soon as a prefix is closed.\<close>

fun outer_loop :: "int \<Rightarrow> jstring \<Rightarrow> bool" where
  "outer_loop d [] = (d = 0)"
| "outer_loop d (c # s) =
     (let d' = paren_step c d in if d' = 0 \<and> s \<noteq> [] then False else outer_loop d' s)"

definition hasFullOuterParens :: "jstring \<Rightarrow> bool" where
  "hasFullOuterParens expr \<longleftrightarrow>
     prefix [40] expr \<and> suffix [41] expr \<and> outer_loop 0 expr"

lemma trim_shorter: "length (trim s) \<le> length s"
  using length_dropWhile_le [of is_space "rev (dropWhile is_space s)"] length_dropWhile_le [of is_space s]
  by (simp add: trim_def)

function unwrap_loop :: "jstring \<Rightarrow> jstring" where
  "unwrap_loop s =
     (if hasFullOuterParens s then unwrap_loop (trim (butlast (tl s))) else s)"
  by pat_completeness auto

termination
proof (relation "measure length")
  fix s
  assume "hasFullOuterParens s"
  then have "s \<noteq> []" by (auto simp: hasFullOuterParens_def)
  then show "(trim (butlast (tl s)), s) \<in> measure length"
    using trim_shorter [of "butlast (tl s)"] by (cases s) auto
qed simp

declare unwrap_loop.simps [simp del]

definition unwrapOuterParens :: "jstring \<Rightarrow> jstring" where
  "unwrapOuterParens expr = unwrap_loop (trim expr)"

text \<open>Whether each part is a rule; \<open>Inl\<close> when parsing one throws.\<close>

definition is_rule_part :: "jstring \<Rightarrow> js_error + bool" where
  "is_rule_part part =
     map_sum id (\<lambda>r. case r of None \<Rightarrow> False | Some gs \<Rightarrow> gs \<noteq> []) (tryParseRequestRuleExpr part)"

fun sort_parts :: "jstring list \<Rightarrow> js_error + (jstring list \<times> jstring list)" where
  "sort_parts [] = Inr ([], [])"
| "sort_parts (part # parts) =
     (case is_rule_part part of
        Inl e \<Rightarrow> Inl e
      | Inr b \<Rightarrow>
          map_sum id (\<lambda>(ruleParts, baseParts).
            if b then (part # ruleParts, baseParts) else (ruleParts, part # baseParts))
            (sort_parts parts))"

text \<open>The pair of \<^verbatim>\<open>billingExpr\<close> and \<^verbatim>\<open>requestRuleExpr\<close>.\<close>

definition splitBillingExprAndRequestRules :: "jstring \<Rightarrow> js_error + (jstring \<times> jstring)" where
  "splitBillingExprAndRequestRules expr =
     (let trimmed = trim expr
      in if trimmed = [] then Inr ([], [])
         else let parts = splitTopLevelMultiply trimmed
         in if length parts \<le> 1 then Inr (trimmed, [])
            else map_sum id (\<lambda>(ruleParts, baseParts).
                   if ruleParts = [] \<or> length baseParts \<noteq> 1 then (trimmed, [])
                   else (unwrapOuterParens (hd baseParts), join (js '' * '') ruleParts))
                 (sort_parts parts))"

definition combineBillingExpr :: "jstring \<Rightarrow> jstring \<Rightarrow> jstring" where
  "combineBillingExpr baseExpr requestRuleExpr =
     (let base = trim baseExpr; rules = trim requestRuleExpr
      in if base = [] then [] else if rules = [] then base
         else js ''('' @ base @ js '') * '' @ rules)"

section \<open>The rule editor\<close>

definition createEmptyCondition :: ParamHeaderCondition where
  "createEmptyCondition = \<lparr>ph_header = False, ph_path = [], ph_mode = MATCH_EQ, ph_value = []\<rparr>"

definition createEmptyTimeCondition :: TimeCondition where
  "createEmptyTimeCondition =
     \<lparr>tc_timeFunc = js ''hour'', tc_timezone = js ''Asia/Shanghai'', tc_mode = MATCH_GTE,
      tc_value = [], tc_rangeStart = [], tc_rangeEnd = []\<rparr>"

definition createEmptyRuleGroup :: RequestRuleGroup where
  "createEmptyRuleGroup = \<lparr>rg_conditions = [PathCond createEmptyCondition], rg_multiplier = []\<rparr>"

definition createEmptyTimeRuleGroup :: RequestRuleGroup where
  "createEmptyTimeRuleGroup = \<lparr>rg_conditions = [TimeCond createEmptyTimeCondition], rg_multiplier = []\<rparr>"

text \<open>Pairs of \<^verbatim>\<open>value\<close> and \<^verbatim>\<open>labelKey\<close>.\<close>

definition getRequestRuleMatchOptions :: "CondSource \<Rightarrow> (jstring \<times> jstring) list" where
  "getRequestRuleMatchOptions source =
     (if source = SOURCE_TIME then
        [(MATCH_EQ, js ''Equals''), (MATCH_GTE, js ''Greater than or equal''), (MATCH_LT, js ''Less than''),
         (MATCH_RANGE, js ''Overnight range'')]
      else
        let base = [(MATCH_EQ, js ''Equals''), (MATCH_CONTAINS, js ''Contains''), (MATCH_EXISTS, js ''Exists'')]
        in if source = SOURCE_HEADER then base
           else base @ [(MATCH_GT, js ''Greater than''), (MATCH_GTE, js ''Greater than or equal''),
             (MATCH_LT, js ''Less than''), (MATCH_LTE, js ''Less than or equal'')])"

text \<open>\<^verbatim>\<open>Partial<RequestCondition>\<close>: every property may be absent.\<close>

record PartialCondition =
  pc_source :: "jstring option"
  pc_timeFunc :: "jstring option"
  pc_timezone :: "jstring option"
  pc_path :: "jstring option"
  pc_mode :: "jstring option"
  pc_value :: "jstring option"
  pc_rangeStart :: "jstring option"
  pc_rangeEnd :: "jstring option"

definition empty_partial :: PartialCondition where
  "empty_partial =
     \<lparr>pc_source = None, pc_timeFunc = None, pc_timezone = None, pc_path = None, pc_mode = None,
      pc_value = None, pc_rangeStart = None, pc_rangeEnd = None\<rparr>"

fun partial_of :: "RequestCondition \<Rightarrow> PartialCondition" where
  "partial_of (TimeCond t) =
     empty_partial\<lparr>pc_source := Some (js ''time''), pc_timeFunc := Some (tc_timeFunc t),
       pc_timezone := Some (tc_timezone t), pc_mode := Some (tc_mode t), pc_value := Some (tc_value t),
       pc_rangeStart := Some (tc_rangeStart t), pc_rangeEnd := Some (tc_rangeEnd t)\<rparr>"
| "partial_of (PathCond h) =
     empty_partial\<lparr>pc_source := Some (if ph_header h then js ''header'' else js ''param''),
       pc_path := Some (ph_path h), pc_mode := Some (ph_mode h), pc_value := Some (ph_value h)\<rparr>"

definition isTimeFunc :: "jstring option \<Rightarrow> bool" where
  "isTimeFunc v \<longleftrightarrow> (case v of None \<Rightarrow> False | Some s \<Rightarrow> s \<in> set TIME_FUNCS)"

definition mode_or :: "CondSource \<Rightarrow> jstring option \<Rightarrow> jstring \<Rightarrow> jstring" where
  "mode_or source mode d =
     (case mode of None \<Rightarrow> d
      | Some s \<Rightarrow> if s \<in> set (map fst (getRequestRuleMatchOptions source)) then s else d)"

definition text_or_empty :: "jstring option \<Rightarrow> jstring" where
  "text_or_empty v = (case v of None \<Rightarrow> [] | Some s \<Rightarrow> s)"

definition normalize_time :: "PartialCondition \<Rightarrow> TimeCondition" where
  "normalize_time c =
     \<lparr>tc_timeFunc = (if isTimeFunc (pc_timeFunc c) then text_or_empty (pc_timeFunc c) else js ''hour''),
      tc_timezone = str_or (pc_timezone c) (js ''Asia/Shanghai''),
      tc_mode = mode_or SOURCE_TIME (pc_mode c) MATCH_GTE,
      tc_value = text_or_empty (pc_value c),
      tc_rangeStart = text_or_empty (pc_rangeStart c),
      tc_rangeEnd = text_or_empty (pc_rangeEnd c)\<rparr>"

definition normalize_path :: "bool \<Rightarrow> PartialCondition \<Rightarrow> ParamHeaderCondition" where
  "normalize_path header c =
     \<lparr>ph_header = header, ph_path = str_or (pc_path c) [],
      ph_mode = mode_or (if header then SOURCE_HEADER else SOURCE_PARAM) (pc_mode c) MATCH_EQ,
      ph_value = text_or_empty (pc_value c)\<rparr>"

definition normalizeCondition :: "PartialCondition option \<Rightarrow> RequestCondition" where
  "normalizeCondition cond =
     (let c = (case cond of None \<Rightarrow> empty_partial | Some c \<Rightarrow> c)
      in if pc_source c = Some (js ''time'') then TimeCond (normalize_time c)
         else PathCond (normalize_path (pc_source c = Some (js ''header'')) c))"

definition buildExprLiteral :: "jstring \<Rightarrow> jstring \<Rightarrow> jstring" where
  "buildExprLiteral mode v =
     (let txt' = trim v
      in if mode = MATCH_CONTAINS then json_quote txt'
         else if txt' = js ''true'' \<or> txt' = js ''false'' then txt'
         else if is_numeric txt' then txt'
         else json_quote txt')"

definition time_mode_op :: "jstring \<Rightarrow> jstring" where
  "time_mode_op mode =
     (if mode = MATCH_EQ then js ''=='' else if mode = MATCH_GTE then js ''>=''
      else if mode = MATCH_LT then js ''<'' else js ''=='')"

definition build_time :: "TimeCondition \<Rightarrow> jstring" where
  "build_time n =
     (let fn = tc_timeFunc n @ js ''('' @ json_quote (tc_timezone n) @ js '')''
      in if tc_mode n = MATCH_RANGE then
           (let s = trim (tc_rangeStart n); e = trim (tc_rangeEnd n)
            in if \<not> is_numeric s \<or> \<not> is_numeric e then []
               else fn @ js '' >= '' @ s @ js '' || '' @ fn @ js '' < '' @ e)
         else let v = trim (tc_value n)
           in if \<not> is_numeric v then []
              else fn @ js '' '' @ time_mode_op (tc_mode n) @ js '' '' @ v)"

definition buildTimeConditionExpr :: "TimeCondition \<Rightarrow> jstring" where
  "buildTimeConditionExpr cond = build_time (normalize_time (partial_of (TimeCond cond)))"

definition param_mode_op :: "jstring \<Rightarrow> jstring" where
  "param_mode_op mode =
     (if mode = MATCH_GT then js ''>'' else if mode = MATCH_GTE then js ''>=''
      else if mode = MATCH_LT then js ''<'' else js ''<='')"

definition build_path :: "ParamHeaderCondition \<Rightarrow> jstring" where
  "build_path n =
     (let path = trim (ph_path n)
      in if path = [] then []
         else
           let sourceExpr = (if ph_header n then js ''header('' else js ''param('') @ json_quote path @ js '')'';
               lit = buildExprLiteral (ph_mode n) (ph_value n)
           in if ph_mode n = MATCH_EXISTS then
                sourceExpr @ (if ph_header n then js '' != '' @ [34, 34] else js '' != nil'')
              else if ph_mode n = MATCH_CONTAINS then
                (if ph_header n then js ''has('' @ sourceExpr @ js '', '' @ lit @ js '')''
                 else sourceExpr @ js '' != nil && has('' @ sourceExpr @ js '', '' @ lit @ js '')'')
              else if ph_mode n \<in> {MATCH_GT, MATCH_GTE, MATCH_LT, MATCH_LTE} then
                (let numText = trim (ph_value n)
                 in if \<not> is_numeric numText then []
                    else sourceExpr @ js '' != nil && '' @ sourceExpr @ js '' '' @ param_mode_op (ph_mode n)
                      @ js '' '' @ numText)
              else sourceExpr @ js '' == '' @ lit)"

definition buildRequestConditionExpr :: "RequestCondition \<Rightarrow> jstring" where
  "buildRequestConditionExpr cond =
     (case cond of
        TimeCond t \<Rightarrow> buildTimeConditionExpr t
      | PathCond h \<Rightarrow> build_path (normalize_path (ph_header h) (partial_of cond)))"

definition buildRuleGroupFactor :: "RequestRuleGroup \<Rightarrow> jstring" where
  "buildRuleGroupFactor grp =
     (let multiplier = trim (rg_multiplier grp)
      in if \<not> is_numeric multiplier then []
         else
           let condExprs = filter (\<lambda>e. e \<noteq> []) (map buildRequestConditionExpr (rg_conditions grp))
           in if condExprs = [] then []
              else
                let combined =
                  (if length condExprs = 1 then hd condExprs
                   else join (js '' && '')
                     (map (\<lambda>e. if str_includes e (js '' || '') then js ''('' @ e @ js '')'' else e) condExprs))
                in js ''('' @ combined @ js '' ? '' @ multiplier @ js '' : 1)'')"

definition buildRequestRuleExpr :: "RequestRuleGroup list \<Rightarrow> jstring" where
  "buildRequestRuleExpr groups =
     join (js '' * '') (filter (\<lambda>s. s \<noteq> []) (map buildRuleGroupFactor groups))"

end
