(* ===== verification/Billing_Laws.thy ===== *)
theory Billing_Laws
  imports Billing_Expr
begin

text \<open>
  What the billing expression code guarantees: a set of request rules survives printing and
  parsing, an expression combined from a tiered part and rules splits back into them, and the
  rules that the parser cannot read back.
\<close>

section \<open>What a pattern consumes\<close>

primrec made_of :: "(nat \<Rightarrow> bool) \<Rightarrow> rx \<Rightarrow> bool" where
  "made_of P Eps = True"
| "made_of P (Lit u) = list_all P u"
| "made_of P (Cls Q) = (\<forall>x. Q x \<longrightarrow> P x)"
| "made_of P (Seq r k) = (made_of P r \<and> made_of P k)"
| "made_of P (Alt r k) = (made_of P r \<and> made_of P k)"
| "made_of P (Star r) = made_of P r"
| "made_of P (Grp n r) = made_of P r"
| "made_of P (Bref n) = False"
| "made_of P Eol = True"
| "made_of P WordB = True"

lemma eat_made_of:
  "st' \<in> set (eat u st) \<Longrightarrow> list_all P u \<Longrightarrow> \<exists>w. fst (snd st) = w @ fst (snd st') \<and> list_all P w"
  by (cases st) (auto simp: eat_def prefix_def split: if_splits)

lemma rx_all_made_of:
  "st' \<in> set (rx_all r st) \<Longrightarrow> made_of P r \<Longrightarrow> \<exists>w. fst (snd st) = w @ fst (snd st') \<and> list_all P w"
proof (induction r st arbitrary: st' rule: rx_all.induct)
  case (2 u st)
  then show ?case using eat_made_of [of st' u st P] by simp
next
  case (5 r k st)
  then obtain st1 where 1: "st1 \<in> set (rx_all r st)" and 2: "st' \<in> set (rx_all k st1)" by auto
  obtain w1 where "fst (snd st) = w1 @ fst (snd st1)" "list_all P w1"
    using "5.IH"(1) [OF 1] "5.prems" by auto
  moreover obtain w2 where "fst (snd st1) = w2 @ fst (snd st')" "list_all P w2"
    using "5.IH"(2) [OF 1 2] "5.prems" by auto
  ultimately show ?case by (intro exI [of _ "w1 @ w2"]) simp
next
  case (7 r p s c)
  then consider "st' = (p, s, c)"
    | st1 where "st1 \<in> set (rx_all r (p, s, c))" "length (fst (snd st1)) < length s"
        "st' \<in> set (rx_all (Star r) st1)"
    by (auto split: if_splits)
  then show ?case
  proof cases
    case 2
    obtain w1 where "s = w1 @ fst (snd st1)" "list_all P w1"
      using "7.IH"(1) [OF 2(1)] "7.prems" by auto
    moreover obtain w2 where "fst (snd st1) = w2 @ fst (snd st')" "list_all P w2"
      using "7.IH"(2) [OF 2] "7.prems" by auto
    ultimately show ?thesis by (intro exI [of _ "w1 @ w2"]) simp
  qed simp
next
  case (8 n r p s c)
  then obtain st1 where "st1 \<in> set (rx_all r (p, s, c))" "fst (snd st') = fst (snd st1)" by auto
  then show ?case using "8.IH" [of st1] "8.prems" by simp
qed (auto split: if_splits)

lemma rseq_made_of [simp]: "made_of P (rseq rs) \<longleftrightarrow> list_all (made_of P) rs"
  by (induction rs) auto

lemma ends_at_Eol:
  "st' \<in> set (rx_all (rseq (rs @ [Eol])) st) \<Longrightarrow> fst (snd st') = []"
  by (induction rs arbitrary: st) (auto split: if_splits)

lemma numeric_ends: "\<exists>rs. NUMERIC_LITERAL_REGEX = rseq (rs @ [Eol])"
proof -
  have "rseq [a, b, c, Eol] = rseq ([a, b, c] @ [Eol])" for a b c by simp
  then show ?thesis unfolding NUMERIC_LITERAL_REGEX_def by blast
qed

text \<open>A numeric literal is a non-empty run of the class \<^verbatim>\<open>[\d.eE+-]\<close>.\<close>

lemma is_numericD:
  assumes "is_numeric s"
  shows "list_all num_char s" "s \<noteq> []"
proof -
  obtain st where st: "st \<in> set (rx_all NUMERIC_LITERAL_REGEX (None, s, []))"
    using assms by (auto simp: is_numeric_def rx_test_def rx_at_def split: list.splits)
  have "made_of num_char NUMERIC_LITERAL_REGEX"
    by (auto simp: NUMERIC_LITERAL_REGEX_def num_char_def Plus_def Opt_def js_str)
  moreover have "fst (snd st) = []"
    using st ends_at_Eol numeric_ends by metis
  ultimately show "list_all num_char s" using rx_all_made_of [OF st] by auto
  show "s \<noteq> []"
  proof
    assume "s = []"
    then have "rx_all NUMERIC_LITERAL_REGEX (None, s, []) = []"
      by (simp add: NUMERIC_LITERAL_REGEX_def Opt_def Plus_def rx_sem js_str)
    with st show False by simp
  qed
qed

lemma num_char_not_space: "num_char c \<Longrightarrow> \<not> is_space c"
  by (auto simp: num_char_def is_digit_def is_space_def white_space_def)

lemma trim_numeric: "is_numeric s \<Longrightarrow> trim s = s"
  using is_numericD [of s] by (intro trim_id) (auto simp: list_all_iff num_char_not_space)

section \<open>Conditions\<close>

lemma seq_more [rx_sem]:
  "rx_all (Seq Eol k) (p, s, c) = (if s = [] then rx_all k (p, s, c) else [])"
  "rx_all (Seq (Bref n) k) (p, s, c) = concat (map (rx_all k) (eat (capture c n) (p, s, c)))"
  by simp_all

declare rx_all.simps(5) [simp del]

text \<open>
  Text that the rule language can carry: printable, without quotes, backslashes, parentheses,
  ampersands and bars, and without spaces at its ends.
\<close>

definition plain :: "nat \<Rightarrow> bool" where
  "plain c \<longleftrightarrow> printable c \<and> dot_char c \<and> c \<noteq> 38 \<and> c \<noteq> 40 \<and> c \<noteq> 41 \<and> c \<noteq> 124"

definition plain_text :: "jstring \<Rightarrow> bool" where
  "plain_text s \<longleftrightarrow> list_all plain s \<and> trim s = s"

fun condition_ok :: "RequestCondition \<Rightarrow> bool" where
  "condition_ok (TimeCond t) \<longleftrightarrow>
     tc_timeFunc t \<in> set TIME_FUNCS \<and> tc_timezone t \<noteq> [] \<and> list_all plain (tc_timezone t)
     \<and> (tc_mode t = MATCH_RANGE \<and> tc_value t = [] \<and> is_numeric (tc_rangeStart t) \<and> is_numeric (tc_rangeEnd t)
        \<or> tc_mode t \<in> {MATCH_EQ, MATCH_GTE, MATCH_LT} \<and> is_numeric (tc_value t)
          \<and> tc_rangeStart t = [] \<and> tc_rangeEnd t = [])"
| "condition_ok (PathCond h) \<longleftrightarrow>
     ph_path h \<noteq> [] \<and> plain_text (ph_path h) \<and> plain_text (ph_value h)
     \<and> (ph_mode h = MATCH_EXISTS \<and> ph_value h = [] \<or> ph_mode h = MATCH_EQ
        \<or> ph_mode h = MATCH_CONTAINS \<and> ph_header h)"

lemma plain_quoted:
  "list_all plain s \<Longrightarrow> json_quote s = 34 # s @ [34]"
  "list_all plain s \<Longrightarrow> list_all not_quote s"
  by (rule json_quote_printable; simp add: list_all_iff plain_def)
    (simp add: list_all_iff plain_def printable_def not_quote_def)

lemma plain_json: "list_all plain s \<Longrightarrow> json_parse (34 # s @ [34]) = Some (JStr s)"
  using json_parse_quote [of s] plain_quoted(1) [of s]
  by (simp add: list_all_iff plain_def printable_def)

lemma quoted_name_then:
  assumes "u \<noteq> []" "list_all not_quote u"
  shows "rx_all (rseq (quoted_name n @ rs)) (p, 40 # 34 # u @ 34 # 41 # v, c)
    = rx_all (rseq rs) (Some 41, v, (n, u) # c)"
proof -
  let ?k = "Seq (Lit [34, 41]) (rseq rs)"
  have "rx_all (rseq (quoted_name n @ rs)) (p, 40 # 34 # u @ 34 # 41 # v, c)
      = rx_all (Seq (Grp n (Plus (Cls not_quote))) ?k) (Some 34, u @ 34 # 41 # v, c)"
    by (simp add: quoted_name_def rx_sem js_str)
  also have "\<dots> = rx_all ?k (after (Some 34) u, 34 # 41 # v, (n, u) # c)"
    by (rule cls_grp_plus_then) (use assms in \<open>auto simp: not_quote_def rx_sem\<close>)
  finally show ?thesis by (simp add: rx_sem)
qed

lemma num_then:
  assumes "is_numeric u" "v = [] \<or> \<not> num_char (hd v)"
    and "\<And>x p s c. num_char x \<Longrightarrow> rx_all k (p, x # s, c) = []"
  shows "rx_all (Seq (Grp n (Plus (Cls num_char))) k) (p, u @ v, c) = rx_all k (after p u, v, (n, u) # c)"
  by (rule cls_grp_plus_then) (use assms is_numericD in auto)

lemma num_end:
  assumes "is_numeric u"
  shows "rx_all (rseq [Grp n (Plus (Cls num_char)), Eol]) (p, u, c) = [(after p u, [], (n, u) # c)]"
  using num_then [OF assms, of "[]" "Seq Eol Eps" n p c] by (simp add: rx_sem)

lemma num_lit:
  assumes "is_numeric u" "\<not> num_char x"
  shows "rx_all (Seq (Grp n (Plus (Cls num_char))) (Seq (Lit (x # l)) k)) (p, u @ x # v, c)
    = rx_all (Seq (Lit (x # l)) k) (after p u, x # v, (n, u) # c)"
    and "rx_all (Seq (Grp n (Plus (Cls num_char))) (Seq (Lit (x # l)) k)) (p, u, c) = []"
proof -
  have k: "num_char y \<Longrightarrow> rx_all (Seq (Lit (x # l)) k) (q, y # s, d) = []" for y q s d
    using assms(2) by (auto simp: rx_sem)
  show "rx_all (Seq (Grp n (Plus (Cls num_char))) (Seq (Lit (x # l)) k)) (p, u @ x # v, c)
      = rx_all (Seq (Lit (x # l)) k) (after p u, x # v, (n, u) # c)"
    by (rule num_then) (use assms k in auto)
  show "rx_all (Seq (Grp n (Plus (Cls num_char))) (Seq (Lit (x # l)) k)) (p, u, c) = []"
  proof -
    have "rx_all (Seq (Grp n (Plus (Cls num_char))) (Seq (Lit (x # l)) k)) (p, u @ [], c)
        = rx_all (Seq (Lit (x # l)) k) (after p u, [], (n, u) # c)"
      by (rule num_then) (use assms k in auto)
    then show ?thesis by (simp only: append_Nil2 seq_simps eat_simps list.map concat.simps)
  qed
qed

lemma time_func_then:
  assumes "f \<in> set TIME_FUNCS"
  shows "rx_all (Seq time_func k) (p, f @ s, c) = rx_all k (Some (last f), s, (1, f) # c)"
proof -
  have "rx_all (ralt (map Lit TIME_FUNCS)) (p, f @ s, c) = [(Some (last f), s, c)]"
    using assms by (auto simp: TIME_FUNCS_def js_str eat_simps)
  then show ?thesis by (simp add: time_func_def rx_all.simps(5))
qed

lemma capture_simps [simp]: "capture ((n, u) # c) m = (if m = n then u else capture c m)"
  by (simp add: capture_def)

lemma time_range_fails:
  assumes "f \<in> set TIME_FUNCS" "tz \<noteq> []" "list_all plain tz" "is_numeric v"
    and "op \<in> {js ''=='', js ''>='', js ''<''}"
  shows "rx_at TIME_RANGE_REGEX (f @ 40 # 34 # tz @ 34 # 41 # 32 # op @ 32 # v) = None"
proof -
  have "rx_all TIME_RANGE_REGEX (None, f @ 40 # 34 # tz @ 34 # 41 # 32 # op @ 32 # v, []) = []"
    using assms plain_quoted(2) [OF assms(3)]
    by (auto simp: TIME_RANGE_REGEX_def time_range_def time_func_then quoted_name_then num_lit
        num_char_def is_digit_def js_str rx_sem)
  then show ?thesis by (simp add: rx_at_def)
qed

lemma parse_time_cmp:
  assumes "f \<in> set TIME_FUNCS" "tz \<noteq> []" "list_all plain tz" "is_numeric v"
    and "op \<in> {js ''=='', js ''>='', js ''<''}"
  shows "tryParseTimeCondition (f @ 40 # 34 # tz @ 34 # 41 # 32 # op @ 32 # v)
    = Some (TimeCond \<lparr>tc_timeFunc = f, tc_timezone = tz, tc_mode = time_op_mode op, tc_value = v,
        tc_rangeStart = [], tc_rangeEnd = []\<rparr>)"
proof -
  let ?e = "f @ 40 # 34 # tz @ 34 # 41 # 32 # op @ 32 # v"
  have "rx_at TIME_RANGE_PAREN_REGEX ?e = None"
    using assms(1) by (auto simp: rx_at_def TIME_RANGE_PAREN_REGEX_def TIME_FUNCS_def js_str rx_sem)
  moreover have "rx_at TIME_CMP_REGEX ?e = Some [(4, v), (3, op), (2, tz), (1, f)]"
  proof -
    let ?k = "rseq [Lit (js '' ''), Grp 4 (Plus (Cls num_char)), Eol]"
    have g: "rx_all (Seq (Grp 3 (ralt [Lit (js ''==''), Lit (js ''>=''), Lit (js ''<'')])) ?k) (p, op @ 32 # v, c)
      = rx_all ?k (Some (last op), 32 # v, (3, op) # c)" for p c
      using assms(5) by (auto simp: js_str rx_sem rx_all.simps(5))
    have "rx_all TIME_CMP_REGEX (None, ?e, []) = [(after (Some 32) v, [], [(4, v), (3, op), (2, tz), (1, f)])]"
      using assms plain_quoted(2) [OF assms(3)] num_end [OF assms(4), of 4] g
      by (simp add: TIME_CMP_REGEX_def time_func_then quoted_name_then js_str rx_sem)
    then show ?thesis by (simp add: rx_at_def)
  qed
  ultimately show ?thesis
    using time_range_fails [OF assms] by (simp add: tryParseTimeCondition_def)
qed

definition range_text :: "jstring \<Rightarrow> jstring \<Rightarrow> jstring \<Rightarrow> jstring \<Rightarrow> jstring" where
  "range_text f tz a b =
     f @ 40 # 34 # tz @ 34 # 41 # js '' >= '' @ a @ js '' || '' @ f @ 40 # 34 # tz @ 34 # 41 # js '' < '' @ b"

lemma range_then:
  assumes "f \<in> set TIME_FUNCS" "tz \<noteq> []" "list_all plain tz" "is_numeric a"
  shows "rx_all (rseq (time_range @ rs)) (p, range_text f tz a b @ s, c)
    = rx_all (rseq (Grp 4 (Plus (Cls num_char)) # rs)) (Some 32, b @ s, (3, a) # (2, tz) # (1, f) # c)"
proof -
  have "f \<noteq> []" using assms(1) by (auto simp: TIME_FUNCS_def js_str)
  then show ?thesis
    using assms plain_quoted(2) [OF assms(3)]
    by (simp add: time_range_def range_text_def time_func_then quoted_name_then num_lit
        num_char_def is_digit_def js_str rx_sem eat_append)
qed

lemma parse_range:
  assumes "f \<in> set TIME_FUNCS" "tz \<noteq> []" "list_all plain tz" "is_numeric a" "is_numeric b"
  defines "t \<equiv> TimeCond \<lparr>tc_timeFunc = f, tc_timezone = tz, tc_mode = MATCH_RANGE, tc_value = [],
     tc_rangeStart = a, tc_rangeEnd = b\<rparr>"
  shows "tryParseTimeCondition (range_text f tz a b) = Some t"
    and "tryParseTimeCondition (40 # range_text f tz a b @ [41]) = Some t"
proof -
  have "rx_all TIME_RANGE_REGEX (None, range_text f tz a b, [])
      = [(after (Some 32) b, [], [(4, b), (3, a), (2, tz), (1, f)])]"
    using range_then [OF assms(1-4), of "[Eol]" None b "[]" "[]"] num_end [OF assms(5), of 4]
    by (simp add: TIME_RANGE_REGEX_def)
  then show "tryParseTimeCondition (range_text f tz a b) = Some t"
    by (simp add: tryParseTimeCondition_def rx_at_def range_condition_def t_def)
  have "rx_all TIME_RANGE_REGEX (None, 40 # range_text f tz a b @ [41], []) = []"
    by (simp add: TIME_RANGE_REGEX_def time_range_def time_func_def TIME_FUNCS_def rx_all.simps(5) js_str eat_simps)
  moreover have "rx_all TIME_RANGE_PAREN_REGEX (None, 40 # range_text f tz a b @ [41], [])
      = [(Some 41, [], [(4, b), (3, a), (2, tz), (1, f)])]"
    using range_then [OF assms(1-4), of "[Lit (js '')''), Eol]" "Some 40" b "[41]" "[]"]
      num_lit(1) [OF assms(5), of 41 4 "[]"]
    by (simp add: TIME_RANGE_PAREN_REGEX_def js_str rx_sem num_char_def is_digit_def)
  ultimately show "tryParseTimeCondition (40 # range_text f tz a b @ [41]) = Some t"
    by (simp add: tryParseTimeCondition_def rx_at_def range_condition_def t_def)
qed

text \<open>Conditions on a header or a parameter.\<close>

lemma not_time:
  assumes "prefix (js ''header('') e \<or> prefix (js ''param('') e \<or> prefix (js ''has('') e"
  shows "tryParseTimeCondition e = None"
proof -
  have "rx_all (Seq time_func k) (p, e, c) = []" "rx_all (Seq (Lit (js ''('')) k) (p, e, c) = []" for k p c
    using assms
    by (auto simp: time_func_def TIME_FUNCS_def rx_all.simps(5) js_str eat_simps prefix_def)
  then show ?thesis
    by (simp add: tryParseTimeCondition_def rx_at_def TIME_RANGE_REGEX_def TIME_RANGE_PAREN_REGEX_def
        TIME_CMP_REGEX_def time_range_def)
qed

lemma parse_exists:
  assumes "u \<noteq> []" "list_all plain u"
  shows "tryParseRequestCondition (js ''header('' @ 34 # u @ 34 # js '') != '' @ [34, 34])
      = Inr (Some (path_condition True u MATCH_EXISTS []))"
    and "tryParseRequestCondition (js ''param('' @ 34 # u @ 34 # js '') != nil'')
      = Inr (Some (path_condition False u MATCH_EXISTS []))"
proof -
  note q = quoted_name_then [OF assms(1) plain_quoted(2) [OF assms(2)]]
  show "tryParseRequestCondition (js ''header('' @ 34 # u @ 34 # js '') != '' @ [34, 34])
      = Inr (Some (path_condition True u MATCH_EXISTS []))"
    by (simp add: tryParseRequestCondition_def not_time rx_at_def HEADER_EXISTS_REGEX_def js_str rx_sem q)
  show "tryParseRequestCondition (js ''param('' @ 34 # u @ 34 # js '') != nil'')
      = Inr (Some (path_condition False u MATCH_EXISTS []))"
    by (simp add: tryParseRequestCondition_def not_time rx_at_def HEADER_EXISTS_REGEX_def
        PARAM_EXISTS_REGEX_def js_str rx_sem q)
qed

lemma json_string_then:
  assumes "list_all plain v"
  shows "rx_all (Seq (Grp n json_string_rx) k) (p, 34 # v @ 34 # s, c)
    = rx_all k (Some 34, s, (n, 34 # v @ [34]) # c)"
proof -
  let ?r = "Alt (Cls (\<lambda>c. c \<noteq> 34 \<and> c \<noteq> 92)) (Seq (Lit [92]) (Cls dot_char))"
  have "rx_all (Seq (Star ?r) (Seq (Lit [34]) Eps)) (Some 34, v @ 34 # s, c)
      = rx_all (Seq (Lit [34]) Eps) (after (Some 34) v, 34 # s, c)"
    by (rule star_then) (use assms in \<open>auto simp: list_all_iff plain_def printable_def rx_sem\<close>)
  then have "rx_all json_string_rx (p, 34 # v @ 34 # s, c) = [(Some 34, s, c)]"
    by (simp add: json_string_rx_def rx_sem)
  then show ?thesis by (simp add: rx_all.simps(5))
qed

lemma parse_has:
  assumes "u \<noteq> []" "list_all plain u" "list_all plain v"
  shows "tryParseRequestCondition (js ''has(header('' @ 34 # u @ 34 # js ''), '' @ 34 # v @ [34, 41])
      = Inr (Some (path_condition True u MATCH_CONTAINS v))"
proof -
  note q = quoted_name_then [OF assms(1) plain_quoted(2) [OF assms(2)]]
  have "rx_at HEADER_HAS_REGEX (js ''has(header('' @ 34 # u @ 34 # js ''), '' @ 34 # v @ [34, 41])
      = Some [(2, 34 # v @ [34]), (1, u)]"
    using json_string_then [OF assms(3), of 2]
    by (simp add: rx_at_def HEADER_HAS_REGEX_def js_str rx_sem q)
  moreover have "rx_at HEADER_EXISTS_REGEX (js ''has(header('' @ s) = None"
    "rx_at PARAM_EXISTS_REGEX (js ''has(header('' @ s) = None" for s
    by (simp_all add: rx_at_def HEADER_EXISTS_REGEX_def PARAM_EXISTS_REGEX_def js_str rx_sem)
  moreover have "tryParseTimeCondition (js ''has(header('' @ s) = None" for s
    by (rule not_time) (simp add: js_str)
  ultimately show ?thesis
    using plain_json [OF assms(3)] by (simp add: tryParseRequestCondition_def parse_string_def)
qed

text \<open>The literal of an equality: what is printed reads back as the same text.\<close>

lemma literal_shape:
  assumes "plain_text v"
  shows "list_all dot_char (buildExprLiteral MATCH_EQ v)" "buildExprLiteral MATCH_EQ v \<noteq> []"
    and "parseExprLiteral (buildExprLiteral MATCH_EQ v) = JStr v"
proof -
  have t: "trim v = v" and p: "list_all plain v" using assms by (auto simp: plain_text_def)
  have q: "json_quote v = 34 # v @ [34]" by (rule plain_quoted(1) [OF p])
  have n: "\<not> is_numeric (34 # v @ [34])"
    using is_numericD(1) [of "34 # v @ [34]"] by (auto simp: num_char_def is_digit_def)
  have tq: "trim (34 # v @ [34]) = 34 # v @ [34]"
    by (rule trim_id) (simp_all add: is_space_def white_space_def)
  have d: "list_all dot_char v" using p by (simp add: list_all_iff plain_def)
  show "list_all dot_char (buildExprLiteral MATCH_EQ v)"
    using d by (simp add: buildExprLiteral_def t q match_modes dot_char_def js_str)
  show "buildExprLiteral MATCH_EQ v \<noteq> []"
    using is_numericD(2) [of v] by (auto simp: buildExprLiteral_def t q match_modes js_str Let_def)
  show "parseExprLiteral (buildExprLiteral MATCH_EQ v) = JStr v"
    using plain_json [OF p] n
    by (simp add: buildExprLiteral_def parseExprLiteral_def t q tq match_modes js_str)
qed

lemma eq_then:
  assumes "u \<noteq> []" "list_all plain u" "l \<noteq> []" "list_all dot_char l" "src \<in> {js ''header'', js ''param''}"
  shows "rx_at EQ_REGEX (src @ 40 # 34 # u @ 34 # 41 # js '' == '' @ l) = Some [(3, l), (2, u), (1, src)]"
proof -
  note q = quoted_name_then [OF assms(1) plain_quoted(2) [OF assms(2)]]
  have "rx_all (Seq (Grp 3 (Plus (Cls dot_char))) (Seq Eol Eps)) (p, l @ [], c)
      = rx_all (Seq Eol Eps) (after p l, [], (3, l) # c)" for p c
    by (rule cls_grp_plus_then) (use assms in \<open>auto simp: rx_sem\<close>)
  moreover have "rx_all (Seq (Grp 1 (ralt [Lit (js ''param''), Lit (js ''header'')])) k) (p, src @ s, c)
      = rx_all k (Some (last src), s, (1, src) # c)" for k p s c
    using assms(5) by (auto simp: js_str rx_sem rx_all.simps(5))
  ultimately show ?thesis by (simp add: rx_at_def EQ_REGEX_def q js_str rx_sem)
qed

lemma parse_eq:
  assumes "u \<noteq> []" "list_all plain u" "plain_text v"
  shows "tryParseRequestCondition ((if h then js ''header('' else js ''param('') @ 34 # u @ 34 # js '') == ''
      @ buildExprLiteral MATCH_EQ v) = Inr (Some (path_condition h u MATCH_EQ v))"
proof -
  note q = quoted_name_then [OF assms(1) plain_quoted(2) [OF assms(2)]]
  let ?e = "(if h then js ''header('' else js ''param('') @ 34 # u @ 34 # js '') == '' @ buildExprLiteral MATCH_EQ v"
  have "tryParseTimeCondition ?e = None" by (rule not_time) (simp add: js_str)
  moreover have "rx_at HEADER_EXISTS_REGEX ?e = None" "rx_at PARAM_EXISTS_REGEX ?e = None"
    "rx_at HEADER_HAS_REGEX ?e = None" "rx_at PARAM_HAS_REGEX ?e = None" "rx_at PARAM_CMP_REGEX ?e = None"
    by (simp_all add: rx_at_def HEADER_EXISTS_REGEX_def PARAM_EXISTS_REGEX_def HEADER_HAS_REGEX_def
        PARAM_HAS_REGEX_def PARAM_CMP_REGEX_def js_str rx_sem q)
  moreover have "rx_at EQ_REGEX ?e
      = Some [(3, buildExprLiteral MATCH_EQ v), (2, u), (1, if h then js ''header'' else js ''param'')]"
    using eq_then [OF assms(1,2) literal_shape(2,1) [OF assms(3)], of "if h then js ''header'' else js ''param''"]
    by (auto simp: js_str)
  ultimately show ?thesis
    using literal_shape(3) [OF assms(3)]
    by (simp add: tryParseRequestCondition_def) (auto simp: js_str)
qed

section \<open>Splitting outside parentheses\<close>

text \<open>Balanced from depth \<open>d\<close>: closing parentheses never lead, and all are closed at the end.\<close>

fun bal :: "nat \<Rightarrow> jstring \<Rightarrow> bool" where
  "bal d [] = (d = 0)"
| "bal d (c # s) = (if c = 40 then bal (Suc d) s else if c = 41 then 0 < d \<and> bal (d - 1) s else bal d s)"

lemma bal_append_gen: "bal k u \<Longrightarrow> bal (k + d) (u @ s) = bal d s"
proof (induction u arbitrary: k)
  case (Cons c u)
  then show ?case
    using Cons.IH [of "Suc k"] Cons.IH [of k] Cons.IH [of "k - 1"] by (cases k) (auto split: if_splits)
qed simp

lemma bal_append: "bal 0 u \<Longrightarrow> bal d (u @ s) = bal d s"
  using bal_append_gen [of 0 u d s] by simp

lemma bal_no_parens: "40 \<notin> set u \<Longrightarrow> 41 \<notin> set u \<Longrightarrow> bal d (u @ s) = bal d s"
  by (induction u) auto

lemma split_top_simps [simp]:
  "split_top sep d cur [] = [trim cur]"
  "split_top sep d cur (c # t) =
     (if paren_step c d = 0 \<and> prefix sep (c # t)
      then trim cur # split_top sep (paren_step c d) [] (drop (length sep - 1) t)
      else split_top sep (paren_step c d) (cur @ [c]) t)"
  by (subst split_top.simps; simp add: Let_def)+

text \<open>A part that the split at \<open>sep\<close> never cuts.\<close>

definition whole_part :: "jstring \<Rightarrow> jstring \<Rightarrow> bool" where
  "whole_part sep u \<longleftrightarrow>
     (\<forall>cur s. s = [] \<or> prefix sep s \<longrightarrow> split_top sep 0 cur (u @ s) = split_top sep 0 (cur @ u) s)"

lemma split_top_sep:
  assumes "sep \<noteq> []" "hd sep \<noteq> 40" "hd sep \<noteq> 41"
  shows "split_top sep 0 cur (sep @ s) = trim cur # split_top sep 0 [] s"
proof -
  obtain x t where "sep = x # t" using assms(1) by (cases sep) auto
  then show ?thesis using assms by (simp add: paren_step_def)
qed

lemma split_top_join:
  assumes "us \<noteq> []" "list_all (whole_part sep) us" "sep \<noteq> []" "hd sep \<noteq> 40" "hd sep \<noteq> 41"
  shows "split_top sep 0 [] (join sep us) = map trim us"
  using assms
proof (induction sep us rule: join.induct)
  case (2 sep u)
  then have "split_top sep 0 [] (u @ []) = split_top sep 0 ([] @ u) []"
    by (simp add: whole_part_def del: append_Nil2)
  then show ?case by simp
next
  case (3 sep u v us)
  have "split_top sep 0 [] (u @ sep @ join sep (v # us)) = split_top sep 0 u (sep @ join sep (v # us))"
    using "3.prems"(2) by (simp add: whole_part_def)
  then show ?case using 3 split_top_sep by simp
qed simp

lemma split_top_inner:
  "bal k w \<Longrightarrow> split_top sep (int k + 1) cur (w @ s) = split_top sep 1 (cur @ w) s"
proof (induction w arbitrary: k cur)
  case (Cons c w)
  consider "c = 40" | "c = 41" "0 < k" | "c \<noteq> 40" "c \<noteq> 41" using Cons.prems by (auto split: if_splits)
  then show ?case
  proof cases
    case 1
    then show ?thesis using Cons.prems Cons.IH [of "Suc k" "cur @ [c]"]
      by (simp add: paren_step_def add.commute)
  next
    case 2
    then obtain j where "k = Suc j" by (cases k) auto
    then show ?thesis using 2 Cons.prems Cons.IH [of j "cur @ [c]"]
      by (simp add: paren_step_def add.commute)
  next
    case 3
    then show ?thesis using Cons.prems Cons.IH [of k "cur @ [c]"]
      by (simp add: paren_step_def)
  qed
qed simp

lemma whole_parens:
  assumes "bal 0 w" "sep \<noteq> []" "hd sep \<noteq> 40" "hd sep \<noteq> 41"
  shows "whole_part sep (40 # w @ [41])"
proof -
  obtain x t where sep: "sep = x # t" using assms(2) by (cases sep) auto
  have "split_top sep 0 cur (40 # w @ 41 # s) = split_top sep 0 (cur @ 40 # w @ [41]) s" for cur s
  proof -
    have "split_top sep 0 cur (40 # w @ 41 # s) = split_top sep 1 (cur @ [40]) (w @ 41 # s)"
      by (simp add: paren_step_def)
    also have "\<dots> = split_top sep 1 (cur @ 40 # w) (41 # s)"
      using split_top_inner [OF assms(1), of sep "cur @ [40]" "41 # s"] by simp
    also have "\<dots> = split_top sep 0 (cur @ 40 # w @ [41]) s"
      using assms(4) by (simp add: paren_step_def sep)
    finally show ?thesis .
  qed
  then show ?thesis by (simp add: whole_part_def)
qed

lemma split_top_no_amp:
  assumes "38 \<notin> set u" "s = [] \<or> hd s \<noteq> 38"
  shows "split_top (js '' && '') d cur (u @ s) = split_top (js '' && '') (fold paren_step u d) (cur @ u) s"
  using assms
proof (induction u arbitrary: d cur)
  case (Cons c u)
  then have "\<not> prefix (js '' && '') (c # u @ s)"
    by (cases u; cases s) (auto simp: js_str)
  with Cons show ?case by simp
qed simp

lemma fold_depth: "bal k u \<Longrightarrow> fold paren_step u (int k) = 0"
proof (induction u arbitrary: k)
  case (Cons c u)
  consider "c = 40" "bal (Suc k) u" | j where "c = 41" "k = Suc j" "bal j u"
    | "c \<noteq> 40" "c \<noteq> 41" "bal k u"
    using Cons.prems by (cases k) (auto split: if_splits)
  then show ?case
    by cases (use Cons.IH [of "Suc k"] Cons.IH in \<open>auto simp: paren_step_def add.commute\<close>)
qed simp

lemma whole_and: "38 \<notin> set u \<Longrightarrow> bal 0 u \<Longrightarrow> whole_part (js '' && '') u"
proof -
  assume u: "38 \<notin> set u" "bal 0 u"
  have "s = [] \<or> prefix (js '' && '') s \<Longrightarrow> s = [] \<or> hd s \<noteq> 38" for s
    by (auto simp: js_str prefix_def)
  then show ?thesis using fold_depth [of 0 u] u by (simp add: whole_part_def split_top_no_amp)
qed

section \<open>Rule factors\<close>

lemma star_any:
  "rx_all (Star (Cls (\<lambda>_. True))) (p, s, c)
    = map (\<lambda>i. (after p (take i s), drop i s, c)) (rev [0..<Suc (length s)])"
proof (induction s arbitrary: p)
  case (Cons x s)
  have "[0..<Suc (length (x # s))] = 0 # map Suc [0..<Suc (length s)]"
    by (simp add: map_Suc_upt upt_conv_Cons del: upt_Suc)
  then show ?case using Cons [of "Some x"]
    by (simp add: rev_map after_def comp_def del: upt_Suc)
qed (simp add: after_def)

lemma grp_plus_any:
  assumes "s \<noteq> []"
  shows "rx_all (Seq (Grp n (Plus (Cls (\<lambda>_. True)))) k) (p, s, c)
    = concat (map (\<lambda>i. rx_all k (after p (take i s), drop i s, (n, take i s) # c)) (rev [1..<Suc (length s)]))"
proof -
  obtain x w where s: "s = x # w" using assms by (cases s) auto
  have i: "[1..<Suc (length s)] = map Suc [0..<Suc (length w)]"
    by (simp add: s map_Suc_upt del: upt_Suc)
  have a: "after (Some x) u = after p (x # u)" for u by (simp add: after_def)
  have "rx_all (Seq (Grp n (Plus (Cls (\<lambda>_. True)))) k) (p, s, c)
      = concat (map (\<lambda>i. rx_all k (after (Some x) (take i w), drop i w,
          (n, take (Suc (length w) - length (drop i w)) s) # c)) (rev [0..<Suc (length w)]))"
    by (simp add: s rx_all.simps(5) Plus_def star_any comp_def del: upt_Suc length_drop rx_all.simps(7))
  also have "\<dots> = concat (map (\<lambda>i. rx_all k (after p (take i s), drop i s, (n, take i s) # c))
      (rev (map Suc [0..<Suc (length w)])))"
    unfolding rev_map map_map by (rule arg_cong [where f = concat], rule map_cong) (auto simp: s a Suc_diff_le)
  finally show ?thesis by (simp only: i)
qed

lemma concat_only:
  assumes "a \<in> set xs" "distinct xs" "\<And>x. x \<in> set xs \<Longrightarrow> x \<noteq> a \<Longrightarrow> f x = []"
  shows "concat (map f xs) = f a"
  using assms
proof (induction xs)
  case (Cons x xs)
  show ?case
  proof (cases "x = a")
    case True
    then have "concat (map f xs) = []" using Cons.prems by (auto simp: concat_eq_Nil_conv)
    then show ?thesis using True by simp
  qed (use Cons in auto)
qed simp

abbreviation factor_tail :: rx where
  "factor_tail \<equiv> rseq [Lit (js '' ? ''), Grp 2 (Plus (Cls num_char)), Lit (js '' : 1)''), Eol]"

lemma factor_tail_text:
  assumes "st \<in> set (rx_all factor_tail (p, y, c))"
  shows "\<exists>m. y = js '' ? '' @ m @ js '' : 1)'' \<and> list_all num_char m"
proof -
  obtain s1 s2 s3 where 1: "s1 \<in> set (eat (js '' ? '') (p, y, c))"
    and 2: "s2 \<in> set (rx_all (Grp 2 (Plus (Cls num_char))) s1)"
    and 3: "s3 \<in> set (eat (js '' : 1)'') s2)" and 4: "fst (snd s3) = []"
    using assms by (auto simp: rx_all.simps(5) split: if_splits)
  have "y = js '' ? '' @ fst (snd s1)" using 1 by (auto simp: eat_def prefix_def split: if_splits)
  moreover obtain m where "fst (snd s1) = m @ fst (snd s2)" "list_all num_char m"
    using rx_all_made_of [OF 2, of num_char] by (auto simp: Plus_def)
  moreover have "fst (snd s2) = js '' : 1)''"
    using 3 4 by (cases s2) (auto simp: eat_def prefix_def split: if_splits)
  ultimately show ?thesis by auto
qed

lemma factor_tail_unique:
  assumes "X @ js '' ? '' @ m @ js '' : 1)'' = Y @ js '' ? '' @ n @ js '' : 1)''"
    and "list_all num_char m" "list_all num_char n"
  shows "X = Y"
proof -
  have "rev m @ 32 # 63 # 32 # rev X = rev n @ 32 # 63 # 32 # rev Y"
    using arg_cong [OF assms(1), of rev] by (simp add: js_str)
  moreover have "takeWhile num_char (rev m @ 32 # 63 # 32 # rev X) = rev m"
    "takeWhile num_char (rev n @ 32 # 63 # 32 # rev Y) = rev n"
    using assms(2,3) by (simp_all add: takeWhile_append list_all_iff num_char_def is_digit_def)
  ultimately have "rev m = rev n" by simp
  with \<open>rev m @ _ = rev n @ _\<close> show ?thesis by simp
qed

lemma rule_factor_match:
  assumes "X \<noteq> []" "is_numeric m"
  shows "rx_at RULE_FACTOR_REGEX (40 # X @ js '' ? '' @ m @ js '' : 1)'') = Some [(2, m), (1, X)]"
proof -
  let ?T = "js '' ? '' @ m @ js '' : 1)''"
  let ?s = "X @ ?T"
  define f where "f i = rx_all factor_tail (after (Some 40) (take i ?s), drop i ?s, [(1, take i ?s)])" for i
  have none: "f i = []" if "i \<le> length ?s" "i \<noteq> length X" for i
  proof (rule ccontr)
    assume "f i \<noteq> []"
    then obtain st where "st \<in> set (f i)" by (cases "f i") auto
    then obtain n where n: "drop i ?s = js '' ? '' @ n @ js '' : 1)''" "list_all num_char n"
      unfolding f_def using factor_tail_text by blast
    have "take i ?s @ js '' ? '' @ n @ js '' : 1)'' = ?s"
      using append_take_drop_id [of i ?s] by (simp only: n)
    then have "X = take i ?s"
      using factor_tail_unique [of X m "take i ?s" n] n(2) is_numericD(1) [OF assms(2)] by simp
    then have "length X = i" using that(1) by (metis length_take min.absorb2)
    with that(2) show False by simp
  qed
  have "rx_all (Seq (Grp 1 (Plus (Cls (\<lambda>_. True)))) factor_tail) (Some 40, ?s, [])
      = concat (map f (rev [1..<Suc (length ?s)]))"
    unfolding f_def by (rule grp_plus_any) (use assms(1) in simp)
  also have "\<dots> = f (length X)"
    by (rule concat_only) (use assms(1) none in \<open>auto simp: Suc_le_eq\<close>)
  also have "\<dots> = [(Some 41, [], [(2, m), (1, X)])]"
    using num_lit(1) [OF assms(2), of 32 2 "[58, 32, 49, 41]"]
    by (simp add: f_def js_str rx_sem num_char_def is_digit_def)
  finally show ?thesis by (simp add: rx_at_def RULE_FACTOR_REGEX_def js_str rx_sem)
qed

section \<open>Rules read back\<close>

text \<open>What the split and the factor need of the text of a condition.\<close>

definition reads_as :: "RequestCondition \<Rightarrow> jstring \<Rightarrow> bool" where
  "reads_as c e \<longleftrightarrow>
     e \<noteq> [] \<and> trim e = e \<and> 38 \<notin> set e \<and> bal 0 e \<and> tryParseRequestCondition e = Inr (Some c)"

definition no_marks :: "jstring \<Rightarrow> bool" where
  "no_marks s \<longleftrightarrow> 38 \<notin> set s \<and> 40 \<notin> set s \<and> 41 \<notin> set s"

lemma no_marks_bal:
  "no_marks u \<Longrightarrow> bal d (u @ s) = bal d s" "no_marks u \<Longrightarrow> bal d u = (d = 0)"
  using bal_no_parens [of u d s] bal_no_parens [of u d "[]"] by (simp_all add: no_marks_def)

lemma no_marks_plain: "list_all plain s \<Longrightarrow> no_marks s"
  by (auto simp: no_marks_def list_all_iff plain_def)

lemma no_marks_numeric: "is_numeric s \<Longrightarrow> no_marks s"
  using is_numericD(1) [of s] by (auto simp: no_marks_def list_all_iff num_char_def is_digit_def)

lemma time_func_text:
  assumes "f \<in> set TIME_FUNCS"
  shows "no_marks f" "f \<noteq> []" "\<not> is_space (hd f)"
  using assms by (auto simp: TIME_FUNCS_def no_marks_def js_str is_space_def white_space_def)

lemma last_numeric: "is_numeric s \<Longrightarrow> \<not> is_space (last s)"
  using is_numericD [of s] by (simp add: list_all_iff num_char_not_space)

lemma normalize_time_ok:
  "condition_ok (TimeCond t) \<Longrightarrow> normalize_time (partial_of (TimeCond t)) = t"
  by (cases t) (auto simp: normalize_time_def isTimeFunc_def mode_or_def getRequestRuleMatchOptions_def
      str_or_def text_or_empty_def empty_partial_def)

lemma normalize_path_ok:
  "condition_ok (PathCond h) \<Longrightarrow> normalize_path (ph_header h) (partial_of (PathCond h)) = h"
  by (cases h) (auto simp: normalize_path_def mode_or_def getRequestRuleMatchOptions_def
      str_or_def text_or_empty_def empty_partial_def)

lemma time_ops:
  assumes "mode \<in> {MATCH_EQ, MATCH_GTE, MATCH_LT}"
  shows "time_op_mode (time_mode_op mode) = mode"
    and "time_mode_op mode \<in> {js ''=='', js ''>='', js ''<''}" and "mode \<noteq> MATCH_RANGE"
  using assms by (auto simp: time_op_mode_def time_mode_op_def match_modes js_str)

lemma time_cmp_reads:
  assumes "condition_ok (TimeCond t)" "tc_mode t \<noteq> MATCH_RANGE"
  shows "reads_as (TimeCond t) (buildRequestConditionExpr (TimeCond t))"
    and "124 \<notin> set (buildRequestConditionExpr (TimeCond t))"
proof -
  let ?f = "tc_timeFunc t" and ?tz = "tc_timezone t" and ?v = "tc_value t" and ?op = "time_mode_op (tc_mode t)"
  let ?e = "?f @ 40 # 34 # ?tz @ 34 # 41 # 32 # ?op @ 32 # ?v"
  have a: "?f \<in> set TIME_FUNCS" "?tz \<noteq> []" "list_all plain ?tz" "is_numeric ?v"
    "tc_mode t \<in> {MATCH_EQ, MATCH_GTE, MATCH_LT}" "tc_rangeStart t = []" "tc_rangeEnd t = []"
    using assms by auto
  note f = time_func_text [OF a(1)] and v = trim_numeric [OF a(4)] last_numeric [OF a(4)] is_numericD(2) [OF a(4)]
  have op: "no_marks ?op" using time_ops(2) [OF a(5)] by (auto simp: no_marks_def js_str)
  have e: "buildRequestConditionExpr (TimeCond t) = ?e"
    using assms normalize_time_ok [OF assms(1)] a v
    by (simp add: buildRequestConditionExpr_def buildTimeConditionExpr_def build_time_def plain_quoted js_str)
  have "124 \<notin> set ?f" "124 \<notin> set ?op" using a(1) time_ops(2) [OF a(5)] by (auto simp: TIME_FUNCS_def js_str)
  then show "124 \<notin> set (buildRequestConditionExpr (TimeCond t))"
    using a(3) is_numericD(1) [OF a(4)]
    by (auto simp: e list_all_iff plain_def num_char_def is_digit_def)
  note e
  moreover have "trim ?e = ?e" by (rule trim_id) (use f v in auto)
  moreover have "38 \<notin> set ?e" "bal 0 ?e"
    using f(1) op no_marks_plain [OF a(3)] no_marks_numeric [OF a(4)] no_marks_bal
    by (simp_all add: no_marks_def)
  moreover have "tryParseRequestCondition ?e = Inr (Some (TimeCond t))"
    using parse_time_cmp [OF a(1-4) time_ops(2) [OF a(5)]] a time_ops(1) [OF a(5)]
    by (simp add: tryParseRequestCondition_def)
  ultimately show "reads_as (TimeCond t) (buildRequestConditionExpr (TimeCond t))"
    by (simp add: reads_as_def)
qed

lemma range_reads:
  assumes "condition_ok (TimeCond t)" "tc_mode t = MATCH_RANGE"
  defines "e \<equiv> buildRequestConditionExpr (TimeCond t)"
  shows "reads_as (TimeCond t) e" "reads_as (TimeCond t) (40 # e @ [41])" "str_includes e (js '' || '')"
proof -
  let ?f = "tc_timeFunc t" and ?tz = "tc_timezone t" and ?a = "tc_rangeStart t" and ?b = "tc_rangeEnd t"
  have a: "?f \<in> set TIME_FUNCS" "?tz \<noteq> []" "list_all plain ?tz" "is_numeric ?a" "is_numeric ?b" "tc_value t = []"
    using assms by (auto simp: match_modes js_str)
  note f = time_func_text [OF a(1)] and v = trim_numeric [OF a(4)] trim_numeric [OF a(5)]
    last_numeric [OF a(5)] is_numericD(2) [OF a(5)]
  have e: "e = range_text ?f ?tz ?a ?b"
    using assms normalize_time_ok [OF assms(1)] a v
    by (simp add: e_def buildRequestConditionExpr_def buildTimeConditionExpr_def build_time_def plain_quoted
        range_text_def js_str)
  have t: "trim e = e" unfolding e by (rule trim_id) (use f v in \<open>auto simp: range_text_def\<close>)
  have m: "38 \<notin> set e" "bal 0 e" "e \<noteq> []"
    unfolding e range_text_def
    using f no_marks_plain [OF a(3)] no_marks_numeric [OF a(4)] no_marks_numeric [OF a(5)] no_marks_bal
    by (simp_all add: no_marks_def js_str)
  have p: "tryParseRequestCondition e = Inr (Some (TimeCond t))"
    "tryParseRequestCondition (40 # e @ [41]) = Inr (Some (TimeCond t))"
    using parse_range [OF a(1-5)] a(6) assms(2)
    by (simp_all add: tryParseRequestCondition_def e)
  show "reads_as (TimeCond t) e" using t m p(1) by (simp add: reads_as_def)
  have "trim (40 # e @ [41]) = 40 # e @ [41]"
    by (rule trim_id) (simp_all add: is_space_def white_space_def)
  then show "reads_as (TimeCond t) (40 # e @ [41])"
    using m p(2) bal_append_gen [OF m(2), of 1 "[41]"] by (simp add: reads_as_def)
  have "e = (?f @ 40 # 34 # ?tz @ 34 # 41 # js '' >= '' @ ?a) @ js '' || ''
      @ ?f @ 40 # 34 # ?tz @ 34 # 41 # js '' < '' @ ?b"
    by (simp add: e range_text_def)
  then have "sublist (js '' || '') e" by (simp only: sublist_appendI)
  then show "str_includes e (js '' || '')" by (simp add: includes_iff_sublist)
qed

lemma path_reads:
  assumes "condition_ok (PathCond h)"
  defines "e \<equiv> buildRequestConditionExpr (PathCond h)"
  shows "reads_as (PathCond h) e" "124 \<notin> set e"
proof -
  let ?u = "ph_path h" and ?v = "ph_value h"
  let ?src = "if ph_header h then js ''header('' else js ''param(''"
  have a: "?u \<noteq> []" "list_all plain ?u" "trim ?u = ?u" "plain_text ?v" "list_all plain ?v" "trim ?v = ?v"
    using assms by (auto simp: plain_text_def)
  have h: "PathCond h = path_condition (ph_header h) ?u (ph_mode h) ?v"
    by (cases h) (simp add: path_condition_def)
  have b: "e = build_path h"
    using normalize_path_ok [OF assms(1)] by (simp add: e_def buildRequestConditionExpr_def)
  have u: "no_marks ?u" "124 \<notin> set ?u" and v: "no_marks ?v" "124 \<notin> set ?v"
    using no_marks_plain [OF a(2)] no_marks_plain [OF a(5)] a(2,5) by (auto simp: list_all_iff plain_def)
  consider "ph_mode h = MATCH_EXISTS" "?v = []" | "ph_mode h = MATCH_EQ"
    | "ph_mode h = MATCH_CONTAINS" "ph_header h"
    using assms by auto
  then have "reads_as (PathCond h) e \<and> 124 \<notin> set e"
  proof cases
    case 1
    then have e: "e = ?src @ 34 # ?u @ 34 # (if ph_header h then js '') != '' @ [34, 34] else js '') != nil'')"
      using a by (simp add: b build_path_def plain_quoted match_modes js_str)
    have "trim e = e" unfolding e by (rule trim_id) (simp_all add: js_str is_space_def white_space_def)
    then show ?thesis
      using 1 u no_marks_bal parse_exists [OF a(1,2)] h by (simp add: reads_as_def e no_marks_def js_str)
  next
    case 2
    let ?l = "buildExprLiteral MATCH_EQ ?v"
    have e: "e = ?src @ 34 # ?u @ 34 # js '') == '' @ ?l"
      using 2 a by (simp add: b build_path_def plain_quoted match_modes js_str)
    have l: "no_marks ?l" "124 \<notin> set ?l" "\<not> is_space (last ?l)" "?l \<noteq> []"
      using v a literal_shape(2) [OF a(4)] last_numeric [of ?v]
      by (auto simp: buildExprLiteral_def plain_quoted match_modes js_str no_marks_def is_space_def
          white_space_def Let_def)
    have "trim e = e" unfolding e by (rule trim_id) (use l in \<open>simp_all add: js_str is_space_def white_space_def\<close>)
    then show ?thesis
      using 2 u l no_marks_bal parse_eq [OF a(1,2,4), of "ph_header h"] h
      by (simp add: reads_as_def e no_marks_def js_str)
  next
    case 3
    then have e: "e = js ''has(header('' @ 34 # ?u @ 34 # js ''), '' @ 34 # ?v @ [34, 41]"
      using a by (simp add: b build_path_def buildExprLiteral_def plain_quoted match_modes js_str)
    have "trim e = e" unfolding e by (rule trim_id) (simp_all add: js_str is_space_def white_space_def)
    then show ?thesis
      using 3 u v no_marks_bal parse_has [OF a(1,2,5)] h by (simp add: reads_as_def e no_marks_def js_str)
  qed
  then show "reads_as (PathCond h) e" "124 \<notin> set e" by auto
qed

definition wrap_or :: "jstring \<Rightarrow> jstring" where
  "wrap_or e = (if str_includes e (js '' || '') then js ''('' @ e @ js '')'' else e)"

lemma wrap_or_id: "124 \<notin> set e \<Longrightarrow> wrap_or e = e"
proof -
  have "sublist (js '' || '') e \<Longrightarrow> 124 \<in> set e"
    using set_mono_sublist [of "js '' || ''" e] by (auto simp: js_str)
  then show "124 \<notin> set e \<Longrightarrow> wrap_or e = e" by (auto simp: wrap_or_def includes_iff_sublist)
qed

lemma condition_reads:
  assumes "condition_ok c"
  shows "reads_as c (buildRequestConditionExpr c)" "reads_as c (wrap_or (buildRequestConditionExpr c))"
proof -
  have "reads_as c (buildRequestConditionExpr c) \<and> reads_as c (wrap_or (buildRequestConditionExpr c))"
  proof (cases c)
    case (TimeCond t)
    show ?thesis
    proof (cases "tc_mode t = MATCH_RANGE")
      case True
      then show ?thesis using range_reads [of t] assms TimeCond by (simp add: wrap_or_def js_str)
    next
      case False
      then show ?thesis using time_cmp_reads [of t] assms TimeCond by (simp add: wrap_or_id)
    qed
  next
    case (PathCond h)
    then show ?thesis using path_reads [of h] assms by (simp add: wrap_or_id)
  qed
  then show "reads_as c (buildRequestConditionExpr c)" "reads_as c (wrap_or (buildRequestConditionExpr c))"
    by auto
qed

lemma split_and_parts:
  assumes "list_all2 reads_as cs es" "es \<noteq> []"
  shows "splitTopLevelAnd (join (js '' && '') es) = es" "bal 0 (join (js '' && '') es)"
    and "collect (\<lambda>ap. tryParseRequestCondition (trim ap)) es = Inr (Some cs)"
proof -
  have e: "\<forall>e\<in>set es. e \<noteq> [] \<and> trim e = e \<and> 38 \<notin> set e \<and> bal 0 e"
    using assms(1) by (induction rule: list_all2_induct) (auto simp: reads_as_def)
  have "split_top (js '' && '') 0 [] (join (js '' && '') es) = map trim es"
  proof (rule split_top_join)
    show "list_all (whole_part (js '' && '')) es" using e by (auto simp: list_all_iff intro: whole_and)
  qed (use assms(2) in \<open>simp_all add: js_str\<close>)
  also have "\<dots> = es" using e by (simp add: map_idI)
  finally show "splitTopLevelAnd (join (js '' && '') es) = es"
    using e by (simp add: splitTopLevelAnd_def filter_id_conv)
  show "bal 0 (join (js '' && '') es)"
    using assms(2) e
  proof (induction "js '' && ''" es rule: join.induct)
    case (3 u v us)
    then show ?case by (simp add: bal_append) (simp add: js_str)
  qed auto
  show "collect (\<lambda>ap. tryParseRequestCondition (trim ap)) es = Inr (Some cs)"
    using assms(1) by (induction rule: list_all2_induct) (auto simp: reads_as_def)
qed

definition rule_ok :: "RequestRuleGroup \<Rightarrow> bool" where
  "rule_ok g \<longleftrightarrow> rg_conditions g \<noteq> [] \<and> list_all condition_ok (rg_conditions g) \<and> is_numeric (rg_multiplier g)"

lemma list_all2_map_reads:
  "list_all condition_ok cs \<Longrightarrow> list_all2 reads_as cs (map buildRequestConditionExpr cs)"
  "list_all condition_ok cs \<Longrightarrow> list_all2 reads_as cs (map (wrap_or \<circ> buildRequestConditionExpr) cs)"
  by (induction cs) (auto simp: condition_reads)

lemma factor_reads:
  assumes "rule_ok g"
  obtains X where "buildRuleGroupFactor g = 40 # (X @ js '' ? '' @ rg_multiplier g @ js '' : 1'') @ [41]"
    and "bal 0 (X @ js '' ? '' @ rg_multiplier g @ js '' : 1'')"
    and "tryParseRuleGroupFactor (buildRuleGroupFactor g) = Inr (Some g)"
proof -
  let ?cs = "rg_conditions g" and ?m = "rg_multiplier g"
  have ok: "?cs \<noteq> []" "list_all condition_ok ?cs" "is_numeric ?m" using assms by (auto simp: rule_ok_def)
  have ne: "buildRequestConditionExpr c \<noteq> []" if "c \<in> set ?cs" for c
    using condition_reads(1) [of c] ok(2) that by (auto simp: list_all_iff reads_as_def)
  then have fl: "filter (\<lambda>e. e \<noteq> []) (map buildRequestConditionExpr ?cs) = map buildRequestConditionExpr ?cs"
    by (simp add: filter_id_conv)
  define es where "es = (if length ?cs = 1 then map buildRequestConditionExpr ?cs
    else map (wrap_or \<circ> buildRequestConditionExpr) ?cs)"
  have r: "list_all2 reads_as ?cs es" "es \<noteq> []" using list_all2_map_reads [OF ok(2)] ok(1) by (auto simp: es_def)
  define X where "X = join (js '' && '') es"
  have b: "buildRuleGroupFactor g = 40 # (X @ js '' ? '' @ ?m @ js '' : 1'') @ [41]"
  proof -
    have "X = (if length ?cs = 1 then hd (map buildRequestConditionExpr ?cs)
        else join (js '' && '') (map wrap_or (map buildRequestConditionExpr ?cs)))"
      by (cases ?cs) (auto simp: X_def es_def)
    then show ?thesis
      using ok trim_numeric [OF ok(3)] by (simp add: buildRuleGroupFactor_def fl wrap_or_def [abs_def] js_str)
  qed
  have X: "X \<noteq> []"
  proof (cases es)
    case (Cons e es')
    then show ?thesis using r(1) by (cases es') (auto simp: X_def reads_as_def list_all2_Cons2)
  qed (use r(2) in simp)
  have "bal 0 (X @ js '' ? '' @ ?m @ js '' : 1'')"
    using split_and_parts(2) [OF r] no_marks_numeric [OF ok(3)] no_marks_bal
    by (simp add: X_def bal_append) (simp add: js_str no_marks_bal(1))
  moreover have "tryParseRuleGroupFactor (buildRuleGroupFactor g) = Inr (Some g)"
    using rule_factor_match [OF X ok(3)] split_and_parts(1,3) [OF r] ok(1)
    by (simp add: tryParseRuleGroupFactor_def b X_def js_str)
  ultimately show ?thesis using b that by blast
qed

lemma rules_read:
  assumes "list_all rule_ok gs"
  shows "collect tryParseRuleGroupFactor (map buildRuleGroupFactor gs) = Inr (Some gs)"
    and "filter (\<lambda>s. s \<noteq> []) (map buildRuleGroupFactor gs) = map buildRuleGroupFactor gs"
    and "list_all (whole_part (js '' * '')) (map buildRuleGroupFactor gs)"
    and "map trim (map buildRuleGroupFactor gs) = map buildRuleGroupFactor gs"
proof -
  have g: "tryParseRuleGroupFactor (buildRuleGroupFactor g) = Inr (Some g)"
    "buildRuleGroupFactor g \<noteq> []" "whole_part (js '' * '') (buildRuleGroupFactor g)"
    "trim (buildRuleGroupFactor g) = buildRuleGroupFactor g" if "rule_ok g" for g
  proof -
    note ok = that
    obtain X where X: "buildRuleGroupFactor g = 40 # (X @ js '' ? '' @ rg_multiplier g @ js '' : 1'') @ [41]"
      "bal 0 (X @ js '' ? '' @ rg_multiplier g @ js '' : 1'')"
      "tryParseRuleGroupFactor (buildRuleGroupFactor g) = Inr (Some g)"
      using factor_reads [OF ok] by blast
    show "tryParseRuleGroupFactor (buildRuleGroupFactor g) = Inr (Some g)" by (rule X(3))
    show "buildRuleGroupFactor g \<noteq> []" by (simp add: X(1))
    show "whole_part (js '' * '') (buildRuleGroupFactor g)"
      unfolding X(1) by (rule whole_parens [OF X(2)]) (simp_all add: js_str)
    show "trim (buildRuleGroupFactor g) = buildRuleGroupFactor g"
      unfolding X(1) by (rule trim_id) (simp_all add: is_space_def white_space_def)
  qed
  show "collect tryParseRuleGroupFactor (map buildRuleGroupFactor gs) = Inr (Some gs)"
    using assms by (induction gs) (auto simp: g)
  show "filter (\<lambda>s. s \<noteq> []) (map buildRuleGroupFactor gs) = map buildRuleGroupFactor gs"
    "list_all (whole_part (js '' * '')) (map buildRuleGroupFactor gs)"
    "map trim (map buildRuleGroupFactor gs) = map buildRuleGroupFactor gs"
    using assms g by (induction gs) auto
qed

lemma factor_ends:
  assumes "rule_ok g"
  shows "buildRuleGroupFactor g \<noteq> []" "hd (buildRuleGroupFactor g) = 40" "last (buildRuleGroupFactor g) = 41"
  by (rule factor_reads [OF assms]; simp)+

lemma rules_text:
  assumes "list_all rule_ok gs" "gs \<noteq> []"
  shows "buildRequestRuleExpr gs \<noteq> []" "hd (buildRequestRuleExpr gs) = 40" "last (buildRequestRuleExpr gs) = 41"
    and "trim (buildRequestRuleExpr gs) = buildRequestRuleExpr gs"
proof -
  define fs where "fs = map buildRuleGroupFactor gs"
  have f: "\<forall>f\<in>set fs. f \<noteq> [] \<and> hd f = 40 \<and> last f = 41"
    using assms(1) factor_ends by (auto simp: fs_def list_all_iff)
  moreover have "fs \<noteq> []" using assms(2) by (simp add: fs_def)
  ultimately have "join sep fs \<noteq> [] \<and> hd (join sep fs) = 40 \<and> last (join sep fs) = 41" for sep
  proof (induction sep fs rule: join.induct)
    case (3 sep u v us)
    then show ?case by simp
  qed auto
  then show 1: "buildRequestRuleExpr gs \<noteq> []" "hd (buildRequestRuleExpr gs) = 40" "last (buildRequestRuleExpr gs) = 41"
    using rules_read(2) [OF assms(1)] by (simp_all add: buildRequestRuleExpr_def fs_def)
  show "trim (buildRequestRuleExpr gs) = buildRequestRuleExpr gs"
    by (rule trim_id) (simp_all add: 1 is_space_def white_space_def)
qed

lemma request_rules_reads:
  assumes "list_all rule_ok gs"
  shows "tryParseRequestRuleExpr (buildRequestRuleExpr gs) = Inr (Some gs)"
proof (cases "gs = []")
  case False
  have "split_top (js '' * '') 0 [] (buildRequestRuleExpr gs) = map trim (map buildRuleGroupFactor gs)"
    unfolding buildRequestRuleExpr_def rules_read(2) [OF assms]
    by (rule split_top_join) (use False rules_read(3) [OF assms] in \<open>simp_all add: js_str\<close>)
  then have "splitTopLevelMultiply (buildRequestRuleExpr gs) = map buildRuleGroupFactor gs"
    unfolding splitTopLevelMultiply_def by (simp only: rules_read(2,4) [OF assms])
  then show ?thesis
    using rules_text [OF assms False] rules_read(1) [OF assms] by (simp add: tryParseRequestRuleExpr_def)
qed (simp add: tryParseRequestRuleExpr_def buildRequestRuleExpr_def)

text \<open>C22: a set of rules with plain texts that the editor prints is read back as it was. Each rule has a numeric
  multiplier and at least one condition, of the readable kinds: times of day with a time zone and numeric bounds,
  headers that exist, equal or contain a text, parameters that exist or equal a text. Paths, values and time zones
  are plain: printable, without quotes, backslashes, parentheses, ampersands, bars and surrogates, and paths and
  values have no spaces at their ends. The editor does not ask for plain texts; for such rules parsing the printed
  expression gives exactly those rules.\<close>

theorem request_rules_roundtrip:
  assumes "list_all rule_ok gs"
  shows "tryParseRequestRuleExpr (buildRequestRuleExpr gs) = Inr (Some gs)"
  by (rule request_rules_reads [OF assms])

definition demo_rules :: "RequestRuleGroup list" where
  "demo_rules =
     [\<lparr>rg_conditions =
         [path_condition True (js ''X-Beta'') MATCH_EQ (js ''on''),
          TimeCond \<lparr>tc_timeFunc = js ''hour'', tc_timezone = js ''UTC'', tc_mode = MATCH_RANGE, tc_value = [],
            tc_rangeStart = js ''22'', tc_rangeEnd = js ''6''\<rparr>],
        rg_multiplier = js ''1.5''\<rparr>,
      \<lparr>rg_conditions = [path_condition False (js ''stream'') MATCH_EXISTS []], rg_multiplier = js ''2''\<rparr>]"

lemma demo_rules_ok: "list_all rule_ok demo_rules"
  by code_simp

theorem request_rules_roundtrip_witness:
  "list_all rule_ok demo_rules
   \<and> tryParseRequestRuleExpr (buildRequestRuleExpr demo_rules) = Inr (Some demo_rules)"
  using request_rules_roundtrip [OF demo_rules_ok] demo_rules_ok by simp

section \<open>Splitting a combined expression\<close>

lemma outer_loop_inner: "bal k w \<Longrightarrow> s \<noteq> [] \<Longrightarrow> outer_loop (int k + 1) (w @ s) = outer_loop 1 s"
proof (induction w arbitrary: k)
  case (Cons c w)
  consider "c = 40" "bal (Suc k) w" | j where "c = 41" "k = Suc j" "bal j w"
    | "c \<noteq> 40" "c \<noteq> 41" "bal k w"
    using Cons.prems by (cases k) (auto split: if_splits)
  then show ?case
    by cases (use Cons.IH [of "Suc k"] Cons.IH Cons.prems(2) in \<open>auto simp: paren_step_def add.commute\<close>)
qed simp

lemma unwrap_parens:
  assumes "bal 0 w" "trim w = w" "\<not> hasFullOuterParens w"
  shows "unwrapOuterParens (40 # w @ [41]) = w"
proof -
  have "trim (40 # w @ [41]) = 40 # w @ [41]"
    by (rule trim_id) (simp_all add: is_space_def white_space_def)
  moreover have "hasFullOuterParens (40 # w @ [41])"
    using outer_loop_inner [OF assms(1), of "[41]"]
    by (simp add: hasFullOuterParens_def paren_step_def suffix_def)
  ultimately show ?thesis
    using assms(2,3) by (simp add: unwrapOuterParens_def unwrap_loop.simps [of "40 # w @ [41]"] unwrap_loop.simps [of w])
qed

lemma factor_needs_tail:
  assumes "s \<noteq> []" "rx_all (Seq (Grp 1 (Plus (Cls (\<lambda>_. True)))) factor_tail) (p, s, c) \<noteq> []"
  shows "\<exists>Y m. s = Y @ js '' ? '' @ m @ js '' : 1)''"
proof -
  have c: "concat (map f xs) \<noteq> [] \<Longrightarrow> \<exists>x\<in>set xs. f x \<noteq> []" for f :: "nat \<Rightarrow> rx_state list" and xs by auto
  obtain i where "rx_all factor_tail (after p (take i s), drop i s, (1, take i s) # c) \<noteq> []"
    using assms(2) c unfolding grp_plus_any [OF assms(1)] by blast
  then obtain m where "drop i s = js '' ? '' @ m @ js '' : 1)''"
    using factor_tail_text by (metis list.set_intros(1) neq_Nil_conv)
  then show ?thesis using append_take_drop_id [of i s] by metis
qed

lemma not_rule_factor:
  assumes "bal 0 w" "\<not> suffix (js '' : 1'') w"
  shows "tryParseRequestRuleExpr (40 # w @ [41]) = Inr None"
proof -
  have "rx_all (Seq (Grp 1 (Plus (Cls (\<lambda>_. True)))) factor_tail) (Some 40, w @ [41], []) = []"
  proof (rule ccontr)
    assume "\<not> ?thesis"
    then obtain Y m where "w @ [41] = Y @ js '' ? '' @ m @ js '' : 1)''"
      using factor_needs_tail [of "w @ [41]"] by blast
    then have "w @ [41] = (Y @ js '' ? '' @ m @ js '' : 1'') @ [41]" by (simp add: js_str)
    then have "w = (Y @ js '' ? '' @ m) @ js '' : 1''" by (simp only: append_same_eq) simp
    then show False using assms(2) by (auto simp: suffix_def)
  qed
  then have "tryParseRuleGroupFactor (40 # w @ [41]) = Inr None"
    by (simp add: tryParseRuleGroupFactor_def rx_at_def RULE_FACTOR_REGEX_def js_str rx_sem)
  moreover have t: "trim (40 # w @ [41]) = 40 # w @ [41]"
    by (rule trim_id) (simp_all add: is_space_def white_space_def)
  moreover have "split_top (js '' * '') 0 [] (join (js '' * '') [40 # w @ [41]]) = map trim [40 # w @ [41]]"
    by (rule split_top_join) (use whole_parens [OF assms(1), of "js '' * ''"] in \<open>simp_all add: js_str\<close>)
  ultimately show ?thesis by (simp add: tryParseRequestRuleExpr_def splitTopLevelMultiply_def)
qed

lemma rule_part: "rule_ok g \<Longrightarrow> is_rule_part (buildRuleGroupFactor g) = Inr True"
  using request_rules_reads [of "[g]"] factor_ends(1) [of g]
  by (simp add: is_rule_part_def buildRequestRuleExpr_def)

lemma sort_rule_parts:
  "list_all rule_ok gs \<Longrightarrow> sort_parts (map buildRuleGroupFactor gs) = Inr (map buildRuleGroupFactor gs, [])"
  by (induction gs) (auto simp: rule_part)

lemma split_combined:
  assumes "list_all rule_ok gs" "gs \<noteq> []"
    and "base \<noteq> []" "trim base = base" "bal 0 base" "\<not> hasFullOuterParens base" "\<not> suffix (js '' : 1'') base"
  shows "splitBillingExprAndRequestRules (combineBillingExpr base (buildRequestRuleExpr gs))
    = Inr (base, buildRequestRuleExpr gs)"
proof -
  let ?fs = "map buildRuleGroupFactor gs" and ?b = "40 # base @ [41]" and ?sep = "js '' * ''"
  let ?e = "combineBillingExpr base (buildRequestRuleExpr gs)"
  note r = rules_text [OF assms(1,2)] and f = rules_read [OF assms(1)]
  have e: "?e = join ?sep (?b # ?fs)"
    using assms r f(2) by (cases ?fs) (auto simp: combineBillingExpr_def buildRequestRuleExpr_def js_str)
  have t: "trim ?e = ?e"
    using assms r by (intro trim_id) (auto simp: combineBillingExpr_def js_str is_space_def white_space_def)
  have b: "trim ?b = ?b" by (rule trim_id) (simp_all add: is_space_def white_space_def)
  have "split_top ?sep 0 [] ?e = map trim (?b # ?fs)"
    unfolding e by (rule split_top_join) (use f(3) whole_parens [OF assms(5), of ?sep] in \<open>simp_all add: js_str\<close>)
  then have "splitTopLevelMultiply ?e = ?b # ?fs"
    unfolding splitTopLevelMultiply_def list.map(2) b f(4) by (simp add: f(2))
  moreover have "sort_parts (?b # ?fs) = Inr (?fs, [?b])"
    using not_rule_factor [OF assms(5,7)] sort_rule_parts [OF assms(1)] by (simp add: is_rule_part_def)
  moreover have "?e \<noteq> []" using assms(3,4) r(1,4) by (simp add: combineBillingExpr_def js_str)
  ultimately show ?thesis
    using assms(2) t unwrap_parens [OF assms(5,4,6)] f(2)
    by (simp add: splitBillingExprAndRequestRules_def buildRequestRuleExpr_def)
qed

text \<open>C23: the split undoes the combination: for a balanced tiered part that is not wrapped in parentheses as a
  whole and does not end like a rule, and a non-empty set of readable rules, splitting the combined expression
  gives back exactly the two parts.\<close>

theorem split_combine_roundtrip:
  assumes "list_all rule_ok gs" "gs \<noteq> []"
    and "base \<noteq> []" "trim base = base" "bal 0 base" "\<not> hasFullOuterParens base" "\<not> suffix (js '' : 1'') base"
  shows "splitBillingExprAndRequestRules (combineBillingExpr base (buildRequestRuleExpr gs))
    = Inr (base, buildRequestRuleExpr gs)"
  by (rule split_combined [OF assms])

definition demo_base :: jstring where
  "demo_base = js ''tier('' @ [34] @ js ''base'' @ [34] @ js '', p * 2.5 + c * 10)''"

theorem split_combine_roundtrip_witness:
  "list_all rule_ok demo_rules
   \<and> splitBillingExprAndRequestRules (combineBillingExpr demo_base (buildRequestRuleExpr demo_rules))
     = Inr (demo_base, buildRequestRuleExpr demo_rules)"
proof -
  have "demo_rules \<noteq> []" "demo_base \<noteq> []" "bal 0 demo_base" "\<not> hasFullOuterParens demo_base"
    "\<not> suffix (js '' : 1'') demo_base"
    by code_simp+
  moreover have "trim demo_base = demo_base"
    by (rule trim_id) (simp_all add: demo_base_def js_str is_space_def white_space_def)
  ultimately show ?thesis using split_combine_roundtrip [OF demo_rules_ok] demo_rules_ok by blast
qed

section \<open>Rules that are not read back\<close>

text \<open>
  A condition that compares a parameter is printed with a conjunction of its own, which the rule parser splits
  before it looks for conditions: the comparison is then not recognised, and the whole set of rules with it.
\<close>

theorem param_comparison_not_read_back:
  "tryParseRequestRuleExpr (buildRequestRuleExpr
     [\<lparr>rg_conditions = [path_condition False (js ''n'') MATCH_GT (js ''5'')], rg_multiplier = js ''2''\<rparr>]) = Inr None"
  by code_simp

text \<open>The same for a parameter that contains a text.\<close>

theorem param_contains_not_read_back:
  "tryParseRequestRuleExpr (buildRequestRuleExpr
     [\<lparr>rg_conditions = [path_condition False (js ''n'') MATCH_CONTAINS (js ''x'')], rg_multiplier = js ''2''\<rparr>])
   = Inr None"
  by code_simp

text \<open>A text may hold the marks that the parsers look for, and they do not skip quoted text. A header value with
  a conjunction in it is cut inside its quotes, and the rules are not recognised.\<close>

theorem quoted_conjunction_not_read_back:
  "tryParseRequestRuleExpr (buildRequestRuleExpr
     [\<lparr>rg_conditions = [path_condition True (js ''X-Plan'') MATCH_EQ (js ''a && b'')], rg_multiplier = js ''2''\<rparr>])
   = Inr None"
  by code_simp

text \<open>A tier label with a parenthesis unbalances the count: the rules are not split off the tiered part, whose
  display then has no request rules.\<close>

definition paren_base :: jstring where
  "paren_base = js ''tier('' @ [34] @ js ''a)'' @ [34] @ js '', p * 2.5 + c * 10)''"

theorem paren_label_hides_rules:
  "splitBillingExprAndRequestRules (combineBillingExpr paren_base (buildRequestRuleExpr demo_rules))
   = Inr (combineBillingExpr paren_base (buildRequestRuleExpr demo_rules), [])"
  by code_simp

text \<open>An escape that JSON does not know makes the parser throw instead of giving up on the rule.\<close>

theorem bad_escape_throws:
  "tryParseRequestRuleExpr (js ''(has(header('' @ [34] @ js ''a'' @ [34] @ js ''), '' @ [34, 92, 113, 34] @ js '') ? 2 : 1)'')
   = Inl SyntaxError"
  by code_simp

end
