(* ===== verification/Tier_Expr.thy ===== *)
theory Tier_Expr
  imports Billing_Expr
begin

text \<open>
  The visual tier editor (\<^verbatim>\<open>features/pricing/lib/tier-expr.ts\<close>): its configuration, the
  normalisation of tiers, the compiler from a configuration to a billing expression and the
  parser that opens an expression in the editor. The preview that runs an expression with
  \<^verbatim>\<open>new Function\<close> is not modelled.
\<close>

section \<open>Configuration\<close>

datatype CacheMode = CACHE_MODE_TIMED | CACHE_MODE_GENERIC

datatype ConditionValue = NumberValue jsnum | TextValue jstring

text \<open>\<^verbatim>\<open>value\<close> is \<open>None\<close> when it is \<^verbatim>\<open>null\<close> or \<^verbatim>\<open>undefined\<close>, which the compiler guards against.\<close>

record TierConditionInput =
  ti_var :: jstring
  ti_op :: jstring
  ti_value :: "ConditionValue option"

text \<open>The optional unit costs are kept by field name.\<close>

record VisualTier =
  vt_label :: jstring
  vt_conditions :: "TierConditionInput list"
  vt_input_unit_cost :: jsnum
  vt_output_unit_cost :: jsnum
  vt_cache_mode :: CacheMode
  vt_costs :: "(jstring \<times> jsnum) list"

record PartialTier =
  pa_label :: "jstring option"
  pa_conditions :: "TierConditionInput list option"
  pa_input_unit_cost :: "jsnum option"
  pa_output_unit_cost :: "jsnum option"
  pa_cache_mode :: "CacheMode option"
  pa_costs :: "(jstring \<times> jsnum) list"

record VisualConfig =
  vc_version :: "jsnum option"
  vc_tiers :: "VisualTier list"

definition partial_tier :: "VisualTier \<Rightarrow> PartialTier" where
  "partial_tier t =
     \<lparr>pa_label = Some (vt_label t), pa_conditions = Some (vt_conditions t),
      pa_input_unit_cost = Some (vt_input_unit_cost t), pa_output_unit_cost = Some (vt_output_unit_cost t),
      pa_cache_mode = Some (vt_cache_mode t), pa_costs = vt_costs t\<rparr>"

definition getTierCacheMode :: "PartialTier option \<Rightarrow> CacheMode" where
  "getTierCacheMode tier =
     (case tier of
        None \<Rightarrow> CACHE_MODE_GENERIC
      | Some t \<Rightarrow>
          (case pa_cache_mode t of
             Some m \<Rightarrow> m
           | None \<Rightarrow>
               (case map_of (pa_costs t) (js ''cache_create_1h_unit_cost'') of
                  Some x \<Rightarrow> if num_lt (Fin 0) x then CACHE_MODE_TIMED else CACHE_MODE_GENERIC
                | None \<Rightarrow> CACHE_MODE_GENERIC)))"

definition COST_FIELDS :: "jstring list" where
  "COST_FIELDS =
     [js ''cache_read_unit_cost'', js ''cache_create_unit_cost'', js ''cache_create_1h_unit_cost'',
      js ''image_unit_cost'', js ''image_output_unit_cost'', js ''audio_input_unit_cost'',
      js ''audio_output_unit_cost'', js ''document_input_unit_cost'', js ''video_input_unit_cost'']"

text \<open>
  A given input or output cost overrides the default by the spread, even when it is \<^verbatim>\<open>NaN\<close>;
  the other costs are \<^verbatim>\<open>Number(x) || 0\<close>.
\<close>

definition normalizeVisualTier :: "PartialTier \<Rightarrow> VisualTier" where
  "normalizeVisualTier t =
     \<lparr>vt_label = (case pa_label t of Some l \<Rightarrow> l | None \<Rightarrow> []),
      vt_conditions = (case pa_conditions t of Some cs \<Rightarrow> cs | None \<Rightarrow> []),
      vt_input_unit_cost = (case pa_input_unit_cost t of Some x \<Rightarrow> x | None \<Rightarrow> Fin 0),
      vt_output_unit_cost = (case pa_output_unit_cost t of Some x \<Rightarrow> x | None \<Rightarrow> Fin 0),
      vt_cache_mode = getTierCacheMode (Some t),
      vt_costs = map (\<lambda>f. (f, num_or (map_of (pa_costs t) f) (Fin 0))) COST_FIELDS\<rparr>"

definition createDefaultVisualConfig :: VisualConfig where
  "createDefaultVisualConfig =
     \<lparr>vc_version = None, vc_tiers =
       [normalizeVisualTier
         \<lparr>pa_label = Some (js ''base''), pa_conditions = Some [], pa_input_unit_cost = Some (Fin 0),
          pa_output_unit_cost = Some (Fin 0), pa_cache_mode = Some CACHE_MODE_GENERIC, pa_costs = []\<rparr>]\<rparr>"

definition normalizeVisualConfig :: "VisualConfig option \<Rightarrow> VisualConfig" where
  "normalizeVisualConfig config =
     (case config of
        None \<Rightarrow> createDefaultVisualConfig
      | Some c \<Rightarrow>
          if vc_tiers c = [] then createDefaultVisualConfig
          else c\<lparr>vc_tiers := map (\<lambda>t. normalizeVisualTier (partial_tier t)) (vc_tiers c)\<rparr>)"

section \<open>Compiling a configuration\<close>

fun value_text :: "ConditionValue \<Rightarrow> jstring" where
  "value_text (NumberValue x) = num_to_string x"
| "value_text (TextValue s) = s"

definition condition_given :: "TierConditionInput \<Rightarrow> bool" where
  "condition_given c \<longleftrightarrow>
     ti_var c \<noteq> [] \<and> ti_op c \<noteq> [] \<and> ti_value c \<noteq> None \<and> ti_value c \<noteq> Some (TextValue [])"

definition condition_text :: "TierConditionInput \<Rightarrow> jstring" where
  "condition_text c =
     ti_var c @ js '' '' @ ti_op c @ js '' '' @ (case ti_value c of Some v \<Rightarrow> value_text v | None \<Rightarrow> js ''null'')"

definition buildConditionStr :: "TierConditionInput list \<Rightarrow> jstring" where
  "buildConditionStr conditions = join (js '' && '') (map condition_text (filter condition_given conditions))"

definition product_text :: "jstring \<Rightarrow> jsnum \<Rightarrow> jstring" where
  "product_text v x = v @ js '' * '' @ num_to_string x"

definition tier_cost :: "VisualTier \<Rightarrow> jstring \<Rightarrow> jsnum" where
  "tier_cost tier field = num_or (map_of (vt_costs tier) field) (Fin 0)"

definition buildTierBodyExpr :: "VisualTier \<Rightarrow> jstring" where
  "buildTierBodyExpr tier =
     join (js '' + '')
       ([product_text (js ''p'') (num_or (Some (vt_input_unit_cost tier)) (Fin 0)),
         product_text (js ''c'') (num_or (Some (vt_output_unit_cost tier)) (Fin 0))]
        @ map (\<lambda>(field, exprVar). product_text exprVar (tier_cost tier field))
            (filter (\<lambda>(field, exprVar). \<not> num_eq (tier_cost tier field) (Fin 0)) BILLING_CACHE_VAR_MAP))"

text \<open>\<^verbatim>\<open>Number(x) !== 0\<close>: true of an absent cost as well, since \<^verbatim>\<open>Number(undefined)\<close> is \<^verbatim>\<open>NaN\<close>.\<close>

definition cost_not_zero :: "VisualTier \<Rightarrow> jstring \<Rightarrow> bool" where
  "cost_not_zero tier field \<longleftrightarrow>
     (case map_of (vt_costs tier) field of None \<Rightarrow> True | Some x \<Rightarrow> \<not> num_eq x (Fin 0))"

definition applyExprVersion :: "VisualConfig \<Rightarrow> jstring \<Rightarrow> jstring" where
  "applyExprVersion config body =
     (let requiresV2 = list_ex (\<lambda>t. cost_not_zero t (js ''document_input_unit_cost'')
            \<or> cost_not_zero t (js ''video_input_unit_cost'')) (vc_tiers config);
          version = num_max (case vc_version config of Some v \<Rightarrow> v | None \<Rightarrow> Fin 1)
            (if requiresV2 then Fin 2 else Fin 1)
      in if num_gt version (Fin 1) then js ''v'' @ num_to_string version @ js '':'' @ body else body)"

definition tier_call :: "jstring \<Rightarrow> VisualTier \<Rightarrow> jstring" where
  "tier_call label tier = js ''tier('' @ [34] @ label @ [34] @ js '', '' @ buildTierBodyExpr tier @ js '')''"

text \<open>The part of tier \<open>i\<close> of \<open>n\<close>; the condition of the last tier is dropped.\<close>

definition tier_part :: "nat \<Rightarrow> nat \<Rightarrow> VisualTier \<Rightarrow> jstring" where
  "tier_part n i tier =
     (let label = (if vt_label tier = [] then js ''tier_'' @ show_nat (i + 1) else vt_label tier);
          cond = buildConditionStr (vt_conditions tier)
      in if i + 1 < n \<and> cond \<noteq> [] then cond @ js '' ? '' @ tier_call label tier
         else tier_call label tier)"

definition NO_PRICE :: jstring where
  "NO_PRICE = js ''p * 0 + c * 0''"

definition generateExprFromVisualConfig :: "VisualConfig option \<Rightarrow> jstring" where
  "generateExprFromVisualConfig config =
     (case config of
        None \<Rightarrow> NO_PRICE
      | Some c \<Rightarrow>
          (case vc_tiers c of
             [] \<Rightarrow> NO_PRICE
           | [tier] \<Rightarrow>
               (let label = (if vt_label tier = [] then js ''default'' else vt_label tier);
                    cond = buildConditionStr (vt_conditions tier)
                in if cond \<noteq> []
                   then applyExprVersion c (cond @ js '' ? '' @ tier_call label tier @ js '' : '' @ NO_PRICE)
                   else applyExprVersion c (tier_call label tier))
           | tiers \<Rightarrow>
               applyExprVersion c (join (js '' : '')
                 (map (\<lambda>(i, tier). tier_part (length tiers) i tier) (enumerate 0 tiers)))))"

section \<open>Opening an expression\<close>

definition times_number :: "jstring \<Rightarrow> nat \<Rightarrow> rx list" where
  "times_number v n = [Lit v, spaces, Lit (js ''*''), spaces, Grp n (Plus (Cls num_char))]"

definition plus_times :: "jstring \<Rightarrow> nat \<Rightarrow> rx list" where
  "plus_times v n = [spaces, Lit (js ''+''), spaces] @ times_number v n"

text \<open>\<^verbatim>\<open>bodyPat\<close>, with its groups numbered from \<open>n\<close>.\<close>

definition body_pattern :: "nat \<Rightarrow> rx list" where
  "body_pattern n =
     times_number (js ''p'') n @ plus_times (js ''c'') (n + 1)
     @ map (\<lambda>(i, cv). Opt (rseq (plus_times (snd cv) (n + 2 + i)))) (enumerate 0 BILLING_CACHE_VAR_MAP)"

definition SINGLE_TIER_REGEX :: rx where
  "SINGLE_TIER_REGEX =
     rseq ([Lit (js ''tier('' @ [34]), Grp 1 (Star (Cls not_quote)), Lit ([34] @ js '',''), spaces]
       @ body_pattern 2 @ [Lit (js '')''), Eol])"

definition VISUAL_TIER_REGEX :: rx where
  "VISUAL_TIER_REGEX = rseq (TIER_HEAD @ body_pattern 3 @ [Lit (js '')'')])"

definition captured_costs :: "nat \<Rightarrow> captures \<Rightarrow> (jstring \<times> jsnum) list" where
  "captured_costs n m =
     List.map_filter (\<lambda>(i, cv). map_option (\<lambda>t. (fst cv, to_number t)) (map_of m (n + i)))
       (enumerate 0 BILLING_CACHE_VAR_MAP)"

definition captured_tier :: "nat \<Rightarrow> captures \<Rightarrow> TierConditionInput list \<Rightarrow> VisualTier" where
  "captured_tier n m conditions =
     normalizeVisualTier
       \<lparr>pa_label = Some (capture m n), pa_conditions = Some conditions,
        pa_input_unit_cost = Some (to_number (capture m (n + 1))),
        pa_output_unit_cost = Some (to_number (capture m (n + 2))),
        pa_cache_mode = None, pa_costs = captured_costs (n + 3) m\<rparr>"

definition input_condition :: "TierCondition \<Rightarrow> TierConditionInput" where
  "input_condition c =
     \<lparr>ti_var = cond_var c, ti_op = cond_op c, ti_value = Some (NumberValue (cond_value c))\<rparr>"

definition strip_version :: "jstring \<Rightarrow> jstring" where
  "strip_version s =
     (case rx_all (rseq [Lit (js ''v''), Plus (Cls is_digit), Lit (js '':'')]) (None, s, []) of
        [] \<Rightarrow> s | st # _ \<Rightarrow> fst (snd st))"

definition no_spaces :: "jstring \<Rightarrow> jstring" where
  "no_spaces s = filter (\<lambda>c. \<not> is_space c) s"

definition tryParseVisualConfig :: "jstring option \<Rightarrow> VisualConfig option" where
  "tryParseVisualConfig exprStr =
     (case exprStr of
        None \<Rightarrow> None
      | Some e \<Rightarrow>
          if e = [] then None
          else
            let (version, body) = stripExprVersion e
            in case rx_at SINGLE_TIER_REGEX body of
                 Some m \<Rightarrow>
                   Some (normalizeVisualConfig
                     (Some \<lparr>vc_version = Some version, vc_tiers = [captured_tier 1 m []]\<rparr>))
               | None \<Rightarrow>
                   (let tiers = map (\<lambda>m. captured_tier 2 m (map input_condition (parse_conditions (capture m 1))))
                          (rx_match_all VISUAL_TIER_REGEX None body)
                    in if tiers = [] then None
                       else
                         let cfg = normalizeVisualConfig (Some \<lparr>vc_version = Some version, vc_tiers = tiers\<rparr>);
                             regenerated = strip_version (generateExprFromVisualConfig (Some cfg))
                         in if no_spaces regenerated \<noteq> no_spaces body then None else Some cfg))"

section \<open>Estimator variables\<close>

text \<open>Pairs of \<^verbatim>\<open>var\<close> and \<^verbatim>\<open>stateKey\<close>.\<close>

definition ESTIMATOR_VARS :: "(jstring \<times> jstring) list" where
  "ESTIMATOR_VARS =
     [(js ''cr'', js ''cacheReadTokens''), (js ''cc'', js ''cacheCreateTokens''),
      (js ''cc1h'', js ''cacheCreate1hTokens''), (js ''img'', js ''imageTokens''),
      (js ''img_o'', js ''imageOutputTokens''), (js ''ai'', js ''audioInputTokens''),
      (js ''doc'', js ''documentInputTokens''), (js ''vid'', js ''videoInputTokens''),
      (js ''ao'', js ''audioOutputTokens'')]"

definition exprUsesExtraVars :: "jstring \<Rightarrow> bool" where
  "exprUsesExtraVars exprStr \<longleftrightarrow>
     exprStr \<noteq> []
     \<and> rx_exec (rseq [WordB, Grp 1 (ralt (map (\<lambda>v. Lit (fst v)) ESTIMATOR_VARS)), WordB]) None exprStr \<noteq> None"

end
