(* ===== verification/Tier_Laws.thy ===== *)
theory Tier_Laws
  imports Tier_Expr Billing_Laws
begin

text \<open>
  What the tier compiler guarantees: the expression that the visual editor generates is read
  back by the tier parser of the price display, with the label, the conditions and the prices of
  every tier.
\<close>

section \<open>Numbers in expressions\<close>

text \<open>
  A price that can be carried in an expression: its decimal text denotes it and has no exponent
  with a plus sign (the separator of the products).
\<close>

definition price_ok :: "jsnum \<Rightarrow> bool" where
  "price_ok x \<longleftrightarrow>
     to_number (num_to_string x) = x \<and> num_to_string x \<noteq> []
     \<and> list_all (\<lambda>c. num_char c \<and> c \<noteq> 43) (num_to_string x)"

lemma price_text:
  assumes "price_ok x"
  shows "list_all num_char (num_to_string x)" "num_to_string x \<noteq> []" "\<not> is_space (hd (num_to_string x))"
    and "to_number (num_to_string x) = x" "41 \<notin> set (num_to_string x)" "38 \<notin> set (num_to_string x)"
proof -
  have l: "\<forall>c\<in>set (num_to_string x). num_char c" and n: "num_to_string x \<noteq> []"
    using assms unfolding price_ok_def list_all_iff by blast+
  show "list_all num_char (num_to_string x)" "num_to_string x \<noteq> []" using l n by (simp_all add: list_all_iff)
  show "\<not> is_space (hd (num_to_string x))" using l n num_char_not_space by simp
  show "to_number (num_to_string x) = x" using assms unfolding price_ok_def by blast
  have "\<not> num_char 41" "\<not> num_char 38" by (simp_all add: num_char_def is_digit_def)
  then show "41 \<notin> set (num_to_string x)" "38 \<notin> set (num_to_string x)" using l by blast+
qed

lemma run_spaces:
  "run spaces (p, [], c) K = K (p, [], c)"
  "\<not> is_space x \<Longrightarrow> run spaces (p, x # s, c) K = K (p, x # s, c)"
  "\<not> is_space x \<Longrightarrow> run spaces (p, 32 # x # s, c) K = K (Some 32, x # s, c) @ K (p, 32 # x # s, c)"
  by (simp_all add: spaces_def run_star run_simps is_space_def white_space_def)

section \<open>Tier bodies\<close>

definition price_keys :: "jstring list" where
  "price_keys = map bv_key BILLING_PRICING_VARS"

lemma price_keys_simp:
  "price_keys = [js ''p'', js ''c'', js ''cr'', js ''cc'', js ''cc1h'', js ''img'', js ''img_o'', js ''ai'',
     js ''doc'', js ''vid'', js ''ao'']"
  by (simp add: price_keys_def BILLING_PRICING_VARS_def BILLING_VARS_def price_var_def)

lemma grp_num_first:
  assumes "price_ok x" "rest = [] \<or> hd rest = 32"
  shows "\<exists>p more. run (Grp n (Plus (Cls num_char))) (q, num_to_string x @ rest, c) (\<lambda>st. [st])
    = (p, rest, (n, num_to_string x) # c) # more"
proof -
  let ?t = "num_to_string x"
  have "rest = [] \<or> \<not> num_char (hd rest)" using assms(2) by (auto simp: num_char_def is_digit_def)
  then obtain more where "run (Plus (Cls num_char)) (q, ?t @ rest, c) (close_grp n (?t @ rest) (\<lambda>st. [st]))
      = close_grp n (?t @ rest) (\<lambda>st. [st]) (after q ?t, rest, c) @ more"
    using run_cls_plus_first [OF price_text(2,1) [OF assms(1)]] by blast
  then show ?thesis by (simp add: run_simps close_grp_simps)
qed

lemma var_regex_match:
  assumes "v \<in> set price_keys" "price_ok x" "rest = [] \<or> hd rest = 32" "q = None \<or> q = Some 32"
  shows "\<exists>p more. rx_all BILLING_VAR_REGEX (q, product_text v x @ rest, [])
    = (p, rest, [(2, num_to_string x), (1, v)]) # more"
proof -
  define t where "t = num_to_string x @ rest"
  define K where "K = (\<lambda>st. run (Grp 2 (Plus (Cls num_char))) st (\<lambda>st. [st]))"
  obtain y t' where t: "t = y # t'" "\<not> is_space y"
    using price_text(2,3) [OF assms(2)] by (cases "num_to_string x") (auto simp: t_def)
  obtain p more where K: "K (Some 32, t, [(1, v)]) = (p, rest, [(2, num_to_string x), (1, v)]) # more"
    using grp_num_first [OF assms(2,3), of 2 "Some 32" "[(1, v)]"] by (auto simp: K_def t_def)
  define F where "F = (\<lambda>st. run spaces st (\<lambda>st. run (Lit [42]) st (\<lambda>st. run spaces st K)))"
  have "\<exists>z w. v = z # w \<and> is_word z" using assms(1) by (auto simp: price_keys_simp js_str is_word_def is_digit_def)
  then have "rx_all BILLING_VAR_REGEX (q, v @ 32 # 42 # 32 # t, []) =
      run (ralt (map Lit price_keys)) (q, v @ 32 # 42 # 32 # t, []) (close_grp 1 (v @ 32 # 42 # 32 # t) F)"
    using assms(4) unfolding BILLING_VAR_REGEX_def rx_all_run F_def K_def
    by (auto simp: run_simps run_rseq price_keys_def comp_def js_str is_word_def is_digit_def)
  also have "\<dots> = F (Some (last v), 32 # 42 # 32 # t, [(1, v)])"
    using assms(1) unfolding price_keys_simp F_def
    by (auto simp: run_simps close_grp_simps eat_simps js_str run_spaces is_space_def white_space_def)
  also have "\<dots> = K (Some 32, t, [(1, v)])"
    using t by (simp add: F_def K_def run_spaces run_simps eat_simps Plus_def num_char_def is_digit_def
        is_space_def white_space_def)
  finally show ?thesis using K by (simp add: product_text_def t_def js_str)
qed

lemma skip_plus:
  "rx_exec BILLING_VAR_REGEX p (32 # 43 # 32 # s) = rx_exec BILLING_VAR_REGEX (Some 32) s"
  by (simp add: BILLING_VAR_REGEX_def rx_all_run run_simps run_rseq BILLING_PRICING_VARS_def BILLING_VARS_def
      price_var_def eat_simps js_str)

definition terms_text :: "(jstring \<times> jsnum) list \<Rightarrow> jstring" where
  "terms_text ts = join (js '' + '') (map (\<lambda>(v, x). product_text v x) ts)"

definition terms_ok :: "(jstring \<times> jsnum) list \<Rightarrow> bool" where
  "terms_ok ts \<longleftrightarrow> list_all (\<lambda>(v, x). v \<in> set price_keys \<and> price_ok x) ts"

definition rest_terms :: "(jstring \<times> jsnum) list \<Rightarrow> jstring" where
  "rest_terms ts = (if ts = [] then [] else js '' + '' @ terms_text ts)"

lemma exec_terms:
  assumes "terms_ok ((v, x) # ts)" "q = None \<or> q = Some 32"
  shows "\<exists>p. rx_exec BILLING_VAR_REGEX q (terms_text ((v, x) # ts))
      = Some (p, rest_terms ts, [(2, num_to_string x), (1, v)])"
    and "length (rest_terms ts) < length (terms_text ((v, x) # ts))"
proof -
  have s: "terms_text ((v, x) # ts) = product_text v x @ rest_terms ts"
    by (cases ts) (auto simp: terms_text_def rest_terms_def)
  have r: "rest_terms ts = [] \<or> hd (rest_terms ts) = 32" by (simp add: rest_terms_def js_str)
  show "\<exists>p. rx_exec BILLING_VAR_REGEX q (terms_text ((v, x) # ts))
      = Some (p, rest_terms ts, [(2, num_to_string x), (1, v)])"
    using var_regex_match [OF _ _ r assms(2), of v x] assms(1) rx_exec_here
    unfolding s terms_ok_def by fastforce
  show "length (rest_terms ts) < length (terms_text ((v, x) # ts))" by (simp add: s product_text_def js_str)
qed

lemma match_terms:
  assumes "terms_ok ts" "ts \<noteq> []" "q = None \<or> q = Some 32"
  shows "rx_match_all BILLING_VAR_REGEX q (terms_text ts) = map (\<lambda>(v, x). [(2, num_to_string x), (1, v)]) ts"
  using assms
proof (induction ts arbitrary: q)
  case (Cons a ts)
  obtain v x where a: "a = (v, x)" by force
  obtain p where e: "rx_exec BILLING_VAR_REGEX q (terms_text ((v, x) # ts))
      = Some (p, rest_terms ts, [(2, num_to_string x), (1, v)])"
    using exec_terms(1) [of v x ts q] Cons.prems unfolding a by blast
  have l: "length (rest_terms ts) < length (terms_text ((v, x) # ts))"
    using exec_terms(2) [of v x ts q] Cons.prems unfolding a by blast
  have "rx_match_all BILLING_VAR_REGEX p (rest_terms ts) = map (\<lambda>(v, x). [(2, num_to_string x), (1, v)]) ts"
  proof (cases ts)
    case Nil
    then show ?thesis
      by (simp add: rest_terms_def rx_match_all.simps [of _ p "[]"] BILLING_VAR_REGEX_def rx_all_run run_simps
          run_rseq BILLING_PRICING_VARS_def BILLING_VARS_def price_var_def eat_simps js_str)
  next
    case (Cons b ts')
    have ok: "terms_ok ts" using Cons.prems by (simp add: terms_ok_def)
    obtain w y where b: "b = (w, y)" by force
    have "rx_match_all BILLING_VAR_REGEX p (rest_terms ts) = rx_match_all BILLING_VAR_REGEX (Some 32) (terms_text ts)"
    proof (rule rx_match_all_skip)
      show "rx_exec BILLING_VAR_REGEX p (rest_terms ts) = rx_exec BILLING_VAR_REGEX (Some 32) (terms_text ts)"
        using skip_plus [of p "terms_text ts"] Cons by (simp add: rest_terms_def js_str)
      show "length (terms_text ts) \<le> length (rest_terms ts)" using Cons by (simp add: rest_terms_def)
      show "length t' < length (terms_text ts)"
        if "rx_exec BILLING_VAR_REGEX (Some 32) (terms_text ts) = Some (p', t', c)" for p' t' c
        using that exec_terms [of w y ts' "Some 32"] ok unfolding Cons b by auto
    qed
    then show ?thesis using Cons.IH [of "Some 32"] ok Cons by simp
  qed
  then show ?case using rx_match_all_step [OF e l] by (simp add: a)
qed simp

lemma coefficients_terms:
  assumes "terms_ok ts" "ts \<noteq> []" "distinct (map fst ts)"
  shows "coefficients (terms_text ts) = ts"
proof -
  have f: "fold (\<lambda>m cs. if map_of cs (capture m 1) = None then cs @ [(capture m 1, to_number (capture m 2))] else cs)
      (map (\<lambda>(v, x). [(2, num_to_string x), (1, v)]) ts) acc = acc @ ts"
    if "terms_ok ts" "distinct (map fst (acc @ ts))" for acc ts
    using that
  proof (induction ts arbitrary: acc)
    case (Cons a ts)
    obtain v x where a: "a = (v, x)" by force
    have "to_number (num_to_string x) = x" using Cons.prems(1) price_text(4) by (simp add: terms_ok_def a)
    moreover have "map_of acc v = None" using Cons.prems(2) by (auto simp: a map_of_eq_None_iff)
    ultimately show ?case using Cons.IH [of "acc @ [a]"] Cons.prems by (simp add: a terms_ok_def)
  qed simp
  show ?thesis
    unfolding coefficients_def match_terms [OF assms(1,2), of None, simplified]
    using f [of ts "[]"] assms by simp
qed

text \<open>The unit price of a tier under the name of its field in the editor.\<close>

definition unit_price :: "VisualTier \<Rightarrow> jstring \<Rightarrow> jsnum" where
  "unit_price tier f =
     (if f = js ''input_unit_cost'' then num_or (Some (vt_input_unit_cost tier)) (Fin 0)
      else if f = js ''output_unit_cost'' then num_or (Some (vt_output_unit_cost tier)) (Fin 0)
      else tier_cost tier f)"

definition tier_terms :: "VisualTier \<Rightarrow> (jstring \<times> jsnum) list" where
  "tier_terms tier =
     [(js ''p'', unit_price tier (js ''input_unit_cost'')), (js ''c'', unit_price tier (js ''output_unit_cost''))]
     @ map (\<lambda>(f, v). (v, tier_cost tier f))
         (filter (\<lambda>(f, v). \<not> num_eq (tier_cost tier f) (Fin 0)) BILLING_CACHE_VAR_MAP)"

lemma body_is_terms: "buildTierBodyExpr tier = terms_text (tier_terms tier)"
  by (simp add: buildTierBodyExpr_def terms_text_def tier_terms_def unit_price_def case_prod_unfold comp_def
      js_str del: join.simps)

definition tier_prices_ok :: "VisualTier \<Rightarrow> bool" where
  "tier_prices_ok tier \<longleftrightarrow>
     price_ok (unit_price tier (js ''input_unit_cost'')) \<and> price_ok (unit_price tier (js ''output_unit_cost''))
     \<and> list_all (\<lambda>(f, v). price_ok (tier_cost tier f)) BILLING_CACHE_VAR_MAP"

lemma cache_map_simp:
  "BILLING_CACHE_VAR_MAP =
     [(js ''cache_read_unit_cost'', js ''cr''), (js ''cache_create_unit_cost'', js ''cc''),
      (js ''cache_create_1h_unit_cost'', js ''cc1h''), (js ''image_unit_cost'', js ''img''),
      (js ''image_output_unit_cost'', js ''img_o''), (js ''audio_input_unit_cost'', js ''ai''),
      (js ''document_input_unit_cost'', js ''doc''), (js ''video_input_unit_cost'', js ''vid''),
      (js ''audio_output_unit_cost'', js ''ao'')]"
  by (simp add: BILLING_CACHE_VAR_MAP_def BILLING_EXTRA_VARS_def BILLING_VARS_def price_var_def)

lemma tier_terms_ok:
  assumes "tier_prices_ok tier"
  shows "terms_ok (tier_terms tier)" "tier_terms tier \<noteq> []" "distinct (map fst (tier_terms tier))"
proof -
  have "snd ` set BILLING_CACHE_VAR_MAP \<subseteq> set price_keys" by (simp add: cache_map_simp price_keys_simp)
  then show "terms_ok (tier_terms tier)"
    using assms by (auto simp: terms_ok_def tier_terms_def tier_prices_ok_def price_keys_simp list_all_iff)
  show "tier_terms tier \<noteq> []" by (simp add: tier_terms_def)
  have d: "distinct (map snd BILLING_CACHE_VAR_MAP)" "js ''p'' \<notin> snd ` set BILLING_CACHE_VAR_MAP"
    "js ''c'' \<notin> snd ` set BILLING_CACHE_VAR_MAP"
    by (simp_all add: cache_map_simp js_str)
  have "map fst (tier_terms tier) = js ''p'' # js ''c''
      # map snd (filter (\<lambda>(f, v). \<not> num_eq (tier_cost tier f) (Fin 0)) BILLING_CACHE_VAR_MAP)"
    by (simp add: tier_terms_def case_prod_unfold comp_def)
  then show "distinct (map fst (tier_terms tier))"
    using d by (auto simp: distinct_map_filter js_str)
qed

definition display_fields :: "VisualTier \<Rightarrow> (jstring \<times> jsnum) list" where
  "display_fields tier =
     [(js ''inputPrice'', unit_price tier (js ''input_unit_cost'')),
      (js ''outputPrice'', unit_price tier (js ''output_unit_cost'')),
      (js ''cacheReadPrice'', tier_cost tier (js ''cache_read_unit_cost'')),
      (js ''cacheCreatePrice'', tier_cost tier (js ''cache_create_unit_cost'')),
      (js ''cacheCreate1hPrice'', tier_cost tier (js ''cache_create_1h_unit_cost'')),
      (js ''imagePrice'', tier_cost tier (js ''image_unit_cost'')),
      (js ''imageOutputPrice'', tier_cost tier (js ''image_output_unit_cost'')),
      (js ''audioInputPrice'', tier_cost tier (js ''audio_input_unit_cost'')),
      (js ''documentInputPrice'', tier_cost tier (js ''document_input_unit_cost'')),
      (js ''videoInputPrice'', tier_cost tier (js ''video_input_unit_cost'')),
      (js ''audioOutputPrice'', tier_cost tier (js ''audio_output_unit_cost''))]"

lemma num_or_idem: "num_or (Some (num_or x (Fin 0))) (Fin 0) = num_or x (Fin 0)"
  by (auto simp: num_or_def num_truthy_def split: option.splits)

lemma map_of_filter_snd:
  "distinct (map snd xs) \<Longrightarrow> (f, v) \<in> set xs \<Longrightarrow>
    map_of (map (\<lambda>(f, v). (v, g f)) (filter (\<lambda>(f, v). P f) xs)) v = (if P f then Some (g f) else None)"
proof (induction xs)
  case (Cons a xs)
  obtain f' v' where a: "a = (f', v')" by force
  show ?case
  proof (cases "v' = v")
    case True
    then have n: "v \<notin> snd ` set xs" using Cons.prems(1) by (simp add: a)
    then have "f' = f" using Cons.prems(2) True by (force simp: a)
    moreover have "map_of (map (\<lambda>(f, v). (v, g f)) (filter (\<lambda>(f, v). P f) xs)) v = None"
      using n by (force simp: map_of_eq_None_iff)
    ultimately show ?thesis using True by (simp add: a)
  next
    case False
    then show ?thesis using Cons by (auto simp: a)
  qed
qed simp

lemma parse_body:
  assumes "tier_prices_ok tier"
  shows "parseTierBody (buildTierBodyExpr tier) = display_fields tier"
proof -
  have extra: "num_or (map_of (tier_terms tier) v) (Fin 0) = tier_cost tier f"
    if "(f, v) \<in> set BILLING_CACHE_VAR_MAP" for f v
  proof -
    have d: "distinct (map snd BILLING_CACHE_VAR_MAP)" "v \<noteq> js ''p''" "v \<noteq> js ''c''"
      using that by (auto simp: cache_map_simp js_str)
    have "map_of (tier_terms tier) v
        = (if \<not> num_eq (tier_cost tier f) (Fin 0) then Some (tier_cost tier f) else None)"
      using d map_of_filter_snd [OF d(1) that, of "tier_cost tier" "\<lambda>f. \<not> num_eq (tier_cost tier f) (Fin 0)"]
      by (simp add: tier_terms_def)
    then show ?thesis
      using num_or_idem [of "map_of (vt_costs tier) f"]
      by (auto simp: tier_cost_def num_eq_def num_or_def split: if_splits option.splits)
  qed
  have "num_or (map_of (tier_terms tier) (js ''p'')) (Fin 0) = unit_price tier (js ''input_unit_cost'')"
    "num_or (map_of (tier_terms tier) (js ''c'')) (Fin 0) = unit_price tier (js ''output_unit_cost'')"
    by (simp_all add: tier_terms_def unit_price_def num_or_idem js_str)
  moreover have "\<forall>(f, v)\<in>set BILLING_CACHE_VAR_MAP. num_or (map_of (tier_terms tier) v) (Fin 0) = tier_cost tier f"
    using extra by blast
  ultimately show ?thesis
    unfolding cache_map_simp
    by (simp add: parseTierBody_def body_is_terms coefficients_terms [OF tier_terms_ok [OF assms]]
        BILLING_VAR_KEY_TO_FIELD_def BILLING_PRICING_VARS_def BILLING_VARS_def price_var_def display_fields_def)
qed

section \<open>Conditions\<close>

definition threshold_ok :: "jsnum \<Rightarrow> bool" where
  "threshold_ok x \<longleftrightarrow>
     to_number (num_to_string x) = x \<and> num_to_string x \<noteq> [] \<and> list_all cond_num_char (num_to_string x)"

definition COND_VARS :: "jstring list" where
  "COND_VARS = [js ''p'', js ''c'', js ''len'']"

definition COND_OPS :: "jstring list" where
  "COND_OPS = [js ''<'', js ''<='', js ''>'', js ''>='']"

definition given_value :: "TierConditionInput \<Rightarrow> jsnum" where
  "given_value c = (case ti_value c of Some (NumberValue x) \<Rightarrow> x | _ \<Rightarrow> NaN)"

definition tier_condition_ok :: "TierConditionInput \<Rightarrow> bool" where
  "tier_condition_ok c \<longleftrightarrow>
     ti_var c \<in> set COND_VARS \<and> ti_op c \<in> set COND_OPS
     \<and> ti_value c = Some (NumberValue (given_value c)) \<and> threshold_ok (given_value c)"

lemma cond_num_not_space: "cond_num_char c \<Longrightarrow> \<not> is_space c"
  by (auto simp: cond_num_char_def is_digit_def is_space_def white_space_def)

lemma threshold_text:
  assumes "threshold_ok x"
  obtains y t where "num_to_string x = y # t" "cond_num_char y" "list_all cond_num_char t" "\<not> is_space y"
    "to_number (y # t) = x"
proof -
  have "list_all cond_num_char (num_to_string x)" "num_to_string x \<noteq> []" "to_number (num_to_string x) = x"
    using assms unfolding threshold_ok_def by blast+
  then show ?thesis using that cond_num_not_space by (cases "num_to_string x") auto
qed

lemma condition_text_ok:
  "tier_condition_ok c \<Longrightarrow>
    condition_text c = ti_var c @ 32 # ti_op c @ 32 # num_to_string (given_value c)"
  unfolding tier_condition_ok_def condition_text_def by (elim conjE) (simp add: js_str)

lemma cond_atom_run:
  assumes "tier_condition_ok cd" "rest = [] \<or> \<not> cond_num_char (hd rest)"
    and "\<And>x p s. cond_num_char x \<Longrightarrow> K (p, x # s, c) = []"
  shows "run (cond_atom id id id) (p, condition_text cd @ rest, c) K
    = K (after p (condition_text cd), rest, c)"
proof -
  let ?t = "num_to_string (given_value cd)"
  have ok: "ti_var cd \<in> set COND_VARS" "ti_op cd \<in> set COND_OPS" "threshold_ok (given_value cd)"
    using assms(1) unfolding tier_condition_ok_def by blast+
  obtain y t where t: "?t = y # t" "cond_num_char y" "list_all cond_num_char t" "\<not> is_space y"
    using threshold_text [OF ok(3)] by metis
  have n: "run (Plus (Cls cond_num_char)) (q, (y # t) @ rest, c) K = K (after q (y # t), rest, c)" for q
    by (rule run_cls_plus) (use t assms(2,3) in \<open>auto simp: list_all_iff\<close>)
  have "after p (condition_text cd) = after (Some 32) (y # t)"
    using t(1) by (simp add: condition_text_ok [OF assms(1)] after_def)
  then show ?thesis
    using ok(1,2) n t
    by (auto simp: condition_text_ok [OF assms(1)] cond_atom_def COND_VARS_def COND_OPS_def run_rseq run_simps
        run_spaces eat_simps js_str is_space_def white_space_def Plus_def [of "Cls cond_num_char"]
        cond_num_char_def is_digit_def)
qed

lemma cond_var_run:
  assumes "v \<in> set COND_VARS"
  shows "run (ralt [Lit (js ''p''), Lit (js ''c''), Lit (js ''len'')]) (p, v @ 32 # s, c) K
    = K (Some (last v), 32 # s, c)"
  using assms by (auto simp: COND_VARS_def run_simps eat_simps js_str)

abbreviation ops_rx :: rx where
  "ops_rx \<equiv> ralt [Lit (js ''<''), Lit (js ''<=''), Lit (js ''>''), Lit (js ''>='')]"

lemma cond_op_run:
  assumes "op \<in> set COND_OPS" "\<And>q s c. K (q, 61 # s, c) = []"
  shows "run ops_rx (p, op @ 32 # s, c) K = K (Some (last op), 32 # s, c)"
    and "run ops_rx (p, 32 # s, c) K = []"
  using assms by (auto simp: COND_OPS_def run_simps eat_simps js_str)

lemma space_then:
  assumes "\<not> is_space x" "\<And>q s. K (q, 32 # s, c) = []"
  shows "run spaces (p, 32 # x # s, c) K = K (Some 32, x # s, c)"
  using assms by (simp add: run_spaces)

lemma condition_captures:
  assumes "v \<in> set COND_VARS" "op \<in> set COND_OPS" "t \<noteq> []" "list_all cond_num_char t"
  shows "rx_at CONDITION_REGEX (v @ 32 # op @ 32 # t) = Some [(3, t), (2, op), (1, v)]"
proof -
  define N where "N = (\<lambda>st. run (Grp 3 (Plus (Cls cond_num_char))) st (\<lambda>st. run Eol st (\<lambda>st. [st])))"
  define S where "S = (\<lambda>st. run spaces st N)"
  define P where "P = (\<lambda>st. run (Grp 2 ops_rx) st S)"
  obtain y t' where t: "t = y # t'" "\<not> is_space y"
    using assms(3,4) cond_num_not_space by (cases t) auto
  obtain o1 op' where o: "op = o1 # op'" "\<not> is_space o1"
    using assms(2) by (auto simp: COND_OPS_def js_str is_space_def white_space_def)
  have nf: "N (q, x # s, c) = []" if "\<not> cond_num_char x" for q x s c
    using that by (simp add: N_def run_simps Plus_def)
  have n1: "run (Plus (Cls cond_num_char)) (q, t @ [], c) (close_grp 3 t (\<lambda>st. run Eol st (\<lambda>st. [st])))
      = close_grp 3 t (\<lambda>st. run Eol st (\<lambda>st. [st])) (after q t, [], c)" for q c
    by (rule run_cls_plus) (use assms in \<open>auto simp: close_grp_simps run_simps\<close>)
  then have n: "N (q, t, c) = [(after q t, [], (3, t) # c)]" for q c
    by (simp add: N_def run_simps close_grp_simps)
  have s: "S (q, 32 # t, c) = [(after (Some 32) t, [], (3, t) # c)]" for q c
    unfolding S_def t(1) using space_then [OF t(2), of N c q t'] nf n t(1)
    by (simp add: cond_num_char_def is_digit_def)
  have "S (q, 61 # s, c) = []" for q s c
    using nf [of 61] by (simp add: S_def run_spaces is_space_def white_space_def cond_num_char_def is_digit_def)
  then have p: "P (q, op @ 32 # t, c) = [(after (Some 32) t, [], (3, t) # (2, op) # c)]" "P (q, 32 # s, c) = []" for q c s
    using cond_op_run [OF assms(2), of "close_grp 2 (op @ 32 # t) S" q t c]
      cond_op_run(2) [OF assms(2), of "close_grp 2 (32 # s) S" q s c] s
    by (simp_all add: P_def run_simps close_grp_simps)
  have "run spaces (q, 32 # op @ 32 # t, c) P = [(after (Some 32) t, [], (3, t) # (2, op) # c)]" for q c
    using space_then [OF o(2), of P c q "op' @ 32 # t"] p o(1) by simp
  then have "rx_all CONDITION_REGEX (None, v @ 32 # op @ 32 # t, []) = [(after (Some 32) t, [], [(3, t), (2, op), (1, v)])]"
    using cond_var_run [OF assms(1), of None "op @ 32 # t" "[]" "close_grp 1 (v @ 32 # op @ 32 # t) (\<lambda>st. run spaces st P)"]
    unfolding rx_all_run CONDITION_REGEX_def cond_atom_def P_def S_def N_def
    by (simp add: run_simps run_rseq close_grp_simps)
  then show ?thesis by (simp add: rx_at_def)
qed

lemma condition_parsed:
  assumes "tier_condition_ok cd"
  shows "parse_condition (condition_text cd)
    = Some \<lparr>cond_var = ti_var cd, cond_op = ti_op cd, cond_value = given_value cd\<rparr>"
proof -
  have ok: "ti_var cd \<in> set COND_VARS" "ti_op cd \<in> set COND_OPS" "threshold_ok (given_value cd)"
    using assms unfolding tier_condition_ok_def by blast+
  obtain y t where t: "num_to_string (given_value cd) = y # t" "cond_num_char y" "list_all cond_num_char t"
    "to_number (y # t) = given_value cd"
    using threshold_text [OF ok(3)] by metis
  have v: "\<not> is_space (hd (ti_var cd))" "ti_var cd \<noteq> []"
    using ok(1) by (auto simp: COND_VARS_def js_str is_space_def white_space_def)
  have "trim (condition_text cd) = condition_text cd"
    unfolding condition_text_ok [OF assms]
    by (rule trim_id) (use v t cond_num_not_space in \<open>auto simp: list_all_iff\<close>)
  then show ?thesis
    using condition_captures [OF ok(1,2), of "y # t"] t
    by (simp add: parse_condition_def condition_text_ok [OF assms])
qed

lemma and_needs_amp:
  assumes "rx_all AND_REGEX (p, s, c) \<noteq> []"
  shows "\<exists>w t. s = w @ 38 # 38 # t \<and> list_all is_space w"
proof -
  obtain s1 s2 where 1: "s1 \<in> set (rx_all spaces (p, s, c))" and 2: "s2 \<in> set (eat (js ''&&'') s1)"
    using assms by (auto simp: AND_REGEX_def rx_all.simps(5) concat_eq_Nil_conv)
  obtain w where "s = w @ fst (snd s1)" "list_all is_space w"
    using rx_all_made_of [OF 1, of is_space] by (auto simp: spaces_def)
  moreover have "\<exists>t. fst (snd s1) = 38 # 38 # t"
    using 2 by (cases s1) (auto simp: eat_def prefix_def js_str split: if_splits)
  ultimately show ?thesis by auto
qed

lemma split_no_amp:
  assumes "38 \<notin> set u" "u \<noteq> [] \<Longrightarrow> \<not> is_space (last u)"
  shows "\<exists>q. rx_split AND_REGEX p cur (u @ rest) = rx_split AND_REGEX q (cur @ u) rest"
  using assms
proof (induction u arbitrary: p cur)
  case (Cons x u)
  have "rx_all AND_REGEX (p, x # u @ rest, []) = []"
  proof (rule ccontr)
    assume "\<not> ?thesis"
    then obtain w t where w: "(x # u) @ rest = w @ 38 # 38 # t" "list_all is_space w"
      using and_needs_amp by fastforce
    obtain v where "x # u = w @ v \<and> v @ rest = 38 # 38 # t \<or> (x # u) @ v = w"
      using w(1) unfolding append_eq_append_conv2 by blast
    then consider "x # u = w" | v' where "x # u = w @ 38 # v'" | "w = (x # u) @ v"
      by (cases v) auto
    then show False
    proof cases
      case 2
      then show False using Cons.prems(1) by (metis in_set_conv_decomp)
    qed (use w(2) Cons.prems(2) in \<open>auto simp: list_all_iff split: if_splits\<close>)
  qed
  then have "rx_split AND_REGEX p cur ((x # u) @ rest) = rx_split AND_REGEX (Some x) (cur @ [x]) (u @ rest)"
    by (simp add: rx_split.simps [of _ p])
  moreover have "u \<noteq> [] \<Longrightarrow> \<not> is_space (last u)" "38 \<notin> set u" using Cons.prems by auto
  ultimately show ?case using Cons.IH [of "Some x" "cur @ [x]"] by auto
qed auto

lemma split_amp:
  assumes "\<not> is_space x"
  shows "rx_split AND_REGEX p cur (32 # 38 # 38 # 32 # x # s) = cur # rx_split AND_REGEX (Some 32) [] (x # s)"
proof -
  have "rx_all AND_REGEX (p, 32 # 38 # 38 # 32 # x # s, []) = [(Some 32, x # s, []), (Some 38, 32 # x # s, [])]"
    using assms by (simp add: AND_REGEX_def rx_all_run run_rseq run_spaces run_simps eat_simps js_str
        is_space_def white_space_def)
  then show ?thesis by (simp add: rx_split.simps [of _ p])
qed

lemma condition_text_shape:
  assumes "tier_condition_ok cd"
  shows "38 \<notin> set (condition_text cd)" "condition_text cd \<noteq> []" "\<not> is_space (hd (condition_text cd))"
    and "\<not> is_space (last (condition_text cd))" "hd (condition_text cd) \<noteq> 116" "hd (condition_text cd) \<noteq> 118"
proof -
  have ok: "ti_var cd \<in> set COND_VARS" "ti_op cd \<in> set COND_OPS" "threshold_ok (given_value cd)"
    using assms unfolding tier_condition_ok_def by blast+
  obtain y t where t: "num_to_string (given_value cd) = y # t" "list_all cond_num_char (y # t)"
    using threshold_text [OF ok(3)] by (metis list.pred_inject(2))
  have "38 \<notin> set (y # t)" using t(2) by (auto simp: list_all_iff cond_num_char_def is_digit_def)
  moreover have "\<not> is_space (last (y # t))" using t(2) cond_num_not_space by (simp add: list_all_iff)
  ultimately show "38 \<notin> set (condition_text cd)" "\<not> is_space (last (condition_text cd))"
    using ok(1,2) by (auto simp: condition_text_ok [OF assms] t(1) COND_VARS_def COND_OPS_def js_str)
  show "condition_text cd \<noteq> []" "\<not> is_space (hd (condition_text cd))"
    "hd (condition_text cd) \<noteq> 116" "hd (condition_text cd) \<noteq> 118"
    using ok(1) by (auto simp: condition_text_ok [OF assms] COND_VARS_def js_str is_space_def white_space_def)
qed

lemma split_conditions:
  assumes "list_all tier_condition_ok cs" "cs \<noteq> []"
  shows "rx_split AND_REGEX p [] (join (js '' && '') (map condition_text cs)) = map condition_text cs"
  using assms
proof (induction cs arbitrary: p)
  case (Cons a cs)
  have a: "tier_condition_ok a" using Cons.prems by simp
  obtain q where q: "rx_split AND_REGEX p [] (condition_text a @ rest) = rx_split AND_REGEX (q rest) (condition_text a) rest" for rest
    using split_no_amp [OF condition_text_shape(1) [OF a] condition_text_shape(4) [OF a], of p "[]"] by (metis append_Nil)
  show ?case
  proof (cases cs)
    case Nil
    then show ?thesis using q [of "[]"] by (simp add: rx_split.simps [of _ "q []"])
  next
    case (Cons b cs')
    have b: "tier_condition_ok b" using Cons.prems Cons by simp
    let ?r = "join (js '' && '') (map condition_text cs)"
    have "?r \<noteq> []" "\<not> is_space (hd ?r)"
      using condition_text_shape(2,3) [OF b] by (cases cs'; simp add: Cons)+
    then obtain x r where r: "?r = x # r" "\<not> is_space x" by (cases ?r) auto
    have "rx_split AND_REGEX p [] (join (js '' && '') (map condition_text (a # cs)))
        = rx_split AND_REGEX (q (32 # 38 # 38 # 32 # x # r)) (condition_text a) (32 # 38 # 38 # 32 # x # r)"
      using q r by (simp add: Cons js_str)
    also have "\<dots> = condition_text a # rx_split AND_REGEX (Some 32) [] ?r"
      using split_amp [OF r(2)] by (simp add: r(1))
    finally show ?thesis using Cons.IH [of "Some 32"] Cons.prems Cons by simp
  qed
qed simp

definition shown_condition :: "TierConditionInput \<Rightarrow> TierCondition" where
  "shown_condition c = \<lparr>cond_var = ti_var c, cond_op = ti_op c, cond_value = given_value c\<rparr>"

lemma conditions_given: "list_all tier_condition_ok cs \<Longrightarrow> filter condition_given cs = cs"
proof (rule filter_True)
  assume "list_all tier_condition_ok cs"
  then show "\<forall>c\<in>set cs. condition_given c"
    by (auto simp: list_all_iff tier_condition_ok_def condition_given_def COND_VARS_def COND_OPS_def js_str)
qed

lemma parse_built_conditions:
  assumes "list_all tier_condition_ok cs"
  shows "parse_conditions (buildConditionStr cs) = map shown_condition cs"
    and "buildConditionStr cs = [] \<longleftrightarrow> cs = []"
proof -
  have b: "buildConditionStr cs = join (js '' && '') (map condition_text cs)"
    by (simp add: buildConditionStr_def conditions_given [OF assms])
  show n: "buildConditionStr cs = [] \<longleftrightarrow> cs = []"
    unfolding b using assms condition_text_shape(2)
    by (cases cs; cases "tl cs") auto
  have "List.map_filter parse_condition (map condition_text cs) = map shown_condition cs"
    using assms by (induction cs) (auto simp: map_filter_simps condition_parsed shown_condition_def)
  then show "parse_conditions (buildConditionStr cs) = map shown_condition cs"
    using split_conditions [OF assms] n by (auto simp: parse_conditions_def b map_filter_simps)
qed

section \<open>Tiers\<close>

lemma cond_group_run:
  assumes "list_all tier_condition_ok cs" "cs \<noteq> []"
    and "\<And>x p s. cond_num_char x \<Longrightarrow> K (p, x # s, c) = []"
    and "\<And>p s. K (p, 32 # 38 # s, c) = []"
  shows "\<exists>q. run COND_GROUP (p, join (js '' && '') (map condition_text cs) @ 32 # 63 # rest, c) K
    = K (q, 32 # 63 # rest, c)"
proof -
  define R where "R = Seq AND_REGEX (cond_atom id id id)"
  have r: "run R (p, x # s, c) L = []" if "\<not> is_space x" "x \<noteq> 38" for p x s L
    using that by (simp add: R_def AND_REGEX_def run_simps run_rseq run_spaces eat_simps js_str)
  have r2: "run R (p, 32 # 63 # s, c) L = []" for p s L
    by (simp add: R_def AND_REGEX_def run_simps run_rseq run_spaces eat_simps js_str is_space_def white_space_def)
  have star_num: "run (Star R) (p, x # s, c) K = []" if "cond_num_char x" for p x s
    using r [of x] assms(3) that cond_num_not_space [OF that]
    by (auto simp: run_star [of R] cond_num_char_def is_digit_def)
  have "\<exists>q. run (Star R) (p, concat (map (\<lambda>cd. js '' && '' @ condition_text cd) ds) @ 32 # 63 # rest, c) K
      = K (q, 32 # 63 # rest, c)" if "list_all tier_condition_ok ds" for p ds
    using that
  proof (induction ds arbitrary: p)
    case Nil
    have "run (Star R) (p, 32 # 63 # rest, c) K = K (p, 32 # 63 # rest, c)"
      by (subst run_star) (simp only: r2 append_Nil)
    then show ?case by auto
  next
    case (Cons d ds)
    define tl where "tl = concat (map (\<lambda>cd. js '' && '' @ condition_text cd) ds) @ 32 # 63 # rest"
    define s where "s = condition_text d @ tl"
    define L where "L = (\<lambda>st. if length (fst (snd st)) < length (32 # 38 # 38 # 32 # s) then run (Star R) st K else [])"
    have d: "tier_condition_ok d" using Cons.prems by simp
    obtain x s' where x: "s = x # s'" "\<not> is_space x"
      using condition_text_shape(2,3) [OF d] by (cases "condition_text d") (auto simp: s_def)
    have h: "tl = [] \<or> \<not> cond_num_char (hd tl)"
      by (cases ds) (auto simp: tl_def js_str cond_num_char_def is_digit_def)
    have atom_sp: "run (cond_atom id id id) (p, 32 # s, c) L = []" for p s
      by (simp add: cond_atom_def run_rseq run_simps eat_simps js_str)
    have "run R (p, 32 # 38 # 38 # 32 # s, c) L = run (cond_atom id id id) (Some 32, s, c) L"
      using x atom_sp
      by (simp add: R_def AND_REGEX_def run_simps run_rseq run_spaces eat_simps js_str is_space_def white_space_def)
    also have "\<dots> = L (after (Some 32) (condition_text d), tl, c)"
      unfolding s_def by (rule cond_atom_run [OF d h]) (simp add: L_def star_num)
    also have "\<dots> = run (Star R) (after (Some 32) (condition_text d), tl, c) K" by (simp add: L_def s_def)
    finally have "run (Star R) (p, 32 # 38 # 38 # 32 # s, c) K
        = run (Star R) (after (Some 32) (condition_text d), tl, c) K"
      using assms(4) by (simp add: run_star [of R p] L_def)
    moreover have "concat (map (\<lambda>cd. js '' && '' @ condition_text cd) (d # ds)) @ 32 # 63 # rest = 32 # 38 # 38 # 32 # s"
      by (simp add: s_def tl_def js_str)
    ultimately show ?case
      using Cons.IH [of "after (Some 32) (condition_text d)"] Cons.prems unfolding tl_def by auto
  qed
  note star = this
  obtain d ds where cs: "cs = d # ds" using assms(2) by (cases cs) auto
  define tl where "tl = concat (map (\<lambda>cd. js '' && '' @ condition_text cd) ds) @ 32 # 63 # rest"
  have j: "join (js '' && '') (map condition_text cs) @ 32 # 63 # rest = condition_text d @ tl"
    unfolding cs tl_def by (induction ds arbitrary: d) (auto simp: js_str)
  have d: "tier_condition_ok d" "list_all tier_condition_ok ds" using assms(1) by (simp_all add: cs)
  have h: "tl = [] \<or> \<not> cond_num_char (hd tl)"
    by (cases ds) (auto simp: tl_def js_str cond_num_char_def is_digit_def)
  have "run COND_GROUP (p, condition_text d @ tl, c) K = run (Star R) (after p (condition_text d), tl, c) K"
    unfolding COND_GROUP_def R_def [symmetric] run_simps(5) by (rule cond_atom_run [OF d(1) h]) (rule star_num)
  then show ?thesis using star [OF d(2), of "after p (condition_text d)"] unfolding j tl_def by simp
qed

lemma body_shape:
  assumes "tier_prices_ok tier"
  shows "\<exists>b. buildTierBodyExpr tier = 112 # b" "41 \<notin> set (buildTierBodyExpr tier)"
proof -
  have t: "terms_ok (tier_terms tier)" by (rule tier_terms_ok [OF assms])
  show "\<exists>b. buildTierBodyExpr tier = 112 # b"
    by (simp add: body_is_terms terms_text_def tier_terms_def product_text_def js_str)
  have "41 \<notin> set (product_text v x)" if "(v, x) \<in> set (tier_terms tier)" for v x
  proof -
    have v: "v \<in> set price_keys" "price_ok x" using t that by (auto simp: terms_ok_def list_all_iff)
    then have "41 \<notin> set v" by (auto simp: price_keys_simp js_str)
    then show ?thesis using price_text(5) [OF v(2)] by (simp add: product_text_def js_str)
  qed
  then have "\<forall>u\<in>set (map (\<lambda>(v, x). product_text v x) (tier_terms tier)). 41 \<notin> set u" by auto
  moreover have "41 \<notin> set (join sep us)" if "\<forall>u\<in>set us. 41 \<notin> set u" "41 \<notin> set sep" for sep us
    using that by (induction sep us rule: join.induct) auto
  ultimately show "41 \<notin> set (buildTierBodyExpr tier)"
    unfolding body_is_terms terms_text_def by (simp add: js_str)
qed

definition call_rx :: rx where
  "call_rx = rseq [Lit (js ''tier('' @ [34]), Grp 2 (Star (Cls not_quote)), Lit ([34] @ js '',''), spaces,
     Grp 3 (Plus (Cls (\<lambda>c. c \<noteq> 41))), Lit (js '')'')]"

lemma tier_regex_run:
  "rx_all TIER_REGEX st =
     run (rseq [Grp 1 COND_GROUP, spaces, Lit (js ''?''), spaces]) st (\<lambda>st. rx_all call_rx st) @ rx_all call_rx st"
  by (simp add: rx_all_run TIER_REGEX_def TIER_HEAD_def call_rx_def run_rseq run_opt run_simps)

lemma call_fails: "x \<noteq> 116 \<Longrightarrow> rx_all call_rx (p, x # s, c) = []" "rx_all call_rx (p, [], c) = []"
  by (simp_all add: call_rx_def rx_all_run run_rseq run_simps eat_simps js_str)

lemma call_match:
  assumes "34 \<notin> set label" "tier_prices_ok tier"
  shows "\<exists>more. rx_all call_rx (p, tier_call label tier @ rest, c)
    = (Some 41, rest, (3, buildTierBodyExpr tier) # (2, label) # c) # more"
proof -
  let ?b = "buildTierBodyExpr tier"
  obtain b where b: "?b = 112 # b" using body_shape(1) [OF assms(2)] by blast
  define B where "B = (\<lambda>st. run (Grp 3 (Plus (Cls (\<lambda>c. c \<noteq> 41)))) st (\<lambda>st. run (Lit [41]) st (\<lambda>st. [st])))"
  define S where "S = (\<lambda>st. run (Lit [34, 44]) st (\<lambda>st. run spaces st B))"
  have "run (Plus (Cls (\<lambda>c. c \<noteq> 41))) (q, ?b @ 41 # rest, d) (close_grp 3 (?b @ 41 # rest) (\<lambda>st. run (Lit [41]) st (\<lambda>st. [st])))
      = close_grp 3 (?b @ 41 # rest) (\<lambda>st. run (Lit [41]) st (\<lambda>st. [st])) (after q ?b, 41 # rest, d)" for q d
    by (rule run_cls_plus) (use body_shape(2) [OF assms(2)] b in \<open>auto simp: list_all_iff close_grp_simps run_simps eat_simps\<close>)
  then have "B (q, ?b @ 41 # rest, d) = [(Some 41, rest, (3, ?b) # d)]" for q d
    by (simp add: B_def run_simps close_grp_simps eat_simps)
  then have "\<exists>more. S (q, 34 # 44 # 32 # ?b @ 41 # rest, d) = (Some 41, rest, (3, ?b) # d) # more" for q d
    by (simp add: S_def b run_simps eat_simps run_spaces is_space_def white_space_def)
  then obtain more where s: "S (after (Some 34) label, 34 # 44 # 32 # ?b @ 41 # rest, (2, label) # c)
      = (Some 41, rest, (3, ?b) # (2, label) # c) # more" by blast
  let ?r = "label @ 34 # 44 # 32 # ?b @ 41 # rest"
  have "run (Star (Cls not_quote)) (Some 34, ?r, c) (close_grp 2 ?r S)
      = close_grp 2 ?r S (after (Some 34) label, 34 # 44 # 32 # ?b @ 41 # rest, c)"
    by (rule run_cls_star) (use assms(1) in \<open>auto simp: list_all_iff not_quote_def S_def close_grp_simps run_simps eat_simps\<close>)
  then have "run (Grp 2 (Star (Cls not_quote))) (Some 34, ?r, c) S = (Some 41, rest, (3, ?b) # (2, label) # c) # more"
    using s by (simp add: run_simps close_grp_simps)
  moreover have "rx_all call_rx (p, tier_call label tier @ rest, c) = run (Grp 2 (Star (Cls not_quote))) (Some 34, ?r, c) S"
    unfolding call_rx_def rx_all_run S_def B_def
    by (simp add: run_rseq run_simps tier_call_def eat_simps js_str)
  ultimately show ?thesis by simp
qed

text \<open>A tier as the expression shows it: its label, its conditions and the tier itself.\<close>

type_synonym tier_view = "jstring \<times> TierConditionInput list \<times> VisualTier"

fun view_text :: "tier_view \<Rightarrow> jstring" where
  "view_text (label, cs, tier) =
     (if cs = [] then tier_call label tier else buildConditionStr cs @ js '' ? '' @ tier_call label tier)"

fun view_captures :: "tier_view \<Rightarrow> captures" where
  "view_captures (label, cs, tier) =
     [(3, buildTierBodyExpr tier), (2, label)] @ (if cs = [] then [] else [(1, buildConditionStr cs)])"

fun view_ok :: "tier_view \<Rightarrow> bool" where
  "view_ok (label, cs, tier) \<longleftrightarrow> 34 \<notin> set label \<and> list_all tier_condition_ok cs \<and> tier_prices_ok tier"

fun view_shown :: "tier_view \<Rightarrow> ParsedTier" where
  "view_shown (label, cs, tier) =
     \<lparr>pt_label = label, pt_conditions = map shown_condition cs, pt_fields = display_fields tier\<rparr>"

lemma cond_group_t: "run (Grp 1 COND_GROUP) (p, 116 # s, c) K = []"
  by (simp add: run_simps COND_GROUP_def cond_atom_def run_rseq eat_simps js_str)

lemma view_match:
  assumes "view_ok v"
  shows "\<exists>more. rx_all TIER_REGEX (q, view_text v @ rest, []) = (Some 41, rest, view_captures v) # more"
proof -
  obtain label cs tier where v: "v = (label, cs, tier)" by (cases v) auto
  have ok: "34 \<notin> set label" "list_all tier_condition_ok cs" "tier_prices_ok tier" using assms by (auto simp: v)
  show ?thesis
  proof (cases "cs = []")
    case True
    have "run (rseq [Grp 1 COND_GROUP, spaces, Lit (js ''?''), spaces]) (q, tier_call label tier @ rest, []) K = []" for K :: "rx_state \<Rightarrow> rx_state list"
      unfolding run_rseq by (simp add: tier_call_def js_str cond_group_t del: One_nat_def)
    then show ?thesis
      using call_match [OF ok(1,3), of q rest "[]"] True by (simp add: tier_regex_run v)
  next
    case False
    define C where "C = buildConditionStr cs"
    define s where "s = C @ 32 # 63 # 32 # tier_call label tier @ rest"
    have C: "C = join (js '' && '') (map condition_text cs)"
      by (simp add: C_def buildConditionStr_def conditions_given [OF ok(2)])
    define Q where "Q = (\<lambda>st. run spaces st (\<lambda>st. run (Lit [63]) st (\<lambda>st. run spaces st (\<lambda>st. rx_all call_rx st))))"
    obtain u where u: "tier_call label tier = 116 # u" by (simp add: tier_call_def js_str)
    obtain q' where q': "run COND_GROUP (q, s, []) (close_grp 1 s Q) = close_grp 1 s Q (q', 32 # 63 # 32 # tier_call label tier @ rest, [])"
    proof -
      have "\<exists>q'. run COND_GROUP (q, C @ 32 # 63 # 32 # tier_call label tier @ rest, []) (close_grp 1 s Q)
          = close_grp 1 s Q (q', 32 # 63 # 32 # tier_call label tier @ rest, [])"
        unfolding C
      proof (rule cond_group_run [OF ok(2) False])
        show "close_grp 1 s Q (p, x # t, []) = []" if "cond_num_char x" for x p t
          using that cond_num_not_space [OF that]
          by (auto simp: close_grp_simps Q_def run_spaces run_simps eat_simps cond_num_char_def is_digit_def)
        show "close_grp 1 s Q (p, 32 # 38 # t, []) = []" for p t
          by (simp add: close_grp_simps Q_def run_spaces run_simps eat_simps is_space_def white_space_def)
      qed
      then show ?thesis using that by (auto simp: s_def)
    qed
    have "close_grp 1 s Q (q', 32 # 63 # 32 # tier_call label tier @ rest, [])
        = Q (q', 32 # 63 # 32 # tier_call label tier @ rest, [(1, C)])"
      by (simp add: close_grp_simps s_def)
    also have "\<dots> = rx_all call_rx (Some 32, tier_call label tier @ rest, [(1, C)])"
      by (simp add: Q_def u run_spaces run_simps eat_simps call_fails is_space_def white_space_def)
    finally have "run (rseq [Grp 1 COND_GROUP, spaces, Lit (js ''?''), spaces]) (q, s, []) (\<lambda>st. rx_all call_rx st)
        = rx_all call_rx (Some 32, tier_call label tier @ rest, [(1, C)])"
      using q' unfolding run_rseq run_simps(7) Q_def by (simp add: js_str)
    moreover have "view_text v @ rest = s" using False by (simp add: v s_def C_def js_str)
    ultimately show ?thesis
      using call_match [OF ok(1,3), of "Some 32" rest "[(1, C)]"] False
      by (auto simp: tier_regex_run v C_def)
  qed
qed

lemma tier_skip: "rx_exec TIER_REGEX p (32 # 58 # 32 # s) = rx_exec TIER_REGEX (Some 32) s"
proof -
  have "rx_all TIER_REGEX (q, x # t, []) = []" if "x = 32 \<or> x = 58" for q x t
    using that call_fails(1) [of x]
    by (auto simp: tier_regex_run run_rseq run_simps COND_GROUP_def cond_atom_def eat_simps js_str)
  then show ?thesis by simp
qed

definition view_tail :: "jstring list" where
  "view_tail = [[], js '' : '' @ NO_PRICE]"

lemma no_tier_here:
  "x \<notin> {116, 112, 99, 108} \<Longrightarrow> rx_all TIER_REGEX (q, x # t, []) = []"
  "x \<in> {112, 99} \<Longrightarrow> rx_all TIER_REGEX (q, x # 32 # 42 # t, []) = []"
  "rx_all TIER_REGEX (q, [], []) = []"
  by (auto simp: tier_regex_run call_fails run_rseq run_simps COND_GROUP_def cond_atom_def eat_simps js_str
      run_spaces is_space_def white_space_def)

lemma no_price_no_tier: "rx_exec TIER_REGEX q NO_PRICE = None"
  by (simp add: NO_PRICE_def js_str no_tier_here)

lemma tail_match:
  assumes "s \<in> set view_tail"
  shows "rx_match_all TIER_REGEX p s = []"
proof -
  have "rx_exec TIER_REGEX p [] = None" by (simp add: no_tier_here)
  moreover have "rx_exec TIER_REGEX p (js '' : '' @ NO_PRICE) = None"
    using tier_skip [of p NO_PRICE] no_price_no_tier by (simp add: js_str)
  ultimately show ?thesis using assms by (subst rx_match_all.simps) (auto simp: view_tail_def)
qed

lemma match_views:
  assumes "list_all view_ok vs" "vs \<noteq> []" "s \<in> set view_tail"
  shows "rx_match_all TIER_REGEX q (join (js '' : '') (map view_text vs) @ s) = map view_captures vs"
  using assms
proof (induction vs arbitrary: q)
  case (Cons v vs)
  define rest where "rest = (if vs = [] then s else js '' : '' @ join (js '' : '') (map view_text vs) @ s)"
  have t: "join (js '' : '') (map view_text (v # vs)) @ s = view_text v @ rest"
    by (cases vs) (simp_all add: rest_def)
  have v: "view_ok v" and vs: "list_all view_ok vs" using Cons.prems by simp_all
  have l: "length rest < length (view_text v @ rest)" for v rest by (cases v) (simp add: tier_call_def js_str)
  have e: "rx_exec TIER_REGEX q (view_text v @ rest) = Some (Some 41, rest, view_captures v)"
    if "view_ok v" for v q rest
    using view_match [OF that, of q rest] rx_exec_here by metis
  have "rx_match_all TIER_REGEX (Some 41) rest = map view_captures vs"
  proof (cases vs)
    case Nil
    then show ?thesis using tail_match [OF Cons.prems(3)] by (simp add: rest_def)
  next
    case (Cons w ws)
    define j where "j = join (js '' : '') (map view_text vs) @ s"
    obtain r where j: "j = view_text w @ r" by (cases ws) (auto simp: j_def Cons)
    have w: "view_ok w" using vs Cons by simp
    have "rx_match_all TIER_REGEX (Some 41) rest = rx_match_all TIER_REGEX (Some 32) j"
    proof (rule rx_match_all_skip)
      show "rx_exec TIER_REGEX (Some 41) rest = rx_exec TIER_REGEX (Some 32) j"
        using tier_skip [of "Some 41" j] Cons by (simp add: rest_def j_def js_str)
      show "length j \<le> length rest" using Cons by (simp add: rest_def j_def)
      show "length t' < length j" if "rx_exec TIER_REGEX (Some 32) j = Some (p', t', c)" for p' t' c
        using that e [OF w, of "Some 32" r] l [of r w] by (simp add: j)
    qed
    then show ?thesis using Cons.IH [of "Some 32"] vs Cons.prems(3) Cons by (simp add: j_def)
  qed
  then show ?case unfolding t using rx_match_all_step [OF e [OF v, of q rest] l] by simp
qed simp

lemma view_parsed:
  assumes "view_ok v"
  shows "\<lparr>pt_label = capture (view_captures v) 2, pt_conditions = parse_conditions (capture (view_captures v) 1),
      pt_fields = parseTierBody (capture (view_captures v) 3)\<rparr> = view_shown v"
proof -
  obtain label cs tier where v: "v = (label, cs, tier)" by (cases v) auto
  have "list_all tier_condition_ok cs" "tier_prices_ok tier" using assms by (auto simp: v)
  then show ?thesis
    using parse_body [of tier] parse_built_conditions [of cs]
    by (auto simp: v parse_conditions_def capture_def)
qed

section \<open>Versions\<close>

text \<open>The text of some small numbers.\<close>

lemma small_round: "js_round 2 = Fin 2" "js_round 4 = Fin 4" "js_round 8 = Fin 8"
  by (simp_all add: js_round_def round_pos_def ulp_exp_def exponent_of_def bit_len.simps pow2_def round_half_even_def)

lemma small_digits: "show_nat 2 = [50]" "show_nat 4 = [52]" "show_nat 8 = [56]" by code_simp+

lemma small_scale: "scale10 2 = 1" "scale10 4 = 1" "scale10 8 = 1"
  by (simp_all add: scale10_def small_digits)

lemma small_shortest: "shortest_at 2 1 (Suc 0) = Some (2, 1)" "shortest_at 4 1 (Suc 0) = Some (4, 1)" "shortest_at 8 1 (Suc 0) = Some (8, 1)"
  by (simp_all add: shortest_at_def pow10_def Let_def reads_back_def small_round)

lemma small_text:
  "num_to_string (Fin 2) = [50]" "num_to_string (Fin 4) = [52]" "num_to_string (Fin 8) = [56]" 
  by (simp_all add: show_pos_def small_scale small_shortest upt_rec layout_def small_digits)

lemma small_number: "to_number [50] = Fin 2" "to_number [52] = Fin 4" "to_number [56] = Fin 8"
  by (simp_all add: to_number_def trim_def is_space_def white_space_def decimal_number_def js_str
    unsigned_decimal_def pdigits_def is_digit_def read_nat_def pexp_def pow10_def small_round)

lemma strip_not_version: "s \<noteq> [] \<Longrightarrow> hd s \<noteq> 118 \<Longrightarrow> snd (stripExprVersion s) = s"
  by (cases s) (simp_all add: stripExprVersion_def VERSION_REGEX_def rx_at_def rx_sem js_str)

lemma strip_version_2: "snd (stripExprVersion (118 # 50 # 58 # s)) = s"
proof -
  have "rx_all (Seq (Grp 2 (Star (Cls (\<lambda>_. True)))) (Seq Eol Eps)) (p, s @ [], c)
      = rx_all (Seq Eol Eps) (after p s, [], (2, s) # c)" for p c
    by (rule cls_grp_star_then) (auto simp: rx_sem list_all_iff)
  moreover have "rx_all (Seq (Grp 1 (Plus (Cls is_digit))) k) (p, [50] @ 58 # s, c) = rx_all k (after p [50], 58 # s, (1, [50]) # c)"
    if "\<And>x p s c. is_digit x \<Longrightarrow> rx_all k (p, x # s, c) = []" for p c k
    by (rule cls_grp_plus_then) (use that in \<open>auto simp: is_digit_def\<close>)
  ultimately have "rx_at VERSION_REGEX (118 # 50 # 58 # s) = Some [(2, s), (1, [50])]"
    by (simp add: rx_at_def VERSION_REGEX_def rx_sem js_str is_digit_def)
  then show ?thesis by (simp add: stripExprVersion_def)
qed

definition version_ok :: "VisualConfig \<Rightarrow> bool" where
  "version_ok c \<longleftrightarrow> vc_version c \<in> {None, Some (Fin 1), Some (Fin 2)}"

lemma version_shape:
  assumes "version_ok c"
  shows "applyExprVersion c s = s \<or> applyExprVersion c s = 118 # 50 # 58 # s"
proof -
  define req where "req = list_ex (\<lambda>t. cost_not_zero t (js ''document_input_unit_cost'')
    \<or> cost_not_zero t (js ''video_input_unit_cost'')) (vc_tiers c)"
  define ver where "ver = num_max (case vc_version c of Some v \<Rightarrow> v | None \<Rightarrow> Fin 1) (if req then Fin 2 else Fin 1)"
  have "ver = Fin 1 \<or> ver = Fin 2" using assms by (auto simp: ver_def version_ok_def num_max_def)
  moreover have "applyExprVersion c s = (if num_gt ver (Fin 1) then js ''v'' @ num_to_string ver @ js '':'' @ s else s)"
    unfolding applyExprVersion_def Let_def req_def [symmetric] ver_def ..
  moreover have "\<not> num_gt (Fin 1) (Fin 1)" by (simp add: num_gt_def)
  ultimately show ?thesis using small_text(1) by (auto simp: js_str simp del: num_to_string.simps)
qed

lemma strip_applied_version:
  assumes "version_ok c" "s \<noteq> []" "hd s \<noteq> 118"
  shows "snd (stripExprVersion (applyExprVersion c s)) = s" "applyExprVersion c s \<noteq> []"
  using version_shape [OF assms(1), of s] strip_version_2 strip_not_version assms(2,3) by auto

section \<open>Generated expressions\<close>

definition config_ok :: "VisualConfig \<Rightarrow> bool" where
  "config_ok c \<longleftrightarrow>
     version_ok c
     \<and> list_all (\<lambda>t. 34 \<notin> set (vt_label t) \<and> list_all tier_condition_ok (vt_conditions t) \<and> tier_prices_ok t) (vc_tiers c)"

text \<open>The tiers of a configuration as its expression shows them.\<close>

definition tier_view :: "nat \<Rightarrow> nat \<Rightarrow> VisualTier \<Rightarrow> tier_view" where
  "tier_view n i t =
     (if vt_label t = [] then js ''tier_'' @ show_nat (i + 1) else vt_label t,
      if i + 1 < n then vt_conditions t else [], t)"

definition config_views :: "VisualConfig \<Rightarrow> tier_view list" where
  "config_views c =
     (case vc_tiers c of
        [t] \<Rightarrow> [(if vt_label t = [] then js ''default'' else vt_label t, vt_conditions t, t)]
      | ts \<Rightarrow> map (\<lambda>(i, t). tier_view (length ts) i t) (enumerate 0 ts))"

lemma config_views_cases:
  obtains "vc_tiers c = []" "config_views c = []"
  | t where "vc_tiers c = [t]"
      "config_views c = [(if vt_label t = [] then js ''default'' else vt_label t, vt_conditions t, t)]"
  | t u ts where "vc_tiers c = t # u # ts"
      "config_views c = map (\<lambda>(i, v). tier_view (length (t # u # ts)) i v) (enumerate 0 (t # u # ts))"
proof (cases "vc_tiers c")
  case (Cons t ts)
  then show ?thesis using that by (cases ts) (simp_all add: config_views_def)
qed (use that in \<open>simp add: config_views_def\<close>)

lemma enumerated_views:
  "(\<And>n i t. t \<in> set xs \<Longrightarrow> view_ok (tier_view n i t))
    \<Longrightarrow> list_all view_ok (map (\<lambda>(i, t). tier_view n i t) (enumerate k xs))"
  by (induction xs arbitrary: k) auto

lemma config_views_ok:
  assumes "config_ok c"
  shows "list_all view_ok (config_views c)"
proof -
  have ok: "34 \<notin> set (vt_label t)" "list_all tier_condition_ok (vt_conditions t)" "tier_prices_ok t"
    if "t \<in> set (vc_tiers c)" for t
    using assms that by (auto simp: config_ok_def list_all_iff)
  have "34 \<notin> set (show_nat k)" for k
    using all_digits_show_nat [of k] by (auto simp: all_digits_def list_all_iff is_digit_def)
  then have v: "view_ok (tier_view n i t)" if "t \<in> set (vc_tiers c)" for n i t
    using ok [OF that] by (simp add: tier_view_def js_str)
  show ?thesis
  proof (rule config_views_cases [of c])
    show ?thesis if "vc_tiers c = [t]"
      "config_views c = [(if vt_label t = [] then js ''default'' else vt_label t, vt_conditions t, t)]" for t
      using ok [of t] that by (simp add: js_str)
    show ?thesis if "vc_tiers c = t # u # ts"
      "config_views c = map (\<lambda>(i, v). tier_view (length (t # u # ts)) i v) (enumerate 0 (t # u # ts))" for t u ts
      unfolding that(2) by (rule enumerated_views) (use that(1) v in \<open>simp only:\<close>)
  qed simp
qed

lemma tier_part_view:
  assumes "list_all tier_condition_ok (vt_conditions t)"
  shows "tier_part n i t = view_text (tier_view n i t)"
  using parse_built_conditions(2) [OF assms] by (simp add: tier_part_def tier_view_def Let_def)

lemma enumerated_parts:
  "(\<And>t. t \<in> set xs \<Longrightarrow> list_all tier_condition_ok (vt_conditions t))
    \<Longrightarrow> map (\<lambda>(i, t). tier_part n i t) (enumerate k xs)
      = map view_text (map (\<lambda>(i, t). tier_view n i t) (enumerate k xs))"
  using tier_part_view by (induction xs arbitrary: k) auto

lemma generated_text:
  assumes "config_ok c" "vc_tiers c \<noteq> []"
  shows "\<exists>s\<in>set view_tail. generateExprFromVisualConfig (Some c)
    = applyExprVersion c (join (js '' : '') (map view_text (config_views c)) @ s)"
proof -
  have ok: "list_all tier_condition_ok (vt_conditions t)" if "t \<in> set (vc_tiers c)" for t
    using assms(1) that by (auto simp: config_ok_def list_all_iff)
  show ?thesis
  proof (rule config_views_cases [of c])
    show ?thesis if "vc_tiers c = [t]"
      "config_views c = [(if vt_label t = [] then js ''default'' else vt_label t, vt_conditions t, t)]" for t
      using that ok [of t] parse_built_conditions(2) [of "vt_conditions t"]
      by (auto simp: generateExprFromVisualConfig_def view_tail_def Let_def)
    show ?thesis if "vc_tiers c = t # u # ts"
      "config_views c = map (\<lambda>(i, v). tier_view (length (t # u # ts)) i v) (enumerate 0 (t # u # ts))" for t u ts
    proof -
      have "map (\<lambda>(i, v). tier_part (length (t # u # ts)) i v) (enumerate 0 (t # u # ts)) = map view_text (config_views c)"
        unfolding that(2) by (rule enumerated_parts) (use that(1) ok in \<open>simp only:\<close>)
      then have "generateExprFromVisualConfig (Some c) = applyExprVersion c (join (js '' : '') (map view_text (config_views c)))"
        unfolding generateExprFromVisualConfig_def by (simp only: that(1) option.case list.case)
      then show ?thesis by (auto simp: view_tail_def)
    qed
  qed (use assms(2) in simp)
qed

lemma view_text_head:
  assumes "view_ok v"
  shows "view_text v \<noteq> []" "hd (view_text v) \<noteq> 118"
proof -
  obtain label cs tier where v: "v = (label, cs, tier)" by (cases v) auto
  have "hd (buildConditionStr cs) \<noteq> 118 \<and> buildConditionStr cs \<noteq> []" if ne: "cs \<noteq> []"
  proof -
    obtain d ds where cs: "cs = d # ds" using ne by (cases cs) auto
    have d: "tier_condition_ok d" using assms by (simp add: v cs)
    have "buildConditionStr cs = join (js '' && '') (map condition_text cs)"
      using assms by (simp add: v buildConditionStr_def conditions_given)
    then show ?thesis using condition_text_shape(2,6) [OF d] by (cases ds) (simp_all add: cs)
  qed
  then show "view_text v \<noteq> []" "hd (view_text v) \<noteq> 118" by (auto simp: v tier_call_def js_str)
qed

lemma generated_tiers_reads:
  assumes "config_ok c"
  shows "parseTiersFromExpr (generateExprFromVisualConfig (Some c)) = map view_shown (config_views c)"
proof (cases "vc_tiers c = []")
  case True
  then have "config_views c = []" by (simp add: config_views_def)
  moreover have "rx_match_all TIER_REGEX None NO_PRICE = []"
    by (subst rx_match_all.simps) (simp add: no_price_no_tier)
  moreover have "snd (stripExprVersion NO_PRICE) = NO_PRICE"
    by (rule strip_not_version) (simp_all add: NO_PRICE_def js_str)
  ultimately show ?thesis
    using True by (simp add: generateExprFromVisualConfig_def parseTiersFromExpr_def)
next
  case False
  define b where "b = join (js '' : '') (map view_text (config_views c))"
  obtain s where s: "s \<in> set view_tail" "generateExprFromVisualConfig (Some c) = applyExprVersion c (b @ s)"
    using generated_text [OF assms False] by (auto simp: b_def)
  have v: "list_all view_ok (config_views c)" by (rule config_views_ok [OF assms])
  have "config_views c \<noteq> []" using False by (cases rule: config_views_cases [of c]) auto
  then obtain w ws where w: "config_views c = w # ws" by (cases "config_views c") auto
  have "view_ok w" using v by (simp add: w)
  then have "b \<noteq> []" "hd b \<noteq> 118" using view_text_head [of w] by (cases ws; simp add: b_def w)+
  then have "snd (stripExprVersion (applyExprVersion c (b @ s))) = b @ s" "applyExprVersion c (b @ s) \<noteq> []"
    using strip_applied_version [of c "b @ s"] assms by (auto simp: config_ok_def)
  moreover have "rx_match_all TIER_REGEX None (b @ s) = map view_captures (config_views c)"
    unfolding b_def using match_views [OF v _ s(1)] by (simp add: w)
  ultimately show ?thesis
    using v view_parsed unfolding s(2) by (simp add: parseTiersFromExpr_def list_all_iff)
qed

text \<open>C25: what the visual editor compiles, the price display reads: for labels without quotes, prices and thresholds
  whose decimal text denotes them and the two expression versions, parsing the generated expression gives every tier
  with its label (or the default label), its conditions (none for the last of several tiers) and its prices.\<close>

theorem generated_tiers_read_back:
  assumes "config_ok c"
  shows "parseTiersFromExpr (generateExprFromVisualConfig (Some c)) = map view_shown (config_views c)"
  by (rule generated_tiers_reads [OF assms])

definition sample_config :: VisualConfig where
  "sample_config =
     \<lparr>vc_version = None, vc_tiers =
       [\<lparr>vt_label = js ''base'',
         vt_conditions = [\<lparr>ti_var = js ''len'', ti_op = js ''<='', ti_value = Some (NumberValue (Fin 4))\<rparr>],
         vt_input_unit_cost = Fin 2, vt_output_unit_cost = Fin 8, vt_cache_mode = CACHE_MODE_GENERIC,
         vt_costs = [(js ''cache_read_unit_cost'', Fin 4)]\<rparr>,
        \<lparr>vt_label = [], vt_conditions = [], vt_input_unit_cost = Fin 4, vt_output_unit_cost = Fin 8,
         vt_cache_mode = CACHE_MODE_GENERIC, vt_costs = []\<rparr>]\<rparr>"

lemma zero_text: "num_to_string (Fin 0) = [48]" "to_number [48] = Fin 0"
  by (simp_all add: to_number_def trim_def is_space_def white_space_def decimal_number_def js_str js_round_def
    unsigned_decimal_def pdigits_def is_digit_def read_nat_def pexp_def pow10_def)

lemma small_price_ok: "price_ok (Fin 2)" "price_ok (Fin 4)" "price_ok (Fin 8)" "price_ok (Fin 0)"
  unfolding price_ok_def
  by (simp_all add: small_text small_number num_char_def is_digit_def zero_text del: num_to_string.simps)

lemma sample_ok: "config_ok sample_config"
  unfolding config_ok_def
  by (simp add: sample_config_def version_ok_def js_str tier_prices_ok_def unit_price_def tier_cost_def tier_condition_ok_def
   threshold_ok_def cond_num_char_def is_digit_def num_or_def small_price_ok given_value_def COND_VARS_def COND_OPS_def small_text small_number cache_map_simp
   del: num_to_string.simps)

text \<open>A witness: two tiers, the first with a condition and a cache price, the second unnamed.\<close>

theorem generated_tiers_read_back_witness:
  "config_ok sample_config
   \<and> map pt_label (parseTiersFromExpr (generateExprFromVisualConfig (Some sample_config))) = [js ''base'', js ''tier_2'']
   \<and> map pt_conditions (parseTiersFromExpr (generateExprFromVisualConfig (Some sample_config)))
     = [[\<lparr>cond_var = js ''len'', cond_op = js ''<='', cond_value = Fin 4\<rparr>], []]
   \<and> map (\<lambda>t. map_of (pt_fields t) (js ''inputPrice'')) (parseTiersFromExpr (generateExprFromVisualConfig (Some sample_config)))
     = [Some (Fin 2), Some (Fin 4)]"
  unfolding generated_tiers_read_back [OF sample_ok]
  by (simp add: sample_ok) (simp add: config_views_def sample_config_def tier_view_def shown_condition_def given_value_def display_fields_def
    unit_price_def num_or_def num_truthy_def numeral_2_eq_2 [symmetric] small_digits js_str)

section \<open>The shape of a generated expression\<close>

definition no_parens :: "jstring \<Rightarrow> bool" where
  "no_parens s \<longleftrightarrow> 40 \<notin> set s \<and> 41 \<notin> set s"

lemma condition_no_parens:
  assumes "tier_condition_ok cd"
  shows "no_parens (condition_text cd)"
proof -
  have ok: "ti_var cd \<in> set COND_VARS" "ti_op cd \<in> set COND_OPS" "threshold_ok (given_value cd)"
    using assms unfolding tier_condition_ok_def by blast+
  have "list_all cond_num_char (num_to_string (given_value cd))" using ok(3) unfolding threshold_ok_def by blast
  then have "no_parens (num_to_string (given_value cd))"
    by (auto simp: no_parens_def list_all_iff cond_num_char_def is_digit_def)
  then show ?thesis
    using ok(1,2) by (auto simp: no_parens_def condition_text_ok [OF assms] COND_VARS_def COND_OPS_def js_str)
qed

lemma join_no_parens: "no_parens sep \<Longrightarrow> list_all no_parens xs \<Longrightarrow> no_parens (join sep xs)"
  by (induction sep xs rule: join.induct) (auto simp: no_parens_def)

lemma body_no_parens:
  assumes "tier_prices_ok tier"
  shows "no_parens (buildTierBodyExpr tier)"
proof -
  have "no_parens (product_text v x)" if "(v, x) \<in> set (tier_terms tier)" for v x
  proof -
    have v: "v \<in> set price_keys" "price_ok x"
      using tier_terms_ok [OF assms] that by (auto simp: terms_ok_def list_all_iff)
    have "no_parens (num_to_string x)"
      using price_text(1) [OF v(2)] by (auto simp: no_parens_def list_all_iff num_char_def is_digit_def)
    then show ?thesis using v(1) by (auto simp: no_parens_def product_text_def price_keys_simp js_str)
  qed
  then show ?thesis
    unfolding body_is_terms terms_text_def by (intro join_no_parens) (auto simp: list_all_iff no_parens_def js_str)
qed

lemma no_parens_bal: "no_parens u \<Longrightarrow> bal d (u @ s) = bal d s" "no_parens u \<Longrightarrow> bal 0 u"
  using bal_no_parens [of u d s] bal_no_parens [of u 0 "[]"] by (auto simp: no_parens_def)

lemma call_bal:
  assumes "no_parens label" "tier_prices_ok tier"
  shows "bal d (tier_call label tier @ s) = bal d s"
  using no_parens_bal(1) [OF assms(1)] no_parens_bal(1) [OF body_no_parens [OF assms(2)]]
  by (simp add: tier_call_def js_str)

lemma view_bal:
  assumes "view_ok (label, cs, tier)" "no_parens label"
  shows "bal d (view_text (label, cs, tier) @ s) = bal d s"
proof -
  have "no_parens (buildConditionStr cs)"
    using assms condition_no_parens
    by (auto simp: buildConditionStr_def conditions_given list_all_iff js_str no_parens_def intro!: join_no_parens [unfolded no_parens_def])
  then show ?thesis using assms by (simp add: call_bal no_parens_bal(1)) (simp add: js_str call_bal)
qed

lemma views_bal:
  "list_all view_ok vs \<Longrightarrow> list_all (\<lambda>v. no_parens (fst v)) vs \<Longrightarrow> bal 0 (join (js '' : '') (map view_text vs) @ s) = bal 0 s"
proof (induction vs)
  case (Cons v vs)
  obtain label cs tier where v: "v = (label, cs, tier)" by (cases v)
  show ?case
  proof (cases vs)
    case (Cons w ws)
    have "join (js '' : '') (map view_text (v # vs)) @ s
      = view_text v @ 32 # 58 # 32 # join (js '' : '') (map view_text vs) @ s"
      by (simp add: Cons js_str)
    then show ?thesis using Cons.prems Cons.IH view_bal [of label cs tier] by (simp add: v del: view_text.simps)
  qed (use Cons.prems view_bal [of label cs tier] in \<open>simp add: v del: view_text.simps\<close>)
qed simp

lemma view_ends:
  assumes "view_ok v"
  shows "\<not> is_space (hd (view_text v))" "hd (view_text v) \<noteq> 40" "last (view_text v) = 41"
proof -
  obtain label cs tier where v: "v = (label, cs, tier)" by (cases v)
  have "\<not> is_space (hd (buildConditionStr cs)) \<and> hd (buildConditionStr cs) \<noteq> 40 \<and> buildConditionStr cs \<noteq> []" if ne: "cs \<noteq> []"
  proof -
    obtain d ds where cs: "cs = d # ds" using ne by (cases cs) auto
    have d: "tier_condition_ok d" using assms by (simp add: v cs)
    have "hd (condition_text d) \<noteq> 40"
      using condition_no_parens [OF d] condition_text_shape(2) [OF d] by (cases "condition_text d") (auto simp: no_parens_def)
    moreover have "buildConditionStr cs = join (js '' && '') (map condition_text cs)"
      using assms by (simp add: v buildConditionStr_def conditions_given)
    ultimately show ?thesis using condition_text_shape(2,3) [OF d] by (cases ds) (simp_all add: cs)
  qed
  then show "\<not> is_space (hd (view_text v))" "hd (view_text v) \<noteq> 40" "last (view_text v) = 41"
    by (auto simp: v tier_call_def js_str is_space_def white_space_def)
qed

lemma join_ends:
  "list_all (\<lambda>x. x \<noteq> [] \<and> last x = k) xs \<Longrightarrow> xs \<noteq> []
    \<Longrightarrow> join sep xs \<noteq> [] \<and> last (join sep xs) = k \<and> hd (join sep xs) = hd (hd xs)"
  by (induction sep xs rule: join.induct) auto

lemma join_views_ends:
  assumes "list_all view_ok vs" "vs \<noteq> []"
  shows "join sep (map view_text vs) \<noteq> []" "\<not> is_space (hd (join sep (map view_text vs)))"
    "hd (join sep (map view_text vs)) \<noteq> 40" "last (join sep (map view_text vs)) = 41"
proof -
  have "list_all (\<lambda>x. x \<noteq> [] \<and> last x = 41) (map view_text vs)"
    using assms(1) view_ends(3) view_text_head(1) by (simp add: list_all_iff)
  note j = join_ends [OF this, of sep]
  have "view_ok (hd vs)" using assms by (cases vs) auto
  then show "join sep (map view_text vs) \<noteq> []" "\<not> is_space (hd (join sep (map view_text vs)))"
    "hd (join sep (map view_text vs)) \<noteq> 40" "last (join sep (map view_text vs)) = 41"
    using j assms(2) view_ends(1,2) [of "hd vs"] by (simp_all add: hd_map)
qed

lemma view_labels:
  assumes "list_all (\<lambda>t. no_parens (vt_label t)) (vc_tiers c)"
  shows "list_all (\<lambda>v. no_parens (fst v)) (config_views c)"
proof -
  have "no_parens (show_nat k)" for k
    using all_digits_show_nat [of k] by (auto simp: no_parens_def all_digits_def list_all_iff is_digit_def)
  then have v: "no_parens (fst (tier_view n i t))" if "no_parens (vt_label t)" for n i t
    using that by (auto simp: tier_view_def no_parens_def js_str)
  have "list_all (\<lambda>v. no_parens (fst v)) (map (\<lambda>(i, t). tier_view n i t) (enumerate k xs))"
    if "list_all (\<lambda>t. no_parens (vt_label t)) xs" for n k xs
    using that v by (induction xs arbitrary: k) auto
  moreover have "no_parens (js ''default'')" by (simp add: no_parens_def js_str)
  ultimately show ?thesis using assms v by (cases rule: config_views_cases [of c]) simp_all
qed

lemma generated_shape:
  assumes "config_ok c" "list_all (\<lambda>t. no_parens (vt_label t)) (vc_tiers c)"
  defines "e \<equiv> generateExprFromVisualConfig (Some c)"
  shows "e \<noteq> []" "trim e = e" "bal 0 e" "\<not> hasFullOuterParens e" "\<not> suffix (js '' : 1'') e"
proof -
  have "e \<noteq> [] \<and> \<not> is_space (hd e) \<and> hd e \<noteq> 40 \<and> last e \<in> {41, 48} \<and> bal 0 e"
  proof (cases "vc_tiers c = []")
    case True
    then have "e = NO_PRICE" by (simp add: e_def generateExprFromVisualConfig_def)
    then show ?thesis by (simp add: NO_PRICE_def js_str is_space_def white_space_def)
  next
    case False
    define b where "b = join (js '' : '') (map view_text (config_views c))"
    obtain s where s: "s \<in> set view_tail" "e = applyExprVersion c (b @ s)"
      using generated_text [OF assms(1) False] by (auto simp: b_def e_def)
    have v: "list_all view_ok (config_views c)" by (rule config_views_ok [OF assms(1)])
    have "config_views c \<noteq> []" using False by (cases rule: config_views_cases [of c]) auto
    note b = join_views_ends [OF v this, of "js '' : ''", folded b_def]
    have "bal 0 s" "last (b @ s) \<in> {41, 48}" using s(1) b(4) by (auto simp: view_tail_def NO_PRICE_def js_str)
    moreover have "bal 0 (b @ s) = bal 0 s"
      unfolding b_def by (rule views_bal [OF v view_labels [OF assms(2)]])
    ultimately show ?thesis
      using version_shape [of c "b @ s"] assms(1) b unfolding s(2)
      by (auto simp: config_ok_def is_space_def white_space_def)
  qed
  then have e: "e \<noteq> []" "\<not> is_space (hd e)" "hd e \<noteq> 40" "last e = 41 \<or> last e = 48" "bal 0 e"
    by simp_all
  have "\<not> is_space (last e)" using e(4) by (rule disjE) (simp_all add: is_space_def white_space_def)
  then show "trim e = e" by (rule trim_id [OF e(1,2)])
  show "\<not> hasFullOuterParens e" using e(1,3) by (cases e) (simp_all add: hasFullOuterParens_def)
  show "\<not> suffix (js '' : 1'') e" using e(4) by (auto simp: suffix_def js_str)
  show "e \<noteq> []" "bal 0 e" by (rule e)+
qed

end
