(* ===== verification/JS_Stringify.thy ===== *)
theory JS_Stringify
  imports JS_Convert
begin

text \<open>
  \<^verbatim>\<open>JSON.stringify(v)\<close> and \<^verbatim>\<open>JSON.stringify(v, null, 2)\<close>: one printer with the gap of the standard, the text of
  one level of indentation (empty for the compact form). A value that JSON can carry parses back
  from either form.
\<close>

section \<open>The printer\<close>

text \<open>The items of an array or object between their brackets, at the indentation \<open>ind\<close>.\<close>

definition bracket :: "jstring \<Rightarrow> jstring \<Rightarrow> nat \<Rightarrow> nat \<Rightarrow> jstring list \<Rightarrow> jstring" where
  "bracket gap ind opening closing items =
     (if items = [] then [opening, closing]
      else if gap = [] then [opening] @ join [44] items @ [closing]
      else [opening, 10] @ ind @ gap @ join ([44, 10] @ ind @ gap) items @ [10] @ ind @ [closing])"

definition colon :: "jstring \<Rightarrow> jstring" where
  "colon gap = (if gap = [] then [58] else [58, 32])"

fun stringify_at :: "jstring \<Rightarrow> jstring \<Rightarrow> json \<Rightarrow> jstring" where
  "stringify_at gap ind JNull = js ''null''"
| "stringify_at gap ind (JBool b) = (if b then js ''true'' else js ''false'')"
| "stringify_at gap ind (JNum x) = (if is_finite x then num_to_string x else js ''null'')"
| "stringify_at gap ind (JStr s) = json_quote s"
| "stringify_at gap ind (JArr vs) = bracket gap ind 91 93 (map (stringify_at gap (ind @ gap)) vs)"
| "stringify_at gap ind (JObj ps) =
     bracket gap ind 123 125
       (map (\<lambda>(k, v). json_quote k @ colon gap @ stringify_at gap (ind @ gap) v) ps)"

definition json_stringify :: "json \<Rightarrow> jstring" where
  "json_stringify v = stringify_at [] [] v"

definition json_pretty :: "json \<Rightarrow> jstring" where
  "json_pretty v = stringify_at [32, 32] [] v"

section \<open>Values that JSON carries\<close>

definition units :: "jstring \<Rightarrow> bool" where
  "units s \<longleftrightarrow> list_all (\<lambda>c. c < 65536) s"

definition num_ok :: "jsnum \<Rightarrow> bool" where
  "num_ok x \<longleftrightarrow> is_finite x \<and> pnumber (num_to_string x) = Some (x, [])"

fun json_ok :: "json \<Rightarrow> bool" where
  "json_ok JNull = True"
| "json_ok (JBool b) = True"
| "json_ok (JNum x) = num_ok x"
| "json_ok (JStr s) = units s"
| "json_ok (JArr vs) = list_all json_ok vs"
| "json_ok (JObj ps) = (obj_of_members ps = ps \<and> list_all (\<lambda>(k, v). units k \<and> json_ok v) ps)"

section \<open>Numbers before a delimiter\<close>

definition stops :: "jstring \<Rightarrow> bool" where
  "stops t \<longleftrightarrow> t = [] \<or> (\<not> is_digit (hd t) \<and> hd t \<noteq> 46 \<and> hd t \<noteq> 101 \<and> hd t \<noteq> 69)"

lemma stops_simps [simp]:
  "stops []" "stops (c # t) \<longleftrightarrow> \<not> is_digit c \<and> c \<noteq> 46 \<and> c \<noteq> 101 \<and> c \<noteq> 69"
  by (simp_all add: stops_def)

lemma pdigits_append: "stops t \<Longrightarrow> pdigits s = (ds, r) \<Longrightarrow> pdigits (s @ t) = (ds, r @ t)"
proof -
  assume t: "stops t" and s: "pdigits s = (ds, r)"
  show ?thesis
  proof (cases "list_all is_digit s")
    case True
    then have "\<forall>x\<in>set s. is_digit x" by (simp add: list_all_iff)
    moreover have "takeWhile is_digit t = []" "dropWhile is_digit t = t" using t by (cases t; simp)+
    ultimately show ?thesis
      using s takeWhile_eq_all_conv [of is_digit s] dropWhile_eq_Nil_conv [of is_digit s]
      by (auto simp: pdigits_def)
  next
    case False
    then show ?thesis using s by (auto simp: pdigits_def list_all_iff)
  qed
qed

lemma pint_append: "stops t \<Longrightarrow> pint s = Some (n, r) \<Longrightarrow> pint (s @ t) = Some (n, r @ t)"
  using pdigits_append [of t s "fst (pdigits s)" "snd (pdigits s)"]
  by (cases s) (auto simp: pint_def Let_def pdigits_def split: prod.splits if_splits)

lemma pfrac_append: "stops t \<Longrightarrow> pfrac s = Some (q, r) \<Longrightarrow> pfrac (s @ t) = Some (q, r @ t)"
proof (cases s)
  case (Cons c u)
  assume "stops t" "pfrac s = Some (q, r)"
  then show ?thesis using pdigits_append [of t u "fst (pdigits u)" "snd (pdigits u)"] Cons
    by (auto simp: pfrac_def split: prod.splits if_splits)
qed (auto simp: pfrac_def stops_def split: list.splits)

lemma pexp_append: "stops t \<Longrightarrow> pexp s = Some (q, r) \<Longrightarrow> pexp (s @ t) = Some (q, r @ t)"
proof (cases s)
  case (Cons c u)
  assume a: "stops t" "pexp s = Some (q, r)"
  show ?thesis
  proof (cases u)
    case Nil
    with a Cons show ?thesis by (auto simp: pexp_def pdigits_def split: if_splits)
  next
    case (Cons d v)
    with a \<open>s = c # u\<close> show ?thesis
      using pdigits_append [OF a(1), of u "fst (pdigits u)" "snd (pdigits u)"]
        pdigits_append [OF a(1), of v "fst (pdigits v)" "snd (pdigits v)"]
      by (auto simp: pexp_def split: prod.splits if_splits)
  qed
qed (auto simp: pexp_def stops_def split: list.splits)

lemma pnumber_append:
  assumes "stops t" "pnumber s = Some (x, r)"
  shows "pnumber (s @ t) = Some (x, r @ t)"
proof -
  obtain c u where s: "s = c # u" using assms(2) by (cases s) (auto simp: pnumber_def pint_def pdigits_def)
  show ?thesis
    using assms pint_append pfrac_append pexp_append
    by (fastforce simp: s pnumber_def split: if_splits option.splits)
qed

section \<open>White space\<close>

definition json_ws :: "jstring \<Rightarrow> bool" where
  "json_ws w \<longleftrightarrow> list_all (\<lambda>c. c = 32 \<or> c = 9 \<or> c = 10 \<or> c = 13) w"

lemma json_ws_simps [simp]:
  "json_ws []" "json_ws (c # w) \<longleftrightarrow> (c = 32 \<or> c = 9 \<or> c = 10 \<or> c = 13) \<and> json_ws w"
  "json_ws (v @ w) \<longleftrightarrow> json_ws v \<and> json_ws w"
  by (auto simp: json_ws_def)

lemma skip_ws_append: "json_ws w \<Longrightarrow> skip_ws (w @ s) = skip_ws s"
  by (induction w) (auto simp: skip_ws_def)

lemma skip_ws_Cons [simp]:
  "skip_ws (c # s) = (if c = 32 \<or> c = 9 \<or> c = 10 \<or> c = 13 then skip_ws s else c # s)"
  by (simp add: skip_ws_def)

lemma pvalue_ws: "json_ws w \<Longrightarrow> pvalue (w @ s) = pvalue s"
  by (simp add: pvalue.simps [of "w @ s"] pvalue.simps [of s] skip_ws_append)

lemma stops_ws: "json_ws w \<Longrightarrow> stops s \<Longrightarrow> stops (w @ s)"
  by (cases w) (auto simp: is_digit_def)

section \<open>Lists of items\<close>

text \<open>One member of an object.\<close>

definition member_text :: "jstring \<Rightarrow> (json \<Rightarrow> jstring) \<Rightarrow> jstring \<times> json \<Rightarrow> jstring" where
  "member_text cl f = (\<lambda>(k, v). json_quote k @ 58 # cl @ f v)"

lemma pelems_step:
  assumes "pvalue s = Some (v, r)"
  shows "skip_ws r = 93 # t \<Longrightarrow> pelems s = Some ([v], t)"
    and "skip_ws r = 44 # t \<Longrightarrow> pelems s = map_option (apfst (Cons v)) (pelems t)"
proof -
  have "length r < length s" using assms pvalue_consumes by blast
  then show "skip_ws r = 44 # t \<Longrightarrow> pelems s = map_option (apfst (Cons v)) (pelems t)"
    using skip_ws_ConsD [of r 44 t] assms by (simp add: pelems.simps [of s])
  show "skip_ws r = 93 # t \<Longrightarrow> pelems s = Some ([v], t)" using assms by (simp add: pelems.simps [of s])
qed

lemma pelems_items:
  assumes "\<And>v t. v \<in> set vs \<Longrightarrow> stops t \<Longrightarrow> pvalue (f v @ t) = Some (v, t)"
    and "vs \<noteq> []" "json_ws w" "json_ws e"
  shows "pelems (w @ join (44 # w) (map f vs) @ e @ 93 # t) = Some (vs, t)"
  using assms(1,2)
proof (induction vs)
  case (Cons v vs)
  show ?case
  proof (cases vs)
    case Nil
    have "pvalue (w @ f v @ e @ 93 # t) = Some (v, e @ 93 # t)"
      using Cons.prems(1) assms(3,4) by (simp add: pvalue_ws stops_ws is_digit_def)
    then show ?thesis using pelems_step(1) skip_ws_append [OF assms(4), of "93 # t"] Nil by simp
  next
    case (Cons u us)
    define r where "r = w @ join (44 # w) (map f vs) @ e @ 93 # t"
    have "pvalue (w @ f v @ 44 # r) = Some (v, 44 # r)"
      using Cons.prems(1) assms(3) by (simp add: pvalue_ws is_digit_def)
    moreover have "pelems r = Some (vs, t)" using Cons.IH Cons.prems(1) Cons by (simp add: r_def)
    ultimately show ?thesis using pelems_step(2) [of "w @ f v @ 44 # r" v "44 # r" r] Cons by (simp add: r_def)
  qed
qed simp

lemma pmembers_step:
  assumes "units k" "json_ws w" "json_ws cl" "pvalue (s @ r) = Some (v, r)"
  shows "skip_ws r = 125 # t \<Longrightarrow> pmembers (w @ json_quote k @ 58 # cl @ s @ r) = Some ([(k, v)], t)"
    and "skip_ws r = 44 # t \<Longrightarrow>
      pmembers (w @ json_quote k @ 58 # cl @ s @ r) = map_option (apfst (Cons (k, v))) (pmembers t)"
proof -
  have "skip_ws (w @ json_quote k @ 58 # cl @ s @ r) = 34 # quote_units k @ 34 # 58 # cl @ s @ r"
    using skip_ws_append [OF assms(2)] by (simp add: json_quote_def)
  moreover have "pstr (quote_units k @ 34 # u) = Some (k, u)" for u
    using pstr_quote_units assms(1) by (simp add: units_def)
  moreover have "pvalue (cl @ s @ r) = Some (v, r)" using assms(3,4) by (simp add: pvalue_ws)
  moreover have "length (cl @ s @ r) < length (w @ json_quote k @ 58 # cl @ s @ r)"
    by (simp add: json_quote_def)
  ultimately show "skip_ws r = 125 # t \<Longrightarrow> pmembers (w @ json_quote k @ 58 # cl @ s @ r) = Some ([(k, v)], t)"
    and "skip_ws r = 44 # t \<Longrightarrow>
      pmembers (w @ json_quote k @ 58 # cl @ s @ r) = map_option (apfst (Cons (k, v))) (pmembers t)"
    using skip_ws_ConsD [of r 44 t] by (simp_all add: pmembers.simps [of "w @ json_quote k @ 58 # cl @ s @ r"])
qed

lemma pmembers_items:
  assumes "\<And>k v t. (k, v) \<in> set ps \<Longrightarrow> stops t \<Longrightarrow> units k \<and> pvalue (f v @ t) = Some (v, t)"
    and "ps \<noteq> []" "json_ws w" "json_ws cl" "json_ws e"
  shows "pmembers (w @ join (44 # w) (map (member_text cl f) ps) @ e @ 125 # t) = Some (ps, t)"
  using assms(1,2)
proof (induction ps)
  case (Cons p ps)
  obtain k v where p: "p = (k, v)" by (cases p)
  have u: "units k" using Cons.prems(1) [of k v "[]"] by (simp add: p)
  have v: "stops r \<Longrightarrow> pvalue (f v @ r) = Some (v, r)" for r using Cons.prems(1) [of k v r] by (simp add: p)
  show ?case
  proof (cases ps)
    case Nil
    have "stops (e @ 125 # t)" by (rule stops_ws [OF assms(5)]) (simp add: is_digit_def)
    then show ?thesis
      using pmembers_step(1) [OF u assms(3,4) v] skip_ws_append [OF assms(5), of "125 # t"] Nil
      by (simp add: p member_text_def)
  next
    case (Cons q qs)
    define r where "r = w @ join (44 # w) (map (member_text cl f) ps) @ e @ 125 # t"
    have "pmembers r = Some (ps, t)"
      unfolding r_def by (rule Cons.IH) (use Cons.prems(1) Cons in \<open>auto\<close>)
    then show ?thesis
      using pmembers_step(2) [OF u assms(3,4) v, of "44 # r" r] Cons
      by (simp add: p member_text_def r_def is_digit_def)
  qed
qed simp

section \<open>Printed values parse back\<close>

lemma number_head:
  assumes "pnumber (c # s) = Some (x, r)"
  shows "c = 45 \<or> is_digit c"
  using assms by (auto simp: pnumber_def pint_def pdigits_def split: if_splits option.splits prod.splits)

lemma pvalue_number:
  assumes "num_ok x" "stops t"
  shows "pvalue (num_to_string x @ t) = Some (JNum x, t)"
proof -
  have n: "pnumber (num_to_string x) = Some (x, [])" using assms(1) unfolding num_ok_def by blast
  obtain c s where c: "num_to_string x = c # s"
    using n by (cases "num_to_string x") (auto simp: pnumber_def pint_def pdigits_def)
  have "c = 45 \<or> is_digit c" using n number_head by (simp add: c)
  moreover have "pnumber (c # s @ t) = Some (x, t)" using pnumber_append [OF assms(2) n] by (simp add: c)
  ultimately show ?thesis
    by (auto simp: c pvalue.simps [of "c # s @ t"] is_digit_def js_str)
qed

lemma pvalue_quote: "units s \<Longrightarrow> pvalue (json_quote s @ t) = Some (JStr s, t)"
  using pstr_quote_units [of s t] by (simp add: pvalue.simps json_quote_def units_def)

lemma pvalue_array:
  assumes "\<And>v t. v \<in> set vs \<Longrightarrow> stops t \<Longrightarrow> pvalue (f v @ t) = Some (v, t)"
    and "json_ws gap" "json_ws ind" "\<And>v. v \<in> set vs \<Longrightarrow> f v \<noteq> [] \<and> \<not> json_ws [hd (f v)] \<and> hd (f v) \<noteq> 93"
  shows "pvalue (bracket gap ind 91 93 (map f vs) @ t) = Some (JArr vs, t)"
proof (cases vs)
  case (Cons v us)
  define w e where "w = (if gap = [] then [] else 10 # ind @ gap)" and "e = (if gap = [] then [] else 10 # ind)"
  have we: "json_ws w" "json_ws e" using assms(2,3) by (simp_all add: w_def e_def)
  define u where "u = w @ join (44 # w) (map f vs) @ e @ 93 # t"
  have b: "bracket gap ind 91 93 (map f vs) @ t = 91 # u"
    by (simp add: bracket_def u_def w_def e_def Cons)
  obtain r where "join (44 # w) (map f vs) = f v @ r" by (cases us) (auto simp: Cons)
  then have "\<exists>c x. skip_ws u = c # x \<and> c \<noteq> 93"
    using assms(4) [of v] skip_ws_append [OF we(1)] by (cases "f v") (auto simp: u_def Cons)
  moreover have "pelems u = Some (vs, t)"
    unfolding u_def by (rule pelems_items [OF assms(1) _ we]) (simp_all add: Cons)
  ultimately show ?thesis by (auto simp: b pvalue.simps [of "91 # u"])
qed (simp add: bracket_def pvalue.simps)

lemma pvalue_object:
  assumes "\<And>k v t. (k, v) \<in> set ps \<Longrightarrow> stops t \<Longrightarrow> units k \<and> pvalue (f v @ t) = Some (v, t)"
    and "json_ws gap" "json_ws ind" "obj_of_members ps = ps"
  shows "pvalue (bracket gap ind 123 125 (map (\<lambda>(k, v). json_quote k @ colon gap @ f v) ps) @ t)
    = Some (JObj ps, t)"
proof (cases ps)
  case (Cons p us)
  define cl where "cl = (if gap = [] then [] else [32::nat])"
  define w e where "w = (if gap = [] then [] else 10 # ind @ gap)" and "e = (if gap = [] then [] else 10 # ind)"
  have we: "json_ws w" "json_ws cl" "json_ws e" using assms(2,3) by (simp_all add: w_def e_def cl_def)
  have m: "(\<lambda>(k, v). json_quote k @ colon gap @ f v) = member_text cl f"
    by (auto simp: member_text_def colon_def cl_def)
  define u where "u = w @ join (44 # w) (map (member_text cl f) ps) @ e @ 125 # t"
  have b: "bracket gap ind 123 125 (map (\<lambda>(k, v). json_quote k @ colon gap @ f v) ps) @ t = 123 # u"
    unfolding m by (simp add: bracket_def u_def w_def e_def Cons)
  obtain r where "join (44 # w) (map (member_text cl f) ps) = member_text cl f p @ r" by (cases us) (auto simp: Cons)
  then have "\<exists>x. skip_ws u = 34 # x"
    using skip_ws_append [OF we(1)] by (cases p) (auto simp: u_def member_text_def json_quote_def)
  moreover have "pmembers u = Some (ps, t)"
    unfolding u_def by (rule pmembers_items [OF assms(1) _ we]) (simp_all add: Cons)
  ultimately show ?thesis using assms(4) by (auto simp: b pvalue.simps [of "123 # u"])
qed (simp add: bracket_def pvalue.simps obj_of_members_def)

lemma stringify_head:
  assumes "json_ok v"
  shows "stringify_at gap ind v \<noteq> [] \<and> \<not> json_ws [hd (stringify_at gap ind v)] \<and> hd (stringify_at gap ind v) \<noteq> 93"
proof (cases v)
  case (JNum x)
  then have n: "is_finite x" "pnumber (num_to_string x) = Some (x, [])" using assms by (simp_all add: num_ok_def)
  then obtain c s where c: "num_to_string x = c # s"
    by (cases "num_to_string x") (auto simp: pnumber_def pint_def pdigits_def)
  then have "c = 45 \<or> is_digit c" using n number_head by metis
  then show ?thesis using n(1) by (auto simp: JNum c is_digit_def)
qed (simp_all add: js_str bracket_def json_quote_def)

lemma stringify_reads:
  assumes "json_ok v" "json_ws gap" "json_ws ind" "stops t"
  shows "pvalue (stringify_at gap ind v @ t) = Some (v, t)"
  using assms(1,3,4)
proof (induction v arbitrary: ind t)
  case (JNum x)
  then show ?case using pvalue_number [of x t] by (simp add: num_ok_def)
next
  case (JStr s)
  then show ?case by (simp add: pvalue_quote)
next
  case (JArr vs)
  show ?case unfolding stringify_at.simps
    by (rule pvalue_array) (use JArr assms(2) stringify_head in \<open>auto simp: list_all_iff\<close>)
next
  case (JObj ps)
  show ?case unfolding stringify_at.simps
    by (rule pvalue_object) (use JObj assms(2) in \<open>fastforce simp: list_all_iff snds.simps\<close>)+
qed (auto simp: pvalue.simps js_str)

lemma parse_stringify:
  assumes "json_ok v"
  shows "json_parse (json_stringify v) = Some v" "json_parse (json_pretty v) = Some v"
  using stringify_reads [OF assms, of _ "[]" "[]"]
  by (simp_all add: json_parse_def json_stringify_def json_pretty_def skip_ws_def)

section \<open>Printed values have no white space around them\<close>

definition num_text :: "jstring \<Rightarrow> bool" where
  "num_text u \<longleftrightarrow> list_all (\<lambda>c. is_digit c \<or> c = 45 \<or> c = 43 \<or> c = 46 \<or> c = 101 \<or> c = 69) u"

lemma num_text_simps [simp]:
  "num_text []" "num_text (c # u) \<longleftrightarrow> (is_digit c \<or> c = 45 \<or> c = 43 \<or> c = 46 \<or> c = 101 \<or> c = 69) \<and> num_text u"
  "num_text (u @ v) \<longleftrightarrow> num_text u \<and> num_text v"
  by (auto simp: num_text_def)

lemma pdigits_text: "pdigits s = (ds, r) \<Longrightarrow> s = ds @ r \<and> num_text ds"
  by (auto simp: pdigits_def num_text_def list_all_iff dest: set_takeWhileD)

lemma pint_text: "pint s = Some (n, r) \<Longrightarrow> \<exists>u. s = u @ r \<and> num_text u"
proof -
  assume p: "pint s = Some (n, r)"
  obtain ds t where d: "pdigits s = (ds, t)" by (cases "pdigits s")
  note s = pdigits_text [OF d]
  show ?thesis
  proof (cases "ds \<noteq> [] \<and> hd ds = 48")
    case True
    then obtain es where "ds = 48 # es" by (cases ds) auto
    then show ?thesis using p d s by (intro exI [of _ "[48]"]) (auto simp: pint_def is_digit_def)
  qed (use p d s in \<open>auto simp: pint_def split: if_splits\<close>)
qed

lemma pfrac_text: "pfrac s = Some (q, r) \<Longrightarrow> \<exists>u. s = u @ r \<and> num_text u"
proof -
  assume p: "pfrac s = Some (q, r)"
  show ?thesis
  proof (cases "s \<noteq> [] \<and> hd s = 46")
    case True
    then obtain t where t: "s = 46 # t" by (cases s) auto
    obtain ds w where d: "pdigits t = (ds, w)" by (cases "pdigits t")
    then show ?thesis using p pdigits_text [OF d] t by (intro exI [of _ "46 # ds"]) (auto simp: pfrac_def split: if_splits)
  qed (use p in \<open>auto simp: pfrac_def split: list.splits\<close>)
qed

lemma pexp_text: "pexp s = Some (q, r) \<Longrightarrow> \<exists>u. s = u @ r \<and> num_text u"
proof -
  assume p: "pexp s = Some (q, r)"
  show ?thesis
  proof (cases "s \<noteq> [] \<and> (hd s = 101 \<or> hd s = 69)")
    case True
    then obtain c t where t: "s = c # t" "c = 101 \<or> c = 69" by (cases s) auto
    obtain p' v where v: "t = p' @ v" "num_text p'" "\<exists>ds. pdigits v = (ds, r)"
    proof (cases t)
      case (Cons d w)
      show ?thesis
      proof (cases "d = 43 \<or> d = 45")
        case True
        then show ?thesis using p t Cons by (intro that [of "[d]" w]) (auto simp: pexp_def split: prod.splits if_splits)
      qed (use p t Cons in \<open>intro that [of "[]" t]; auto simp: pexp_def split: prod.splits if_splits\<close>)
    qed (use p t in \<open>auto simp: pexp_def pdigits_def split: if_splits\<close>)
    then obtain ds where "v = ds @ r" "num_text ds" using pdigits_text by blast
    then show ?thesis using t v by (intro exI [of _ "c # p' @ ds"]) auto
  qed (use p in \<open>auto simp: pexp_def split: list.splits if_splits\<close>)
qed

lemma pnumber_text: "pnumber s = Some (x, r) \<Longrightarrow> \<exists>u. s = u @ r \<and> num_text u"
proof -
  assume p: "pnumber s = Some (x, r)"
  obtain sg t where t: "s = sg @ t" "num_text sg"
    and q: "\<exists>i f e r1 r2. pint t = Some (i, r1) \<and> pfrac r1 = Some (f, r2) \<and> pexp r2 = Some (e, r)"
  proof (cases "s \<noteq> [] \<and> hd s = 45")
    case True
    then obtain t where "s = 45 # t" by (cases s) auto
    then show ?thesis using p by (intro that [of "[45]" t]) (auto simp: pnumber_def split: option.splits)
  next
    case False
    then show ?thesis using p
      by (intro that [of "[]" s]) (auto simp: pnumber_def split: option.splits list.splits if_splits)
  qed
  then obtain i f e r1 r2 where "pint t = Some (i, r1)" "pfrac r1 = Some (f, r2)" "pexp r2 = Some (e, r)" by blast
  then obtain a b c where "t = a @ r1" "r1 = b @ r2" "r2 = c @ r" "num_text a" "num_text b" "num_text c"
    using pint_text pfrac_text pexp_text by metis
  then show ?thesis using t by (intro exI [of _ "sg @ a @ b @ c"]) auto
qed

lemma trim_stringify:
  assumes "json_ok v"
  shows "trim (stringify_at gap ind v) = stringify_at gap ind v"
proof (cases v)
  case (JNum x)
  then have n: "is_finite x" "pnumber (num_to_string x) = Some (x, [])" using assms by (simp_all add: num_ok_def)
  then have "num_text (num_to_string x)" using pnumber_text by fastforce
  moreover have "num_to_string x \<noteq> []" using n(2) by (auto simp: pnumber_def pint_def pdigits_def)
  moreover have "num_text u \<Longrightarrow> c \<in> set u \<Longrightarrow> \<not> is_space c" for u c
    by (auto simp: num_text_def list_all_iff is_digit_def is_space_def white_space_def)
  ultimately show ?thesis using n(1) by (simp add: JNum trim_id)
qed (auto simp: js_str bracket_def json_quote_def is_space_def white_space_def intro!: trim_id)

end
