(* ===== verification/JS_Objects.thy ===== *)
theory JS_Objects
  imports JS_Stringify
begin

text \<open>
  The order of an object's keys as a property of the list of its members, so that setting and deleting members of a
  parsed object gives an object again that survives its text; \<^verbatim>\<open>delete\<close> and \<^verbatim>\<open>Object.entries\<close>.
\<close>

section \<open>Definitions\<close>

text \<open>\<^verbatim>\<open>delete o[k]\<close>.\<close>

definition obj_delete :: "jstring \<Rightarrow> (jstring \<times> json) list \<Rightarrow> (jstring \<times> json) list" where
  "obj_delete k ps = filter (\<lambda>p. fst p \<noteq> k) ps"

text \<open>The own enumerable properties of a value, as \<^verbatim>\<open>Object.entries\<close> and the spread syntax list them.\<close>

definition own_entries :: "json \<Rightarrow> (jstring \<times> json) list" where
  "own_entries v =
     (case v of
        JObj ps \<Rightarrow> ps
      | JArr vs \<Rightarrow> map (\<lambda>(i, w). (show_nat i, w)) (enumerate 0 vs)
      | JStr s \<Rightarrow> map (\<lambda>(i, c). (show_nat i, JStr [c])) (enumerate 0 s)
      | _ \<Rightarrow> [])"

text \<open>\<^verbatim>\<open>v || d\<close>.\<close>

definition json_or :: "json option \<Rightarrow> json \<Rightarrow> json" where
  "json_or v d = (case v of Some w \<Rightarrow> if truthy (Some w) then w else d | None \<Rightarrow> d)"

text \<open>\<^verbatim>\<open>{...a, ...b}\<close>.\<close>

definition spread :: "(jstring \<times> json) list \<Rightarrow> (jstring \<times> json) list \<Rightarrow> (jstring \<times> json) list" where
  "spread a b = fold (\<lambda>(k, v). obj_set k v) b a"

section \<open>Key order\<close>

definition key_before :: "jstring \<Rightarrow> jstring \<Rightarrow> bool" where
  "key_before a b \<longleftrightarrow> (is_index b \<longrightarrow> is_index a \<and> read_nat a < read_nat b)"

definition canonical :: "(jstring \<times> json) list \<Rightarrow> bool" where
  "canonical ps \<longleftrightarrow> distinct (map fst ps) \<and> sorted_wrt key_before (map fst ps)"

lemma no_index_sorted: "(\<And>k. k \<in> set ks \<Longrightarrow> \<not> is_index k) \<Longrightarrow> sorted_wrt key_before ks"
  by (induction ks) (auto simp: key_before_def)

lemma map_of_rev: "distinct (map fst ps) \<Longrightarrow> map_of (rev ps) = map_of ps"
proof
  fix k
  assume d: "distinct (map fst ps)"
  then have "distinct (map fst (rev ps))" by (simp add: rev_map [symmetric])
  then have "map_of (rev ps) k = Some v \<longleftrightarrow> map_of ps k = Some v" for v using d by (simp add: map_of_eq_Some_iff)
  then show "map_of (rev ps) k = map_of ps k" by (metis option.exhaust)
qed

lemma map_of_spread: "map_of (spread a b) k = (case map_of (rev b) k of Some v \<Rightarrow> Some v | None \<Rightarrow> map_of a k)"
  unfolding spread_def by (induction b arbitrary: a rule: rev_induct) (auto simp: map_of_obj_set split: option.splits)

lemma canonical_Nil [simp]: "canonical []"
  by (simp add: canonical_def)

lemma insert_index_snoc:
  "list_all (\<lambda>p. is_index (fst p) \<and> read_nat (fst p) < read_nat k) ps \<Longrightarrow> insert_index k v ps = ps @ [(k, v)]"
  by (induction ps) auto

lemma index_eq: "is_index a \<Longrightarrow> is_index b \<Longrightarrow> read_nat a = read_nat b \<Longrightarrow> a = b"
  unfolding is_index_def by metis

lemma sorted_insert_index:
  assumes "sorted_wrt key_before (map fst ps)" "is_index k" "k \<notin> fst ` set ps"
  shows "sorted_wrt key_before (map fst (insert_index k v ps))"
  using assms
proof (induction ps)
  case (Cons p ps)
  show ?case
  proof (cases "is_index (fst p) \<and> read_nat (fst p) < read_nat k")
    case True
    have "key_before (fst p) x" if "x \<in> fst ` set (insert_index k v ps)" for x
      using that True Cons.prems by (auto simp: dom_insert_index key_before_def)
    then show ?thesis using True Cons by auto
  next
    case False
    have "key_before k x" if "x = fst p \<or> x \<in> fst ` set ps" for x
    proof (cases "is_index x")
      case True
      then have p: "is_index (fst p)" "read_nat (fst p) \<le> read_nat x"
        using that Cons.prems(1) by (auto simp: key_before_def intro: less_imp_le)
      moreover have "read_nat k \<noteq> read_nat (fst p)" using index_eq [OF Cons.prems(2) p(1)] Cons.prems(3) by auto
      ultimately show ?thesis using False Cons.prems(2) True by (auto simp: key_before_def)
    qed (simp add: key_before_def)
    then show ?thesis using False Cons.prems(1) by auto
  qed
qed simp

lemma map_fst_update:
  "map fst (AList.update k v ps) = (if k \<in> fst ` set ps then map fst ps else map fst ps @ [k])"
  by (simp add: update_keys)

lemma canonical_obj_set: "canonical ps \<Longrightarrow> canonical (obj_set k v ps)"
  unfolding canonical_def
  by (auto simp: obj_set_def map_fst_update distinct_insert_index sorted_insert_index sorted_wrt_append key_before_def)

lemma canonical_obj_of_members: "canonical (obj_of_members ms)"
proof -
  have "canonical ps \<Longrightarrow> canonical (fold (\<lambda>(k, v). obj_set k v) ms ps)" for ps
    by (induction ms arbitrary: ps) (auto simp: canonical_obj_set)
  then show ?thesis by (simp add: obj_of_members_def)
qed

lemma obj_of_canonical: "canonical ps \<Longrightarrow> obj_of_members ps = ps"
proof (induction ps rule: rev_induct)
  case (snoc p ps)
  obtain k v where p: "p = (k, v)" by (cases p)
  have c: "canonical ps" "k \<notin> fst ` set ps" "\<And>a. a \<in> fst ` set ps \<Longrightarrow> key_before a k"
    using snoc.prems by (auto simp: canonical_def p sorted_wrt_append)
  have "obj_of_members (ps @ [p]) = obj_set k v ps" using snoc.IH [OF c(1)] by (simp add: obj_of_members_def p)
  also have "\<dots> = ps @ [(k, v)]"
    using c(2,3) insert_index_snoc [of k ps v] by (auto simp: obj_set_def key_before_def list_all_iff)
  finally show ?case by (simp add: p)
qed (simp add: obj_of_members_def)

lemma canonical_iff: "obj_of_members ps = ps \<longleftrightarrow> canonical ps"
  using obj_of_canonical canonical_obj_of_members by metis

lemma canonical_delete: "canonical ps \<Longrightarrow> canonical (obj_delete k ps)"
  by (induction ps) (auto simp: canonical_def obj_delete_def)

lemma map_of_delete: "map_of (obj_delete k ps) = (map_of ps)(k := None)"
  by (induction ps) (auto simp: obj_delete_def fun_eq_iff)

section \<open>Objects that survive their text\<close>

definition obj_ok :: "(jstring \<times> json) list \<Rightarrow> bool" where
  "obj_ok ps \<longleftrightarrow> json_ok (JObj ps)"

lemma obj_ok_iff: "obj_ok ps \<longleftrightarrow> canonical ps \<and> (\<forall>(k, v)\<in>set ps. units k \<and> json_ok v)"
  by (auto simp: obj_ok_def canonical_iff list_all_iff)

lemma units_trim: "units s \<Longrightarrow> units (trim s)"
  using set_trim_subset [of s] by (auto simp: units_def list_all_iff)

lemma units_js: "units (js s)"
proof -
  have "(of_char c :: nat) < 65536" for c using of_char_mod_256 [of c, where 'a = nat]
      mod_less_divisor [of 256 "of_char c :: nat"] by linarith
  then show ?thesis by (simp add: units_def js_def list_all_iff)
qed

lemma obj_ok_Nil [simp]: "obj_ok []"
  by (simp add: obj_ok_iff)

lemma set_insert_index: "set (insert_index k v ps) = insert (k, v) (set ps)"
  by (induction ps) auto

lemma set_obj_set: "set (obj_set k v ps) \<subseteq> insert (k, v) (set ps)"
proof -
  have "set (AList.update k v ps) \<subseteq> insert (k, v) (set ps)" by (induction ps) auto
  then show ?thesis by (auto simp: obj_set_def set_insert_index)
qed

lemma obj_ok_set: "obj_ok ps \<Longrightarrow> units k \<Longrightarrow> json_ok v \<Longrightarrow> obj_ok (obj_set k v ps)"
  unfolding obj_ok_iff using canonical_obj_set set_obj_set by fastforce

lemma obj_ok_delete: "obj_ok ps \<Longrightarrow> obj_ok (obj_delete k ps)"
  unfolding obj_ok_iff by (auto simp: canonical_delete) (auto simp: obj_delete_def)

lemma obj_set_same: "distinct (map fst ps) \<Longrightarrow> map_of ps k = Some v \<Longrightarrow> obj_set k v ps = ps"
proof -
  assume d: "distinct (map fst ps)" and m: "map_of ps k = Some v"
  have "AList.update k v ps = ps" using d m
    by (induction ps) auto
  then show ?thesis using map_of_SomeD [OF m] by (force simp: obj_set_def)
qed

lemma obj_delete_absent: "map_of ps k = None \<Longrightarrow> obj_delete k ps = ps"
  unfolding obj_delete_def by (rule filter_True) (auto simp: map_of_eq_None_iff)

lemma parse_obj_ok: "obj_ok ps \<Longrightarrow> json_parse (json_stringify (JObj ps)) = Some (JObj ps)"
  unfolding obj_ok_def by (rule parse_stringify)

lemma object_text:
  assumes "obj_ok ps"
  shows "json_parse (json_stringify (JObj ps)) = Some (JObj ps)" "trim (json_stringify (JObj ps)) = json_stringify (JObj ps)"
    "json_stringify (JObj ps) \<noteq> []"
  using parse_obj_ok [OF assms] trim_stringify [of "JObj ps" "[]" "[]"] assms
  by (simp_all add: obj_ok_def) (simp_all add: json_stringify_def bracket_def)

lemma obj_ok_lookup: "obj_ok ps \<Longrightarrow> map_of ps k = Some v \<Longrightarrow> json_ok v"
  unfolding obj_ok_iff by (auto dest!: map_of_SomeD)

end
