(* ===== verification/Param_Override.thy ===== *)
theory Param_Override
  imports JS_Objects
begin

text \<open>
  Parameter overrides of a channel (\<^verbatim>\<open>features/channels/components/dialogs/param-override-editor-dialog.tsx\<close>,
  the part above the component): the rules of the editor, their normalisation from JSON, the drafts
  of the \<^verbatim>\<open>return_error\<close> and \<^verbatim>\<open>prune_objects\<close> modes, the validation and the JSON that is saved.

  \<^verbatim>\<open>nextLocalId\<close> reads the clock and increments a seed. Every seed is used once, so the time at which
  it was used is a function \<open>clock\<close> of the seed, a parameter. A function that makes ids takes the seed and
  returns the next one. \<^verbatim>\<open>toUpperCase\<close>, \<^verbatim>\<open>toLowerCase\<close> and the translation function are parameters too.
\<close>

section \<open>Types\<close>

record ParamOverrideCondition =
  pc_id :: jstring
  pc_path :: jstring
  pc_mode :: jstring
  pc_value_text :: jstring
  pc_invert :: bool
  pc_pass_missing_key :: bool

record ParamOverrideOperation =
  po_id :: jstring
  po_description :: jstring
  po_path :: jstring
  po_mode :: jstring
  po_from :: jstring
  po_to :: jstring
  po_value_text :: jstring
  po_keep_origin :: bool
  po_logic :: jstring
  po_conditions :: "ParamOverrideCondition list"

text \<open>What one call makes of the seed: a value or an exception, and the next seed.\<close>

type_synonym 'a gen = "nat \<Rightarrow> (js_error + 'a) \<times> nat"

section \<open>Modes\<close>

text \<open>Pairs of value and label.\<close>

definition OPERATION_MODE_OPTIONS :: "(jstring \<times> jstring) list" where
  "OPERATION_MODE_OPTIONS =
     [(js ''set'', js ''Set Field''), (js ''delete'', js ''Delete Field''), (js ''append'', js ''Append to End''),
      (js ''prepend'', js ''Prepend to Start''), (js ''copy'', js ''Copy Field''), (js ''move'', js ''Move Field''),
      (js ''replace'', js ''String Replace''), (js ''regex_replace'', js ''Regex Replace''),
      (js ''trim_prefix'', js ''Trim Prefix''), (js ''trim_suffix'', js ''Trim Suffix''),
      (js ''ensure_prefix'', js ''Ensure Prefix''), (js ''ensure_suffix'', js ''Ensure Suffix''),
      (js ''trim_space'', js ''Trim Space''), (js ''to_lower'', js ''To Lowercase''), (js ''to_upper'', js ''To Uppercase''),
      (js ''return_error'', js ''Return Custom Error''), (js ''prune_objects'', js ''Prune Object Items''),
      (js ''pass_headers'', js ''Pass Through Headers''), (js ''sync_fields'', js ''Sync Fields''),
      (js ''set_header'', js ''Set Request Header''), (js ''delete_header'', js ''Delete Request Header''),
      (js ''copy_header'', js ''Copy Request Header''), (js ''move_header'', js ''Move Request Header'')]"

definition OPERATION_MODE_VALUES :: "jstring list" where
  "OPERATION_MODE_VALUES = map fst OPERATION_MODE_OPTIONS"

definition CONDITION_MODE_VALUES :: "jstring list" where
  "CONDITION_MODE_VALUES =
     [js ''full'', js ''prefix'', js ''suffix'', js ''contains'', js ''gt'', js ''gte'', js ''lt'', js ''lte'']"

record ModeMeta =
  mm_path :: bool
  mm_pathOptional :: bool
  mm_value :: bool
  mm_from :: bool
  mm_to :: bool
  mm_keepOrigin :: bool
  mm_pathAlias :: bool

definition no_meta :: ModeMeta where
  "no_meta = \<lparr>mm_path = False, mm_pathOptional = False, mm_value = False, mm_from = False, mm_to = False,
     mm_keepOrigin = False, mm_pathAlias = False\<rparr>"

definition MODE_META :: "(jstring \<times> ModeMeta) list" where
  "MODE_META =
     (let p = no_meta\<lparr>mm_path := True\<rparr>; pv = p\<lparr>mm_value := True\<rparr>; pvk = pv\<lparr>mm_keepOrigin := True\<rparr>;
          ft = no_meta\<lparr>mm_from := True, mm_to := True\<rparr>; pf = p\<lparr>mm_from := True\<rparr>;
          alias = ft\<lparr>mm_keepOrigin := True, mm_pathAlias := True\<rparr>; v = no_meta\<lparr>mm_value := True\<rparr>
      in [(js ''delete'', p), (js ''set'', pvk), (js ''append'', pvk), (js ''prepend'', pvk),
          (js ''copy'', ft), (js ''move'', ft), (js ''replace'', pf), (js ''regex_replace'', pf),
          (js ''trim_prefix'', pv), (js ''trim_suffix'', pv), (js ''ensure_prefix'', pv), (js ''ensure_suffix'', pv),
          (js ''trim_space'', p), (js ''to_lower'', p), (js ''to_upper'', p),
          (js ''return_error'', v), (js ''prune_objects'', v\<lparr>mm_pathOptional := True\<rparr>),
          (js ''pass_headers'', v\<lparr>mm_keepOrigin := True\<rparr>), (js ''sync_fields'', ft),
          (js ''set_header'', pvk), (js ''delete_header'', p), (js ''copy_header'', alias), (js ''move_header'', alias)])"

text \<open>\<^verbatim>\<open>MODE_META[mode] || MODE_META.set\<close>.\<close>

definition mode_meta :: "jstring \<Rightarrow> ModeMeta" where
  "mode_meta mode =
     (case map_of MODE_META mode of
        Some m \<Rightarrow> m
      | None \<Rightarrow> no_meta\<lparr>mm_path := True, mm_value := True, mm_keepOrigin := True\<rparr>)"

definition VALUE_REQUIRED_MODES :: "jstring list" where
  "VALUE_REQUIRED_MODES =
     [js ''trim_prefix'', js ''trim_suffix'', js ''ensure_prefix'', js ''ensure_suffix'', js ''set_header'',
      js ''return_error'', js ''prune_objects'', js ''pass_headers'']"

definition FROM_REQUIRED_MODES :: "jstring list" where
  "FROM_REQUIRED_MODES =
     [js ''copy'', js ''move'', js ''replace'', js ''regex_replace'', js ''copy_header'', js ''move_header'', js ''sync_fields'']"

definition TO_REQUIRED_MODES :: "jstring list" where
  "TO_REQUIRED_MODES = [js ''copy'', js ''move'', js ''copy_header'', js ''move_header'', js ''sync_fields'']"

section \<open>Values\<close>

definition nextLocalId :: "(nat \<Rightarrow> nat) \<Rightarrow> nat \<Rightarrow> jstring \<times> nat" where
  "nextLocalId clock seed = (js ''po_'' @ show_nat (clock seed) @ js ''_'' @ show_nat seed, seed + 1)"

definition toValueText :: "json option \<Rightarrow> jstring" where
  "toValueText v = (case v of None \<Rightarrow> [] | Some (JStr s) \<Rightarrow> s | Some w \<Rightarrow> json_stringify w)"

definition parseLooseValue :: "jstring \<Rightarrow> json" where
  "parseLooseValue valueText =
     (let raw = trim valueText
      in if raw = [] then JStr [] else case json_parse raw of Some v \<Rightarrow> v | None \<Rightarrow> JStr raw)"

definition verifyJSON :: "jstring \<Rightarrow> bool" where
  "verifyJSON text \<longleftrightarrow> json_parse text \<noteq> None"

text \<open>\<^verbatim>\<open>typeof v === 'string' ? v : ''\<close>, and \<^verbatim>\<open>v === true\<close>.\<close>

definition string_or_empty :: "json option \<Rightarrow> jstring" where
  "string_or_empty v = (case v of Some (JStr s) \<Rightarrow> s | _ \<Rightarrow> [])"

definition is_true :: "json option \<Rightarrow> bool" where
  "is_true v \<longleftrightarrow> v = Some (JBool True)"

text \<open>\<^verbatim>\<open>CONDITION_MODE_VALUES.has(v) ? v : 'full'\<close>.\<close>

definition condition_mode :: "json option \<Rightarrow> jstring" where
  "condition_mode v =
     (case v of Some (JStr s) \<Rightarrow> if s \<in> set CONDITION_MODE_VALUES then s else js ''full'' | _ \<Rightarrow> js ''full'')"

text \<open>\<^verbatim>\<open>String(v || d)\<close>.\<close>

definition string_or :: "json option \<Rightarrow> jstring \<Rightarrow> jstring" where
  "string_or v d = (if truthy v then json_to_string (the v) else d)"

section \<open>Normalisation\<close>

text \<open>Reading a property of \<^verbatim>\<open>null\<close> throws, after the id is made.\<close>

definition normalizeCondition :: "(nat \<Rightarrow> nat) \<Rightarrow> json \<Rightarrow> ParamOverrideCondition gen" where
  "normalizeCondition clock condition seed =
     (let (i, seed') = nextLocalId clock seed
      in if condition = JNull then (Inl TypeError, seed')
         else (Inr \<lparr>pc_id = i,
             pc_path = string_or_empty (get_prop (js ''path'') condition),
             pc_mode = condition_mode (get_prop (js ''mode'') condition),
             pc_value_text = toValueText (get_prop (js ''value'') condition),
             pc_invert = is_true (get_prop (js ''invert'') condition),
             pc_pass_missing_key = is_true (get_prop (js ''pass_missing_key'') condition)\<rparr>, seed'))"

definition createDefaultCondition :: "(nat \<Rightarrow> nat) \<Rightarrow> nat \<Rightarrow> ParamOverrideCondition \<times> nat" where
  "createDefaultCondition clock seed = apfst projr (normalizeCondition clock (JObj []) seed)"

fun map_gen :: "('a \<Rightarrow> 'b gen) \<Rightarrow> 'a list \<Rightarrow> 'b list gen" where
  "map_gen f [] seed = (Inr [], seed)"
| "map_gen f (x # xs) seed =
     (case f x seed of
        (Inl e, seed') \<Rightarrow> (Inl e, seed')
      | (Inr y, seed') \<Rightarrow>
          (case map_gen f xs seed' of
             (Inl e, seed'') \<Rightarrow> (Inl e, seed'')
           | (Inr ys, seed'') \<Rightarrow> (Inr (y # ys), seed'')))"

text \<open>\<^verbatim>\<open>String(v || 'OR').toUpperCase() === 'AND' ? 'AND' : 'OR'\<close>.\<close>

definition logic_of :: "(jstring \<Rightarrow> jstring) \<Rightarrow> json option \<Rightarrow> jstring" where
  "logic_of upper v = (if upper (string_or v (js ''OR'')) = js ''AND'' then js ''AND'' else js ''OR'')"

definition operation_mode :: "json option \<Rightarrow> jstring" where
  "operation_mode v =
     (case v of Some (JStr s) \<Rightarrow> if s \<in> set OPERATION_MODE_VALUES then s else js ''set'' | _ \<Rightarrow> js ''set'')"

definition normalizeOperation :: "(jstring \<Rightarrow> jstring) \<Rightarrow> (nat \<Rightarrow> nat) \<Rightarrow> json \<Rightarrow> ParamOverrideOperation gen" where
  "normalizeOperation upper clock operation seed =
     (let (i, seed') = nextLocalId clock seed
      in if operation = JNull then (Inl TypeError, seed')
         else
           case (case get_prop (js ''conditions'') operation of
                   Some (JArr cs) \<Rightarrow> map_gen (normalizeCondition clock) cs seed'
                 | _ \<Rightarrow> (Inr [], seed')) of
             (Inl e, seed'') \<Rightarrow> (Inl e, seed'')
           | (Inr conditions, seed'') \<Rightarrow>
               (Inr \<lparr>po_id = i,
                 po_description = string_or_empty (get_prop (js ''description'') operation),
                 po_path = string_or_empty (get_prop (js ''path'') operation),
                 po_mode = operation_mode (get_prop (js ''mode'') operation),
                 po_from = string_or_empty (get_prop (js ''from'') operation),
                 po_to = string_or_empty (get_prop (js ''to'') operation),
                 po_value_text = toValueText (get_prop (js ''value'') operation),
                 po_keep_origin = is_true (get_prop (js ''keep_origin'') operation),
                 po_logic = logic_of upper (get_prop (js ''logic'') operation),
                 po_conditions = conditions\<rparr>, seed''))"

definition createDefaultOperation ::
  "(jstring \<Rightarrow> jstring) \<Rightarrow> (nat \<Rightarrow> nat) \<Rightarrow> nat \<Rightarrow> ParamOverrideOperation \<times> nat" where
  "createDefaultOperation upper clock seed =
     apfst projr (normalizeOperation upper clock (JObj [(js ''mode'', JStr (js ''set''))]) seed)"

section \<open>The list of operations\<close>

datatype Position = Before | After

definition reorderOperations ::
  "ParamOverrideOperation list \<Rightarrow> jstring \<Rightarrow> jstring \<Rightarrow> Position \<Rightarrow> ParamOverrideOperation list" where
  "reorderOperations ops sourceId targetId position =
     (if sourceId = [] \<or> targetId = [] \<or> sourceId = targetId then ops
      else case find_index (\<lambda>x. po_id x = sourceId) ops of
        None \<Rightarrow> ops
      | Some srcIdx \<Rightarrow>
          (let moved = ops ! srcIdx; rest = take srcIdx ops @ drop (srcIdx + 1) ops
           in case find_index (\<lambda>x. po_id x = targetId) rest of
                None \<Rightarrow> ops
              | Some k \<Rightarrow>
                  (let insertIdx = (if position = After then k + 1 else k)
                   in take insertIdx rest @ moved # drop insertIdx rest)))"

definition condition_filled :: "ParamOverrideCondition \<Rightarrow> bool" where
  "condition_filled c \<longleftrightarrow>
     trim (pc_path c) \<noteq> [] \<or> trim (pc_value_text c) \<noteq> [] \<or> pc_mode c \<noteq> js ''full''
     \<or> pc_invert c \<or> pc_pass_missing_key c"

definition isOperationBlank :: "ParamOverrideOperation \<Rightarrow> bool" where
  "isOperationBlank operation \<longleftrightarrow>
     po_mode operation = js ''set'' \<and> trim (po_path operation) = [] \<and> trim (po_from operation) = []
     \<and> trim (po_to operation) = [] \<and> trim (po_value_text operation) = [] \<and> \<not> po_keep_origin operation
     \<and> \<not> list_ex condition_filled (po_conditions operation)"

text \<open>\<^verbatim>\<open>a || b\<close> of strings.\<close>

definition or_str :: "jstring \<Rightarrow> jstring \<Rightarrow> jstring" where
  "or_str a b = (if a = [] then b else a)"

definition getOperationSummary :: "ParamOverrideOperation \<Rightarrow> nat \<Rightarrow> jstring" where
  "getOperationSummary operation index =
     (let mode = or_str (po_mode operation) (js ''set'');
          modeLabel = str_or (map_of OPERATION_MODE_OPTIONS mode) mode;
          path = trim (po_path operation); from = trim (po_from operation); to = trim (po_to operation);
          shown = (if mode = js ''sync_fields'' then or_str from (or_str to (js ''-''))
                   else or_str path (or_str from (or_str to (js ''-''))))
      in show_nat (index + 1) @ js ''. '' @ modeLabel @ [32, 183, 32] @ shown)"

section \<open>Sync targets\<close>

text \<open>The pair of type and key.\<close>

definition parseSyncTargetSpec :: "(jstring \<Rightarrow> jstring) \<Rightarrow> jstring \<Rightarrow> jstring \<times> jstring" where
  "parseSyncTargetSpec lower spec =
     (let raw = trim spec
      in if raw = [] then (js ''json'', [])
         else case index_of [58] raw of
           None \<Rightarrow> (js ''json'', raw)
         | Some idx \<Rightarrow>
             (let key = trim (drop (idx + 1) raw)
              in if lower (trim (take idx raw)) = js ''header'' then (js ''header'', key) else (js ''json'', key)))"

definition buildSyncTargetSpec :: "jstring \<Rightarrow> jstring \<Rightarrow> jstring" where
  "buildSyncTargetSpec type key =
     (let normalizedType = (if type = js ''header'' then js ''header'' else js ''json''); normalizedKey = trim key
      in if normalizedKey = [] then [] else normalizedType @ js '':'' @ normalizedKey)"

section \<open>Drafts of return\_error\<close>

record ReturnErrorDraft =
  re_message :: jstring
  re_statusCode :: jsnum
  re_code :: jstring
  re_type :: jstring
  re_skipRetry :: bool
  re_simpleMode :: bool

definition return_error_defaults :: ReturnErrorDraft where
  "return_error_defaults =
     \<lparr>re_message = [], re_statusCode = Fin 400, re_code = [], re_type = [], re_skipRetry = True, re_simpleMode = True\<rparr>"

text \<open>\<^verbatim>\<open>Number(v)\<close> of a JSON value or \<^verbatim>\<open>undefined\<close>.\<close>

definition json_number :: "json option \<Rightarrow> jsnum" where
  "json_number v =
     (case v of
        None \<Rightarrow> NaN
      | Some JNull \<Rightarrow> Fin 0
      | Some (JBool b) \<Rightarrow> Fin (if b then 1 else 0)
      | Some (JNum x) \<Rightarrow> x
      | Some (JStr s) \<Rightarrow> to_number s
      | Some (JArr vs) \<Rightarrow> to_number (json_to_string (JArr vs))
      | Some (JObj _) \<Rightarrow> NaN)"

definition valid_status :: "jsnum \<Rightarrow> jsnum" where
  "valid_status x =
     (if num_is_integer x \<and> num_le (Fin 100) x \<and> num_le x (Fin 599) then x else Fin 400)"

definition parseReturnErrorDraft :: "jstring \<Rightarrow> ReturnErrorDraft" where
  "parseReturnErrorDraft valueText =
     (let raw = trim valueText
      in if raw = [] then return_error_defaults
         else case json_parse raw of
           Some (JObj ps) \<Rightarrow>
             (let get = map_of ps;
                  statusRaw = (if get (js ''status_code'') \<noteq> None then get (js ''status_code'') else get (js ''status''))
              in return_error_defaults
                \<lparr>re_message := trim (if truthy (get (js ''message'')) then json_to_string (the (get (js ''message'')))
                   else string_or (get (js ''msg'')) []),
                 re_statusCode := valid_status (json_number statusRaw),
                 re_code := trim (string_or (get (js ''code'')) []),
                 re_type := trim (string_or (get (js ''type'')) []),
                 re_skipRetry := get (js ''skip_retry'') \<noteq> Some (JBool False),
                 re_simpleMode := False\<rparr>)
         | _ \<Rightarrow> return_error_defaults\<lparr>re_message := raw, re_simpleMode := True\<rparr>)"

text \<open>An assignment that is made on a condition.\<close>

definition set_if :: "bool \<Rightarrow> jstring \<Rightarrow> json \<Rightarrow> (jstring \<times> json) list \<Rightarrow> (jstring \<times> json) list" where
  "set_if b k v ps = (if b then obj_set k v ps else ps)"

definition buildReturnErrorValueText :: "ReturnErrorDraft \<Rightarrow> jstring" where
  "buildReturnErrorValueText draft =
     (let message = trim (re_message draft)
      in if re_simpleMode draft then message
         else
           let code = trim (re_code draft); type = trim (re_type draft);
               payload = [(js ''message'', JStr message), (js ''status_code'', JNum (valid_status (re_statusCode draft)))]
           in json_stringify (JObj
                (set_if (\<not> re_skipRetry draft) (js ''skip_retry'') (JBool False)
                (set_if (type \<noteq> []) (js ''type'') (JStr type)
                (set_if (code \<noteq> []) (js ''code'') (JStr code) payload)))))"

section \<open>Drafts of prune\_objects\<close>

text \<open>A \<^verbatim>\<open>PruneRule\<close> has the fields of a condition, and \<^verbatim>\<open>normalizePruneRule\<close> has the body of \<^verbatim>\<open>normalizeCondition\<close>.\<close>

type_synonym PruneRule = ParamOverrideCondition

record PruneObjectsDraft =
  pd_simpleMode :: bool
  pd_typeText :: jstring
  pd_logic :: jstring
  pd_recursive :: bool
  pd_rules :: "PruneRule list"

definition prune_defaults :: PruneObjectsDraft where
  "prune_defaults =
     \<lparr>pd_simpleMode = True, pd_typeText = [], pd_logic = js ''AND'', pd_recursive = True, pd_rules = []\<rparr>"

definition normalizePruneRule :: "(nat \<Rightarrow> nat) \<Rightarrow> json \<Rightarrow> PruneRule gen" where
  "normalizePruneRule clock rule = normalizeCondition clock rule"

text \<open>The argument \<^verbatim>\<open>{ path, mode: 'full', value }\<close> made of an entry.\<close>

definition entry_rule :: "jstring \<times> json \<Rightarrow> json" where
  "entry_rule = (\<lambda>(path, value). JObj [(js ''path'', JStr path), (js ''mode'', JStr (js ''full'')), (js ''value'', value)])"

definition plain_object :: "json \<Rightarrow> bool" where
  "plain_object v \<longleftrightarrow> (case v of JObj _ \<Rightarrow> True | JArr _ \<Rightarrow> True | _ \<Rightarrow> False)"

text \<open>The arguments of the calls of \<^verbatim>\<open>normalizePruneRule\<close>, in order.\<close>

definition prune_rule_args :: "(jstring \<rightharpoonup> json) \<Rightarrow> json list" where
  "prune_rule_args get =
     (case get (js ''where'') of Some (JObj ps) \<Rightarrow> map entry_rule ps | _ \<Rightarrow> [])
     @ (case get (js ''conditions'') of
          Some (JArr items) \<Rightarrow> filter plain_object items
        | Some (JObj ps) \<Rightarrow> map entry_rule ps
        | _ \<Rightarrow> [])"

text \<open>No argument is \<^verbatim>\<open>null\<close>, so the calls do not throw.\<close>

definition parsePruneObjectsDraft ::
  "(jstring \<Rightarrow> jstring) \<Rightarrow> (nat \<Rightarrow> nat) \<Rightarrow> jstring \<Rightarrow> nat \<Rightarrow> PruneObjectsDraft \<times> nat" where
  "parsePruneObjectsDraft upper clock valueText seed =
     (let raw = trim valueText
      in if raw = [] then (prune_defaults, seed)
         else case json_parse raw of
           None \<Rightarrow> (prune_defaults\<lparr>pd_typeText := raw\<rparr>, seed)
         | Some (JStr s) \<Rightarrow> (prune_defaults\<lparr>pd_typeText := trim s\<rparr>, seed)
         | Some (JObj ps) \<Rightarrow>
             (let get = map_of ps;
                  (rules, seed') = apfst projr (map_gen (normalizePruneRule clock) (prune_rule_args get) seed)
              in (\<lparr>pd_simpleMode = get (js ''logic'') = None \<and> get (js ''recursive'') = None
                     \<and> get (js ''where'') = None \<and> get (js ''conditions'') = None,
                   pd_typeText = (case get (js ''type'') of None \<Rightarrow> [] | Some v \<Rightarrow> trim (json_to_string v)),
                   pd_logic = (if upper (string_or (get (js ''logic'')) (js ''AND'')) = js ''OR'' then js ''OR'' else js ''AND''),
                   pd_recursive = get (js ''recursive'') \<noteq> Some (JBool False),
                   pd_rules = rules\<rparr>, seed'))
         | Some v \<Rightarrow> (prune_defaults\<lparr>pd_typeText := (if v = JNull then [] else trim (json_to_string v))\<rparr>, seed))"

definition prune_payload :: "PruneRule \<Rightarrow> json" where
  "prune_payload rule =
     (let valueRaw = trim (pc_value_text rule)
      in JObj
        (set_if (pc_pass_missing_key rule) (js ''pass_missing_key'') (JBool True)
        (set_if (pc_invert rule) (js ''invert'') (JBool True)
        (set_if (valueRaw \<noteq> []) (js ''value'') (parseLooseValue valueRaw)
          [(js ''path'', JStr (trim (pc_path rule))),
           (js ''mode'', JStr (if pc_mode rule \<in> set CONDITION_MODE_VALUES then pc_mode rule else js ''full''))]))))"

definition buildPruneObjectsValueText :: "(jstring \<Rightarrow> jstring) \<Rightarrow> PruneObjectsDraft \<Rightarrow> jstring" where
  "buildPruneObjectsValueText upper draft =
     (let typeText = trim (pd_typeText draft)
      in if pd_simpleMode draft then typeText
         else
           let conditions = map prune_payload (filter (\<lambda>r. trim (pc_path r) \<noteq> []) (pd_rules draft))
           in if typeText = [] \<and> conditions = [] then json_stringify (JObj [(js ''logic'', JStr (js ''AND''))])
              else json_stringify (JObj
                (set_if (conditions \<noteq> []) (js ''conditions'') (JArr conditions)
                (set_if (\<not> pd_recursive draft) (js ''recursive'') (JBool False)
                (set_if (upper (or_str (pd_logic draft) (js ''AND'')) = js ''OR'') (js ''logic'') (JStr (js ''OR''))
                (set_if (typeText \<noteq> []) (js ''type'') (JStr typeText) []))))))"

section \<open>Header names and conditions\<close>

text \<open>\<^verbatim>\<open>String(i ?? '').trim()\<close>.\<close>

definition trimmed_string :: "json \<Rightarrow> jstring" where
  "trimmed_string v = (if v = JNull then [] else trim (json_to_string v))"

definition nonempty :: "jstring list \<Rightarrow> jstring list" where
  "nonempty xs = filter (\<lambda>s. s \<noteq> []) xs"

definition parsePassHeaderNames :: "json \<Rightarrow> jstring list" where
  "parsePassHeaderNames rawValue =
     (case rawValue of
        JArr vs \<Rightarrow> nonempty (map trimmed_string vs)
      | JObj ps \<Rightarrow>
          (case map_of ps (js ''headers'') of
             Some (JArr vs) \<Rightarrow> nonempty (map trimmed_string vs)
           | _ \<Rightarrow>
               (case map_of ps (js ''header'') of
                  Some v \<Rightarrow> nonempty [trimmed_string v]
                | None \<Rightarrow> []))
      | JStr s \<Rightarrow> nonempty (map trim (split_on 44 s))
      | _ \<Rightarrow> [])"

definition buildConditionPayload :: "ParamOverrideCondition \<Rightarrow> json option" where
  "buildConditionPayload condition =
     (let path = trim (pc_path condition)
      in if path = [] then None
         else Some (JObj
           (set_if (pc_pass_missing_key condition) (js ''pass_missing_key'') (JBool True)
           (set_if (pc_invert condition) (js ''invert'') (JBool True)
             [(js ''path'', JStr path), (js ''mode'', JStr (or_str (pc_mode condition) (js ''full''))),
              (js ''value'', parseLooseValue (pc_value_text condition))]))))"

section \<open>Validation\<close>

text \<open>
  The message for the rule on line \<open>line\<close>, or the empty text; \<open>t\<close> is the translation of a key with the line
  as its option. The loop ends at the first message, as the code's \<^verbatim>\<open>return\<close> does.
\<close>

definition validate_operation :: "(jstring \<Rightarrow> nat \<Rightarrow> jstring) \<Rightarrow> nat \<Rightarrow> ParamOverrideOperation \<Rightarrow> jstring option" where
  "validate_operation t line op =
     (let mode = or_str (po_mode op) (js ''set''); meta = mode_meta mode;
          pathValue = trim (po_path op); fromValue = trim (po_from op); toValue = trim (po_to op);
          raw = trim (po_value_text op)
      in if mm_path meta \<and> pathValue = [] then Some (t (js ''Rule {{line}} is missing target path'') line)
         else if mode \<in> set FROM_REQUIRED_MODES \<and> fromValue = [] \<and> \<not> (mm_pathAlias meta \<and> pathValue \<noteq> [])
         then Some (t (js ''Rule {{line}} is missing source field'') line)
         else if mode \<in> set TO_REQUIRED_MODES \<and> toValue = [] \<and> \<not> (mm_pathAlias meta \<and> pathValue \<noteq> [])
         then Some (t (js ''Rule {{line}} is missing target field'') line)
         else if mode \<in> set VALUE_REQUIRED_MODES \<and> raw = []
         then Some (t (js ''Rule {{line}} is missing value'') line)
         else if mode = js ''return_error'' then
           (if raw = [] then Some (t (js ''Rule {{line}} is missing value'') line)
            else case json_parse raw of
              Some (JObj ps) \<Rightarrow>
                if trim (string_or (map_of ps (js ''message'')) []) = []
                then Some (t (js ''Rule {{line}} return_error requires a message field'') line) else None
            | _ \<Rightarrow> None)
         else if mode = js ''prune_objects'' then
           (if raw = [] then Some (t (js ''Rule {{line}} prune_objects is missing conditions'') line) else None)
         else if mode = js ''pass_headers'' then
           (if raw = [] then Some (t (js ''Rule {{line}} pass_headers is missing header names'') line)
            else if parsePassHeaderNames (parseLooseValue raw) = []
            then Some (t (js ''Rule {{line}} pass_headers format is invalid'') line) else None)
         else None)"

fun validate_from :: "(jstring \<Rightarrow> nat \<Rightarrow> jstring) \<Rightarrow> nat \<Rightarrow> ParamOverrideOperation list \<Rightarrow> jstring" where
  "validate_from t i [] = []"
| "validate_from t i (op # ops) =
     (case validate_operation t (i + 1) op of Some m \<Rightarrow> m | None \<Rightarrow> validate_from t (i + 1) ops)"

definition validateOperations :: "ParamOverrideOperation list \<Rightarrow> (jstring \<Rightarrow> nat \<Rightarrow> jstring) \<Rightarrow> jstring" where
  "validateOperations operations t = validate_from t 0 operations"

section \<open>Opening and saving\<close>

datatype EditMode = EditVisual | EditJson
datatype VisualMode = VisualOperations | VisualLegacy

record EditorState =
  es_editMode :: EditMode
  es_visualMode :: VisualMode
  es_legacyValue :: jstring
  es_operations :: "ParamOverrideOperation list"
  es_jsonText :: jstring
  es_jsonError :: jstring

text \<open>The operations of a parsed value: \<^verbatim>\<open>parsed.operations\<close>, normalised, or one default operation when there are none.\<close>

definition read_operations ::
  "(jstring \<Rightarrow> jstring) \<Rightarrow> (nat \<Rightarrow> nat) \<Rightarrow> json list \<Rightarrow> ParamOverrideOperation list gen" where
  "read_operations upper clock items seed =
     (if items \<noteq> [] then map_gen (normalizeOperation upper clock) items seed
      else apfst (\<lambda>d. Inr [d]) (createDefaultOperation upper clock seed))"

definition parseInitialState ::
  "(jstring \<Rightarrow> jstring) \<Rightarrow> (nat \<Rightarrow> nat) \<Rightarrow> jstring \<Rightarrow> EditorState gen" where
  "parseInitialState upper clock text seed =
     (let trimmed = trim text;
          with_default = (\<lambda>em vm legacy jt je.
            apfst (\<lambda>d. Inr \<lparr>es_editMode = em, es_visualMode = vm, es_legacyValue = legacy, es_operations = [d],
                es_jsonText = jt, es_jsonError = je\<rparr>) (createDefaultOperation upper clock seed))
      in if trimmed = [] then with_default EditVisual VisualOperations [] [] []
         else if \<not> verifyJSON trimmed
         then with_default EditJson VisualOperations [] text (js ''Invalid JSON format'')
         else
           let parsed = the (json_parse trimmed); pretty = json_pretty parsed
           in case parsed of
             JObj ps \<Rightarrow>
               (case map_of ps (js ''operations'') of
                  Some (JArr items) \<Rightarrow>
                    (case read_operations upper clock items seed of
                       (Inl e, seed') \<Rightarrow> (Inl e, seed')
                     | (Inr ops, seed') \<Rightarrow>
                         (Inr \<lparr>es_editMode = EditVisual, es_visualMode = VisualOperations, es_legacyValue = [],
                            es_operations = ops, es_jsonText = pretty, es_jsonError = []\<rparr>, seed'))
                | _ \<Rightarrow> with_default EditVisual VisualLegacy pretty pretty [])
           | _ \<Rightarrow> with_default EditJson VisualOperations [] pretty [])"

text \<open>\<^verbatim>\<open>if (!payload[k] && pathValue) payload[k] = pathValue\<close>.\<close>

definition alias_path :: "jstring \<Rightarrow> jstring \<Rightarrow> (jstring \<times> json) list \<Rightarrow> (jstring \<times> json) list" where
  "alias_path k pathValue payload =
     set_if (\<not> truthy (map_of payload k) \<and> pathValue \<noteq> []) k (JStr pathValue) payload"

definition operation_payload :: "ParamOverrideOperation \<Rightarrow> json" where
  "operation_payload operation =
     (let mode = or_str (po_mode operation) (js ''set''); meta = mode_meta mode;
          descriptionValue = trim (po_description operation); pathValue = trim (po_path operation);
          fromValue = trim (po_from operation); toValue = trim (po_to operation);
          p1 = set_if (descriptionValue \<noteq> []) (js ''description'') (JStr descriptionValue) [(js ''mode'', JStr mode)];
          p2 = set_if (mm_path meta) (js ''path'') (JStr pathValue) p1;
          p3 = set_if (mm_pathOptional meta \<and> pathValue \<noteq> []) (js ''path'') (JStr pathValue) p2;
          p4 = set_if (mm_value meta) (js ''value'') (parseLooseValue (po_value_text operation)) p3;
          p5 = set_if (mm_keepOrigin meta \<and> po_keep_origin operation) (js ''keep_origin'') (JBool True) p4;
          p6 = set_if (mm_from meta) (js ''from'') (JStr fromValue) p5;
          p7 = set_if (\<not> mm_to meta \<and> toValue \<noteq> []) (js ''to'') (JStr toValue) p6;
          p8 = set_if (mm_to meta) (js ''to'') (JStr toValue) p7;
          p9 = (if mm_pathAlias meta then alias_path (js ''to'') pathValue (alias_path (js ''from'') pathValue p8) else p8);
          conditions = List.map_filter buildConditionPayload (po_conditions operation)
      in JObj (if conditions \<noteq> []
           then obj_set (js ''logic'') (JStr (if po_logic operation = js ''AND'' then js ''AND'' else js ''OR''))
             (obj_set (js ''conditions'') (JArr conditions) p9)
           else p9))"

definition operations_json :: "ParamOverrideOperation list \<Rightarrow> json" where
  "operations_json ops = JObj [(js ''operations'', JArr (map operation_payload ops))]"

text \<open>\<open>Inl\<close> is the message of the error that is thrown.\<close>

definition buildOperationsJson ::
  "ParamOverrideOperation list \<Rightarrow> bool \<Rightarrow> (jstring \<Rightarrow> nat \<Rightarrow> jstring) \<Rightarrow> jstring + jstring" where
  "buildOperationsJson sourceOperations validate t =
     (let filteredOps = filter (\<lambda>op. \<not> isOperationBlank op) sourceOperations
      in if filteredOps = [] then Inr []
         else
           let message = (if validate then validateOperations filteredOps t else [])
           in if message \<noteq> [] then Inl message else Inr (json_pretty (operations_json filteredOps)))"

end
