(* ===== verification/Param_Editor.thy ===== *)
theory Param_Editor
  imports Param_Override
begin

text \<open>
  The component \<^verbatim>\<open>ParamOverrideEditorDialog\<close>: its state as a record, every handler as an operation on it, and the
  step relation of a session. A handler returns the new state and what it does outside: toasts, the save callback and
  closing. State setters run in order on the state of the last render, as React batches them. \<open>ed_seed\<close> is
  the module's \<^verbatim>\<open>localIdSeed\<close>; a render makes ids of its own (initial values, drafts), so it may advance the
  seed by any amount. The templates are at the end of the constants of the file.
\<close>

section \<open>Templates\<close>

definition LEGACY_TEMPLATE :: "(jstring \<times> json) list" where
  "LEGACY_TEMPLATE = [(js ''temperature'', JNum (Fin 0)), (js ''max_tokens'', JNum (Fin 1000))]"

definition condition_template :: "string \<Rightarrow> string \<Rightarrow> string \<Rightarrow> json" where
  "condition_template p m v = JObj [(js ''path'', JStr (js p)), (js ''mode'', JStr (js m)), (js ''value'', JStr (js v))]"

definition OPERATION_TEMPLATE :: "json list" where
  "OPERATION_TEMPLATE =
     [JObj [(js ''description'', JStr (js ''Set default temperature for openai/* models.'')),
        (js ''path'', JStr (js ''temperature'')), (js ''mode'', JStr (js ''set'')), (js ''value'', JNum (js_round (7 / 10))),
        (js ''conditions'', JArr [condition_template ''model'' ''prefix'' ''openai/'']), (js ''logic'', JStr (js ''AND''))]]"

definition HEADER_PASSTHROUGH_TEMPLATE :: "json list" where
  "HEADER_PASSTHROUGH_TEMPLATE =
     [JObj [(js ''description'', JStr (js ''Pass through X-Request-Id header to upstream.'')),
        (js ''mode'', JStr (js ''pass_headers'')), (js ''value'', JArr [JStr (js ''X-Request-Id'')]), (js ''keep_origin'', JBool True)]]"

definition GEMINI_IMAGE_4K_TEMPLATE :: "json list" where
  "GEMINI_IMAGE_4K_TEMPLATE =
     [JObj [(js ''description'', JStr (js ''Set imageSize to 4K when model contains gemini/image and ends with 4k.'')),
        (js ''mode'', JStr (js ''set'')), (js ''path'', JStr (js ''generationConfig.imageConfig.imageSize'')),
        (js ''value'', JStr (js ''4K'')),
        (js ''conditions'', JArr [condition_template ''original_model'' ''contains'' ''gemini'',
           condition_template ''original_model'' ''contains'' ''image'', condition_template ''original_model'' ''suffix'' ''4k'']),
        (js ''logic'', JStr (js ''AND''))]]"

definition CODEX_CLI_HEADER_PASSTHROUGH_HEADERS :: "jstring list" where
  "CODEX_CLI_HEADER_PASSTHROUGH_HEADERS =
     map js [''Originator'', ''Session_id'', ''User-Agent'', ''X-Codex-Beta-Features'', ''X-Codex-Turn-Metadata'']"

definition CLAUDE_CLI_HEADER_PASSTHROUGH_HEADERS :: "jstring list" where
  "CLAUDE_CLI_HEADER_PASSTHROUGH_HEADERS =
     map js [''X-Stainless-Arch'', ''X-Stainless-Lang'', ''X-Stainless-Os'', ''X-Stainless-Package-Version'',
       ''X-Stainless-Retry-Count'', ''X-Stainless-Runtime'', ''X-Stainless-Runtime-Version'', ''X-Stainless-Timeout'',
       ''User-Agent'', ''X-App'', ''Anthropic-Beta'', ''Anthropic-Dangerous-Direct-Browser-Access'', ''Anthropic-Version'']"

definition buildPassHeadersTemplate :: "jstring list \<Rightarrow> json list" where
  "buildPassHeadersTemplate headers =
     [JObj [(js ''mode'', JStr (js ''pass_headers'')), (js ''value'', JArr (map JStr headers)), (js ''keep_origin'', JBool True)]]"

definition kept :: "string \<Rightarrow> jstring \<times> json" where
  "kept s = (js s, JStr (js s))"

definition dropped :: "string \<Rightarrow> jstring \<times> json" where
  "dropped s = (js s, JNull)"

definition AWS_BEDROCK_ANTHROPIC_COMPAT_TEMPLATE :: "json list" where
  "AWS_BEDROCK_ANTHROPIC_COMPAT_TEMPLATE =
     [JObj [(js ''description'', JStr (js ''Normalize anthropic-beta header tokens for Bedrock compatibility.'')),
        (js ''mode'', JStr (js ''set_header'')), (js ''path'', JStr (js ''anthropic-beta'')),
        (js ''value'', JObj
          [(js ''advanced-tool-use-2025-11-20'', JStr (js ''tool-search-tool-2025-10-19'')),
           dropped ''bash_20241022'', dropped ''bash_20250124'', dropped ''code-execution-2025-08-25'',
           kept ''compact-2026-01-12'', kept ''computer-use-2025-01-24'', kept ''computer-use-2025-11-24'',
           kept ''context-1m-2025-08-07'', kept ''context-management-2025-06-27'', dropped ''effort-2025-11-24'',
           dropped ''fast-mode-2026-02-01'', dropped ''files-api-2025-04-14'',
           dropped ''fine-grained-tool-streaming-2025-05-14'', kept ''interleaved-thinking-2025-05-14'',
           dropped ''mcp-client-2025-11-20'', dropped ''mcp-client-2025-04-04'', dropped ''mcp-servers-2025-12-04'',
           dropped ''output-128k-2025-02-19'', dropped ''structured-output-2024-03-01'',
           dropped ''prompt-caching-scope-2026-01-05'', dropped ''skills-2025-10-02'', dropped ''structured-outputs-2025-11-13'',
           dropped ''text_editor_20241022'', dropped ''text_editor_20250124'', dropped ''token-efficient-tools-2025-02-19'',
           kept ''tool-search-tool-2025-10-19'', dropped ''web-fetch-2025-09-10'', dropped ''web-search-2025-03-05'',
           dropped ''oauth-2025-04-20''])],
      JObj [(js ''description'', JStr (js ''Remove all tools[*].custom.input_examples before upstream relay.'')),
        (js ''mode'', JStr (js ''delete'')), (js ''path'', JStr (js ''tools.*.custom.input_examples''))]]"

datatype TemplatePreset = OperationsPreset "json list" | LegacyPreset "(jstring \<times> json) list"

definition TEMPLATE_PRESET_CONFIG :: "(jstring \<times> TemplatePreset) list" where
  "TEMPLATE_PRESET_CONFIG =
     [(js ''operations_default'', OperationsPreset OPERATION_TEMPLATE),
      (js ''legacy_default'', LegacyPreset LEGACY_TEMPLATE),
      (js ''pass_headers_auth'', OperationsPreset HEADER_PASSTHROUGH_TEMPLATE),
      (js ''gemini_image_4k'', OperationsPreset GEMINI_IMAGE_4K_TEMPLATE),
      (js ''claude_cli_headers_passthrough'',
        OperationsPreset (buildPassHeadersTemplate CLAUDE_CLI_HEADER_PASSTHROUGH_HEADERS)),
      (js ''codex_cli_headers_passthrough'',
        OperationsPreset (buildPassHeadersTemplate CODEX_CLI_HEADER_PASSTHROUGH_HEADERS)),
      (js ''aws_bedrock_anthropic_beta_override'', OperationsPreset AWS_BEDROCK_ANTHROPIC_COMPAT_TEMPLATE)]"

definition preset_of :: "jstring \<Rightarrow> TemplatePreset" where
  "preset_of key = (case map_of TEMPLATE_PRESET_CONFIG key of Some p \<Rightarrow> p | None \<Rightarrow> OperationsPreset OPERATION_TEMPLATE)"

section \<open>State\<close>

record Editor =
  ed_editMode :: EditMode
  ed_visualMode :: VisualMode
  ed_legacyValue :: jstring
  ed_operations :: "ParamOverrideOperation list"
  ed_jsonText :: jstring
  ed_jsonError :: jstring
  ed_operationSearch :: jstring
  ed_selectedOperationId :: jstring
  ed_expandedConditions :: "jstring \<rightharpoonup> bool"
  ed_draggedOperationId :: jstring
  ed_dragOverOperationId :: jstring
  ed_dragOverPosition :: Position
  ed_templatePresetKey :: jstring
  ed_seed :: nat

text \<open>
  What the component gets from outside: the translations of a key and of a key with a line number, the
  case conversions and the times of the ids.
\<close>

record Env =
  ev_t :: "jstring \<Rightarrow> jstring"
  ev_line :: "jstring \<Rightarrow> nat \<Rightarrow> jstring"
  ev_upper :: "jstring \<Rightarrow> jstring"
  ev_lower :: "jstring \<Rightarrow> jstring"
  ev_clock :: "nat \<Rightarrow> nat"

datatype Effect = ToastError jstring | OnSave jstring | OnClose | Uncaught js_error

abbreviation new_operation :: "Env \<Rightarrow> nat \<Rightarrow> ParamOverrideOperation \<times> nat" where
  "new_operation env \<equiv> createDefaultOperation (ev_upper env) (ev_clock env)"

text \<open>\<^verbatim>\<open>operations[0]?.id || ''\<close>.\<close>

definition first_id :: "ParamOverrideOperation list \<Rightarrow> jstring" where
  "first_id ops = (case ops of [] \<Rightarrow> [] | op # _ \<Rightarrow> po_id op)"

definition initializeFromValue :: "Env \<Rightarrow> jstring \<Rightarrow> Editor \<Rightarrow> Editor \<times> Effect list" where
  "initializeFromValue env value e =
     (case parseInitialState (ev_upper env) (ev_clock env) value (ed_seed e) of
        (Inl err, seed) \<Rightarrow> (e\<lparr>ed_seed := seed\<rparr>, [Uncaught err])
      | (Inr st, seed) \<Rightarrow>
          (\<lparr>ed_editMode = es_editMode st, ed_visualMode = es_visualMode st, ed_legacyValue = es_legacyValue st,
            ed_operations = es_operations st, ed_jsonText = es_jsonText st, ed_jsonError = es_jsonError st,
            ed_operationSearch = [], ed_selectedOperationId = first_id (es_operations st),
            ed_expandedConditions = Map.empty, ed_draggedOperationId = [], ed_dragOverOperationId = [],
            ed_dragOverPosition = Before,
            ed_templatePresetKey =
              (if es_visualMode st = VisualLegacy then js ''legacy_default'' else js ''operations_default''),
            ed_seed = seed\<rparr>, []))"

text \<open>The adjustment of the selection during a render.\<close>

definition keep_selection_valid :: "Editor \<Rightarrow> Editor" where
  "keep_selection_valid e =
     (case ed_operations e of
        [] \<Rightarrow> e\<lparr>ed_selectedOperationId := []\<rparr>
      | op # _ \<Rightarrow>
          if list_ex (\<lambda>x. po_id x = ed_selectedOperationId e) (ed_operations e) then e
          else e\<lparr>ed_selectedOperationId := po_id op\<rparr>)"

section \<open>Derived values\<close>

definition operationCount :: "Editor \<Rightarrow> nat" where
  "operationCount e = length (filter (\<lambda>op. \<not> isOperationBlank op) (ed_operations e))"

definition searchable_text :: "ParamOverrideOperation \<Rightarrow> jstring" where
  "searchable_text op =
     join (js '' '') (nonempty [po_description op, po_mode op, po_path op, po_from op, po_to op, po_value_text op])"

definition filteredOperations :: "Env \<Rightarrow> Editor \<Rightarrow> ParamOverrideOperation list" where
  "filteredOperations env e =
     (let keyword = ev_lower env (trim (ed_operationSearch e))
      in if keyword = [] then ed_operations e
         else filter (\<lambda>op. str_includes (ev_lower env (searchable_text op)) keyword) (ed_operations e))"

definition selectedOperation :: "Editor \<Rightarrow> ParamOverrideOperation option" where
  "selectedOperation e = find (\<lambda>op. po_id op = ed_selectedOperationId e) (ed_operations e)"

definition count_mode :: "ParamOverrideOperation \<Rightarrow> (jstring \<times> nat) list \<Rightarrow> (jstring \<times> nat) list" where
  "count_mode op counts =
     (let mode = or_str (po_mode op) (js ''set'')
      in AList.update mode ((case map_of counts mode of Some n \<Rightarrow> n | None \<Rightarrow> 0) + 1) counts)"

definition topOperationModes :: "Editor \<Rightarrow> (jstring \<times> nat) list" where
  "topOperationModes e =
     take 4 (js_sort (\<lambda>a b. snd a < snd b) (fold count_mode (ed_operations e) []))"

section \<open>Operations\<close>

text \<open>The fields that the rule editor patches, one at a time.\<close>

datatype OperationPatch =
    PatchMode jstring | PatchPath jstring | PatchDescription jstring | PatchValueText jstring
  | PatchKeepOrigin bool | PatchFrom jstring | PatchTo jstring | PatchLogic jstring

fun patch_operation :: "OperationPatch \<Rightarrow> ParamOverrideOperation \<Rightarrow> ParamOverrideOperation" where
  "patch_operation (PatchMode s) op = op\<lparr>po_mode := s\<rparr>"
| "patch_operation (PatchPath s) op = op\<lparr>po_path := s\<rparr>"
| "patch_operation (PatchDescription s) op = op\<lparr>po_description := s\<rparr>"
| "patch_operation (PatchValueText s) op = op\<lparr>po_value_text := s\<rparr>"
| "patch_operation (PatchKeepOrigin b) op = op\<lparr>po_keep_origin := b\<rparr>"
| "patch_operation (PatchFrom s) op = op\<lparr>po_from := s\<rparr>"
| "patch_operation (PatchTo s) op = op\<lparr>po_to := s\<rparr>"
| "patch_operation (PatchLogic s) op = op\<lparr>po_logic := s\<rparr>"

text \<open>\<^verbatim>\<open>prev.map((o) => o.id === operationId ? f(o) : o)\<close>.\<close>

definition map_operation ::
  "jstring \<Rightarrow> (ParamOverrideOperation \<Rightarrow> ParamOverrideOperation) \<Rightarrow> ParamOverrideOperation list \<Rightarrow> ParamOverrideOperation list" where
  "map_operation i f ops = map (\<lambda>op. if po_id op = i then f op else op) ops"

definition updateOperation :: "jstring \<Rightarrow> OperationPatch \<Rightarrow> Editor \<Rightarrow> Editor" where
  "updateOperation operationId patch e =
     e\<lparr>ed_operations := map_operation operationId (patch_operation patch) (ed_operations e)\<rparr>"

definition addOperation :: "Env \<Rightarrow> Editor \<Rightarrow> Editor" where
  "addOperation env e =
     (let (created, seed) = new_operation env (ed_seed e)
      in e\<lparr>ed_operations := ed_operations e @ [created], ed_selectedOperationId := po_id created, ed_seed := seed\<rparr>)"

definition condition_copy :: "ParamOverrideCondition \<Rightarrow> json" where
  "condition_copy c =
     JObj [(js ''path'', JStr (pc_path c)), (js ''mode'', JStr (pc_mode c)), (js ''value'', parseLooseValue (pc_value_text c)),
       (js ''invert'', JBool (pc_invert c)), (js ''pass_missing_key'', JBool (pc_pass_missing_key c))]"

definition operation_copy :: "ParamOverrideOperation \<Rightarrow> json" where
  "operation_copy op =
     JObj [(js ''description'', JStr (po_description op)), (js ''path'', JStr (po_path op)), (js ''mode'', JStr (po_mode op)),
       (js ''value'', parseLooseValue (po_value_text op)), (js ''keep_origin'', JBool (po_keep_origin op)),
       (js ''from'', JStr (po_from op)), (js ''to'', JStr (po_to op)), (js ''logic'', JStr (po_logic op)),
       (js ''conditions'', JArr (map condition_copy (po_conditions op)))]"

text \<open>
  The id of the copy is set inside the state updater. React runs the updater at once or only during the next render;
  in the second case (\<open>eager\<close> false) the selection does not move.
\<close>

definition duplicateOperation :: "Env \<Rightarrow> bool \<Rightarrow> jstring \<Rightarrow> Editor \<Rightarrow> Editor" where
  "duplicateOperation env eager operationId e =
     (case find_index (\<lambda>op. po_id op = operationId) (ed_operations e) of
        None \<Rightarrow> e
      | Some idx \<Rightarrow>
          (let (cloned, seed) = apfst projr
                 (normalizeOperation (ev_upper env) (ev_clock env) (operation_copy (ed_operations e ! idx)) (ed_seed e))
           in e\<lparr>ed_operations := take (idx + 1) (ed_operations e) @ cloned # drop (idx + 1) (ed_operations e),
                ed_selectedOperationId := (if eager then po_id cloned else ed_selectedOperationId e),
                ed_seed := seed\<rparr>))"

definition removeOperation :: "Env \<Rightarrow> jstring \<Rightarrow> Editor \<Rightarrow> Editor" where
  "removeOperation env operationId e =
     (if length (ed_operations e) \<le> 1
      then let (created, seed) = new_operation env (ed_seed e) in e\<lparr>ed_operations := [created], ed_seed := seed\<rparr>
      else e\<lparr>ed_operations := filter (\<lambda>op. po_id op \<noteq> operationId) (ed_operations e)\<rparr>)"

section \<open>Conditions\<close>

datatype ConditionPatch =
    CondPath jstring | CondMode jstring | CondValueText jstring | CondInvert bool | CondPassMissingKey bool

fun patch_condition :: "ConditionPatch \<Rightarrow> ParamOverrideCondition \<Rightarrow> ParamOverrideCondition" where
  "patch_condition (CondPath s) c = c\<lparr>pc_path := s\<rparr>"
| "patch_condition (CondMode s) c = c\<lparr>pc_mode := s\<rparr>"
| "patch_condition (CondValueText s) c = c\<lparr>pc_value_text := s\<rparr>"
| "patch_condition (CondInvert b) c = c\<lparr>pc_invert := b\<rparr>"
| "patch_condition (CondPassMissingKey b) c = c\<lparr>pc_pass_missing_key := b\<rparr>"

definition addCondition :: "Env \<Rightarrow> jstring \<Rightarrow> Editor \<Rightarrow> Editor" where
  "addCondition env operationId e =
     (let (created, seed) = createDefaultCondition (ev_clock env) (ed_seed e)
      in e\<lparr>ed_operations := map_operation operationId
             (\<lambda>op. op\<lparr>po_conditions := po_conditions op @ [created]\<rparr>) (ed_operations e),
           ed_expandedConditions := (ed_expandedConditions e)(pc_id created \<mapsto> True), ed_seed := seed\<rparr>)"

definition updateCondition :: "jstring \<Rightarrow> jstring \<Rightarrow> ConditionPatch \<Rightarrow> Editor \<Rightarrow> Editor" where
  "updateCondition operationId conditionId patch e =
     e\<lparr>ed_operations := map_operation operationId
         (\<lambda>op. op\<lparr>po_conditions := map (\<lambda>c. if pc_id c = conditionId then patch_condition patch c else c) (po_conditions op)\<rparr>)
         (ed_operations e)\<rparr>"

definition removeCondition :: "jstring \<Rightarrow> jstring \<Rightarrow> Editor \<Rightarrow> Editor" where
  "removeCondition operationId conditionId e =
     e\<lparr>ed_operations := map_operation operationId
         (\<lambda>op. op\<lparr>po_conditions := filter (\<lambda>c. pc_id c \<noteq> conditionId) (po_conditions op)\<rparr>) (ed_operations e)\<rparr>"

section \<open>Drafts\<close>

text \<open>The patch is a function on drafts.\<close>

definition updateReturnErrorDraft :: "jstring \<Rightarrow> (ReturnErrorDraft \<Rightarrow> ReturnErrorDraft) \<Rightarrow> Editor \<Rightarrow> Editor" where
  "updateReturnErrorDraft operationId patch e =
     e\<lparr>ed_operations := map_operation operationId
         (\<lambda>op. op\<lparr>po_value_text := buildReturnErrorValueText (patch (parseReturnErrorDraft (po_value_text op)))\<rparr>)
         (ed_operations e)\<rparr>"

text \<open>The updater may make an id. Ids of several operations with the same id would be made in order; the ids are distinct.\<close>

fun update_prune ::
  "Env \<Rightarrow> jstring \<Rightarrow> (PruneObjectsDraft \<Rightarrow> nat \<Rightarrow> PruneObjectsDraft \<times> nat) \<Rightarrow> ParamOverrideOperation list \<Rightarrow> nat
    \<Rightarrow> ParamOverrideOperation list \<times> nat" where
  "update_prune env i updater [] seed = ([], seed)"
| "update_prune env i updater (op # ops) seed =
     (if po_id op \<noteq> i then apfst (Cons op) (update_prune env i updater ops seed)
      else
        let (draft, seed1) = parsePruneObjectsDraft (ev_upper env) (ev_clock env) (po_value_text op) seed;
            (nextDraft, seed2) = updater draft seed1
        in apfst (Cons (op\<lparr>po_value_text := buildPruneObjectsValueText (ev_upper env) nextDraft\<rparr>))
             (update_prune env i updater ops seed2))"

definition updatePruneObjectsDraft ::
  "Env \<Rightarrow> jstring \<Rightarrow> (PruneObjectsDraft \<Rightarrow> nat \<Rightarrow> PruneObjectsDraft \<times> nat) \<Rightarrow> Editor \<Rightarrow> Editor" where
  "updatePruneObjectsDraft env operationId updater e =
     (let (ops, seed) = update_prune env operationId updater (ed_operations e) (ed_seed e)
      in e\<lparr>ed_operations := ops, ed_seed := seed\<rparr>)"

definition addPruneRule :: "Env \<Rightarrow> jstring \<Rightarrow> Editor \<Rightarrow> Editor" where
  "addPruneRule env operationId =
     updatePruneObjectsDraft env operationId
       (\<lambda>draft seed. let (r, seed') = apfst projr (normalizePruneRule (ev_clock env) (JObj []) seed)
          in (draft\<lparr>pd_simpleMode := False, pd_rules := pd_rules draft @ [r]\<rparr>, seed'))"

definition updatePruneRule :: "Env \<Rightarrow> jstring \<Rightarrow> jstring \<Rightarrow> ConditionPatch \<Rightarrow> Editor \<Rightarrow> Editor" where
  "updatePruneRule env operationId ruleId patch =
     updatePruneObjectsDraft env operationId
       (\<lambda>draft seed. (draft\<lparr>pd_rules := map (\<lambda>r. if pc_id r = ruleId then patch_condition patch r else r) (pd_rules draft)\<rparr>, seed))"

definition removePruneRule :: "Env \<Rightarrow> jstring \<Rightarrow> jstring \<Rightarrow> Editor \<Rightarrow> Editor" where
  "removePruneRule env operationId ruleId =
     updatePruneObjectsDraft env operationId
       (\<lambda>draft seed. (draft\<lparr>pd_rules := filter (\<lambda>r. pc_id r \<noteq> ruleId) (pd_rules draft)\<rparr>, seed))"

section \<open>Drag and drop\<close>

definition resetDragState :: "Editor \<Rightarrow> Editor" where
  "resetDragState e = e\<lparr>ed_draggedOperationId := [], ed_dragOverOperationId := [], ed_dragOverPosition := Before\<rparr>"

definition handleDragStart :: "jstring \<Rightarrow> Editor \<Rightarrow> Editor" where
  "handleDragStart operationId e = e\<lparr>ed_draggedOperationId := operationId, ed_selectedOperationId := operationId\<rparr>"

text \<open>\<open>lower_half\<close>: the pointer is in the lower half of the row.\<close>

definition handleDragOver :: "bool \<Rightarrow> jstring \<Rightarrow> Editor \<Rightarrow> Editor" where
  "handleDragOver lower_half operationId e =
     (if ed_draggedOperationId e = [] \<or> ed_draggedOperationId e = operationId then e
      else e\<lparr>ed_dragOverOperationId := operationId, ed_dragOverPosition := (if lower_half then After else Before)\<rparr>)"

text \<open>\<open>transfer\<close>: the text of the drag event.\<close>

definition handleDrop :: "jstring \<Rightarrow> jstring \<Rightarrow> Editor \<Rightarrow> Editor" where
  "handleDrop transfer operationId e =
     (let sourceId = or_str (ed_draggedOperationId e) transfer;
          position = (if ed_dragOverOperationId e = operationId then ed_dragOverPosition e else Before)
      in resetDragState
           (if sourceId \<noteq> [] \<and> operationId \<noteq> [] \<and> sourceId \<noteq> operationId
            then e\<lparr>ed_operations := reorderOperations (ed_operations e) sourceId operationId position,
                   ed_selectedOperationId := sourceId\<rparr>
            else e))"

section \<open>Modes and templates\<close>

text \<open>\<open>Inl\<close> is the message of the error that is thrown.\<close>

definition buildVisualJson :: "Env \<Rightarrow> Editor \<Rightarrow> jstring + jstring" where
  "buildVisualJson env e =
     (if ed_visualMode e = VisualLegacy then
        (let trimmed = trim (ed_legacyValue e)
         in if trimmed = [] then Inr []
            else if \<not> verifyJSON trimmed then Inl (ev_t env (js ''Parameter override must be valid JSON format''))
            else case the (json_parse trimmed) of
              JObj ps \<Rightarrow> Inr (json_pretty (JObj ps))
            | _ \<Rightarrow> Inl (ev_t env (js ''Legacy format must be a JSON object'')))
      else buildOperationsJson (ed_operations e) True (ev_line env))"

definition switchToJsonMode :: "Env \<Rightarrow> Editor \<Rightarrow> Editor \<times> Effect list" where
  "switchToJsonMode env e =
     (if ed_editMode e = EditJson then (e, [])
      else case buildVisualJson env e of
        Inr text \<Rightarrow> (e\<lparr>ed_jsonText := text, ed_jsonError := [], ed_editMode := EditJson\<rparr>, [])
      | Inl message \<Rightarrow>
          (e\<lparr>ed_jsonText :=
               (if ed_visualMode e = VisualLegacy then ed_legacyValue e
                else projr (buildOperationsJson (ed_operations e) False (ev_line env))),
             ed_jsonError := or_str message (ev_t env (js ''Parameter configuration error'')),
             ed_editMode := EditJson\<rparr>, [ToastError message]))"

definition switchToVisualMode :: "Env \<Rightarrow> Editor \<Rightarrow> Editor \<times> Effect list" where
  "switchToVisualMode env e =
     (if ed_editMode e = EditVisual then (e, [])
      else
        let trimmed = trim (ed_jsonText e); (fallback, seed) = new_operation env (ed_seed e)
        in if trimmed = [] then
             (e\<lparr>ed_visualMode := VisualOperations, ed_operations := [fallback], ed_selectedOperationId := po_id fallback,
                ed_legacyValue := [], ed_jsonError := [], ed_editMode := EditVisual, ed_seed := seed\<rparr>, [])
           else if \<not> verifyJSON trimmed
           then (e, [ToastError (ev_t env (js ''Parameter override must be valid JSON format''))])
           else case the (json_parse trimmed) of
             JObj ps \<Rightarrow>
               (case map_of ps (js ''operations'') of
                  Some (JArr items) \<Rightarrow>
                    (case read_operations (ev_upper env) (ev_clock env) items (ed_seed e) of
                       (Inl err, seed') \<Rightarrow> (e\<lparr>ed_seed := seed'\<rparr>, [Uncaught err])
                     | (Inr nextOps, seed') \<Rightarrow>
                         (e\<lparr>ed_visualMode := VisualOperations, ed_operations := nextOps,
                            ed_selectedOperationId := first_id nextOps, ed_legacyValue := [], ed_jsonError := [],
                            ed_editMode := EditVisual, ed_templatePresetKey := js ''operations_default'',
                            ed_seed := seed'\<rparr>, []))
                | _ \<Rightarrow>
                    (e\<lparr>ed_visualMode := VisualLegacy, ed_legacyValue := json_pretty (JObj ps), ed_operations := [fallback],
                       ed_selectedOperationId := po_id fallback, ed_jsonError := [], ed_editMode := EditVisual,
                       ed_templatePresetKey := js ''legacy_default'', ed_seed := seed\<rparr>, []))
           | _ \<Rightarrow> (e, [ToastError (ev_t env (js ''Parameter override must be a valid JSON object''))]))"

datatype FillMode = Fill | Append

definition set_legacy :: "Env \<Rightarrow> jstring \<Rightarrow> Editor \<Rightarrow> Editor" where
  "set_legacy env text e =
     (let (created, seed) = new_operation env (ed_seed e)
      in e\<lparr>ed_visualMode := VisualLegacy, ed_legacyValue := text, ed_operations := [created], ed_jsonText := text,
           ed_jsonError := [], ed_editMode := EditVisual, ed_seed := seed\<rparr>)"

definition template_operations :: "Env \<Rightarrow> json list \<Rightarrow> nat \<Rightarrow> ParamOverrideOperation list \<times> nat" where
  "template_operations env payload seed =
     apfst projr (map_gen (normalizeOperation (ev_upper env) (ev_clock env)) payload seed)"

definition fillTemplate :: "Env \<Rightarrow> FillMode \<Rightarrow> Editor \<Rightarrow> Editor \<times> Effect list" where
  "fillTemplate env mode e =
     (case preset_of (ed_templatePresetKey e) of
        LegacyPreset payload \<Rightarrow>
          if mode = Append \<and> ed_visualMode e = VisualLegacy then
            let trimmed = trim (ed_legacyValue e)
            in if trimmed \<noteq> [] \<and> \<not> verifyJSON trimmed
               then (e, [ToastError (ev_t env (js ''Current legacy JSON is invalid, cannot append''))])
               else
                 let current = (if trimmed = [] then [] else own_entries (the (json_parse trimmed)))
                 in (set_legacy env (json_pretty (JObj (fold (\<lambda>(k, v). obj_set k v) current payload))) e, [])
          else (set_legacy env (json_pretty (JObj payload)) e, [])
      | OperationsPreset payload \<Rightarrow>
          (let (ops, seed) = template_operations env payload (ed_seed e)
           in if mode = Append then
                let existing = (if ed_visualMode e = VisualOperations
                      then filter (\<lambda>op. \<not> isOperationBlank op) (ed_operations e) else []);
                    nextOps = existing @ ops
                in (e\<lparr>ed_visualMode := VisualOperations, ed_operations := (if nextOps \<noteq> [] then nextOps else ops),
                      ed_selectedOperationId := or_str (first_id nextOps) (first_id ops), ed_legacyValue := [],
                      ed_jsonError := [], ed_editMode := EditVisual, ed_jsonText := [], ed_seed := seed\<rparr>, [])
              else
                let (finalOps, seed') = (if ops \<noteq> [] then (ops, seed) else apfst (\<lambda>d. [d]) (new_operation env seed))
                in (e\<lparr>ed_visualMode := VisualOperations, ed_operations := finalOps,
                      ed_selectedOperationId := first_id finalOps,
                      ed_jsonText := json_pretty (JObj [(js ''operations'', JArr payload)]), ed_jsonError := [],
                      ed_editMode := EditVisual, ed_seed := seed'\<rparr>, [])))"

definition resetEditorState :: "Env \<Rightarrow> Editor \<Rightarrow> Editor" where
  "resetEditorState env e =
     (let (fallback, seed) = new_operation env (ed_seed e)
      in e\<lparr>ed_visualMode := VisualOperations, ed_legacyValue := [], ed_operations := [fallback],
           ed_selectedOperationId := po_id fallback, ed_jsonText := [], ed_jsonError := [],
           ed_templatePresetKey := js ''operations_default'', ed_editMode := EditVisual, ed_seed := seed\<rparr>)"

section \<open>JSON mode and saving\<close>

definition handleJsonChange :: "Env \<Rightarrow> jstring \<Rightarrow> Editor \<Rightarrow> Editor" where
  "handleJsonChange env nextValue e =
     e\<lparr>ed_jsonText := nextValue,
       ed_jsonError := (if trim nextValue = [] \<or> verifyJSON (trim nextValue) then [] else ev_t env (js ''JSON format error''))\<rparr>"

definition formatJson :: "Env \<Rightarrow> Editor \<Rightarrow> Editor \<times> Effect list" where
  "formatJson env e =
     (let trimmed = trim (ed_jsonText e)
      in if trimmed = [] then (e, [])
         else if \<not> verifyJSON trimmed
         then (e, [ToastError (ev_t env (js ''Parameter override must be valid JSON format''))])
         else (e\<lparr>ed_jsonText := json_pretty (the (json_parse trimmed)), ed_jsonError := []\<rparr>, []))"

definition visualValidationError :: "Env \<Rightarrow> Editor \<Rightarrow> jstring" where
  "visualValidationError env e =
     (if ed_editMode e \<noteq> EditVisual then []
      else case buildVisualJson env e of
        Inr _ \<Rightarrow> []
      | Inl message \<Rightarrow> or_str message (ev_t env (js ''Parameter configuration error'')))"

definition handleSave :: "Env \<Rightarrow> Editor \<Rightarrow> Effect list" where
  "handleSave env e =
     (let result =
        (if ed_editMode e = EditJson then
           (let trimmed = trim (ed_jsonText e)
            in if trimmed = [] then Inr []
               else if \<not> verifyJSON trimmed then Inl (ev_t env (js ''Parameter override must be valid JSON format''))
               else Inr (json_pretty (the (json_parse trimmed))))
         else buildVisualJson env e)
      in case result of
           Inr text \<Rightarrow> [OnSave text, OnClose]
         | Inl message \<Rightarrow> [ToastError message])"

definition set_expanded :: "bool \<Rightarrow> Editor \<Rightarrow> Editor" where
  "set_expanded b e =
     (case selectedOperation e of
        None \<Rightarrow> e
      | Some op \<Rightarrow>
          e\<lparr>ed_expandedConditions := fold (\<lambda>c m. m(pc_id c \<mapsto> b)) (po_conditions op) (ed_expandedConditions e)\<rparr>)"

definition expandAllConditions :: "Editor \<Rightarrow> Editor" where
  "expandAllConditions e = set_expanded True e"

definition collapseAllConditions :: "Editor \<Rightarrow> Editor" where
  "collapseAllConditions e = set_expanded False e"

section \<open>A session\<close>

text \<open>The first render: the initial values of the state, with an id for the default operation.\<close>

definition initial_editor :: "Env \<Rightarrow> nat \<Rightarrow> Editor" where
  "initial_editor env seed =
     (let (created, seed') = new_operation env seed
      in \<lparr>ed_editMode = EditVisual, ed_visualMode = VisualOperations, ed_legacyValue = [], ed_operations = [created],
          ed_jsonText = [], ed_jsonError = [], ed_operationSearch = [], ed_selectedOperationId = [],
          ed_expandedConditions = Map.empty, ed_draggedOperationId = [], ed_dragOverOperationId = [],
          ed_dragOverPosition = Before, ed_templatePresetKey = js ''operations_default'', ed_seed = seed'\<rparr>)"

inductive editor_step :: "Env \<Rightarrow> Editor \<Rightarrow> Editor \<Rightarrow> bool" for env where
  Render: "ed_seed e \<le> seed \<Longrightarrow> editor_step env e ((keep_selection_valid e)\<lparr>ed_seed := seed\<rparr>)"
| Open: "editor_step env e (fst (initializeFromValue env value e))"
| Select: "editor_step env e (e\<lparr>ed_selectedOperationId := i\<rparr>)"
| Search: "editor_step env e (e\<lparr>ed_operationSearch := text\<rparr>)"
| Legacy: "editor_step env e (e\<lparr>ed_legacyValue := text\<rparr>)"
| Preset: "editor_step env e (e\<lparr>ed_templatePresetKey := k\<rparr>)"
| Expand: "editor_step env e (e\<lparr>ed_expandedConditions := m\<rparr>)"
| Update: "editor_step env e (updateOperation i p e)"
| Add: "editor_step env e (addOperation env e)"
| Duplicate: "editor_step env e (duplicateOperation env eager i e)"
| Remove: "editor_step env e (removeOperation env i e)"
| Condition_Add: "editor_step env e (addCondition env i e)"
| Condition_Update: "editor_step env e (updateCondition i c q e)"
| Condition_Remove: "editor_step env e (removeCondition i c e)"
| Return_Error: "editor_step env e (updateReturnErrorDraft i f e)"
| Prune: "(\<And>d n. n \<le> snd (updater d n)) \<Longrightarrow> editor_step env e (updatePruneObjectsDraft env i updater e)"
| Drag_Start: "editor_step env e (handleDragStart i e)"
| Drag_Over: "editor_step env e (handleDragOver b i e)"
| Drop: "editor_step env e (handleDrop text i e)"
| Drag_Reset: "editor_step env e (resetDragState e)"
| To_Json: "editor_step env e (fst (switchToJsonMode env e))"
| To_Visual: "editor_step env e (fst (switchToVisualMode env e))"
| Template: "editor_step env e (fst (fillTemplate env m e))"
| Reset: "editor_step env e (resetEditorState env e)"
| Json_Change: "editor_step env e (handleJsonChange env text e)"
| Format: "editor_step env e (fst (formatJson env e))"

inductive editor_reachable :: "Env \<Rightarrow> Editor \<Rightarrow> bool" for env where
  Start: "editor_reachable env (initial_editor env seed)"
| Step: "editor_reachable env e \<Longrightarrow> editor_step env e e' \<Longrightarrow> editor_reachable env e'"

end
