(* ===== verification/JS_Integers.thy ===== *)
theory JS_Integers
  imports JS_Stringify
begin

text \<open>
  The text of an integer: a natural number below $10^{15}$, as a double, prints as its decimal digits, and JSON
  reads it back.
\<close>

lemma length_show_nat_bounds: "0 < n \<Longrightarrow> 10 ^ (length (show_nat n) - 1) \<le> n \<and> n < 10 ^ length (show_nat n)"
proof (induction n rule: show_nat.induct)
  case (1 n)
  show ?case
  proof (cases "n < 10")
    case True
    then show ?thesis using 1 by (subst (1 2) show_nat.simps) simp
  next
    case False
    let ?m = "n div 10"
    have m: "10 ^ (length (show_nat ?m) - 1) \<le> ?m" "?m < 10 ^ length (show_nat ?m)" using 1 False by auto
    obtain k where k: "length (show_nat ?m) = Suc k" by (cases "show_nat ?m") auto
    have l: "length (show_nat n) = Suc (Suc k)" using False k by (subst show_nat.simps) simp
    have "10 * 10 ^ k \<le> n" "n < 10 * 10 ^ Suc k" using m unfolding k by simp_all
    then show ?thesis by (simp add: l)
  qed
qed

lemma show_nat_shift: "0 < m \<Longrightarrow> show_nat (m * 10 ^ e) = show_nat m @ replicate e 48"
proof (induction e)
  case (Suc e)
  have "10 \<le> m * 10 ^ Suc e" using Suc.prems by simp
  then have "show_nat (m * 10 ^ Suc e) = show_nat (m * 10 ^ Suc e div 10) @ [48 + m * 10 ^ Suc e mod 10]"
    by (subst show_nat.simps) simp
  then show ?case using Suc by (simp add: replicate_append_same)
qed simp

lemma pow10_nat: "pow10 (int e) = of_nat (10 ^ e)"
  by (simp add: pow10_def)

text \<open>Below $10^{15}$ the candidates are exact, so only the number itself reads back.\<close>

lemma reads_back_exact:
  assumes "s * 10 ^ e \<le> 10 ^ 15"
  shows "reads_back (of_nat n) (int s) (int e) \<longleftrightarrow> s * 10 ^ e = n"
proof -
  have "s * 10 ^ e < 2 ^ 53" using assms by (rule le_less_trans) simp
  then have "js_round (of_nat (s * 10 ^ e)) = Fin (of_nat (s * 10 ^ e))" by (rule js_round_of_nat_exact)
  moreover have "of_int (int s) * pow10 (int e) = of_nat (s * 10 ^ e)" by (simp add: pow10_nat)
  ultimately have "reads_back (of_nat n) (int s) (int e) \<longleftrightarrow> (of_nat (s * 10 ^ e) :: rat) = of_nat n"
    unfolding reads_back_def by (simp only: jsnum.inject)
  then show ?thesis by (simp only: of_nat_eq_iff)
qed

lemma shortest_at_nat:
  fixes n k e :: nat
  assumes "n < 10 ^ (k + e)" "k + e \<le> 15" "0 < k"
  shows "shortest_at (of_nat n) (int (k + e)) k
    = (if 10 ^ e dvd n then Some (int (n div 10 ^ e), int (k + e)) else None)"
proof -
  let ?f = "n div 10 ^ e" and ?y = "of_nat n / of_nat (10 ^ e) :: rat"
  have fl: "\<lfloor>?y\<rfloor> = int ?f" by (simp only: floor_divide_of_nat_eq)
  have f: "?f < 10 ^ k" using assms(1) by (simp add: power_add less_mult_imp_div_less mult.commute)
  have b: "s * 10 ^ e \<le> 10 ^ 15" if "s \<le> 10 ^ k" for s :: nat
  proof -
    have "s * 10 ^ e \<le> 10 ^ (k + e)" using that by (simp add: power_add)
    also have "\<dots> \<le> 10 ^ 15" using assms(2) by (intro power_increasing) auto
    finally show ?thesis .
  qed
  have r0: "reads_back (of_nat n) (int ?f) (int e) \<longleftrightarrow> 10 ^ e dvd n"
    using reads_back_exact [OF b [of ?f]] f by (simp add: dvd_eq_mod_eq_0) (metis add_cancel_right_right div_mult_mod_eq)
  have "Suc ?f * 10 ^ e \<noteq> n"
  proof -
    have "n < Suc ?f * 10 ^ e" using dividend_less_div_times [of "10 ^ e" n] by simp
    then show ?thesis by simp
  qed
  then have r1: "\<not> reads_back (of_nat n) (int (Suc ?f)) (int e)"
    using reads_back_exact [OF b [of "Suc ?f"]] f by simp
  have d: "?y - of_int (int ?f) < 1 / 2" if "10 ^ e dvd n"
  proof -
    have "?y = of_nat ?f" using that by (elim dvdE) simp
    then show ?thesis by simp
  qed
  have e: "int (k + e) - int k = int e" by simp
  have p: "of_nat n / pow10 (int e) = ?y" by (simp only: pow10_nat)
  have i: "int ?f + 1 = int (Suc ?f)" by simp
  have nm: "int ?f \<noteq> 10 ^ k" using f by (metis of_nat_eq_iff of_nat_numeral of_nat_power less_irrefl)
  show ?thesis
    unfolding shortest_at_def Let_def e p fl
    using r0 r1 d nm by (auto simp: i simp del: of_nat_Suc)
qed

lemma shortest_nat:
  fixes n d :: nat
  assumes "n < 10 ^ d" "d \<le> 15" "0 < n" "0 < i" "i \<le> d"
  shows "\<exists>k e. shortest (of_nat n) (int d) [i..<18] = (k, int (n div 10 ^ e), int d) \<and> k + e = d \<and> 10 ^ e dvd n"
  using assms(4,5)
proof (induction "d - i" arbitrary: i)
  case 0
  then have i: "i = d" by simp
  then have "shortest_at (of_nat n) (int d) i = Some (int n, int d)"
    using shortest_at_nat [of n d 0] assms 0 by simp
  moreover have "[i..<18] = i # [Suc i..<18]" using assms(2) i by (simp add: upt_rec)
  ultimately have "shortest (of_nat n) (int d) [i..<18] = (d, int n, int d)" by (simp add: i)
  then show ?case by (intro exI [of _ d] exI [of _ 0]) simp
next
  case (Suc j)
  define e where "e = d - i"
  have d: "i + e = d" using Suc.prems by (simp add: e_def)
  have u: "[i..<18] = i # [Suc i..<18]" using assms(2) Suc.prems by (simp add: upt_rec)
  have s: "shortest_at (of_nat n) (int d) i = (if 10 ^ e dvd n then Some (int (n div 10 ^ e), int d) else None)"
    using shortest_at_nat [of n i e] assms(1,2) Suc.prems by (simp add: d)
  show ?case
  proof (cases "10 ^ e dvd n")
    case True
    then show ?thesis using s u d by (intro exI [of _ i] exI [of _ e]) simp
  next
    case False
    then show ?thesis using s u Suc.hyps(1) [of "Suc i"] Suc.hyps(2) by simp
  qed
qed

lemma show_integer:
  assumes "n < 10 ^ 15"
  shows "num_to_string (Fin (of_nat n)) = show_nat n"
proof (cases "n = 0")
  case True
  then show ?thesis by (subst show_nat.simps) (simp add: js_str)
next
  case False
  define d where "d = length (show_nat n)"
  note b = length_show_nat_bounds [of n, folded d_def]
  have d: "d \<le> 15" "0 < d"
  proof -
    have "10 ^ (d - 1) < (10::nat) ^ 15" using b False assms by simp
    then have "d - 1 < 15" by (rule power_less_imp_less_exp [rotated]) simp
    then show "d \<le> 15" by simp
    show "0 < d" by (simp add: d_def)
  qed
  have s: "scale10 (of_nat n) = int d" using False by (simp add: scale10_def d_def)
  obtain k e where k: "shortest (of_nat n) (int d) [1..<18] = (k, int (n div 10 ^ e), int d)" "k + e = d" "10 ^ e dvd n"
    using shortest_nat [of n d 1] b d False by auto
  have "n = n div 10 ^ e * 10 ^ e" using k(3) by simp
  moreover have "0 < n div 10 ^ e" using k(3) False by (metis calculation gr0I mult_0)
  ultimately have "show_nat n = show_nat (n div 10 ^ e) @ replicate e 48" using show_nat_shift by metis
  moreover have "int k \<le> int d" "int d \<le> 21" "nat (int d - int k) = e" using k(2) d by auto
  ultimately have "show_pos (of_nat n) = show_nat n"
    unfolding show_pos_def s k(1) by (simp add: layout_def)
  then show ?thesis using False by simp
qed

lemma hd_show_nat: "0 < n \<Longrightarrow> hd (show_nat n) \<noteq> 48"
proof (induction n rule: show_nat.induct)
  case (1 n)
  then show ?case by (subst show_nat.simps) auto
qed

lemma pnumber_show_nat:
  assumes "n < 2 ^ 53"
  shows "pnumber (show_nat n) = Some (Fin (of_nat n), [])"
proof -
  have dg: "is_digit c" if "c \<in> set (show_nat n)" for c using that by (rule set_show_nat)
  then have d: "pdigits (show_nat n) = (show_nat n, [])"
    by (simp add: pdigits_def takeWhile_eq_all_conv)
  obtain c t where c: "show_nat n = c # t" by (cases "show_nat n") auto
  have "c \<noteq> 45" using dg [of c] by (auto simp: c is_digit_def)
  have i: "pint (show_nat n) = Some (n, [])"
  proof (cases "n = 0")
    case True
    then have "show_nat n = [48]" by (subst show_nat.simps) simp
    then show ?thesis using True by (simp add: pint_def pdigits_def is_digit_def)
  next
    case False
    then show ?thesis using hd_show_nat [of n] read_show_nat [of n] by (simp add: pint_def d)
  qed
  have "js_round (1 * (of_nat n + 0) * pow10 0) = Fin (of_nat n)"
    using js_round_of_nat_exact [OF assms] by (simp add: pow10_def)
  then show ?thesis using i \<open>c \<noteq> 45\<close> unfolding pnumber_def c
    by (simp add: pfrac_def pexp_def)
qed

lemma num_ok_nat: "n < 10 ^ 15 \<Longrightarrow> num_ok (Fin (of_nat n))"
proof -
  assume n: "n < 10 ^ 15"
  then have "n < 2 ^ 53" by (rule less_trans) simp
  then show ?thesis using show_integer [OF n] pnumber_show_nat unfolding num_ok_def by (simp add: is_finite_def)
qed

end
