(* ===== verification/Param_Laws.thy ===== *)
theory Param_Laws
  imports Param_Override JS_Integers
begin

text \<open>
  What the parameter override editor guarantees for its JSON: saved operations open as they were
  saved, saving again does not change them as long as their values survive the text field, and the
  validation accepts exactly the complete rules. It also has the cases in which the editor loses an edit.
\<close>

section \<open>Objects built by assignments\<close>

definition plain_key :: "jstring \<Rightarrow> bool" where
  "plain_key k \<longleftrightarrow> \<not> is_index k \<and> units k"

definition good_obj :: "(jstring \<times> json) list \<Rightarrow> bool" where
  "good_obj ps \<longleftrightarrow> distinct (map fst ps) \<and> (\<forall>(k, v)\<in>set ps. plain_key k \<and> json_ok v)"

lemma good_obj_Nil [simp]: "good_obj []"
  by (simp add: good_obj_def)

lemma good_obj_Cons: "good_obj ((k, v) # ps) \<longleftrightarrow> plain_key k \<and> json_ok v \<and> k \<notin> fst ` set ps \<and> good_obj ps"
  by (auto simp: good_obj_def)

lemma good_obj_set: "good_obj ps \<Longrightarrow> plain_key k \<Longrightarrow> json_ok v \<Longrightarrow> good_obj (obj_set k v ps)"
  using set_obj_set [of k v ps] by (auto simp: good_obj_def distinct_obj_set)

lemma good_set_if: "good_obj ps \<Longrightarrow> plain_key k \<Longrightarrow> (b \<Longrightarrow> json_ok v) \<Longrightarrow> good_obj (set_if b k v ps)"
  by (simp add: set_if_def good_obj_set)

lemma obj_of_good_members:
  assumes "good_obj (qs @ ps)"
  shows "fold (\<lambda>(k, v). obj_set k v) ps qs = qs @ ps"
  using assms
proof (induction ps arbitrary: qs)
  case (Cons p ps)
  obtain k v where p: "p = (k, v)" by (cases p)
  have "k \<notin> fst ` set qs" "\<not> is_index k" using Cons.prems by (auto simp: p good_obj_def plain_key_def)
  then have "obj_set k v qs = qs @ [p]" by (simp add: obj_set_def p)
  then show ?case using Cons.IH [of "qs @ [p]"] Cons.prems by (simp add: p)
qed simp

lemma json_ok_good: "good_obj ps \<Longrightarrow> json_ok (JObj ps)"
  using obj_of_good_members [of "[]" ps]
  by (auto simp: obj_of_members_def good_obj_def plain_key_def list_all_iff)

lemma map_of_set_if: "map_of (set_if b k v ps) x = (if b \<and> x = k then Some v else map_of ps x)"
  by (simp add: set_if_def map_of_obj_set)

text \<open>The keys of the payloads are plain.\<close>

lemma plain_keys [simp]:
  "plain_key (js ''mode'')" "plain_key (js ''description'')" "plain_key (js ''path'')" "plain_key (js ''value'')"
  "plain_key (js ''keep_origin'')" "plain_key (js ''from'')" "plain_key (js ''to'')" "plain_key (js ''conditions'')"
  "plain_key (js ''logic'')" "plain_key (js ''operations'')" "plain_key (js ''invert'')"
  "plain_key (js ''pass_missing_key'')" "plain_key (js ''message'')" "plain_key (js ''status_code'')"
  "plain_key (js ''code'')" "plain_key (js ''type'')" "plain_key (js ''skip_retry'')" "plain_key (js ''recursive'')"
  by (simp_all add: plain_key_def is_index_def all_digits_def is_digit_def units_def js_str)

section \<open>Values in the text field\<close>

text \<open>A value that the text field gives back: its text denotes it again.\<close>

definition stable_value :: "json \<Rightarrow> bool" where
  "stable_value v \<longleftrightarrow> parseLooseValue (toValueText (Some v)) = v"

lemma loose_trim: "parseLooseValue (trim s) = parseLooseValue s"
  by (simp add: parseLooseValue_def)

lemma stable_non_string:
  assumes "json_ok v" "\<And>s. v \<noteq> JStr s"
  shows "stable_value v"
  using assms trim_stringify [OF assms(1), of "[]" "[]"] stringify_head [OF assms(1), of "[]" "[]"] parse_stringify(1) [OF assms(1)]
  by (auto simp: stable_value_def toValueText_def parseLooseValue_def json_stringify_def Let_def split: json.splits)

lemma stable_string: "trim s = s \<Longrightarrow> json_parse s = None \<Longrightarrow> stable_value (JStr s)"
  by (simp add: stable_value_def toValueText_def parseLooseValue_def)

section \<open>Saved operations open again\<close>

text \<open>An operation without its ids.\<close>

definition condition_content :: "ParamOverrideCondition \<Rightarrow> ParamOverrideCondition" where
  "condition_content c = c\<lparr>pc_id := []\<rparr>"

definition operation_content :: "ParamOverrideOperation \<Rightarrow> ParamOverrideOperation" where
  "operation_content op = op\<lparr>po_id := [], po_conditions := map condition_content (po_conditions op)\<rparr>"

text \<open>What is left of a condition and of an operation after saving and opening: trimmed fields, the fields that the
  mode has, the conditions that have a path.\<close>

definition value_reopened :: "jstring \<Rightarrow> jstring" where
  "value_reopened text = toValueText (Some (parseLooseValue text))"

definition reopened_condition :: "ParamOverrideCondition \<Rightarrow> ParamOverrideCondition" where
  "reopened_condition c =
     \<lparr>pc_id = [], pc_path = trim (pc_path c), pc_mode = pc_mode c, pc_value_text = value_reopened (pc_value_text c),
      pc_invert = pc_invert c, pc_pass_missing_key = pc_pass_missing_key c\<rparr>"

definition with_path :: "ParamOverrideCondition list \<Rightarrow> ParamOverrideCondition list" where
  "with_path cs = filter (\<lambda>c. trim (pc_path c) \<noteq> []) cs"

definition reopened :: "ParamOverrideOperation \<Rightarrow> ParamOverrideOperation" where
  "reopened op =
     (let meta = mode_meta (po_mode op); path = trim (po_path op);
          alias = (\<lambda>s. if mm_pathAlias meta \<and> s = [] then path else s)
      in \<lparr>po_id = [], po_description = trim (po_description op),
          po_path = (if mm_path meta \<or> mm_pathOptional meta then path else []),
          po_mode = po_mode op,
          po_from = (if mm_from meta then alias (trim (po_from op)) else []),
          po_to = alias (trim (po_to op)),
          po_value_text = (if mm_value meta then value_reopened (po_value_text op) else []),
          po_keep_origin = (mm_keepOrigin meta \<and> po_keep_origin op),
          po_logic = (if with_path (po_conditions op) = [] then js ''OR'' else if po_logic op = js ''AND'' then js ''AND'' else js ''OR''),
          po_conditions = map reopened_condition (with_path (po_conditions op))\<rparr>)"

text \<open>Operations the editor can hold: known modes, texts of code units, values that JSON carries.\<close>

definition override_condition_ok :: "ParamOverrideCondition \<Rightarrow> bool" where
  "override_condition_ok c \<longleftrightarrow>
     pc_mode c \<in> set CONDITION_MODE_VALUES \<and> units (pc_path c) \<and> json_ok (parseLooseValue (pc_value_text c))"

definition operation_ok :: "ParamOverrideOperation \<Rightarrow> bool" where
  "operation_ok op \<longleftrightarrow>
     po_mode op \<in> set OPERATION_MODE_VALUES \<and> units (po_description op) \<and> units (po_path op)
     \<and> units (po_from op) \<and> units (po_to op) \<and> json_ok (parseLooseValue (po_value_text op))
     \<and> list_all override_condition_ok (po_conditions op)"

lemma condition_mode_units: "m \<in> set CONDITION_MODE_VALUES \<Longrightarrow> m \<noteq> [] \<and> units m"
  by (auto simp: CONDITION_MODE_VALUES_def units_def js_str)

lemma operation_mode_units: "m \<in> set OPERATION_MODE_VALUES \<Longrightarrow> m \<noteq> [] \<and> units m"
  by (auto simp: OPERATION_MODE_VALUES_def OPERATION_MODE_OPTIONS_def units_def js_str)

lemma condition_payload_ok:
  assumes "override_condition_ok c" "trim (pc_path c) \<noteq> []"
  obtains ps where "buildConditionPayload c = Some (JObj ps)" "json_ok (JObj ps)"
    and "map_of ps (js ''path'') = Some (JStr (trim (pc_path c)))" "map_of ps (js ''mode'') = Some (JStr (pc_mode c))"
    and "map_of ps (js ''value'') = Some (parseLooseValue (pc_value_text c))"
    and "is_true (map_of ps (js ''invert'')) = pc_invert c"
    and "is_true (map_of ps (js ''pass_missing_key'')) = pc_pass_missing_key c"
proof -
  define ps where "ps = set_if (pc_pass_missing_key c) (js ''pass_missing_key'') (JBool True)
    (set_if (pc_invert c) (js ''invert'') (JBool True)
      [(js ''path'', JStr (trim (pc_path c))), (js ''mode'', JStr (pc_mode c)), (js ''value'', parseLooseValue (pc_value_text c))])"
  have m: "pc_mode c \<noteq> []" "units (pc_mode c)" using assms(1) condition_mode_units by (auto simp: override_condition_ok_def)
  have b: "buildConditionPayload c = Some (JObj ps)"
    using assms(2) m by (simp add: buildConditionPayload_def ps_def or_str_def)
  have "good_obj ps"
    unfolding ps_def using assms(1) m units_trim
    by (intro good_set_if) (auto simp: good_obj_Cons override_condition_ok_def js_str [symmetric], simp_all add: js_str)
  then have "json_ok (JObj ps)" by (rule json_ok_good)
  then show ?thesis
    by (rule that [OF b]) (simp_all add: ps_def map_of_set_if is_true_def, simp_all add: js_str)
qed

lemma reopen_condition:
  assumes "override_condition_ok c" "trim (pc_path c) \<noteq> []" "buildConditionPayload c = Some v"
  shows "\<exists>d. normalizeCondition clock v seed = (Inr d, seed + 1) \<and> condition_content d = reopened_condition c
    \<and> pc_id d = fst (nextLocalId clock seed)"
    and "json_ok v"
proof -
  obtain ps where p: "buildConditionPayload c = Some (JObj ps)" "json_ok (JObj ps)"
    and g: "map_of ps (js ''path'') = Some (JStr (trim (pc_path c)))" "map_of ps (js ''mode'') = Some (JStr (pc_mode c))"
      "map_of ps (js ''value'') = Some (parseLooseValue (pc_value_text c))"
      "is_true (map_of ps (js ''invert'')) = pc_invert c"
      "is_true (map_of ps (js ''pass_missing_key'')) = pc_pass_missing_key c"
    by (rule condition_payload_ok [OF assms(1,2)])
  have v: "v = JObj ps" using p(1) assms(3) by simp
  have "pc_mode c \<in> set CONDITION_MODE_VALUES" using assms(1) by (simp add: override_condition_ok_def)
  then show "\<exists>d. normalizeCondition clock v seed = (Inr d, seed + 1) \<and> condition_content d = reopened_condition c
    \<and> pc_id d = fst (nextLocalId clock seed)"
    by (simp add: v g normalizeCondition_def nextLocalId_def condition_content_def reopened_condition_def
        condition_mode_def string_or_empty_def value_reopened_def)
  show "json_ok v" using p(2) by (simp add: v)
qed

text \<open>The ids made by a run of \<open>map_gen\<close> are those of the seeds it used.\<close>

lemma reopen_conditions:
  assumes "list_all override_condition_ok cs"
  shows "\<exists>ds. map_gen (normalizeCondition clock) (List.map_filter buildConditionPayload cs) seed
        = (Inr ds, seed + length (with_path cs)) \<and> map condition_content ds = map reopened_condition (with_path cs)"
    and "list_all json_ok (List.map_filter buildConditionPayload cs)"
    and "List.map_filter buildConditionPayload cs = [] \<longleftrightarrow> with_path cs = []"
proof -
  have none: "buildConditionPayload c = None" if "trim (pc_path c) = []" for c
    using that by (simp add: buildConditionPayload_def)
  have some: "\<exists>v. buildConditionPayload c = Some v" if "trim (pc_path c) \<noteq> []" for c
    using that by (simp add: buildConditionPayload_def Let_def)
  show "\<exists>ds. map_gen (normalizeCondition clock) (List.map_filter buildConditionPayload cs) seed
        = (Inr ds, seed + length (with_path cs)) \<and> map condition_content ds = map reopened_condition (with_path cs)"
    using assms
  proof (induction cs arbitrary: seed)
    case (Cons c cs)
    show ?case
    proof (cases "trim (pc_path c) = []")
      case True
      then show ?thesis using Cons none by (simp add: with_path_def map_filter_simps)
    next
      case False
      then obtain v where v: "buildConditionPayload c = Some v" using some by blast
      obtain d where d: "normalizeCondition clock v seed = (Inr d, seed + 1)" "condition_content d = reopened_condition c"
        using reopen_condition(1) [OF _ False v] Cons.prems by fastforce
      obtain ds where "map_gen (normalizeCondition clock) (List.map_filter buildConditionPayload cs) (seed + 1)
          = (Inr ds, seed + 1 + length (with_path cs))" "map condition_content ds = map reopened_condition (with_path cs)"
        using Cons.IH [of "seed + 1"] Cons.prems by auto
      then show ?thesis using d v False by (simp add: with_path_def map_filter_simps)
    qed
  qed (simp add: with_path_def map_filter_simps)
  show "list_all json_ok (List.map_filter buildConditionPayload cs)"
    using assms none some reopen_condition(2)
    by (induction cs) (fastforce simp: map_filter_simps split: option.splits)+
  show "List.map_filter buildConditionPayload cs = [] \<longleftrightarrow> with_path cs = []"
    using none some by (fastforce simp: List.map_filter_def with_path_def filter_empty_conv)
qed

text \<open>The properties of a saved operation.\<close>

definition saved_from :: "ModeMeta \<Rightarrow> jstring \<Rightarrow> jstring \<Rightarrow> jstring" where
  "saved_from meta path s = (if mm_pathAlias meta \<and> s = [] then path else s)"

lemma mode_meta_all:
  assumes "list_all (\<lambda>(k, m). P m) MODE_META" "P (no_meta\<lparr>mm_path := True, mm_value := True, mm_keepOrigin := True\<rparr>)"
  shows "P (mode_meta mode)"
  using assms by (auto simp: mode_meta_def list_all_iff dest!: map_of_SomeD split: option.splits)

lemma alias_meta: "mm_pathAlias (mode_meta m) \<longrightarrow> mm_from (mode_meta m) \<and> mm_to (mode_meta m)"
  by (rule mode_meta_all) code_simp+

definition payload_members :: "ParamOverrideOperation \<Rightarrow> (jstring \<times> json) list" where
  "payload_members op = (case operation_payload op of JObj ps \<Rightarrow> ps | _ \<Rightarrow> [])"

lemma operation_payload_members: "operation_payload op = JObj (payload_members op)"
  by (simp add: payload_members_def operation_payload_def Let_def)

lemma good_alias: "good_obj ps \<Longrightarrow> plain_key k \<Longrightarrow> units p \<Longrightarrow> good_obj (alias_path k p ps)"
  by (simp add: alias_path_def good_set_if)

lemma payload_good:
  assumes "operation_ok op"
  shows "good_obj (payload_members op)"
proof -
  note ok = assms [unfolded operation_ok_def]
  have u: "units (trim (po_description op))" "units (trim (po_path op))" "units (trim (po_from op))" "units (trim (po_to op))"
    using ok units_trim by blast+
  have m: "units (po_mode op)" "po_mode op \<noteq> []" using ok operation_mode_units by blast+
  have c: "list_all json_ok (List.map_filter buildConditionPayload (po_conditions op))"
    using ok reopen_conditions(2) by blast
  have l: "units (js ''AND'')" "units (js ''OR'')" by (simp_all add: units_def js_str)
  show ?thesis
    unfolding payload_members_def operation_payload_def Let_def or_str_def
    using u m c l ok
    by (auto intro!: good_obj_set good_alias good_set_if simp: good_obj_Cons)
qed

lemma map_of_alias: "map_of (alias_path k p ps) x =
    (if x = k \<and> \<not> truthy (map_of ps k) \<and> p \<noteq> [] then Some (JStr p) else map_of ps x)"
  by (simp add: alias_path_def map_of_set_if)

lemma payload_get:
  fixes op
  defines "meta \<equiv> mode_meta (po_mode op)" and "path \<equiv> trim (po_path op)" and "get \<equiv> map_of (payload_members op)"
  assumes "po_mode op \<noteq> []"
  shows "get (js ''mode'') = Some (JStr (po_mode op))"
    and "get (js ''description'') = (if trim (po_description op) = [] then None else Some (JStr (trim (po_description op))))"
    and "get (js ''path'') = (if mm_path meta \<or> mm_pathOptional meta \<and> path \<noteq> [] then Some (JStr path) else None)"
    and "get (js ''value'') = (if mm_value meta then Some (parseLooseValue (po_value_text op)) else None)"
    and "get (js ''keep_origin'') = (if mm_keepOrigin meta \<and> po_keep_origin op then Some (JBool True) else None)"
    and "get (js ''from'') = (if mm_from meta then Some (JStr (saved_from meta path (trim (po_from op)))) else None)"
    and "get (js ''to'') = (if mm_to meta \<or> trim (po_to op) \<noteq> [] then Some (JStr (saved_from meta path (trim (po_to op)))) else None)"
    and "get (js ''conditions'') = (let cs = List.map_filter buildConditionPayload (po_conditions op)
          in if cs = [] then None else Some (JArr cs))"
    and "get (js ''logic'') = (if List.map_filter buildConditionPayload (po_conditions op) = [] then None
          else Some (JStr (if po_logic op = js ''AND'' then js ''AND'' else js ''OR'')))"
proof -
  note al = alias_meta [of "po_mode op", folded meta_def]
  define cs where "cs = List.map_filter buildConditionPayload (po_conditions op)"
  define p1 p2 p3 p4 p5 p6 p7 p8 p9
    where "p1 = set_if (trim (po_description op) \<noteq> []) (js ''description'') (JStr (trim (po_description op))) [(js ''mode'', JStr (po_mode op))]"
      and "p2 = set_if (mm_path meta) (js ''path'') (JStr path) p1"
      and "p3 = set_if (mm_pathOptional meta \<and> path \<noteq> []) (js ''path'') (JStr path) p2"
      and "p4 = set_if (mm_value meta) (js ''value'') (parseLooseValue (po_value_text op)) p3"
      and "p5 = set_if (mm_keepOrigin meta \<and> po_keep_origin op) (js ''keep_origin'') (JBool True) p4"
      and "p6 = set_if (mm_from meta) (js ''from'') (JStr (trim (po_from op))) p5"
      and "p7 = set_if (\<not> mm_to meta \<and> trim (po_to op) \<noteq> []) (js ''to'') (JStr (trim (po_to op))) p6"
      and "p8 = set_if (mm_to meta) (js ''to'') (JStr (trim (po_to op))) p7"
      and "p9 = (if mm_pathAlias meta then alias_path (js ''to'') path (alias_path (js ''from'') path p8) else p8)"
  note ps = p1_def p2_def p3_def p4_def p5_def p6_def p7_def p8_def
  have "payload_members op = (if cs \<noteq> [] then obj_set (js ''logic'') (JStr (if po_logic op = js ''AND'' then js ''AND'' else js ''OR''))
      (obj_set (js ''conditions'') (JArr cs) p9) else p9)"
    using assms(4) unfolding payload_members_def operation_payload_def Let_def or_str_def json.case
      cs_def ps p9_def meta_def path_def by simp
  then have g: "get x = (if cs \<noteq> [] \<and> x = js ''logic'' then Some (JStr (if po_logic op = js ''AND'' then js ''AND'' else js ''OR''))
      else if cs \<noteq> [] \<and> x = js ''conditions'' then Some (JArr cs) else map_of p9 x)" for x
    by (simp add: get_def map_of_obj_set)
  have g9: "map_of p9 x = (if mm_pathAlias meta \<and> path \<noteq> [] \<and> (x = js ''to'' \<and> \<not> truthy (map_of p8 x) \<or> x = js ''from'' \<and> \<not> truthy (map_of p8 x))
      then Some (JStr path) else map_of p8 x)" for x
    by (auto simp: p9_def map_of_alias js_inject)
  note unf = g g9 ps map_of_set_if js_inject saved_from_def cs_def [symmetric] Let_def
  show "get (js ''mode'') = Some (JStr (po_mode op))"
    by (simp add: unf)
  show "get (js ''description'') = (if trim (po_description op) = [] then None else Some (JStr (trim (po_description op))))"
    by (simp add: unf)
  show "get (js ''path'') = (if mm_path meta \<or> mm_pathOptional meta \<and> path \<noteq> [] then Some (JStr path) else None)"
    by (simp add: unf)
  show "get (js ''value'') = (if mm_value meta then Some (parseLooseValue (po_value_text op)) else None)"
    by (simp add: unf)
  show "get (js ''keep_origin'') = (if mm_keepOrigin meta \<and> po_keep_origin op then Some (JBool True) else None)"
    by (simp add: unf)
  show "get (js ''from'') = (if mm_from meta then Some (JStr (saved_from meta path (trim (po_from op)))) else None)"
    using al by (simp add: unf)
  show "get (js ''to'') = (if mm_to meta \<or> trim (po_to op) \<noteq> [] then Some (JStr (saved_from meta path (trim (po_to op)))) else None)"
    using al by (simp add: unf)
  show "get (js ''conditions'') = (let cs = List.map_filter buildConditionPayload (po_conditions op)
          in if cs = [] then None else Some (JArr cs))"
    by (simp add: unf)
  show "get (js ''logic'') = (if List.map_filter buildConditionPayload (po_conditions op) = [] then None
          else Some (JStr (if po_logic op = js ''AND'' then js ''AND'' else js ''OR'')))"
    by (simp add: unf)
qed

definition upper_ok :: "(jstring \<Rightarrow> jstring) \<Rightarrow> bool" where
  "upper_ok upper \<longleftrightarrow> upper (js ''AND'') = js ''AND'' \<and> upper (js ''OR'') = js ''OR''"

lemma logic_reopened:
  assumes "upper_ok upper"
  shows "logic_of upper None = js ''OR''" "logic_of upper (Some (JStr (js ''AND''))) = js ''AND''"
    "logic_of upper (Some (JStr (js ''OR''))) = js ''OR''"
  using assms by (simp_all add: upper_ok_def logic_of_def string_or_def js_inject)

lemma reopen_operation:
  assumes "operation_ok op" "upper_ok upper"
  shows "\<exists>d n. normalizeOperation upper clock (operation_payload op) seed = (Inr d, n) \<and> operation_content d = reopened op"
proof -
  have m: "po_mode op \<in> set OPERATION_MODE_VALUES" "po_mode op \<noteq> []"
    using assms(1) operation_mode_units by (auto simp: operation_ok_def)
  have c: "list_all override_condition_ok (po_conditions op)" using assms(1) by (simp add: operation_ok_def)
  note g = payload_get [OF m(2)]
  obtain ds where d: "map_gen (normalizeCondition clock) (List.map_filter buildConditionPayload (po_conditions op)) (seed + 1)
      = (Inr ds, seed + 1 + length (with_path (po_conditions op)))"
    "map condition_content ds = map reopened_condition (with_path (po_conditions op))"
    using reopen_conditions(1) [OF c] by blast
  have l: "logic_of upper (map_of (payload_members op) (js ''logic'')) = po_logic (reopened op)"
    using logic_reopened [OF assms(2)] reopen_conditions(3) [OF c]
    by (simp add: g(9) reopened_def Let_def)
  have cs: "(case map_of (payload_members op) (js ''conditions'') of
        Some (JArr cs) \<Rightarrow> map_gen (normalizeCondition clock) cs (seed + 1) | _ \<Rightarrow> (Inr [], seed + 1))
      = (Inr ds, seed + 1 + length (with_path (po_conditions op)))"
    using d reopen_conditions(3) [OF c] by (cases "with_path (po_conditions op) = []") (simp_all add: g(8))
  define n where "n = seed + 1 + length (with_path (po_conditions op))"
  show ?thesis
    unfolding operation_payload_members normalizeOperation_def nextLocalId_def Let_def get_prop_simps prod.case json.distinct if_False
      cs [unfolded n_def [symmetric]] sum.case
    using d(2) m(1) alias_meta [of "po_mode op"] l
    by (simp add: g(1-7) operation_content_def operation_mode_def string_or_empty_def is_true_def)
      (auto simp: reopened_def Let_def saved_from_def value_reopened_def toValueText_def)
qed

section \<open>Saving again\<close>

lemma obj_set_plain: "plain_key k \<Longrightarrow> obj_set k v ps = AList.update k v ps"
proof -
  have "k \<notin> fst ` set ps \<Longrightarrow> AList.update k v ps = ps @ [(k, v)]" by (induction ps) auto
  then show "plain_key k \<Longrightarrow> obj_set k v ps = AList.update k v ps" by (simp add: obj_set_def plain_key_def)
qed

lemma update_back:
  "k \<noteq> l \<Longrightarrow> AList.update k v (AList.update l w (AList.update k u ps)) = AList.update l w (AList.update k v ps)"
  by (induction ps) auto

lemma set_if_simps [simp]: "set_if True k v ps = obj_set k v ps" "set_if False k v ps = ps"
  by (simp_all add: set_if_def)

lemma set_if_cong:
  "b = b' \<Longrightarrow> (b' \<Longrightarrow> v = v') \<Longrightarrow> ps = ps' \<Longrightarrow> set_if b k v ps = set_if b' k v' ps'"
  by (simp add: set_if_def)

text \<open>An alias that is filled in is the same as the assignment of the path in the first place.\<close>

lemma alias_same:
  "plain_key k \<Longrightarrow> alias_path k p (obj_set k (JStr s) ps) = obj_set k (JStr (if s = [] then p else s)) ps"
  by (auto simp: alias_path_def set_if_def obj_set_plain map_of_obj_set update_conv')

lemma alias_other:
  assumes "plain_key k" "plain_key l" "k \<noteq> l"
  shows "alias_path k p (obj_set l w (obj_set k (JStr s) ps)) = obj_set l w (obj_set k (JStr (if s = [] then p else s)) ps)"
  using assms by (auto simp: alias_path_def set_if_def obj_set_plain update_conv' update_back)

lemma alias_payload:
  "alias_path (js ''to'') p (alias_path (js ''from'') p (obj_set (js ''to'') (JStr t) (obj_set (js ''from'') (JStr f) ps)))
   = obj_set (js ''to'') (JStr (if t = [] then p else t)) (obj_set (js ''from'') (JStr (if f = [] then p else f)) ps)"
  by (simp add: alias_other alias_same js_inject)

lemma condition_payload_content: "buildConditionPayload (condition_content c) = buildConditionPayload c"
  by (simp add: buildConditionPayload_def condition_content_def Let_def)

lemma payload_content: "operation_payload (operation_content op) = operation_payload op"
proof -
  have "List.map_filter buildConditionPayload (map condition_content cs) = List.map_filter buildConditionPayload cs" for cs
    by (induction cs) (auto simp: map_filter_simps condition_payload_content split: option.splits)
  then show ?thesis by (simp add: operation_payload_def operation_content_def)
qed

definition stable_condition :: "ParamOverrideCondition \<Rightarrow> bool" where
  "stable_condition c \<longleftrightarrow> stable_value (parseLooseValue (pc_value_text c))"

definition stable_operation :: "ParamOverrideOperation \<Rightarrow> bool" where
  "stable_operation op \<longleftrightarrow>
     (mm_value (mode_meta (po_mode op)) \<longrightarrow> stable_value (parseLooseValue (po_value_text op)))
     \<and> list_all stable_condition (po_conditions op)"

lemma value_stable: "stable_value (parseLooseValue s) \<Longrightarrow> parseLooseValue (value_reopened s) = parseLooseValue s"
  by (simp add: stable_value_def value_reopened_def)

lemma conditions_stable:
  assumes "list_all stable_condition cs"
  shows "List.map_filter buildConditionPayload (map reopened_condition (with_path cs)) = List.map_filter buildConditionPayload cs"
  using assms value_stable
  by (induction cs)
    (auto simp: with_path_def map_filter_simps buildConditionPayload_def reopened_condition_def stable_condition_def Let_def)

lemma alias_kinds: "mm_pathAlias (mode_meta m) \<longrightarrow>
    \<not> mm_path (mode_meta m) \<and> \<not> mm_pathOptional (mode_meta m) \<and> \<not> mm_value (mode_meta m)
    \<and> mm_from (mode_meta m) \<and> mm_to (mode_meta m)"
  by (rule mode_meta_all) code_simp+

lemma reopened_payload:
  assumes "stable_operation op" "po_mode op \<noteq> []"
  shows "operation_payload (reopened op) = operation_payload op"
proof -
  define meta where "meta = mode_meta (po_mode op)"
  note k = alias_kinds [of "po_mode op", folded meta_def]
  have c: "List.map_filter buildConditionPayload (po_conditions (reopened op)) = List.map_filter buildConditionPayload (po_conditions op)"
    using conditions_stable assms(1) by (simp add: stable_operation_def reopened_def Let_def)
  have l: "List.map_filter buildConditionPayload (po_conditions op) \<noteq> [] \<Longrightarrow>
      (if po_logic (reopened op) = js ''AND'' then js ''AND'' else js ''OR'') = (if po_logic op = js ''AND'' then js ''AND'' else js ''OR'')"
    using c by (auto simp: reopened_def Let_def map_filter_simps js_inject)
  have v: "mm_value meta \<Longrightarrow> parseLooseValue (po_value_text (reopened op)) = parseLooseValue (po_value_text op)"
    using assms(1) value_stable by (simp add: stable_operation_def reopened_def Let_def meta_def)
  show ?thesis
  proof (cases "mm_pathAlias meta")
    case True
    then show ?thesis using k assms(2) c l unfolding operation_payload_def
      by (simp add: or_str_def Let_def meta_def [symmetric] alias_payload reopened_def cong: set_if_cong)
  next
    case False
    then show ?thesis using assms(2) c l v unfolding operation_payload_def
      by (simp add: or_str_def Let_def meta_def [symmetric] reopened_def cong: set_if_cong)
  qed
qed

section \<open>The saved text\<close>

lemma operations_json_ok:
  assumes "list_all operation_ok ops"
  shows "json_ok (operations_json ops)"
proof -
  have "list_all json_ok (map operation_payload ops)"
    using assms json_ok_good [OF payload_good]
    by (simp add: list_all_iff operation_payload_members del: json_ok.simps)
  then show ?thesis
    unfolding operations_json_def by (intro json_ok_good) (simp add: good_obj_Cons)
qed

lemma reopen_operations:
  assumes "list_all operation_ok ops" "upper_ok upper"
  shows "\<exists>ds n. map_gen (normalizeOperation upper clock) (map operation_payload ops) seed = (Inr ds, n)
    \<and> map operation_content ds = map reopened ops"
  using assms(1)
proof (induction ops arbitrary: seed)
  case (Cons op ops)
  obtain d n where d: "normalizeOperation upper clock (operation_payload op) seed = (Inr d, n)" "operation_content d = reopened op"
    using reopen_operation [OF _ assms(2)] Cons.prems by (metis list.pred_inject(2))
  obtain ds n' where "map_gen (normalizeOperation upper clock) (map operation_payload ops) n = (Inr ds, n')"
      "map operation_content ds = map reopened ops"
    using Cons.IH [of n] Cons.prems by auto
  then show ?case using d by simp
qed simp

lemma pretty_text:
  assumes "json_ok v"
  shows "trim (json_pretty v) = json_pretty v" "json_pretty v \<noteq> []" "verifyJSON (json_pretty v)" "json_parse (json_pretty v) = Some v"
  using trim_stringify [OF assms] stringify_head [OF assms] parse_stringify(2) [OF assms]
  by (simp_all add: json_pretty_def verifyJSON_def)

lemma open_operations:
  assumes "list_all operation_ok ops" "ops \<noteq> []" "upper_ok upper"
  shows "\<exists>st n. parseInitialState upper clock (json_pretty (operations_json ops)) seed = (Inr st, n)
    \<and> es_editMode st = EditVisual \<and> es_visualMode st = VisualOperations \<and> es_jsonError st = []
    \<and> es_jsonText st = json_pretty (operations_json ops) \<and> map operation_content (es_operations st) = map reopened ops"
proof -
  note j = pretty_text [OF operations_json_ok [OF assms(1)]]
  obtain ds n where d: "map_gen (normalizeOperation upper clock) (map operation_payload ops) seed = (Inr ds, n)"
    "map operation_content ds = map reopened ops"
    using reopen_operations [OF assms(1,3)] by blast
  have "read_operations upper clock (map operation_payload ops) seed = (Inr ds, n)"
    using assms(2) d(1) by (simp add: read_operations_def)
  moreover have "map_of [(js ''operations'', JArr (map operation_payload ops))] (js ''operations'') = Some (JArr (map operation_payload ops))"
    by simp
  ultimately show ?thesis
    using j d(2) unfolding parseInitialState_def Let_def
    by (simp add: operations_json_def)
qed

lemma built_text:
  assumes "buildOperationsJson ops b t = Inr text" "text \<noteq> []"
  shows "text = json_pretty (operations_json (filter (\<lambda>op. \<not> isOperationBlank op) ops))"
    and "filter (\<lambda>op. \<not> isOperationBlank op) ops \<noteq> []"
    and "b \<Longrightarrow> validateOperations (filter (\<lambda>op. \<not> isOperationBlank op) ops) t = []"
  using assms by (auto simp: buildOperationsJson_def Let_def split: if_splits)

text \<open>What the override editor saves, it opens: for operations with known modes and values that JSON carries, the
  saved text opens in the visual editor without an error, and the operations are, up to their ids, exactly the
  non-blank ones that were saved, with trimmed fields and only the fields of their mode.\<close>

theorem saved_operations_open:
  assumes "buildOperationsJson ops validate t = Inr text" "text \<noteq> []"
    and "list_all operation_ok ops" "upper_ok upper"
  shows "\<exists>st n. parseInitialState upper clock text seed = (Inr st, n)
    \<and> es_editMode st = EditVisual \<and> es_visualMode st = VisualOperations \<and> es_jsonError st = [] \<and> es_jsonText st = text
    \<and> map operation_content (es_operations st) = map reopened (filter (\<lambda>op. \<not> isOperationBlank op) ops)"
  using open_operations [OF _ built_text(2) [OF assms(1,2)] assms(4)] built_text(1) [OF assms(1,2)] assms(3)
  by (simp add: list_all_iff)

lemma validated:
  assumes "validateOperations ops t = []" "\<And>k n. t k n \<noteq> []" "op \<in> set ops"
  shows "\<exists>line. validate_operation t line op = None"
proof -
  have "validate_operation t line op \<noteq> Some []" for line op
    using assms(2) unfolding validate_operation_def Let_def
    by (auto split: if_splits option.splits json.splits)
  then have "\<exists>line. validate_operation t line op = None" if "validate_from t i ops = []" for i
    using that assms(3) by (induction ops arbitrary: i) (auto split: option.splits)
  then show ?thesis using assms(1) by (simp add: validateOperations_def)
qed

lemma refused: "validateOperations ops t \<noteq> [] \<Longrightarrow> \<exists>op\<in>set ops. \<exists>line. validate_operation t line op \<noteq> None"
proof -
  have "validate_from t i ops \<noteq> [] \<Longrightarrow> \<exists>op\<in>set ops. \<exists>line. validate_operation t line op \<noteq> None" for i
    by (induction ops arbitrary: i) (auto split: option.splits)
  then show "validateOperations ops t \<noteq> [] \<Longrightarrow> ?thesis" by (simp add: validateOperations_def)
qed

lemma reopened_not_blank:
  assumes "validate_operation t line op = None" "po_mode op \<noteq> []" "\<not> isOperationBlank op"
  shows "\<not> isOperationBlank (reopened op)"
proof (cases "po_mode op = js ''set''")
  case True
  have "mm_path (mode_meta (js ''set''))" by code_simp
  then have "trim (po_path op) \<noteq> [] \<and> mm_path (mode_meta (po_mode op))"
    using assms(1) True by (auto simp: validate_operation_def or_str_def Let_def split: if_splits)
  then show ?thesis by (simp add: isOperationBlank_def reopened_def Let_def)
qed (simp add: isOperationBlank_def reopened_def Let_def)

lemma blank_content: "isOperationBlank (operation_content op) = isOperationBlank op"
  by (simp add: isOperationBlank_def operation_content_def list_ex_iff condition_filled_def condition_content_def)

lemma filter_content:
  assumes "map operation_content ds = map reopened ops" "\<And>op. op \<in> set ops \<Longrightarrow> \<not> isOperationBlank (reopened op)"
  shows "filter (\<lambda>op. \<not> isOperationBlank op) ds = ds"
proof (rule filter_True, rule ballI)
  fix d assume "d \<in> set ds"
  then have "operation_content d \<in> set (map reopened ops)" using assms(1) by (metis image_eqI set_map)
  then show "\<not> isOperationBlank d" using assms(2) blank_content [of d] by auto
qed

section \<open>Complete rules\<close>

text \<open>What the gateway needs of a saved rule, by its mode. \<open>op\<close> is the operation it was saved from: a mode that needs
  a value needs one that was written, and the rule carries the value that this text denotes.\<close>

definition has_text :: "json \<Rightarrow> jstring \<Rightarrow> bool" where
  "has_text p k \<longleftrightarrow> (\<exists>c s. get_prop k p = Some (JStr (c # s)))"

definition rule_complete :: "ParamOverrideOperation \<Rightarrow> json \<Rightarrow> bool" where
  "rule_complete op p \<longleftrightarrow>
     (let m = string_or_empty (get_prop (js ''mode'') p); v = get_prop (js ''value'') p
      in m = po_mode op \<and> m \<in> set OPERATION_MODE_VALUES
         \<and> (mm_path (mode_meta m) \<longrightarrow> has_text p (js ''path''))
         \<and> (m \<in> set FROM_REQUIRED_MODES \<longrightarrow> has_text p (js ''from''))
         \<and> (m \<in> set TO_REQUIRED_MODES \<longrightarrow> has_text p (js ''to''))
         \<and> (m \<in> set VALUE_REQUIRED_MODES \<longrightarrow> trim (po_value_text op) \<noteq> [] \<and> v = Some (parseLooseValue (po_value_text op)))
         \<and> (m = js ''pass_headers'' \<longrightarrow> (\<exists>w. v = Some w \<and> parsePassHeaderNames w \<noteq> []))
         \<and> (m = js ''return_error'' \<longrightarrow> (\<forall>ps. v = Some (JObj ps) \<longrightarrow> trim (string_or (map_of ps (js ''message'')) []) \<noteq> [])))"

lemma required_meta:
  "m \<in> set FROM_REQUIRED_MODES \<Longrightarrow> mm_from (mode_meta m)" "m \<in> set TO_REQUIRED_MODES \<Longrightarrow> mm_to (mode_meta m)"
  "m \<in> set VALUE_REQUIRED_MODES \<Longrightarrow> mm_value (mode_meta m)"
proof -
  have "list_all (\<lambda>m. mm_from (mode_meta m)) FROM_REQUIRED_MODES" "list_all (\<lambda>m. mm_to (mode_meta m)) TO_REQUIRED_MODES"
    "list_all (\<lambda>m. mm_value (mode_meta m)) VALUE_REQUIRED_MODES"
    by code_simp+
  then show "m \<in> set FROM_REQUIRED_MODES \<Longrightarrow> mm_from (mode_meta m)" "m \<in> set TO_REQUIRED_MODES \<Longrightarrow> mm_to (mode_meta m)"
    "m \<in> set VALUE_REQUIRED_MODES \<Longrightarrow> mm_value (mode_meta m)"
    by (simp_all add: list_all_iff)
qed

lemma value_modes: "js ''pass_headers'' \<in> set VALUE_REQUIRED_MODES" "js ''return_error'' \<in> set VALUE_REQUIRED_MODES"
  "js ''prune_objects'' \<in> set VALUE_REQUIRED_MODES"
  by (simp_all add: VALUE_REQUIRED_MODES_def)

lemma loose_object:
  "parseLooseValue s = JObj ps \<longleftrightarrow> trim s \<noteq> [] \<and> json_parse (trim s) = Some (JObj ps)"
  by (auto simp: parseLooseValue_def Let_def split: option.splits)

text \<open>The check of the value of \<^verbatim>\<open>return_error\<close>.\<close>

definition validate_error_value :: "(jstring \<Rightarrow> nat \<Rightarrow> jstring) \<Rightarrow> nat \<Rightarrow> jstring \<Rightarrow> jstring option" where
  "validate_error_value t line raw =
     (case json_parse raw of
        Some (JObj ps) \<Rightarrow>
          if trim (string_or (map_of ps (js ''message'')) []) = []
          then Some (t (js ''Rule {{line}} return_error requires a message field'') line) else None
      | _ \<Rightarrow> None)"

text \<open>What the validation asks of one operation.\<close>

lemma validate_None_iff:
  fixes op
  defines "meta \<equiv> mode_meta (po_mode op)" and "path \<equiv> trim (po_path op)" and "v \<equiv> parseLooseValue (po_value_text op)"
  assumes "po_mode op \<noteq> []"
  shows "validate_operation t line op = None \<longleftrightarrow>
    (mm_path meta \<longrightarrow> path \<noteq> [])
    \<and> (po_mode op \<in> set FROM_REQUIRED_MODES \<longrightarrow> saved_from meta path (trim (po_from op)) \<noteq> [])
    \<and> (po_mode op \<in> set TO_REQUIRED_MODES \<longrightarrow> saved_from meta path (trim (po_to op)) \<noteq> [])
    \<and> (po_mode op \<in> set VALUE_REQUIRED_MODES \<longrightarrow> trim (po_value_text op) \<noteq> [])
    \<and> (po_mode op = js ''pass_headers'' \<longrightarrow> parsePassHeaderNames v \<noteq> [])
    \<and> (po_mode op = js ''return_error'' \<longrightarrow> (\<forall>ps. v = JObj ps \<longrightarrow> trim (string_or (map_of ps (js ''message'')) []) \<noteq> []))"
proof -
  define raw where "raw = trim (po_value_text op)"
  have f: "saved_from meta path s = [] \<longleftrightarrow> s = [] \<and> \<not> (mm_pathAlias meta \<and> path \<noteq> [])" for s
    by (auto simp: saved_from_def)
  have e: "validate_error_value t line raw = None \<longleftrightarrow>
      (\<forall>ps. v = JObj ps \<longrightarrow> trim (string_or (map_of ps (js ''message'')) []) \<noteq> [])" if "raw \<noteq> []"
    using that by (auto simp: validate_error_value_def v_def loose_object raw_def split: option.splits json.splits)
  have "validate_operation t line op = None \<longleftrightarrow>
    \<not> (mm_path meta \<and> path = [])
    \<and> \<not> (po_mode op \<in> set FROM_REQUIRED_MODES \<and> saved_from meta path (trim (po_from op)) = [])
    \<and> \<not> (po_mode op \<in> set TO_REQUIRED_MODES \<and> saved_from meta path (trim (po_to op)) = [])
    \<and> \<not> (po_mode op \<in> set VALUE_REQUIRED_MODES \<and> raw = [])
    \<and> (if po_mode op = js ''return_error'' then raw \<noteq> [] \<and> validate_error_value t line raw = None
       else if po_mode op = js ''prune_objects'' then raw \<noteq> []
       else if po_mode op = js ''pass_headers'' then raw \<noteq> [] \<and> parsePassHeaderNames v \<noteq> [] else True)"
    unfolding validate_operation_def Let_def or_str_def if_not_P [OF assms(4)] validate_error_value_def [symmetric] f v_def
      raw_def [symmetric] meta_def [symmetric] path_def [symmetric] loose_trim [of "po_value_text op", folded raw_def]
    by simp
  then show ?thesis
    using value_modes e unfolding raw_def [symmetric] by (cases "raw = []") (auto simp: js_inject)
qed

lemma complete_iff:
  assumes "po_mode op \<in> set OPERATION_MODE_VALUES"
  shows "validate_operation t line op = None \<longleftrightarrow> rule_complete op (operation_payload op)"
proof -
  define meta where "meta = mode_meta (po_mode op)"
  define v where "v = parseLooseValue (po_value_text op)"
  have m: "po_mode op \<noteq> []" using assms operation_mode_units by blast
  note g = payload_get [OF m, folded meta_def v_def] and r = required_meta [of "po_mode op", folded meta_def]
  have has: "has_text (operation_payload op) k \<longleftrightarrow> s \<noteq> []" if "map_of (payload_members op) k = Some (JStr s)" for k s
    using that by (cases s) (auto simp: has_text_def operation_payload_members)
  have mode: "string_or_empty (get_prop (js ''mode'') (operation_payload op)) = po_mode op"
    by (simp add: operation_payload_members g string_or_empty_def)
  have vals: "get_prop (js ''value'') (operation_payload op) = (if mm_value meta then Some v else None)"
    by (simp add: operation_payload_members g)
  have fields: "(mm_path meta \<longrightarrow> has_text (operation_payload op) (js ''path'')) \<longleftrightarrow> (mm_path meta \<longrightarrow> trim (po_path op) \<noteq> [])"
    "(po_mode op \<in> set FROM_REQUIRED_MODES \<longrightarrow> has_text (operation_payload op) (js ''from''))
      \<longleftrightarrow> (po_mode op \<in> set FROM_REQUIRED_MODES \<longrightarrow> saved_from meta (trim (po_path op)) (trim (po_from op)) \<noteq> [])"
    "(po_mode op \<in> set TO_REQUIRED_MODES \<longrightarrow> has_text (operation_payload op) (js ''to''))
      \<longleftrightarrow> (po_mode op \<in> set TO_REQUIRED_MODES \<longrightarrow> saved_from meta (trim (po_path op)) (trim (po_to op)) \<noteq> [])"
    using has [of "js ''path''"] has [of "js ''from''"] has [of "js ''to''"] g(3,6,7) r by simp_all
  have val: "po_mode op \<in> set VALUE_REQUIRED_MODES \<Longrightarrow> get_prop (js ''value'') (operation_payload op) = Some v"
    using vals r(3) by simp
  show ?thesis
    unfolding validate_None_iff [OF m, folded meta_def v_def] rule_complete_def Let_def mode meta_def [symmetric]
      v_def [symmetric] fields
    using assms val value_modes by auto
qed

text \<open>C12: the validation of the editor accepts exactly the complete rules. For operations with known modes whose
  values and texts JSON carries, and translations that are never the empty text, a save that succeeds gives a text that parses to the rules of the non-blank operations in their order, each with
  what its mode needs (a path, a source, a target, a value that was written, header names, a message); a save
  that is refused has an operation whose rule lacks something of that.\<close>

theorem validated_rules_complete:
  assumes "\<And>k n. t k n \<noteq> []" "list_all operation_ok ops"
  shows "case buildOperationsJson ops True t of
      Inr text \<Rightarrow> text \<noteq> [] \<longrightarrow> (\<exists>rules. json_parse text = Some (JObj [(js ''operations'', JArr rules)])
        \<and> list_all2 rule_complete (filter (\<lambda>op. \<not> isOperationBlank op) ops) rules)
    | Inl message \<Rightarrow> \<exists>op\<in>set ops. \<not> isOperationBlank op \<and> \<not> rule_complete op (operation_payload op)"
proof -
  let ?ops = "filter (\<lambda>op. \<not> isOperationBlank op) ops"
  have ok: "list_all operation_ok ?ops" using assms(2) by (simp add: list_all_iff)
  have m: "po_mode op \<in> set OPERATION_MODE_VALUES" if "op \<in> set ops" for op
    using that assms(2) by (simp add: list_all_iff operation_ok_def)
  show ?thesis
  proof (cases "buildOperationsJson ops True t")
    case (Inr saved)
    have "\<exists>rules. json_parse saved = Some (JObj [(js ''operations'', JArr rules)]) \<and> list_all2 rule_complete ?ops rules"
      if n: "saved \<noteq> []"
    proof (intro exI conjI)
      note b = built_text [OF Inr n]
      show "json_parse saved = Some (JObj [(js ''operations'', JArr (map operation_payload ?ops))])"
        using pretty_text(4) [OF operations_json_ok [OF ok]] by (simp add: b(1) operations_json_def)
      have "rule_complete op (operation_payload op)" if "op \<in> set ?ops" for op
        using that validated [OF b(3) assms(1)] complete_iff m by fastforce
      then show "list_all2 rule_complete ?ops (map operation_payload ?ops)"
        by (simp add: list_all2_map2 list_all2_same)
    qed
    with Inr show ?thesis by simp
  next
    case (Inl message)
    then have "validateOperations ?ops t \<noteq> []" by (auto simp: buildOperationsJson_def Let_def split: if_splits)
    then obtain op line where "op \<in> set ?ops" "validate_operation t line op \<noteq> None" using refused by blast
    with Inl complete_iff m show ?thesis by fastforce
  qed
qed

section \<open>Saving twice\<close>

text \<open>A required value that is not the empty string, which is written in quotes.\<close>

definition value_kept :: "ParamOverrideOperation \<Rightarrow> bool" where
  "value_kept op \<longleftrightarrow> (po_mode op \<in> set VALUE_REQUIRED_MODES \<longrightarrow> parseLooseValue (po_value_text op) \<noteq> JStr [])"

lemma reopened_valid:
  assumes "validate_operation t line op = None" "po_mode op \<in> set OPERATION_MODE_VALUES"
    and "stable_operation op" "value_kept op" "operation_content d = reopened op"
  shows "validate_operation t line' d = None"
proof -
  have m: "po_mode op \<noteq> []" using assms(2) operation_mode_units by blast
  have d: "po_mode d = po_mode op" "operation_payload d = operation_payload op"
    "mm_value (mode_meta (po_mode op)) \<Longrightarrow> po_value_text d = value_reopened (po_value_text op)"
  proof -
    show "operation_payload d = operation_payload op"
      using payload_content [of d] reopened_payload [OF assms(3) m] assms(5) by simp
    show "po_mode d = po_mode op"
      using arg_cong [OF assms(5), of po_mode] by (simp add: operation_content_def reopened_def Let_def)
    show "mm_value (mode_meta (po_mode op)) \<Longrightarrow> po_value_text d = value_reopened (po_value_text op)"
      using arg_cong [OF assms(5), of po_value_text] by (simp add: operation_content_def reopened_def Let_def)
  qed
  have "parseLooseValue (po_value_text d) = parseLooseValue (po_value_text op) \<and> trim (po_value_text d) \<noteq> []"
    if "po_mode op \<in> set VALUE_REQUIRED_MODES"
  proof -
    have "parseLooseValue (po_value_text d) = parseLooseValue (po_value_text op)"
      using that assms(3) d(3) required_meta(3) value_stable by (simp add: stable_operation_def)
    moreover from this have "trim (po_value_text d) \<noteq> []"
      using that assms(4) by (auto simp: value_kept_def parseLooseValue_def)
    ultimately show ?thesis by blast
  qed
  then have "rule_complete d (operation_payload d)"
    using assms(1,2) d(1,2) complete_iff [OF assms(2)] by (auto simp: rule_complete_def Let_def)
  then show ?thesis using complete_iff assms(2) d(1) by metis
qed

text \<open>C11: saving is idempotent. When operations with known modes, whose values and texts JSON carries, pass the
  validation (its messages are never the empty text), every value is one that the text field gives back and no required value is the empty string in quotes, then the operations opened from the
  saved text pass the validation too, and saving them gives the same text again.\<close>

theorem save_again_same:
  assumes "buildOperationsJson ops True t = Inr text" "text \<noteq> []" "\<And>k n. t k n \<noteq> []"
    and "list_all operation_ok ops" "list_all stable_operation ops" "list_all value_kept ops" "upper_ok upper"
    and "parseInitialState upper clock text seed = (Inr st, n)"
  shows "buildOperationsJson (es_operations st) True t = Inr text"
proof -
  let ?ops = "filter (\<lambda>op. \<not> isOperationBlank op) ops"
  note b = built_text [OF assms(1,2)]
  have ok: "list_all operation_ok ?ops" using assms(4) by (simp add: list_all_iff)
  have m: "po_mode op \<in> set OPERATION_MODE_VALUES" "po_mode op \<noteq> []" if "op \<in> set ?ops" for op
    using that ok operation_mode_units by (auto simp: list_all_iff operation_ok_def)
  have c: "map operation_content (es_operations st) = map reopened ?ops"
    using open_operations [OF ok b(2) assms(7), of clock seed] assms(8) by (auto simp: b(1))
  have "\<not> isOperationBlank (reopened op)" if "op \<in> set ?ops" for op
    using that validated [OF b(3) assms(3)] m(2) [OF that] reopened_not_blank by fastforce
  then have f: "filter (\<lambda>op. \<not> isOperationBlank op) (es_operations st) = es_operations st"
    by (rule filter_content [OF c])
  have "map operation_payload (es_operations st) = map operation_payload (map operation_content (es_operations st))"
    by (simp add: payload_content)
  also have "\<dots> = map operation_payload ?ops"
    unfolding c using reopened_payload m(2) assms(5) by (auto simp: list_all_iff)
  finally have "operations_json (es_operations st) = operations_json ?ops" by (simp add: operations_json_def)
  moreover have "es_operations st \<noteq> []" using c b(2) by auto
  moreover have "validateOperations (es_operations st) t = []"
  proof (rule ccontr)
    assume "validateOperations (es_operations st) t \<noteq> []"
    then obtain d line where d: "d \<in> set (es_operations st)" "validate_operation t line d \<noteq> None" using refused by blast
    then have "operation_content d \<in> set (map reopened ?ops)" using c by (metis image_eqI set_map)
    then obtain op where op: "op \<in> set ?ops" "operation_content d = reopened op" by auto
    then obtain l where l: "validate_operation t l op = None" using validated [OF b(3) assms(3)] by blast
    have "stable_operation op" "value_kept op" using op(1) assms(5,6) by (auto simp: list_all_iff)
    from reopened_valid [OF l m(1) [OF op(1)] this op(2), of line] d(2) show False by blast
  qed
  ultimately show ?thesis using f b(1) by (simp add: buildOperationsJson_def)
qed

section \<open>An example\<close>

definition sample_operations :: "ParamOverrideOperation list" where
  "sample_operations =
     [\<lparr>po_id = js ''a'', po_description = [], po_path = js '' stream'', po_mode = js ''set'', po_from = [], po_to = [],
       po_value_text = js ''true'', po_keep_origin = True, po_logic = js ''AND'',
       po_conditions = [\<lparr>pc_id = js ''b'', pc_path = js ''model'', pc_mode = js ''prefix'', pc_value_text = js ''openai/'',
         pc_invert = False, pc_pass_missing_key = False\<rparr>]\<rparr>,
      \<lparr>po_id = js ''c'', po_description = [], po_path = [], po_mode = js ''set'', po_from = [], po_to = [],
       po_value_text = [], po_keep_origin = False, po_logic = js ''OR'', po_conditions = []\<rparr>,
      \<lparr>po_id = js ''d'', po_description = [], po_path = js ''X-Id'', po_mode = js ''copy_header'', po_from = [], po_to = js ''X-Up'',
       po_value_text = [], po_keep_origin = False, po_logic = js ''OR'', po_conditions = []\<rparr>]"

definition quoted_empty :: "ParamOverrideOperation list" where
  "quoted_empty =
     [\<lparr>po_id = js ''a'', po_description = [], po_path = js ''X-Id'', po_mode = js ''set_header'', po_from = [], po_to = [],
       po_value_text = js ''\"\"'', po_keep_origin = False, po_logic = js ''OR'', po_conditions = []\<rparr>]"

definition sample_text :: jstring where
  "sample_text = json_pretty (operations_json (filter (\<lambda>op. \<not> isOperationBlank op) sample_operations))"

definition sample_t :: "jstring \<Rightarrow> nat \<Rightarrow> jstring" where
  "sample_t k n = js ''rule '' @ show_nat n"

lemma sample_facts:
  "buildOperationsJson sample_operations True sample_t = Inr sample_text" "sample_text \<noteq> []" "sample_t k n \<noteq> []"
  "list_all operation_ok sample_operations" "list_all stable_operation sample_operations"
  "list_all value_kept sample_operations" "upper_ok id"
  subgoal by code_simp
  subgoal by code_simp
  subgoal by (simp add: sample_t_def js_str)
  subgoal by code_simp
  subgoal by code_simp
  subgoal by code_simp
  subgoal by (simp add: upper_ok_def)
  done

theorem saved_operations_open_witness:
  "\<exists>st n. parseInitialState id (\<lambda>_. 0) sample_text 0 = (Inr st, n) \<and> es_editMode st = EditVisual
     \<and> map po_path (map operation_content (es_operations st)) = [js ''stream'', []]
     \<and> map po_from (map operation_content (es_operations st)) = [[], js ''X-Id'']"
proof -
  have r: "map reopened (filter (\<lambda>op. \<not> isOperationBlank op) sample_operations) = map reopened [sample_operations ! 0, sample_operations ! 2]"
    by code_simp
  have "map po_path (map reopened [sample_operations ! 0, sample_operations ! 2]) = [js ''stream'', []]"
     "map po_from (map reopened [sample_operations ! 0, sample_operations ! 2]) = [[], js ''X-Id'']"
    by code_simp+
  then show ?thesis
    using saved_operations_open [OF sample_facts(1,2,4,7), of "\<lambda>_. 0" 0] by (metis r)
qed

theorem save_again_same_witness:
  "\<exists>st n. parseInitialState id (\<lambda>_. 0) sample_text 0 = (Inr st, n)
     \<and> buildOperationsJson (es_operations st) True sample_t = Inr sample_text"
proof -
  obtain st n where "parseInitialState id (\<lambda>_. 0) sample_text 0 = (Inr st, n)"
    using open_operations [of "filter (\<lambda>op. \<not> isOperationBlank op) sample_operations" id "\<lambda>_. 0" 0]
      sample_facts(4,7) built_text(2) [OF sample_facts(1,2)]
    by (auto simp: sample_text_def list_all_iff)
  then show ?thesis using save_again_same [OF sample_facts(1-7)] by blast
qed

theorem validated_rules_complete_witness:
  "\<exists>rules. json_parse sample_text = Some (JObj [(js ''operations'', JArr rules)])
     \<and> list_all2 rule_complete (filter (\<lambda>op. \<not> isOperationBlank op) sample_operations) rules"
  using validated_rules_complete [where t = sample_t, OF sample_facts(3,4)] sample_facts(1,2) by simp

text \<open>The empty string in quotes is a value that the editor saves and then refuses: the rule that sets a header to
  it is saved, is opened with an empty value field, and cannot be saved again.\<close>

theorem quoted_empty_value_refused:
  "\<exists>text st n. buildOperationsJson quoted_empty True sample_t = Inr text \<and> parseInitialState id (\<lambda>_. 0) text 0 = (Inr st, n)
     \<and> buildOperationsJson (es_operations st) True sample_t = Inl (sample_t (js ''Rule {{line}} is missing value'') 1)"
proof -
  define saved where "saved = projr (buildOperationsJson quoted_empty True sample_t)"
  define r where "r = parseInitialState id (\<lambda>_. 0) saved 0"
  have "buildOperationsJson quoted_empty True sample_t = Inr saved" by (simp only: saved_def) code_simp
  moreover have "\<not> isl (fst r)" unfolding r_def saved_def by code_simp
  moreover have "buildOperationsJson (es_operations (projr (fst r))) True sample_t
      = Inl (sample_t (js ''Rule {{line}} is missing value'') 1)"
    unfolding r_def saved_def by code_simp
  ultimately show ?thesis unfolding r_def by (metis prod.collapse sum.collapse(2))
qed

end
