(* ===== verification/Param_Drafts.thy ===== *)
theory Param_Drafts
  imports Param_Laws
begin

text \<open>
  The order of the operations and the drafts of single modes in the parameter override editor:
  reordering moves one operation, sync targets, custom errors and prune rules are read back from the
  text that is built from them. The last section has the edits that are lost on this way.
\<close>

section \<open>Reordering\<close>

lemma find_index_id:
  assumes "distinct (map po_id ops)" "i < length ops"
  shows "find_index (\<lambda>x. po_id x = po_id (ops ! i)) ops = Some i"
  using assms by (induction ops arbitrary: i) (auto simp: nth_Cons' split: nat.splits)

text \<open>Dragging an operation moves it and nothing else: with distinct ids, the result has the same operations, the
  others keep their order, and the moved one stands directly before or after the target.\<close>

theorem reorder_moves_one:
  assumes "distinct (map po_id ops)" "s \<in> set ops" "u \<in> set ops" "po_id s \<noteq> po_id u" "po_id s \<noteq> []" "po_id u \<noteq> []"
  shows "\<exists>xs ys. remove1 s ops = xs @ u # ys
    \<and> reorderOperations ops (po_id s) (po_id u) pos = (if pos = Before then xs @ s # u # ys else xs @ u # s # ys)"
proof -
  obtain as bs where o: "ops = as @ s # bs" using assms(2) split_list by fast
  have f: "find_index (\<lambda>x. po_id x = po_id s) ops = Some (length as)"
    using find_index_id [OF assms(1), of "length as"] by (simp add: o)
  have d: "distinct (map po_id (as @ bs))" using assms(1) by (auto simp: o)
  have "s \<notin> set as" using assms(1) by (auto simp: o)
  then have r: "remove1 s ops = as @ bs" by (simp add: o remove1_append)
  have "u \<in> set (as @ bs)" using assms(3,4) by (auto simp: o)
  then obtain xs ys where x: "as @ bs = xs @ u # ys" using split_list by metis
  have "find_index (\<lambda>x. po_id x = po_id u) (as @ bs) = Some (length xs)"
    using find_index_id [of "as @ bs" "length xs"] d by (simp add: x)
  then show ?thesis
    using assms(4-6) f x r
    by (intro exI [of _ xs] exI [of _ ys]) (cases pos; simp add: reorderOperations_def o Let_def)
qed

section \<open>Sync targets\<close>

lemma trim_append_colon:
  assumes "t \<in> {js ''json'', js ''header''}" "trim k = k" "k \<noteq> []"
  shows "trim (t @ 58 # k) = t @ 58 # k"
proof (rule trim_id)
  have "\<not> is_space (last k)" using trim_not_space_ends [of k] assms(2,3) by simp
  then show "\<not> is_space (last (t @ 58 # k))" using assms(3) by simp
qed (use assms(1) in \<open>auto simp: js_str is_space_def white_space_def\<close>)

text \<open>A sync target is read back: the type (anything but \<open>header\<close> counts as \<open>json\<close>) and the trimmed key of the
  specification that is built from them; a blank key gives the empty specification.\<close>

theorem sync_target_roundtrip:
  assumes "lower (js ''json'') = js ''json''" "lower (js ''header'') = js ''header''"
  shows "parseSyncTargetSpec lower (buildSyncTargetSpec type key)
    = (if trim key \<noteq> [] \<and> type = js ''header'' then js ''header'' else js ''json'', trim key)"
proof (cases "trim key = []")
  case False
  define t where "t = (if type = js ''header'' then js ''header'' else js ''json'')"
  have t: "t \<in> {js ''json'', js ''header''}" by (simp add: t_def)
  have i: "index_of [58] (t @ 58 # k) = Some (length t)" for k using t by (auto simp: js_str)
  have tt: "trim t = t" using t by (intro trim_id) (auto simp: js_str is_space_def white_space_def)
  have b: "buildSyncTargetSpec type key = t @ 58 # trim key"
    using False by (simp add: buildSyncTargetSpec_def t_def js_str)
  show ?thesis
    unfolding parseSyncTargetSpec_def b trim_append_colon [OF t trim_trim False]
    using False t assms tt i by (auto simp: t_def js_inject Let_def)
qed (simp add: buildSyncTargetSpec_def parseSyncTargetSpec_def)

section \<open>Drafts\<close>

lemma string_or_JStr: "string_or (Some (JStr s)) [] = s" "string_or None [] = []"
  by (simp_all add: string_or_def)

lemma valid_status_idem: "valid_status (valid_status x) = valid_status x"
  by (simp add: valid_status_def num_is_integer_def num_le_def num_eq_def)

lemma valid_status_ok: "num_ok (valid_status x)"
proof -
  obtain n where "valid_status x = Fin (of_nat n)" "n \<le> 599"
  proof (cases "num_is_integer x \<and> num_le (Fin 100) x \<and> num_le x (Fin 599)")
    case True
    then obtain a where x: "x = Fin a" by (cases x) (auto simp: num_is_integer_def)
    then have a: "a = of_int \<lfloor>a\<rfloor>" "100 \<le> a" "a \<le> 599" using True by (auto simp: num_is_integer_def num_le_def num_eq_def)
    then have n: "a = of_nat (nat \<lfloor>a\<rfloor>)" "nat \<lfloor>a\<rfloor> \<le> 599" by linarith+
    then show ?thesis using True x by (intro that [of "nat \<lfloor>a\<rfloor>"]) (simp_all add: valid_status_def)
  next
    case False
    then show ?thesis by (intro that [of 400]) (auto simp: valid_status_def)
  qed
  then show ?thesis using num_ok_nat [of n] by simp
qed

text \<open>The advanced form of a custom error is read back: its trimmed texts, its status code (400 when it is not an
  integer from 100 to 599) and its retry flag.\<close>

theorem return_error_roundtrip:
  assumes "\<not> re_simpleMode d" "units (re_message d)" "units (re_code d)" "units (re_type d)"
  shows "parseReturnErrorDraft (buildReturnErrorValueText d)
    = d\<lparr>re_message := trim (re_message d), re_statusCode := valid_status (re_statusCode d),
        re_code := trim (re_code d), re_type := trim (re_type d)\<rparr>"
proof -
  define ps where "ps =
    set_if (\<not> re_skipRetry d) (js ''skip_retry'') (JBool False)
    (set_if (trim (re_type d) \<noteq> []) (js ''type'') (JStr (trim (re_type d)))
    (set_if (trim (re_code d) \<noteq> []) (js ''code'') (JStr (trim (re_code d)))
      [(js ''message'', JStr (trim (re_message d))), (js ''status_code'', JNum (valid_status (re_statusCode d)))]))"
  have b: "buildReturnErrorValueText d = json_stringify (JObj ps)"
    using assms(1) by (simp add: buildReturnErrorValueText_def ps_def Let_def)
  have "good_obj ps"
    unfolding ps_def using assms units_trim valid_status_ok
    by (intro good_set_if) (auto simp: good_obj_Cons js_inject)
  then have ok: "json_ok (JObj ps)" by (rule json_ok_good)
  have g: "map_of ps (js ''message'') = Some (JStr (trim (re_message d)))"
    "map_of ps (js ''status_code'') = Some (JNum (valid_status (re_statusCode d)))"
    "map_of ps (js ''code'') = (if trim (re_code d) = [] then None else Some (JStr (trim (re_code d))))"
    "map_of ps (js ''type'') = (if trim (re_type d) = [] then None else Some (JStr (trim (re_type d))))"
    "map_of ps (js ''skip_retry'') = (if re_skipRetry d then None else Some (JBool False))"
    "map_of ps (js ''msg'') = None"
    by (simp_all add: ps_def map_of_set_if js_inject)
  have "trim (json_stringify (JObj ps)) = json_stringify (JObj ps)" "json_stringify (JObj ps) \<noteq> []"
    "json_parse (json_stringify (JObj ps)) = Some (JObj ps)"
    using trim_stringify [OF ok] stringify_head [OF ok] parse_stringify(1) [OF ok] unfolding json_stringify_def by blast+
  then show ?thesis
    using assms(1) unfolding b parseReturnErrorDraft_def
    by (simp add: Let_def g string_or_JStr json_number_def valid_status_idem return_error_defaults_def)
qed

section \<open>Prune drafts\<close>

definition rule_ok_prune :: "PruneRule \<Rightarrow> bool" where
  "rule_ok_prune r \<longleftrightarrow> pc_mode r \<in> set CONDITION_MODE_VALUES \<and> units (pc_path r)
     \<and> json_ok (parseLooseValue (pc_value_text r)) \<and> trim (pc_path r) \<noteq> []"

definition reopened_rule :: "PruneRule \<Rightarrow> PruneRule" where
  "reopened_rule r = (reopened_condition r)\<lparr>pc_value_text :=
     (if trim (pc_value_text r) = [] then [] else value_reopened (pc_value_text r))\<rparr>"

lemma prune_payload_reads:
  assumes "rule_ok_prune r"
  shows "\<exists>d. normalizePruneRule clock (prune_payload r) seed = (Inr d, seed + 1) \<and> condition_content d = reopened_rule r"
    and "json_ok (prune_payload r)" "plain_object (prune_payload r)"
proof -
  note ok = assms [unfolded rule_ok_prune_def]
  let ?v = "trim (pc_value_text r)"
  define ps where "ps =
    set_if (pc_pass_missing_key r) (js ''pass_missing_key'') (JBool True)
    (set_if (pc_invert r) (js ''invert'') (JBool True)
    (set_if (?v \<noteq> []) (js ''value'') (parseLooseValue (pc_value_text r))
      [(js ''path'', JStr (trim (pc_path r))), (js ''mode'', JStr (pc_mode r))]))"
  have p: "prune_payload r = JObj ps" using ok by (simp add: prune_payload_def ps_def loose_trim Let_def)
  have "good_obj ps" unfolding ps_def using ok units_trim condition_mode_units
    by (intro good_set_if) (auto simp: good_obj_Cons js_inject)
  then show "json_ok (prune_payload r)" unfolding p by (rule json_ok_good)
  have "map_of ps (js ''path'') = Some (JStr (trim (pc_path r)))" "map_of ps (js ''mode'') = Some (JStr (pc_mode r))"
    "map_of ps (js ''value'') = (if ?v = [] then None else Some (parseLooseValue (pc_value_text r)))"
    "map_of ps (js ''invert'') = (if pc_invert r then Some (JBool True) else None)"
    "map_of ps (js ''pass_missing_key'') = (if pc_pass_missing_key r then Some (JBool True) else None)"
    by (simp_all add: ps_def map_of_set_if js_inject)
  then show "\<exists>d. normalizePruneRule clock (prune_payload r) seed = (Inr d, seed + 1) \<and> condition_content d = reopened_rule r"
    using ok by (simp add: p normalizePruneRule_def normalizeCondition_def nextLocalId_def condition_content_def reopened_rule_def
        reopened_condition_def condition_mode_def string_or_empty_def value_reopened_def is_true_def toValueText_def)
  show "plain_object (prune_payload r)" by (simp add: p plain_object_def)
qed

lemma prune_rules_read:
  assumes "list_all rule_ok_prune rs"
  shows "\<exists>ds n. map_gen (normalizePruneRule clock) (map prune_payload rs) seed = (Inr ds, n)
    \<and> map condition_content ds = map reopened_rule rs"
  using assms
proof (induction rs arbitrary: seed)
  case (Cons r rs)
  obtain d where "normalizePruneRule clock (prune_payload r) seed = (Inr d, seed + 1)" "condition_content d = reopened_rule r"
    using prune_payload_reads(1) Cons.prems by (metis list.pred_inject(2))
  moreover obtain ds n where "map_gen (normalizePruneRule clock) (map prune_payload rs) (seed + 1) = (Inr ds, n)"
      "map condition_content ds = map reopened_rule rs"
    using Cons.IH [of "seed + 1"] Cons.prems by auto
  ultimately show ?case by simp
qed simp

text \<open>The advanced form of a prune rule is read back when it has a rule with a path: its trimmed type, its logic,
  whether it is recursive, and exactly the rules with a path, up to their ids.\<close>

theorem prune_draft_roundtrip:
  assumes "\<not> pd_simpleMode d" "units (pd_typeText d)" "pd_logic d \<in> {js ''AND'', js ''OR''}" "upper_ok upper"
    and "list_all rule_ok_prune (with_path (pd_rules d))" "with_path (pd_rules d) \<noteq> []"
  shows "\<exists>d' n. parsePruneObjectsDraft upper clock (buildPruneObjectsValueText upper d) seed = (d', n)
    \<and> d'\<lparr>pd_rules := map condition_content (pd_rules d')\<rparr>
      = d\<lparr>pd_typeText := trim (pd_typeText d), pd_rules := map reopened_rule (with_path (pd_rules d))\<rparr>"
proof -
  define cs where "cs = map prune_payload (with_path (pd_rules d))"
  define ps where "ps =
    set_if True (js ''conditions'') (JArr cs)
    (set_if (\<not> pd_recursive d) (js ''recursive'') (JBool False)
    (set_if (pd_logic d = js ''OR'') (js ''logic'') (JStr (js ''OR''))
    (set_if (trim (pd_typeText d) \<noteq> []) (js ''type'') (JStr (trim (pd_typeText d))) [])))"
  have cs: "cs \<noteq> []" using assms(6) by (simp add: cs_def)
  have up: "upper (or_str (pd_logic d) (js ''AND'')) = js ''OR'' \<longleftrightarrow> pd_logic d = js ''OR''"
    using assms(3,4) by (auto simp: upper_ok_def or_str_def js_inject)
  have b: "buildPruneObjectsValueText upper d = json_stringify (JObj ps)"
    using assms(1) cs unfolding buildPruneObjectsValueText_def Let_def up
    by (simp add: ps_def cs_def with_path_def)
  have "list_all json_ok cs" using assms(5) prune_payload_reads(2) by (simp add: cs_def list_all_iff)
  moreover have "units (js ''OR'')" by (simp add: units_def js_str)
  ultimately have "good_obj ps" unfolding ps_def using units_trim [OF assms(2)] by (intro good_set_if) simp_all
  then have ok: "json_ok (JObj ps)" by (rule json_ok_good)
  have t: "trim (json_stringify (JObj ps)) = json_stringify (JObj ps)" "json_stringify (JObj ps) \<noteq> []"
    "json_parse (json_stringify (JObj ps)) = Some (JObj ps)"
    using trim_stringify [OF ok] stringify_head [OF ok] parse_stringify(1) [OF ok] unfolding json_stringify_def by blast+
  have g: "map_of ps (js ''conditions'') = Some (JArr cs)" "map_of ps (js ''where'') = None"
    "map_of ps (js ''type'') = (if trim (pd_typeText d) = [] then None else Some (JStr (trim (pd_typeText d))))"
    "map_of ps (js ''logic'') = (if pd_logic d = js ''OR'' then Some (JStr (js ''OR'')) else None)"
    "map_of ps (js ''recursive'') = (if pd_recursive d then None else Some (JBool False))"
    unfolding ps_def by (simp_all add: map_of_set_if map_of_obj_set js_inject)
  have "filter plain_object cs = cs" unfolding cs_def using assms(5) prune_payload_reads(3) by (auto simp: list_all_iff)
  then have "prune_rule_args (map_of ps) = cs" by (simp add: prune_rule_args_def g)
  moreover obtain ds n where "map_gen (normalizePruneRule clock) cs seed = (Inr ds, n)"
    "map condition_content ds = map reopened_rule (with_path (pd_rules d))"
    unfolding cs_def using prune_rules_read [OF assms(5)] by blast
  ultimately show ?thesis
    unfolding b parsePruneObjectsDraft_def Let_def t(1,3)
    using t(2) assms(1,3,4) by (auto simp: g string_or_def upper_ok_def js_inject)
qed

section \<open>Edits that are lost\<close>

lemma trim_trailing: "is_space c \<Longrightarrow> trim (s @ [c]) = trim s"
proof -
  assume c: "is_space c"
  show ?thesis
  proof (cases "list_all is_space s")
    case True
    then show ?thesis using c trim_eq_Nil_iff [of s] trim_eq_Nil_iff [of "s @ [c]"] by simp
  next
    case False
    then have "dropWhile is_space (s @ [c]) = dropWhile is_space s @ [c]" by (induction s) auto
    then show ?thesis using c by (simp add: trim_def)
  qed
qed

text \<open>
  A draft is parsed from the text that was built from it after every key press, so a space at the end of the message,
  with which every second word begins, is gone before the next key.
\<close>

theorem typed_space_lost:
  "buildReturnErrorValueText (d\<lparr>re_message := m @ [32]\<rparr>) = buildReturnErrorValueText (d\<lparr>re_message := m\<rparr>)"
proof -
  have "trim (m @ [32]) = trim m" by (rule trim_trailing) (simp add: is_space_def white_space_def)
  then show ?thesis by (simp add: buildReturnErrorValueText_def Let_def)
qed

text \<open>A rule that is added has no path yet and is left out of the text, so it is gone when the text is parsed.\<close>

theorem added_prune_rule_lost:
  assumes "trim (pc_path r) = []"
  shows "buildPruneObjectsValueText upper (d\<lparr>pd_simpleMode := False, pd_rules := pd_rules d @ [r]\<rparr>)
    = buildPruneObjectsValueText upper (d\<lparr>pd_simpleMode := False\<rparr>)"
  using assms by (simp add: buildPruneObjectsValueText_def Let_def)

text \<open>Without a type and rules the choice of the logic is not kept.\<close>

theorem prune_logic_lost:
  "pd_logic (fst (parsePruneObjectsDraft id clock (buildPruneObjectsValueText id
     \<lparr>pd_simpleMode = False, pd_typeText = [], pd_logic = js ''OR'', pd_recursive = True, pd_rules = []\<rparr>) seed)) = js ''AND''"
  by code_simp

text \<open>The value \<open>"true"\<close>, a text, becomes the boolean when a rule is opened and saved.\<close>

definition set_rule :: "json \<Rightarrow> json" where
  "set_rule v = JObj [(js ''operations'', JArr [JObj [(js ''mode'', JStr (js ''set'')), (js ''path'', JStr (js ''a'')), (js ''value'', v)]])]"

theorem text_value_retyped:
  "map_sum id (\<lambda>st. buildOperationsJson (es_operations st) True (\<lambda>_ _. js ''error''))
     (fst (parseInitialState id (\<lambda>_. 0) (json_pretty (set_rule (JStr (js ''true'')))) 0))
   = Inr (Inr (json_pretty (set_rule (JBool True))))"
  by code_simp

text \<open>A \<^verbatim>\<open>null\<close> among the operations makes the opening throw.\<close>

theorem null_operation_throws:
  "fst (parseInitialState upper clock (js ''{'' @ [34] @ js ''operations'' @ [34] @ js '':[null]}'') seed) = Inl TypeError"
  by code_simp

text \<open>The draft reads a message from \<^verbatim>\<open>msg\<close> as well, which the validation does not accept.\<close>

theorem msg_alias_rejected:
  "re_message (parseReturnErrorDraft (js ''{'' @ [34] @ js ''msg'' @ [34] @ js '':true}'')) = js ''true''
   \<and> validate_operation t 1 \<lparr>po_id = [], po_description = [], po_path = [], po_mode = js ''return_error'', po_from = [], po_to = [],
       po_value_text = js ''{'' @ [34] @ js ''msg'' @ [34] @ js '':true}'', po_keep_origin = False, po_logic = js ''OR'',
       po_conditions = []\<rparr> = Some (t (js ''Rule {{line}} return_error requires a message field'') 1)"
  by (rule conjI) code_simp+

section \<open>Examples\<close>

theorem reorder_moves_one_witness:
  "map po_id (reorderOperations sample_operations (js ''d'') (js ''a'') Before) = [js ''d'', js ''a'', js ''c'']"
proof -
  have h: "distinct (map po_id sample_operations)" "sample_operations ! 2 \<in> set sample_operations" "hd sample_operations \<in> set sample_operations"
    "po_id (sample_operations ! 2) \<noteq> po_id (hd sample_operations)" "po_id (sample_operations ! 2) \<noteq> []" "po_id (hd sample_operations) \<noteq> []"
    by (simp_all add: sample_operations_def js_inject)
  have i: "po_id (sample_operations ! 2) = js ''d''" "po_id (hd sample_operations) = js ''a''" "po_id (sample_operations ! 1) = js ''c''"
    and r: "remove1 (sample_operations ! 2) sample_operations = [hd sample_operations, sample_operations ! 1]"
    and n: "hd sample_operations \<noteq> sample_operations ! 1"
    by (simp_all add: sample_operations_def js_inject)
  obtain xs ys where x: "[hd sample_operations, sample_operations ! 1] = xs @ hd sample_operations # ys"
    "reorderOperations sample_operations (js ''d'') (js ''a'') Before = xs @ sample_operations ! 2 # hd sample_operations # ys"
    using reorder_moves_one [OF h, of Before] unfolding r i by auto
  have "xs = []" "ys = [sample_operations ! 1]" using x(1) n by (auto simp: Cons_eq_append_conv)
  then show ?thesis unfolding x(2) using i by simp
qed

theorem sync_target_roundtrip_witness:
  "parseSyncTargetSpec id (buildSyncTargetSpec (js ''header'') (js '' X-Id '')) = (js ''header'', js ''X-Id'')"
proof -
  have "trim (js '' X-Id '') = js ''X-Id''" by code_simp
  then show ?thesis using sync_target_roundtrip [of id "js ''header''" "js '' X-Id ''"] by simp
qed

definition sample_error :: ReturnErrorDraft where
  "sample_error = \<lparr>re_message = js ''no access '', re_statusCode = Fin 403, re_code = js ''denied'', re_type = [],
     re_skipRetry = False, re_simpleMode = False\<rparr>"

theorem return_error_roundtrip_witness:
  "re_message (parseReturnErrorDraft (buildReturnErrorValueText sample_error)) = js ''no access''
   \<and> re_statusCode (parseReturnErrorDraft (buildReturnErrorValueText sample_error)) = Fin 403"
proof -
  have h: "\<not> re_simpleMode sample_error" "units (re_message sample_error)" "units (re_code sample_error)" "units (re_type sample_error)"
    by (simp_all add: sample_error_def units_def js_str)
  have "trim (js ''no access '') = js ''no access''" by code_simp
  moreover have "valid_status (Fin 403) = Fin 403" by code_simp
  ultimately show ?thesis unfolding return_error_roundtrip [OF h] by (simp add: sample_error_def)
qed

definition sample_prune :: PruneObjectsDraft where
  "sample_prune = \<lparr>pd_simpleMode = False, pd_typeText = js ''thinking'', pd_logic = js ''OR'', pd_recursive = False,
     pd_rules = [\<lparr>pc_id = js ''a'', pc_path = js ''role'', pc_mode = js ''full'', pc_value_text = js ''user'', pc_invert = True,
         pc_pass_missing_key = False\<rparr>,
       \<lparr>pc_id = js ''b'', pc_path = [], pc_mode = js ''full'', pc_value_text = [], pc_invert = False, pc_pass_missing_key = False\<rparr>]\<rparr>"

theorem prune_draft_roundtrip_witness:
  "\<exists>d' n. parsePruneObjectsDraft id (\<lambda>_. 0) (buildPruneObjectsValueText id sample_prune) 0 = (d', n)
    \<and> pd_typeText d' = js ''thinking'' \<and> pd_logic d' = js ''OR'' \<and> length (pd_rules d') = 1"
proof -
  have h: "\<not> pd_simpleMode sample_prune" "units (pd_typeText sample_prune)" "pd_logic sample_prune \<in> {js ''AND'', js ''OR''}" "upper_ok id"
    "list_all rule_ok_prune (with_path (pd_rules sample_prune))" "with_path (pd_rules sample_prune) \<noteq> []"
    by code_simp+
  obtain d' n where d: "parsePruneObjectsDraft id (\<lambda>_. 0) (buildPruneObjectsValueText id sample_prune) 0 = (d', n)"
    "d'\<lparr>pd_rules := map condition_content (pd_rules d')\<rparr>
      = sample_prune\<lparr>pd_typeText := trim (pd_typeText sample_prune), pd_rules := map reopened_rule (with_path (pd_rules sample_prune))\<rparr>"
    using prune_draft_roundtrip [OF h, of "\<lambda>_. 0" 0] by blast
  have "trim (pd_typeText sample_prune) = js ''thinking''" "length (with_path (pd_rules sample_prune)) = 1" by code_simp+
  moreover have "pd_typeText d' = trim (pd_typeText sample_prune)" "pd_logic d' = pd_logic sample_prune"
    "length (pd_rules d') = length (with_path (pd_rules sample_prune))"
    using arg_cong [OF d(2), of pd_typeText] arg_cong [OF d(2), of pd_logic] arg_cong [OF d(2), of "\<lambda>d. length (pd_rules d)"] by simp_all
  ultimately show ?thesis using d(1) by (simp add: sample_prune_def)
qed

end
