(* ===== verification/Param_Session.thy ===== *)
theory Param_Session
  imports Param_Editor Param_Drafts
begin

text \<open>
  Sessions of the parameter override editor. Local ids are distinct because every one carries its seed; the
  invariant is that all ids in the list of operations are distinct and older than the seed and that the list is
  never empty. Rules of a prune draft get new ids whenever the draft is parsed, which is why edits of a rule by
  its id are lost.
\<close>

section \<open>Local ids\<close>

definition lid :: "(nat \<Rightarrow> nat) \<Rightarrow> nat \<Rightarrow> jstring" where
  "lid clock n = fst (nextLocalId clock n)"

lemma nextLocalId_lid: "nextLocalId clock n = (lid clock n, n + 1)"
  by (simp add: lid_def nextLocalId_def)

lemma no_underscore: "95 \<notin> set (show_nat n)"
  using set_show_nat [of 95 n] by (auto simp: is_digit_def)

lemma split_at_mark: "c \<notin> set a \<Longrightarrow> c \<notin> set b \<Longrightarrow> a @ c # r = b @ c # s \<Longrightarrow> a = b \<and> r = s"
proof (induction a arbitrary: b)
  case Nil
  then show ?case by (cases b) auto
next
  case (Cons x a)
  then show ?case by (cases b) auto
qed

lemma lid_inject [simp]: "lid clock m = lid clock n \<longleftrightarrow> m = n"
proof
  assume "lid clock m = lid clock n"
  then have "show_nat (clock m) @ 95 # show_nat m = show_nat (clock n) @ 95 # show_nat n"
    by (simp add: lid_def nextLocalId_def js_str)
  from split_at_mark [OF no_underscore no_underscore this] show "m = n" by simp
qed simp

lemma lid_not_Nil [simp]: "lid clock n \<noteq> []"
  by (simp add: lid_def nextLocalId_def js_str)

definition op_ids :: "ParamOverrideOperation \<Rightarrow> jstring list" where
  "op_ids op = po_id op # map pc_id (po_conditions op)"

definition all_ids :: "ParamOverrideOperation list \<Rightarrow> jstring list" where
  "all_ids ops = concat (map op_ids ops)"

lemma all_ids_simps [simp]:
  "all_ids [] = []" "all_ids (op # ops) = op_ids op @ all_ids ops" "all_ids (xs @ ys) = all_ids xs @ all_ids ys"
  by (simp_all add: all_ids_def)

lemma all_ids_Nil_iff [simp]: "all_ids ops = [] \<longleftrightarrow> ops = []" "[] = all_ids ops \<longleftrightarrow> ops = []"
  by (cases ops; simp add: op_ids_def)+

lemma map_operation_other: "i \<notin> set (all_ids ops) \<Longrightarrow> map_operation i f ops = ops"
  by (induction ops) (auto simp: map_operation_def op_ids_def)

text \<open>A run that makes ids uses the seeds from its first one up to the one it returns.\<close>

lemma normalizeCondition_id:
  "normalizeCondition clock v n = (r, m) \<Longrightarrow> m = n + 1 \<and> (\<forall>c. r = Inr c \<longrightarrow> pc_id c = lid clock n)"
  by (auto simp: normalizeCondition_def nextLocalId_lid split: if_splits)

lemma conditions_ids:
  "map_gen (normalizeCondition clock) vs n = (r, m) \<Longrightarrow> n \<le> m \<and> (\<forall>cs. r = Inr cs \<longrightarrow> map pc_id cs = map (lid clock) [n..<m])"
proof (induction vs arbitrary: n r m)
  case (Cons v vs)
  obtain r1 m1 where 1: "normalizeCondition clock v n = (r1, m1)" by (cases "normalizeCondition clock v n")
  obtain r2 m2 where 2: "map_gen (normalizeCondition clock) vs m1 = (r2, m2)" by (cases "map_gen (normalizeCondition clock) vs m1")
  note i = normalizeCondition_id [OF 1] Cons.IH [OF 2]
  then show ?case using Cons.prems 1 2
    by (auto simp: upt_conv_Cons split: sum.splits)
qed simp

lemma normalizeOperation_ids:
  assumes "normalizeOperation upper clock v n = (r, m)"
  shows "n \<le> m" "r = Inr op \<Longrightarrow> op_ids op = map (lid clock) [n..<m]"
proof -
  obtain r1 m1 where 1: "(case get_prop (js ''conditions'') v of Some (JArr cs) \<Rightarrow> map_gen (normalizeCondition clock) cs (n + 1)
      | _ \<Rightarrow> (Inr [], n + 1)) = (r1, m1)" by fastforce
  then have i: "n + 1 \<le> m1 \<and> (\<forall>cs. r1 = Inr cs \<longrightarrow> map pc_id cs = map (lid clock) [n + 1..<m1])"
    using conditions_ids by (auto split: option.splits json.splits)
  note n = assms [unfolded normalizeOperation_def nextLocalId_lid Let_def prod.case 1]
  have "m = (if v = JNull then n + 1 else m1)" using n by (auto split: if_splits sum.splits)
  then show "n \<le> m" using i by auto
  show "op_ids op = map (lid clock) [n..<m]" if "r = Inr op"
  proof -
    have "m = m1" "r1 = Inr (po_conditions op)" "po_id op = lid clock n"
      using n that by (auto split: if_splits sum.splits)
    then show ?thesis using i by (simp add: op_ids_def upt_conv_Cons)
  qed
qed

lemma map_upt_append: "i \<le> j \<Longrightarrow> j \<le> k \<Longrightarrow> map f [i..<j] @ map f [j..<k] = map f [i..<k]"
  by (metis le_add_diff_inverse map_append upt_add_eq_append)

lemma operations_ids:
  "map_gen (normalizeOperation upper clock) vs n = (r, m)
    \<Longrightarrow> n \<le> m \<and> (\<forall>ops. r = Inr ops \<longrightarrow> all_ids ops = map (lid clock) [n..<m] \<and> length ops = length vs)"
proof (induction vs arbitrary: n r m)
  case (Cons v vs)
  obtain r1 m1 where 1: "normalizeOperation upper clock v n = (r1, m1)" by (cases "normalizeOperation upper clock v n")
  obtain r2 m2 where 2: "map_gen (normalizeOperation upper clock) vs m1 = (r2, m2)"
    by (cases "map_gen (normalizeOperation upper clock) vs m1")
  note i = normalizeOperation_ids [OF 1] Cons.IH [OF 2]
  then show ?case using Cons.prems 1 2
    by (auto simp: map_upt_append split: sum.splits)
qed simp

lemma default_operation_ids: "createDefaultOperation upper clock n = (op, m) \<Longrightarrow> op_ids op = [lid clock n] \<and> m = n + 1"
  by (auto simp: createDefaultOperation_def normalizeOperation_def nextLocalId_lid op_ids_def js_inject)

lemma read_operations_ids:
  assumes "read_operations upper clock vs n = (r, m)"
  shows "n \<le> m \<and> (\<forall>ops. r = Inr ops \<longrightarrow> all_ids ops = map (lid clock) [n..<m] \<and> ops \<noteq> [])"
proof (cases "vs = []")
  case True
  then show ?thesis using assms default_operation_ids [of upper clock n]
    by (cases "createDefaultOperation upper clock n") (auto simp: read_operations_def)
next
  case False
  then show ?thesis using assms operations_ids [of upper clock vs n r m] by (auto simp: read_operations_def)
qed

section \<open>The invariant\<close>

definition ids_ok :: "(nat \<Rightarrow> nat) \<Rightarrow> nat \<Rightarrow> ParamOverrideOperation list \<Rightarrow> bool" where
  "ids_ok clock seed ops \<longleftrightarrow> ops \<noteq> [] \<and> distinct (all_ids ops) \<and> set (all_ids ops) \<subseteq> lid clock ` {..<seed}"

definition editor_ok :: "Env \<Rightarrow> Editor \<Rightarrow> bool" where
  "editor_ok env e \<longleftrightarrow> ids_ok (ev_clock env) (ed_seed e) (ed_operations e)"

lemma ids_ok_seed: "ids_ok clock m ops \<Longrightarrow> m \<le> n \<Longrightarrow> ids_ok clock n ops"
  by (auto simp: ids_ok_def)

lemma ids_ok_same: "ids_ok clock n ops \<Longrightarrow> all_ids ops' = all_ids ops \<Longrightarrow> ids_ok clock n ops'"
  by (auto simp: ids_ok_def)

lemma ids_ok_fresh: "all_ids ops = map (lid clock) [n..<m] \<Longrightarrow> ops \<noteq> [] \<Longrightarrow> ids_ok clock m ops"
  by (auto simp: ids_ok_def distinct_map inj_on_def)

text \<open>Old ids and ids of newer seeds are different.\<close>

lemma ids_ok_insert:
  assumes "distinct (all_ids (xs @ ys))" "set (all_ids (xs @ ys)) \<subseteq> lid clock ` {..<n}" "n \<le> m"
    and "all_ids new = map (lid clock) [n..<m]" "xs @ new @ ys \<noteq> []"
  shows "ids_ok clock m (xs @ new @ ys)"
  using assms by (auto simp: ids_ok_def distinct_map inj_on_def)

lemma all_ids_map_operation:
  assumes "\<And>op. po_id (f op) = po_id op" "\<And>op. map pc_id (po_conditions (f op)) = map pc_id (po_conditions op)"
  shows "all_ids (map_operation i f ops) = all_ids ops"
  by (induction ops) (auto simp: map_operation_def op_ids_def assms)

lemma all_ids_filter:
  "set (all_ids (filter P ops)) \<subseteq> set (all_ids ops)" "distinct (all_ids ops) \<Longrightarrow> distinct (all_ids (filter P ops))"
proof -
  show s: "set (all_ids (filter P ops)) \<subseteq> set (all_ids ops)" for ops by (induction ops) auto
  show "distinct (all_ids ops) \<Longrightarrow> distinct (all_ids (filter P ops))" using s by (induction ops) fastforce+
qed

lemma all_ids_filter_conditions:
  fixes i c ops
  defines "ops' \<equiv> map_operation i (\<lambda>op. op\<lparr>po_conditions := filter (\<lambda>x. pc_id x \<noteq> c) (po_conditions op)\<rparr>) ops"
  shows "set (all_ids ops') \<subseteq> set (all_ids ops)" "distinct (all_ids ops) \<Longrightarrow> distinct (all_ids ops')"
  unfolding ops'_def
proof -
  let ?f = "\<lambda>op. op\<lparr>po_conditions := filter (\<lambda>x. pc_id x \<noteq> c) (po_conditions op)\<rparr>"
  show s: "set (all_ids (map_operation i ?f ops)) \<subseteq> set (all_ids ops)" for ops
    by (induction ops) (auto simp: map_operation_def op_ids_def)
  show "distinct (all_ids ops) \<Longrightarrow> distinct (all_ids (map_operation i ?f ops))"
  proof (induction ops)
    case (Cons op ops)
    have "set (op_ids (?f op)) \<subseteq> set (op_ids op)" "distinct (op_ids op) \<Longrightarrow> distinct (op_ids (?f op))"
      by (auto simp: op_ids_def distinct_map_filter)
    then show ?case using Cons s [of ops] by (auto simp: map_operation_def)
  qed (simp add: map_operation_def)
qed

lemma all_ids_add_condition:
  fixes i :: jstring
  assumes "distinct (all_ids ops)" "pc_id c \<notin> set (all_ids ops)"
  defines "ops' \<equiv> map_operation i (\<lambda>op. op\<lparr>po_conditions := po_conditions op @ [c]\<rparr>) ops"
  shows "set (all_ids ops') \<subseteq> insert (pc_id c) (set (all_ids ops))" "distinct (all_ids ops')"
  unfolding ops'_def
proof -
  let ?f = "\<lambda>op. op\<lparr>po_conditions := po_conditions op @ [c]\<rparr>"
  show s: "set (all_ids (map_operation i ?f ops)) \<subseteq> insert (pc_id c) (set (all_ids ops))" for ops
    by (induction ops) (auto simp: map_operation_def op_ids_def)
  show "distinct (all_ids (map_operation i ?f ops))" using assms(1,2)
  proof (induction ops)
    case (Cons op ops)
    show ?case
    proof (cases "po_id op = i")
      case True
      have "i \<notin> set (all_ids ops)" using Cons.prems(1) True by (auto simp: op_ids_def)
      then have "map_operation i ?f (op # ops) = ?f op # ops"
        using map_operation_other [of i ops ?f] True by (simp add: map_operation_def)
      then show ?thesis using Cons.prems by (auto simp: op_ids_def)
    next
      case False
      then show ?thesis using Cons s [of ops] by (auto simp: map_operation_def)
    qed
  qed (simp add: map_operation_def)
qed

lemma mset_move:
  assumes "i < length xs"
  shows "mset (take k (take i xs @ drop (i + 1) xs) @ xs ! i # drop k (take i xs @ drop (i + 1) xs)) = mset xs"
proof -
  let ?r = "take i xs @ drop (i + 1) xs"
  have "mset (take k ?r @ xs ! i # drop k ?r) = add_mset (xs ! i) (mset (take k ?r @ drop k ?r))"
    by (simp only: mset_append mset.simps union_mset_add_mset_right)
  also have "\<dots> = mset (take i xs @ xs ! i # drop (i + 1) xs)" by (simp only: append_take_drop_id) simp
  also have "\<dots> = mset xs" using id_take_nth_drop [OF assms] by simp
  finally show ?thesis .
qed

lemma mset_reorder: "mset (reorderOperations ops s t pos) = mset ops"
proof (cases "find_index (\<lambda>x. po_id x = s) ops")
  case (Some i)
  then have "i < length ops" using find_index_SomeD by fast
  note m = mset_move [OF this]
  show ?thesis unfolding reorderOperations_def Some Let_def option.case
    using m by (simp del: mset_append append_take_drop_id split: option.split)
qed (simp add: reorderOperations_def)

lemma all_ids_mset: "mset (all_ids ops) = sum_mset (image_mset (\<lambda>op. mset (op_ids op)) (mset ops))"
  by (induction ops) simp_all

lemma ids_ok_reorder: "ids_ok clock n ops \<Longrightarrow> ids_ok clock n (reorderOperations ops s t pos)"
proof -
  have m: "mset (all_ids (reorderOperations ops s t pos)) = mset (all_ids ops)"
    by (simp only: all_ids_mset mset_reorder)
  have "reorderOperations ops s t pos = [] \<longleftrightarrow> ops = []" by (metis mset_reorder mset_zero_iff)
  then show "ids_ok clock n ops \<Longrightarrow> ids_ok clock n (reorderOperations ops s t pos)"
    using mset_eq_setD [OF m] mset_eq_imp_distinct_iff [OF m] by (simp add: ids_ok_def)
qed

text \<open>What every handler that builds a new list of operations has to show.\<close>

lemma editor_ok_new:
  "all_ids ops = map (lid (ev_clock env)) [n..<m] \<Longrightarrow> ops \<noteq> [] \<Longrightarrow> ed_operations e = ops \<Longrightarrow> ed_seed e = m \<Longrightarrow> editor_ok env e"
  by (simp add: editor_ok_def ids_ok_fresh)

lemma editor_ok_default:
  "new_operation env n = (op, m) \<Longrightarrow> ed_operations e = [op] \<Longrightarrow> ed_seed e = m \<Longrightarrow> editor_ok env e"
  using default_operation_ids [of "ev_upper env" "ev_clock env" n op m]
  by (auto intro!: editor_ok_new [of "[op]" _ n m])

lemma editor_ok_ops:
  "editor_ok env e \<Longrightarrow> all_ids (ed_operations e') = all_ids (ed_operations e) \<Longrightarrow> ed_seed e \<le> ed_seed e' \<Longrightarrow> editor_ok env e'"
  using ids_ok_same ids_ok_seed unfolding editor_ok_def by blast

lemma parse_initial_ids:
  assumes "parseInitialState upper clock text n = (r, m)"
  shows "n \<le> m" "r = Inr st \<Longrightarrow> ids_ok clock m (es_operations st)"
proof -
  obtain d k where d: "createDefaultOperation upper clock n = (d, k)" by (cases "createDefaultOperation upper clock n")
  have dk: "n \<le> k" "ids_ok clock k [d]"
    using default_operation_ids [OF d] ids_ok_fresh [of "[d]" clock n k] by simp_all
  have "n \<le> m \<and> (\<forall>st. r = Inr st \<longrightarrow> ids_ok clock m (es_operations st))"
  proof (cases "\<exists>ps items. json_parse (trim text) = Some (JObj ps) \<and> map_of ps (js ''operations'') = Some (JArr items) \<and> trim text \<noteq> []")
    case True
    then obtain ps items where p: "json_parse (trim text) = Some (JObj ps)" "map_of ps (js ''operations'') = Some (JArr items)"
      "trim text \<noteq> []" by blast
    obtain r' m' where r: "read_operations upper clock items n = (r', m')" by (cases "read_operations upper clock items n")
    have "m = m' \<and> (\<forall>st. r = Inr st \<longrightarrow> r' = Inr (es_operations st))"
      using assms p r unfolding parseInitialState_def Let_def by (auto simp: verifyJSON_def split: sum.splits)
    then show ?thesis using read_operations_ids [OF r] ids_ok_fresh by fastforce
  next
    case False
    then have "m = k \<and> (\<forall>st. r = Inr st \<longrightarrow> es_operations st = [d])"
      using assms d unfolding parseInitialState_def Let_def
      by (auto simp: verifyJSON_def split: if_splits json.splits option.splits)
    then show ?thesis using dk by auto
  qed
  then show "n \<le> m" "r = Inr st \<Longrightarrow> ids_ok clock m (es_operations st)" by blast+
qed

lemma open_ok: "editor_ok env e \<Longrightarrow> editor_ok env (fst (initializeFromValue env value e))"
proof -
  obtain r m where p: "parseInitialState (ev_upper env) (ev_clock env) value (ed_seed e) = (r, m)"
    by (cases "parseInitialState (ev_upper env) (ev_clock env) value (ed_seed e)")
  note i = parse_initial_ids [OF p]
  show "editor_ok env e \<Longrightarrow> ?thesis"
    using i ids_ok_seed by (cases r) (auto simp: initializeFromValue_def p editor_ok_def)
qed

lemma add_ok: "editor_ok env e \<Longrightarrow> editor_ok env (addOperation env e)"
proof -
  obtain d k where d: "new_operation env (ed_seed e) = (d, k)" by (cases "new_operation env (ed_seed e)")
  then show "editor_ok env e \<Longrightarrow> ?thesis"
    using default_operation_ids [OF d] ids_ok_insert [of "ed_operations e" "[]" "ev_clock env" "ed_seed e" k "[d]"]
    by (simp add: addOperation_def editor_ok_def ids_ok_def)
qed

lemma conditions_total:
  "list_all (\<lambda>v. v \<noteq> JNull) vs \<Longrightarrow> \<exists>cs. map_gen (normalizeCondition clock) vs n = (Inr cs, n + length vs)"
proof (induction vs arbitrary: n)
  case (Cons v vs)
  obtain c where "normalizeCondition clock v n = (Inr c, n + 1)"
    using Cons.prems by (simp add: normalizeCondition_def nextLocalId_lid)
  moreover obtain cs where "map_gen (normalizeCondition clock) vs (n + 1) = (Inr cs, n + 1 + length vs)"
    using Cons.IH Cons.prems by fastforce
  ultimately show ?case by simp
qed simp

lemma operation_copy_ids:
  "\<exists>d m. normalizeOperation upper clock (operation_copy op) n = (Inr d, m) \<and> op_ids d = map (lid clock) [n..<m] \<and> n < m"
proof -
  have "list_all (\<lambda>v. v \<noteq> JNull) (map condition_copy (po_conditions op))" by (simp add: list_all_iff condition_copy_def)
  note c = conditions_total [OF this, of clock "n + 1", unfolded length_map]
  obtain cs where cs: "map_gen (normalizeCondition clock) (map condition_copy (po_conditions op)) (n + 1) = (Inr cs, n + 1 + length (po_conditions op))"
    using c by auto
  have g: "get_prop (js ''conditions'') (operation_copy op) = Some (JArr (map condition_copy (po_conditions op)))" "operation_copy op \<noteq> JNull"
    by (simp_all add: operation_copy_def js_inject)
  obtain d where d: "normalizeOperation upper clock (operation_copy op) n = (Inr d, n + 1 + length (po_conditions op))"
    unfolding normalizeOperation_def nextLocalId_lid Let_def prod.case g option.case json.case cs sum.case using g(2) by simp
  then show ?thesis using normalizeOperation_ids(2) [OF d refl] by auto
qed

lemma duplicate_ok: "editor_ok env e \<Longrightarrow> editor_ok env (duplicateOperation env eager i e)"
proof (cases "find_index (\<lambda>op. po_id op = i) (ed_operations e)")
  case (Some k)
  assume ok: "editor_ok env e"
  obtain d m where d: "normalizeOperation (ev_upper env) (ev_clock env) (operation_copy (ed_operations e ! k)) (ed_seed e) = (Inr d, m)"
    "op_ids d = map (lid (ev_clock env)) [ed_seed e..<m]" "ed_seed e < m"
    using operation_copy_ids by blast
  have t: "take (k + 1) (ed_operations e) @ drop (k + 1) (ed_operations e) = ed_operations e" by (rule append_take_drop_id)
  have "ids_ok (ev_clock env) m (take (k + 1) (ed_operations e) @ [d] @ drop (k + 1) (ed_operations e))"
    by (rule ids_ok_insert [where n = "ed_seed e"], unfold t)
      (use ok d in \<open>simp_all add: editor_ok_def ids_ok_def\<close>)
  then show ?thesis by (simp add: duplicateOperation_def Some d editor_ok_def)
qed (simp add: duplicateOperation_def)

lemma remove_ok: "editor_ok env e \<Longrightarrow> editor_ok env (removeOperation env i e)"
proof (cases "length (ed_operations e) \<le> 1")
  case True
  obtain d k where "new_operation env (ed_seed e) = (d, k)" by (cases "new_operation env (ed_seed e)")
  then show ?thesis using True by (auto simp: removeOperation_def intro: editor_ok_default)
next
  case False
  assume ok: "editor_ok env e"
  obtain x y zs where xs: "ed_operations e = x # y # zs" using False by (cases "ed_operations e" rule: remdups_adj.cases) auto
  have "po_id x \<noteq> po_id y" using ok by (auto simp: editor_ok_def ids_ok_def xs op_ids_def)
  then have "filter (\<lambda>op. po_id op \<noteq> i) (ed_operations e) \<noteq> []" by (auto simp: xs)
  then show ?thesis using ok False all_ids_filter [where P = "\<lambda>op. po_id op \<noteq> i" and ops = "ed_operations e"]
    by (auto simp: removeOperation_def editor_ok_def ids_ok_def)
qed

lemma add_condition_ok: "editor_ok env e \<Longrightarrow> editor_ok env (addCondition env i e)"
proof -
  assume ok: "editor_ok env e"
  obtain c where c: "createDefaultCondition (ev_clock env) (ed_seed e) = (c, ed_seed e + 1)" "pc_id c = lid (ev_clock env) (ed_seed e)"
    by (simp add: createDefaultCondition_def normalizeCondition_def nextLocalId_lid)
  have "pc_id c \<notin> set (all_ids (ed_operations e))" using ok c(2) by (auto simp: editor_ok_def ids_ok_def)
  then have a: "set (all_ids (ed_operations (addCondition env i e))) \<subseteq> insert (pc_id c) (set (all_ids (ed_operations e)))"
    "distinct (all_ids (ed_operations (addCondition env i e)))"
    using all_ids_add_condition [of "ed_operations e" c i] ok by (simp_all add: addCondition_def c(1) editor_ok_def ids_ok_def)
  have "ed_operations (addCondition env i e) \<noteq> []" "ed_seed (addCondition env i e) = ed_seed e + 1"
    using ok by (simp_all add: addCondition_def c(1) map_operation_def editor_ok_def ids_ok_def)
  then show ?thesis using a ok c(2) by (auto simp: editor_ok_def ids_ok_def lessThan_Suc)
qed

lemma remove_condition_ok: "editor_ok env e \<Longrightarrow> editor_ok env (removeCondition i c e)"
  using all_ids_filter_conditions [where i = i and c = c and ops = "ed_operations e"]
  by (auto simp: removeCondition_def editor_ok_def ids_ok_def map_operation_def)

lemma patch_ids: "po_id (patch_operation q op) = po_id op" "po_conditions (patch_operation q op) = po_conditions op"
  by (cases q; simp)+

lemma patch_condition_id: "pc_id (patch_condition p c) = pc_id c"
  by (cases p) simp_all

lemma prune_args_not_null: "list_all (\<lambda>v. v \<noteq> JNull) (prune_rule_args get)"
proof -
  have "list_all (\<lambda>v. v \<noteq> JNull) (map entry_rule ps)" for ps by (auto simp: entry_rule_def list_all_iff)
  moreover have "list_all (\<lambda>v. v \<noteq> JNull) (filter plain_object vs)" for vs by (auto simp: plain_object_def list_all_iff)
  ultimately show ?thesis by (simp add: prune_rule_args_def split: option.split json.split)
qed

lemma prune_draft_ids:
  assumes "parsePruneObjectsDraft upper clock text n = (d, m)"
  shows "n \<le> m" "map pc_id (pd_rules d) = map (lid clock) [n..<m] \<or> pd_rules d = []"
proof -
  have "n \<le> m \<and> (map pc_id (pd_rules d) = map (lid clock) [n..<m] \<or> pd_rules d = [])"
  proof (cases "\<exists>ps. json_parse (trim text) = Some (JObj ps) \<and> trim text \<noteq> []")
    case True
    then obtain ps where p: "json_parse (trim text) = Some (JObj ps)" "trim text \<noteq> []" by blast
    obtain cs k where g: "map_gen (normalizeCondition clock) (prune_rule_args (map_of ps)) n = (Inr cs, k)"
      using conditions_total [OF prune_args_not_null] by blast
    have "pd_rules d = cs \<and> m = k"
      using assms p g unfolding parsePruneObjectsDraft_def Let_def normalizePruneRule_def
      by auto
    then show ?thesis using conditions_ids [OF g] by auto
  next
    case False
    then have "m = n \<and> pd_rules d = []"
      using assms unfolding parsePruneObjectsDraft_def Let_def
      by (auto simp: prune_defaults_def split: if_splits option.splits json.splits)
    then show ?thesis by simp
  qed
  then show "n \<le> m" "map pc_id (pd_rules d) = map (lid clock) [n..<m] \<or> pd_rules d = []" by blast+
qed

lemma update_prune_ids:
  assumes "\<And>d n. n \<le> snd (updater d n)"
  shows "all_ids (fst (update_prune env i updater ops n)) = all_ids ops \<and> n \<le> snd (update_prune env i updater ops n)"
proof (induction ops arbitrary: n)
  case (Cons op ops)
  obtain d n1 where 1: "parsePruneObjectsDraft (ev_upper env) (ev_clock env) (po_value_text op) n = (d, n1)"
    by (cases "parsePruneObjectsDraft (ev_upper env) (ev_clock env) (po_value_text op) n")
  obtain d' n2 where 2: "updater d n1 = (d', n2)" by (cases "updater d n1")
  have "n \<le> n2" using prune_draft_ids(1) [OF 1] assms [of n1 d] 2 by simp
  then show ?case using Cons.IH [of n] Cons.IH [of n2] 1 2 by (auto simp: op_ids_def)
qed simp

lemma to_visual_ok: "editor_ok env e \<Longrightarrow> editor_ok env (fst (switchToVisualMode env e))"
proof -
  assume ok: "editor_ok env e"
  obtain d k where d: "new_operation env (ed_seed e) = (d, k)" by (cases "new_operation env (ed_seed e)")
  have dk: "ids_ok (ev_clock env) k [d]" using default_operation_ids [OF d] ids_ok_fresh [of "[d]" _ "ed_seed e" k] by simp
  have r: "ed_seed e \<le> m \<and> (\<forall>ops. r = Inr ops \<longrightarrow> ids_ok (ev_clock env) m ops)"
    if "read_operations (ev_upper env) (ev_clock env) items (ed_seed e) = (r, m)" for items r m
    using read_operations_ids [OF that] ids_ok_fresh by blast
  have "(ed_operations e' = ed_operations e \<and> ed_seed e \<le> ed_seed e') \<or> (ed_operations e' = [d] \<and> ed_seed e' = k)
      \<or> (\<exists>items. read_operations (ev_upper env) (ev_clock env) items (ed_seed e) = (Inr (ed_operations e'), ed_seed e'))"
    if e': "e' = fst (switchToVisualMode env e)" for e'
  proof (cases "\<exists>ps items. the (json_parse (trim (ed_jsonText e))) = JObj ps \<and> map_of ps (js ''operations'') = Some (JArr items)")
    case True
    then obtain ps items where p: "the (json_parse (trim (ed_jsonText e))) = JObj ps" "map_of ps (js ''operations'') = Some (JArr items)"
      by blast
    obtain r1 m where r1: "read_operations (ev_upper env) (ev_clock env) items (ed_seed e) = (r1, m)" by fastforce
    show ?thesis unfolding e' switchToVisualMode_def Let_def d prod.case p json.case option.case r1
      using r [OF r1] r1 by (cases r1) auto
  next
    case False
    then show ?thesis unfolding e' switchToVisualMode_def Let_def d prod.case by (auto split: json.split option.split)
  qed
  then show ?thesis using ok dk r ids_ok_seed unfolding editor_ok_def by metis
qed

definition node_ok :: "json \<Rightarrow> bool" where
  "node_ok v \<longleftrightarrow> v \<noteq> JNull
     \<and> (case get_prop (js ''conditions'') v of Some (JArr cs) \<Rightarrow> list_all (\<lambda>c. c \<noteq> JNull) cs | _ \<Rightarrow> True)"

lemma operation_total:
  assumes "node_ok v"
  shows "\<exists>op m. normalizeOperation upper clock v n = (Inr op, m)"
proof -
  obtain cs m where c: "(case get_prop (js ''conditions'') v of Some (JArr cs) \<Rightarrow> map_gen (normalizeCondition clock) cs (n + 1)
      | _ \<Rightarrow> (Inr [], n + 1)) = (Inr cs, m)"
  proof (cases "\<exists>cs. get_prop (js ''conditions'') v = Some (JArr cs)")
    case True
    then obtain cs where c: "get_prop (js ''conditions'') v = Some (JArr cs)" by blast
    then have "list_all (\<lambda>c. c \<noteq> JNull) cs" using assms by (simp add: node_ok_def)
    from conditions_total [OF this] show ?thesis using that c by fastforce
  next
    case False
    then show ?thesis by (intro that [of "[]" "n + 1"]) (auto split: option.split json.split)
  qed
  show ?thesis unfolding normalizeOperation_def nextLocalId_lid Let_def prod.case c sum.case using assms by (simp add: node_ok_def)
qed

lemma operations_total: "list_all node_ok vs \<Longrightarrow> \<exists>ops m. map_gen (normalizeOperation upper clock) vs n = (Inr ops, m)"
proof (induction vs arbitrary: n)
  case (Cons v vs)
  then obtain op m where "normalizeOperation upper clock v n = (Inr op, m)" using operation_total by (metis list.pred_inject(2))
  moreover obtain ops k where "map_gen (normalizeOperation upper clock) vs m = (Inr ops, k)" using Cons by fastforce
  ultimately show ?case by simp
qed simp

definition template_ok :: "json list \<Rightarrow> bool" where
  "template_ok vs \<longleftrightarrow> vs \<noteq> [] \<and> list_all node_ok vs"

lemma template_ok_simps [simp]: "\<not> template_ok []" "template_ok [v] \<longleftrightarrow> node_ok v" "template_ok [v, w] \<longleftrightarrow> node_ok v \<and> node_ok w"
  by (simp_all add: template_ok_def)

lemma templates_ok: "preset_of k = OperationsPreset payload \<Longrightarrow> template_ok payload"
proof -
  have t: "template_ok OPERATION_TEMPLATE" "template_ok HEADER_PASSTHROUGH_TEMPLATE" "template_ok GEMINI_IMAGE_4K_TEMPLATE"
    "template_ok (buildPassHeadersTemplate hs)" "template_ok AWS_BEDROCK_ANTHROPIC_COMPAT_TEMPLATE" for hs
    by (simp_all add: OPERATION_TEMPLATE_def HEADER_PASSTHROUGH_TEMPLATE_def GEMINI_IMAGE_4K_TEMPLATE_def buildPassHeadersTemplate_def
        AWS_BEDROCK_ANTHROPIC_COMPAT_TEMPLATE_def node_ok_def condition_template_def js_inject)
  have "list_all (\<lambda>(k, p). case p of OperationsPreset payload \<Rightarrow> template_ok payload | LegacyPreset _ \<Rightarrow> True) TEMPLATE_PRESET_CONFIG"
    by (simp add: TEMPLATE_PRESET_CONFIG_def t)
  then show "preset_of k = OperationsPreset payload \<Longrightarrow> template_ok payload"
    using t(1) by (auto simp: preset_of_def list_all_iff dest!: map_of_SomeD split: option.splits)
qed

lemma template_ids:
  assumes "template_operations env payload n = (ops, m)" "template_ok payload"
  shows "all_ids ops = map (lid (ev_clock env)) [n..<m]" "n \<le> m" "ops \<noteq> []"
proof -
  obtain r where r: "map_gen (normalizeOperation (ev_upper env) (ev_clock env)) payload n = (Inr r, m)" "r = ops"
    using assms operations_total [of payload "ev_upper env" "ev_clock env" n] by (auto simp: template_operations_def template_ok_def)
  then show "all_ids ops = map (lid (ev_clock env)) [n..<m]" "n \<le> m" "ops \<noteq> []"
    using operations_ids [OF r(1)] assms(2) by (auto simp: template_ok_def)
qed

lemma template_step_ok: "editor_ok env e \<Longrightarrow> editor_ok env (fst (fillTemplate env m e))"
proof (cases "preset_of (ed_templatePresetKey e)")
  case (LegacyPreset payload)
  assume ok: "editor_ok env e"
  have "editor_ok env (set_legacy env s e)" for s
    by (cases "new_operation env (ed_seed e)") (auto simp: set_legacy_def intro: editor_ok_default)
  then show ?thesis using ok by (simp add: fillTemplate_def LegacyPreset Let_def)
next
  case (OperationsPreset payload)
  assume ok: "editor_ok env e"
  obtain ops n where t: "template_operations env payload (ed_seed e) = (ops, n)" by fastforce
  note i = template_ids [OF t templates_ok [OF OperationsPreset]]
  let ?old = "filter (\<lambda>op. \<not> isOperationBlank op) (ed_operations e)"
  have f: "ids_ok (ev_clock env) n ops" by (rule ids_ok_fresh [OF i(1,3)])
  have "distinct (all_ids (?old @ []))" "set (all_ids (?old @ [])) \<subseteq> lid (ev_clock env) ` {..<ed_seed e}"
    using ok all_ids_filter [where P = "\<lambda>op. \<not> isOperationBlank op" and ops = "ed_operations e"]
    by (auto simp: editor_ok_def ids_ok_def)
  from ids_ok_insert [OF this i(2,1)] have a: "ids_ok (ev_clock env) n (?old @ ops)" using i(3) by simp
  show ?thesis
    unfolding fillTemplate_def OperationsPreset t Let_def prod.case TemplatePreset.case
    using a f i(3) by (simp add: editor_ok_def)
qed

lemma default_step_ok: "editor_ok env (initial_editor env seed)" "editor_ok env (resetEditorState env e)"
  by (cases "new_operation env seed", auto simp: initial_editor_def intro: editor_ok_default)
    (cases "new_operation env (ed_seed e)", auto simp: resetEditorState_def intro: editor_ok_default)

text \<open>The other fields do not matter.\<close>

lemma editor_ok_fields [simp]:
  "editor_ok env (e\<lparr>ed_selectedOperationId := i\<rparr>) = editor_ok env e" "editor_ok env (e\<lparr>ed_operationSearch := i\<rparr>) = editor_ok env e"
  "editor_ok env (e\<lparr>ed_legacyValue := i\<rparr>) = editor_ok env e" "editor_ok env (e\<lparr>ed_templatePresetKey := i\<rparr>) = editor_ok env e"
  "editor_ok env (e\<lparr>ed_expandedConditions := m\<rparr>) = editor_ok env e" "editor_ok env (e\<lparr>ed_draggedOperationId := i\<rparr>) = editor_ok env e"
  "editor_ok env (e\<lparr>ed_dragOverOperationId := i\<rparr>) = editor_ok env e" "editor_ok env (e\<lparr>ed_dragOverPosition := pos\<rparr>) = editor_ok env e"
  "editor_ok env (e\<lparr>ed_jsonText := i\<rparr>) = editor_ok env e" "editor_ok env (e\<lparr>ed_jsonError := i\<rparr>) = editor_ok env e"
  by (simp_all add: editor_ok_def)

lemma map_step_ok:
  assumes "editor_ok env e" "\<And>op. po_id (f op) = po_id op" "\<And>op. map pc_id (po_conditions (f op)) = map pc_id (po_conditions op)"
  shows "editor_ok env (e\<lparr>ed_operations := map_operation i f (ed_operations e)\<rparr>)"
  by (rule editor_ok_ops [OF assms(1)]) (simp_all add: all_ids_map_operation [OF assms(2,3)])

lemma editor_step_ok: "editor_step env e e' \<Longrightarrow> editor_ok env e \<Longrightarrow> editor_ok env e'"
proof (induction rule: editor_step.induct)
  case (Render e seed)
  then show ?case by (auto simp: keep_selection_valid_def intro: editor_ok_ops [of env e] split: list.split)
next
  case (Update e i p)
  then show ?case by (simp add: updateOperation_def map_step_ok patch_ids)
next
  case (Condition_Update e i c q)
  have "(\<lambda>c. pc_id (f c)) = pc_id \<Longrightarrow> map pc_id (map f cs) = map pc_id cs" for f cs by (simp add: comp_def)
  then show ?case using Condition_Update unfolding updateCondition_def
    by (intro map_step_ok) (auto simp: patch_condition_id)
next
  case (Return_Error e i f)
  then show ?case by (simp add: updateReturnErrorDraft_def map_step_ok)
next
  case (Prune updater e i)
  then show ?case using update_prune_ids [where updater = updater and env = env and i = i and ops = "ed_operations e" and n = "ed_seed e"]
    by (cases "update_prune env i updater (ed_operations e) (ed_seed e)")
      (auto simp: updatePruneObjectsDraft_def intro: editor_ok_ops [of env e])
next
  case (Drop e s i)
  then show ?case by (simp add: handleDrop_def resetDragState_def Let_def editor_ok_def ids_ok_reorder)
next
  case (To_Json e)
  then show ?case by (simp add: switchToJsonMode_def editor_ok_def split: sum.split)
qed (simp_all add: open_ok add_ok duplicate_ok remove_ok add_condition_ok remove_condition_ok to_visual_ok template_step_ok
    default_step_ok handleDragStart_def handleDragOver_def resetDragState_def handleJsonChange_def formatJson_def Let_def)

text \<open>C10: in every session of the override editor, however it is edited, reordered, switched between its modes and
  filled from templates, the list of operations is never empty and all local ids, of operations and conditions, are
  pairwise distinct.\<close>

theorem editor_ids_distinct:
  assumes "editor_reachable env e"
  shows "ed_operations e \<noteq> [] \<and> distinct (concat (map (\<lambda>op. po_id op # map pc_id (po_conditions op)) (ed_operations e)))"
proof -
  have "editor_ok env e" using assms by (induction rule: editor_reachable.induct) (auto simp: default_step_ok editor_step_ok)
  then show ?thesis by (simp add: editor_ok_def ids_ok_def all_ids_def op_ids_def [abs_def])
qed

definition sample_env :: Env where
  "sample_env = \<lparr>ev_t = id, ev_line = sample_t, ev_upper = id, ev_lower = id, ev_clock = (\<lambda>_. 1700)\<rparr>"

definition sample_editor :: Editor where
  "sample_editor = addOperation sample_env (initial_editor sample_env 0)"

theorem editor_ids_distinct_witness:
  "length (ed_operations sample_editor) = 2
   \<and> distinct (concat (map (\<lambda>op. po_id op # map pc_id (po_conditions op)) (ed_operations sample_editor)))"
proof -
  have "editor_reachable sample_env sample_editor"
    unfolding sample_editor_def by (rule editor_reachable.Step [OF editor_reachable.Start editor_step.Add])
  moreover have "length (ed_operations sample_editor) = 2"
    by (simp add: sample_editor_def addOperation_def initial_editor_def split: prod.split)
  ultimately show ?thesis using editor_ids_distinct by blast
qed

section \<open>Rules of a prune draft\<close>

lemma update_prune_cong:
  assumes "\<And>d k j. n \<le> k \<Longrightarrow> k \<le> j \<Longrightarrow> set (map pc_id (pd_rules d)) \<subseteq> lid (ev_clock env) ` {k..<j} \<Longrightarrow> f d j = g d j"
    and "\<And>d k. k \<le> snd (g d k)" "n \<le> s"
  shows "update_prune env i f ops s = update_prune env i g ops s"
  using assms(3)
proof (induction ops arbitrary: s)
  case (Cons op ops)
  obtain d s1 where 1: "parsePruneObjectsDraft (ev_upper env) (ev_clock env) (po_value_text op) s = (d, s1)" by fastforce
  note p = prune_draft_ids [OF 1]
  have "set (map pc_id (pd_rules d)) \<subseteq> lid (ev_clock env) ` {s..<s1}"
  proof (cases "pd_rules d = []")
    case False
    then have "set (map pc_id (pd_rules d)) = set (map (lid (ev_clock env)) [s..<s1])" using p(2) by metis
    then show ?thesis by simp
  qed simp
  then have fg: "f d s1 = g d s1" using assms(1) Cons.prems p(1) by blast
  obtain d' s2 where 2: "g d s1 = (d', s2)" by fastforce
  have "n \<le> s2" using assms(2) [of s1 d] 2 Cons.prems p(1) by simp
  then show ?case using Cons.IH [of s] Cons.IH [of s2] Cons.prems 1 2 fg by simp
qed simp

text \<open>Edits of single prune rules are lost. The rules on the screen have the ids that their draft got when it was
  parsed for the last render; the handlers parse the text again, and the rules get new ids. So changing or removing a rule
  that is on the screen does exactly what an update that leaves the draft alone does.\<close>

theorem prune_rule_edits_lost:
  assumes "parsePruneObjectsDraft (ev_upper env) (ev_clock env) shown n = (d, m)" "m \<le> ed_seed e" "r \<in> set (pd_rules d)"
  shows "updatePruneRule env i (pc_id r) patch e = updatePruneObjectsDraft env i (\<lambda>d k. (d, k)) e
    \<and> removePruneRule env i (pc_id r) e = updatePruneObjectsDraft env i (\<lambda>d k. (d, k)) e"
proof -
  have "pd_rules d \<noteq> []" using assms(3) by auto
  then have "map pc_id (pd_rules d) = map (lid (ev_clock env)) [n..<m]" using prune_draft_ids(2) [OF assms(1)] by blast
  then have "set (map pc_id (pd_rules d)) = lid (ev_clock env) ` {n..<m}" by simp
  then have "pc_id r \<in> lid (ev_clock env) ` {n..<m}" using assms(3) by (metis imageI set_map)
  then obtain k where k: "pc_id r = lid (ev_clock env) k" "k < m" by auto
  have old: "pc_id x \<noteq> pc_id r" if "x \<in> set rs" "set (map pc_id rs) \<subseteq> lid (ev_clock env) ` {s..<j}" "ed_seed e \<le> s" for x rs s j
    using that k assms(2) by auto
  have "update_prune env i (\<lambda>d k. (d\<lparr>pd_rules := map (\<lambda>x. if pc_id x = pc_id r then patch_condition patch x else x) (pd_rules d)\<rparr>, k))
      (ed_operations e) (ed_seed e) = update_prune env i (\<lambda>d k. (d, k)) (ed_operations e) (ed_seed e)"
  proof (rule update_prune_cong [where n = "ed_seed e"])
    fix d s j assume s: "ed_seed e \<le> s" "set (map pc_id (pd_rules d)) \<subseteq> lid (ev_clock env) ` {s..<j}"
    have "map (\<lambda>x. if pc_id x = pc_id r then patch_condition patch x else x) (pd_rules d) = pd_rules d"
      by (rule map_idI) (use old [OF _ s(2,1)] in auto)
    then show "(d\<lparr>pd_rules := map (\<lambda>x. if pc_id x = pc_id r then patch_condition patch x else x) (pd_rules d)\<rparr>, j) = (d, j)" by simp
  qed simp_all
  moreover have "update_prune env i (\<lambda>d k. (d\<lparr>pd_rules := filter (\<lambda>x. pc_id x \<noteq> pc_id r) (pd_rules d)\<rparr>, k))
      (ed_operations e) (ed_seed e) = update_prune env i (\<lambda>d k. (d, k)) (ed_operations e) (ed_seed e)"
  proof (rule update_prune_cong [where n = "ed_seed e"])
    fix d s j assume s: "ed_seed e \<le> s" "set (map pc_id (pd_rules d)) \<subseteq> lid (ev_clock env) ` {s..<j}"
    have "filter (\<lambda>x. pc_id x \<noteq> pc_id r) (pd_rules d) = pd_rules d"
      by (rule filter_True) (use old [OF _ s(2,1)] in auto)
    then show "(d\<lparr>pd_rules := filter (\<lambda>x. pc_id x \<noteq> pc_id r) (pd_rules d)\<rparr>, j) = (d, j)" by simp
  qed simp_all
  ultimately show ?thesis by (simp add: updatePruneRule_def removePruneRule_def updatePruneObjectsDraft_def)
qed

definition shown_draft :: "PruneObjectsDraft \<times> nat" where
  "shown_draft = parsePruneObjectsDraft id (\<lambda>_. 1700)
     (js ''{'' @ [34] @ js ''where'' @ [34] @ js '':{'' @ [34] @ js ''role'' @ [34] @ js '':true}}'') 2"

theorem prune_rule_edits_lost_witness:
  "pd_rules (fst shown_draft) \<noteq> []
   \<and> removePruneRule sample_env (js ''x'') (pc_id (hd (pd_rules (fst shown_draft)))) (sample_editor\<lparr>ed_seed := 5\<rparr>)
     = updatePruneObjectsDraft sample_env (js ''x'') (\<lambda>d k. (d, k)) (sample_editor\<lparr>ed_seed := 5\<rparr>)"
proof -
  have r: "pd_rules (fst shown_draft) \<noteq> []" "snd shown_draft = 3" by code_simp+
  have "parsePruneObjectsDraft (ev_upper sample_env) (ev_clock sample_env)
      (js ''{'' @ [34] @ js ''where'' @ [34] @ js '':{'' @ [34] @ js ''role'' @ [34] @ js '':true}}'') 2 = (fst shown_draft, 3)"
    using r(2) by (simp add: shown_draft_def sample_env_def prod_eq_iff)
  from prune_rule_edits_lost [OF this, of "sample_editor\<lparr>ed_seed := 5\<rparr>" "hd (pd_rules (fst shown_draft))" "js ''x''"] r
  show ?thesis by simp
qed

section \<open>The JSON view\<close>

lemma read_built:
  assumes "list_all operation_ok ops" "ops \<noteq> []" "upper_ok upper"
  shows "\<exists>ds m. read_operations upper clock (map operation_payload ops) n = (Inr ds, m)
    \<and> map operation_content ds = map reopened ops"
  using reopen_operations [OF assms(1,3), of clock n] assms(2) by (simp add: read_operations_def)

text \<open>Looking at the JSON and coming back keeps the operations: from the visual editor with operations that can be
  saved, switching to the JSON view and back gives the visual editor with, up to their ids, the non-blank operations
  as they would be opened, and neither switch reports an error.\<close>

theorem json_view_roundtrip:
  assumes "ed_editMode e = EditVisual" "ed_visualMode e = VisualOperations"
    and "buildVisualJson env e = Inr saved" "saved \<noteq> []"
    and "list_all operation_ok (ed_operations e)" "upper_ok (ev_upper env)"
  shows "\<exists>e1 e2. switchToJsonMode env e = (e1, []) \<and> ed_jsonText e1 = saved \<and> ed_jsonError e1 = []
    \<and> switchToVisualMode env e1 = (e2, []) \<and> ed_editMode e2 = EditVisual \<and> ed_visualMode e2 = VisualOperations
    \<and> map operation_content (ed_operations e2) = map reopened (filter (\<lambda>op. \<not> isOperationBlank op) (ed_operations e))"
proof -
  let ?ops = "filter (\<lambda>op. \<not> isOperationBlank op) (ed_operations e)"
  have b: "buildOperationsJson (ed_operations e) True (ev_line env) = Inr saved"
    using assms(2,3) by (simp add: buildVisualJson_def)
  note t = built_text [OF b assms(4)]
  have ok: "list_all operation_ok ?ops" using assms(5) by (simp add: list_all_iff)
  note j = pretty_text [OF operations_json_ok [OF ok], folded t(1)]
  define e1 where "e1 = e\<lparr>ed_jsonText := saved, ed_jsonError := [], ed_editMode := EditJson\<rparr>"
  have 1: "switchToJsonMode env e = (e1, [])" using assms(1,3) by (simp add: switchToJsonMode_def e1_def)
  obtain ds m where r: "read_operations (ev_upper env) (ev_clock env) (map operation_payload ?ops) (ed_seed e) = (Inr ds, m)"
    "map operation_content ds = map reopened ?ops"
    using read_built [OF ok t(2) assms(6)] by blast
  obtain d k where d: "new_operation env (ed_seed e) = (d, k)" by fastforce
  define e2 where "e2 = e1\<lparr>ed_visualMode := VisualOperations, ed_operations := ds, ed_selectedOperationId := first_id ds,
    ed_legacyValue := [], ed_jsonError := [], ed_editMode := EditVisual, ed_templatePresetKey := js ''operations_default'', ed_seed := m\<rparr>"
  have "switchToVisualMode env e1 = (e2, [])"
    unfolding switchToVisualMode_def Let_def using j r(1) d assms(4)
    by (simp add: e1_def e2_def operations_json_def)
  then show ?thesis using 1 r(2) by (simp add: e1_def e2_def)
qed

definition sample_visual :: Editor where
  "sample_visual = (initial_editor sample_env 0)\<lparr>ed_operations := sample_operations\<rparr>"

theorem json_view_roundtrip_witness:
  "\<exists>e1 e2. switchToJsonMode sample_env sample_visual = (e1, []) \<and> ed_jsonText e1 = sample_text
    \<and> switchToVisualMode sample_env e1 = (e2, []) \<and> length (ed_operations e2) = 2"
proof -
  have v: "ed_editMode sample_visual = EditVisual" "ed_visualMode sample_visual = VisualOperations" "ed_operations sample_visual = sample_operations"
    by (simp_all add: sample_visual_def initial_editor_def split: prod.split)
  have b: "buildVisualJson sample_env sample_visual = Inr sample_text"
    using sample_facts(1) v by (simp add: buildVisualJson_def sample_env_def)
  have u: "upper_ok (ev_upper sample_env)" using sample_facts(7) by (simp add: sample_env_def)
  have n: "length (filter (\<lambda>op. \<not> isOperationBlank op) sample_operations) = 2" by code_simp
  show ?thesis
    using json_view_roundtrip [OF v(1,2) b sample_facts(2) _ u] sample_facts(4) n unfolding v(3) by (metis length_map)
qed

section \<open>Templates\<close>

text \<open>A copy of an operation whose value is the text \<open>true\<close> in quotes has the boolean as its value.\<close>

definition quoted_operation :: ParamOverrideOperation where
  "quoted_operation = \<lparr>po_id = js ''q'', po_description = [], po_path = js ''a'', po_mode = js ''set'', po_from = [], po_to = [],
     po_value_text = [34] @ js ''true'' @ [34], po_keep_origin = False, po_logic = js ''OR'', po_conditions = []\<rparr>"

theorem duplicate_retypes_value:
  "map (\<lambda>op. parseLooseValue (po_value_text op))
     (ed_operations (duplicateOperation sample_env True (js ''q'') (sample_visual\<lparr>ed_operations := [quoted_operation]\<rparr>)))
   = [JStr (js ''true''), JBool True]"
proof -
  have p: "parseLooseValue ([34] @ js ''true'' @ [34]) = JStr (js ''true'')" "parseLooseValue (js ''true'') = JBool True" by code_simp+
  show ?thesis using p
    by (simp add: duplicateOperation_def quoted_operation_def operation_copy_def normalizeOperation_def nextLocalId_lid js_inject
        toValueText_def sample_env_def)
qed

end
