(* ===== verification/Channel_Form.thy ===== *)
theory Channel_Form
  imports Channel_Utils Model_Mapping JS_Objects
begin

text \<open>
  The channel form (\<^verbatim>\<open>features/channels/lib/channel-form.ts\<close> and \<^verbatim>\<open>channel-form-errors.ts\<close>): the checks on its fields, the
  form values of a channel, and the payloads that create and update one. The extra settings are read from
  JSON without a check of their types, so they are JSON values here; an optional field is an option, \<open>None\<close> for
  undefined. Payloads are objects. The declarative part of the schema is left to zod.
\<close>

section \<open>Checks\<close>

text \<open>\<open>Inr None\<close> is undefined.\<close>

definition parseOptionalJson :: "jstring option \<Rightarrow> js_error + json option" where
  "parseOptionalJson value =
     (case value of
        None \<Rightarrow> Inr None
      | Some s \<Rightarrow>
          if trim s = [] then Inr None
          else case json_parse s of None \<Rightarrow> Inl SyntaxError | Some v \<Rightarrow> Inr (Some v))"

definition isJsonObjectValue :: "json \<Rightarrow> bool" where
  "isJsonObjectValue v \<longleftrightarrow> (case v of JObj _ \<Rightarrow> True | _ \<Rightarrow> False)"

text \<open>The common shape of the checks: an empty text passes, a text that does not parse fails.\<close>

definition optional_json :: "(json \<Rightarrow> bool) \<Rightarrow> jstring option \<Rightarrow> bool" where
  "optional_json check value =
     (case parseOptionalJson value of Inl _ \<Rightarrow> False | Inr None \<Rightarrow> True | Inr (Some v) \<Rightarrow> check v)"

definition isOptionalJsonObject :: "jstring option \<Rightarrow> bool" where
  "isOptionalJsonObject value = optional_json isJsonObjectValue value"

definition isOptionalModelMapping :: "jstring option \<Rightarrow> bool" where
  "isOptionalModelMapping value =
     optional_json (\<lambda>v. case v of JObj ps \<Rightarrow> list_all (\<lambda>(_, item). case item of JStr _ \<Rightarrow> True | _ \<Rightarrow> False) ps | _ \<Rightarrow> False) value"

text \<open>\<^verbatim>\<open>Number(v)\<close>: an array or object goes through its text.\<close>

definition number_of :: "json \<Rightarrow> jsnum" where
  "number_of v =
     (case v of
        JNull \<Rightarrow> Fin 0
      | JBool b \<Rightarrow> Fin (if b then 1 else 0)
      | JNum x \<Rightarrow> x
      | JStr s \<Rightarrow> to_number s
      | w \<Rightarrow> to_number (json_to_string w))"

definition http_code :: "jsnum \<Rightarrow> bool" where
  "http_code x \<longleftrightarrow> num_is_integer x \<and> num_le (Fin 100) x \<and> num_le x (Fin 599)"

definition isOptionalStatusCodeMapping :: "jstring option \<Rightarrow> bool" where
  "isOptionalStatusCodeMapping value =
     optional_json (\<lambda>v. case v of
         JObj ps \<Rightarrow> list_all (\<lambda>(from, to). http_code (to_number from) \<and> http_code (number_of to)) ps
       | _ \<Rightarrow> False) value"

definition filled_string :: "json option \<Rightarrow> bool" where
  "filled_string v \<longleftrightarrow> (case v of Some (JStr s) \<Rightarrow> trim s \<noteq> [] | _ \<Rightarrow> False)"

definition isCodexCredential :: "jstring option \<Rightarrow> bool" where
  "isCodexCredential value =
     optional_json (\<lambda>v. isJsonObjectValue v \<and> filled_string (get_prop (js ''access_token'') v)
       \<and> filled_string (get_prop (js ''account_id'') v)) value"

definition isVertexJsonKey :: "jstring option \<Rightarrow> bool" where
  "isVertexJsonKey value =
     optional_json (\<lambda>v. case v of JArr vs \<Rightarrow> list_all isJsonObjectValue vs | w \<Rightarrow> isJsonObjectValue w) value"

section \<open>Form values\<close>

record ChannelFormValues =
  f_name :: jstring
  f_type :: jsnum
  f_base_url :: "jstring option"
  f_key :: jstring
  f_openai_organization :: "jstring option"
  f_models :: jstring
  f_group :: "jstring list"
  f_model_mapping :: "jstring option"
  f_priority :: "jsnum option"
  f_weight :: "jsnum option"
  f_test_model :: "jstring option"
  f_auto_ban :: "jsnum option"
  f_status :: jsnum
  f_status_code_mapping :: "jstring option"
  f_tag :: "jstring option"
  f_remark :: "jstring option"
  f_setting :: "jstring option"
  f_param_override :: "jstring option"
  f_header_override :: "jstring option"
  f_settings :: "jstring option"
  f_other :: "jstring option"
  f_multi_key_mode :: "jstring option"
  f_multi_key_type :: "jstring option"
  f_batch_add_set_key_prefix_2_name :: "bool option"
  f_key_mode :: "jstring option"
  f_force_format :: "json option"
  f_thinking_to_content :: "json option"
  f_proxy :: "json option"
  f_pass_through_body_enabled :: "json option"
  f_system_prompt :: "json option"
  f_system_prompt_override :: "json option"
  f_is_enterprise_account :: "bool option"
  f_vertex_key_type :: "json option"
  f_aws_key_type :: "json option"
  f_azure_responses_version :: "json option"
  f_allow_service_tier :: "bool option"
  f_disable_store :: "bool option"
  f_allow_safety_identifier :: "bool option"
  f_allow_include_obfuscation :: "bool option"
  f_allow_inference_geo :: "bool option"
  f_allow_speed :: "bool option"
  f_claude_beta_query :: "bool option"
  f_upstream_model_update_check_enabled :: "bool option"
  f_upstream_model_update_auto_sync_enabled :: "bool option"
  f_upstream_model_update_ignored_models :: "jstring option"

text \<open>\<^verbatim>\<open>!value?.trim()\<close>.\<close>

definition blank :: "jstring option \<Rightarrow> bool" where
  "blank v \<longleftrightarrow> (case v of None \<Rightarrow> True | Some s \<Rightarrow> trim s = [])"

text \<open>The issues of \<^verbatim>\<open>superRefine\<close>: a field and a message, in order.\<close>

definition issue :: "bool \<Rightarrow> string \<Rightarrow> string \<Rightarrow> (jstring \<times> jstring) list" where
  "issue c path message = (if c then [(js path, js message)] else [])"

definition several_keys :: "ChannelFormValues \<Rightarrow> bool" where
  "several_keys data \<longleftrightarrow> (case f_multi_key_mode data of None \<Rightarrow> False | Some m \<Rightarrow> m \<noteq> [] \<and> m \<noteq> js ''single'')"

definition form_issues :: "ChannelFormValues \<Rightarrow> (jstring \<times> jstring) list" where
  "form_issues data =
     (let ty = (\<lambda>n. num_eq (f_type data) (Fin n))
      in issue (list_ex ty [3, 8, 36, 45] \<and> blank (f_base_url data)) ''base_url'' ''Base URL is required for this channel type''
       @ issue (list_ex ty [3, 18, 21, 39, 41, 49] \<and> blank (f_other data)) ''other''
           ''This channel type requires additional configuration''
       @ (if ty 57 then
            issue (several_keys data) ''multi_key_mode'' ''Codex channels do not support batch creation''
            @ issue (trim (f_key data) \<noteq> [] \<and> \<not> isCodexCredential (Some (f_key data))) ''key''
                ''Codex credential must be a JSON object with access_token and account_id''
          else [])
       @ issue (ty 41 \<and> f_vertex_key_type data = Some (JStr (js ''json'')) \<and> trim (f_key data) \<noteq> []
             \<and> \<not> isVertexJsonKey (Some (f_key data))) ''key'' ''Vertex AI service account key must be valid JSON''
       @ issue (ty 41 \<and> f_vertex_key_type data = Some (JStr (js ''api_key'')) \<and> several_keys data) ''multi_key_mode''
           ''Vertex AI API Key mode does not support batch creation'')"


section \<open>Defaults\<close>

definition CHANNEL_FORM_DEFAULT_VALUES :: ChannelFormValues where
  "CHANNEL_FORM_DEFAULT_VALUES =
     \<lparr>f_name = [], f_type = Fin 1, f_base_url = Some [], f_key = [], f_openai_organization = Some [], f_models = [],
      f_group = [js ''default''], f_model_mapping = Some [], f_priority = Some (Fin 0), f_weight = Some (Fin 0),
      f_test_model = Some [], f_auto_ban = Some (Fin 1), f_status = Fin 1, f_status_code_mapping = Some [], f_tag = Some [],
      f_remark = Some [], f_setting = Some [], f_param_override = Some [], f_header_override = Some [],
      f_settings = Some (js ''{}''), f_other = Some [], f_multi_key_mode = Some (js ''single''),
      f_multi_key_type = Some (js ''random''), f_batch_add_set_key_prefix_2_name = Some False,
      f_key_mode = Some (js ''append''), f_force_format = Some (JBool False), f_thinking_to_content = Some (JBool False),
      f_proxy = Some (JStr []), f_pass_through_body_enabled = Some (JBool False), f_system_prompt = Some (JStr []),
      f_system_prompt_override = Some (JBool False), f_is_enterprise_account = Some False,
      f_vertex_key_type = Some (JStr (js ''json'')), f_aws_key_type = Some (JStr (js ''ak_sk'')),
      f_azure_responses_version = Some (JStr []), f_allow_service_tier = Some False, f_disable_store = Some False,
      f_allow_safety_identifier = Some False, f_allow_include_obfuscation = Some False, f_allow_inference_geo = Some False,
      f_allow_speed = Some False, f_claude_beta_query = Some False, f_upstream_model_update_check_enabled = Some False,
      f_upstream_model_update_auto_sync_enabled = Some False, f_upstream_model_update_ignored_models = Some []\<rparr>"

section \<open>Lists in texts\<close>

definition parseModels :: "jstring \<Rightarrow> jstring list" where
  "parseModels models = (if models = [] then [] else parse_list models)"

definition parseGroups :: "jstring \<Rightarrow> jstring list" where
  "parseGroups groups = (if groups = [] then [] else parse_list groups)"

definition formatModels :: "jstring list \<Rightarrow> jstring" where
  "formatModels models = join [44] models"

definition formatGroups :: "jstring list \<Rightarrow> jstring" where
  "formatGroups groups = join [44] groups"

section \<open>From a channel to the form\<close>

text \<open>
  What the two settings texts hold, the defaults when they are empty or broken. Reading a property of \<^verbatim>\<open>null\<close> throws, which the
  \<^verbatim>\<open>catch\<close> turns into the defaults too.
\<close>

definition settings_value :: "jstring \<Rightarrow> json" where
  "settings_value text =
     (if text = [] then JObj []
      else case json_parse text of None \<Rightarrow> JObj [] | Some v \<Rightarrow> v)"

definition is_true_prop :: "string \<Rightarrow> json \<Rightarrow> bool option" where
  "is_true_prop k v = Some (get_prop (js k) v = Some (JBool True))"

definition prop_or :: "string \<Rightarrow> json \<Rightarrow> json \<Rightarrow> json option" where
  "prop_or k v d = Some (json_or (get_prop (js k) v) d)"

definition ignored_models_text :: "json \<Rightarrow> jstring" where
  "ignored_models_text v =
     (case get_prop (js ''upstream_model_update_ignored_models'') v of Some (JArr vs) \<Rightarrow> json_to_string (JArr vs) | _ \<Rightarrow> [])"

text \<open>\<^verbatim>\<open>value || d\<close> for a nullable text.\<close>

definition text_or :: "jstring nullable \<Rightarrow> jstring \<Rightarrow> jstring" where
  "text_or v d = (case v of Some (Some s) \<Rightarrow> if s = [] then d else s | _ \<Rightarrow> d)"

definition number_or_zero :: "jsnum nullable \<Rightarrow> jsnum" where
  "number_or_zero v = (case v of Some (Some x) \<Rightarrow> if num_truthy x then x else Fin 0 | _ \<Rightarrow> Fin 0)"

definition transformChannelToFormDefaults :: "Channel \<Rightarrow> js_error + ChannelFormValues" where
  "transformChannelToFormDefaults channel =
     (case c_channel_info channel of
        None \<Rightarrow> Inl TypeError
      | Some info \<Rightarrow>
          (let extra = settings_value (text_or (c_setting channel) []); parsed = settings_value (c_settings channel);
               opt = (\<lambda>v. Some (text_or v []))
           in Inr
             \<lparr>f_name = c_name channel, f_type = c_type channel, f_base_url = opt (c_base_url channel), f_key = [],
              f_openai_organization = opt (c_openai_organization channel), f_models = c_models channel,
              f_group = parseGroups (if c_group channel = [] then js ''default'' else c_group channel),
              f_model_mapping = opt (c_model_mapping channel), f_priority = Some (number_or_zero (c_priority channel)),
              f_weight = Some (number_or_zero (c_weight channel)), f_test_model = opt (c_test_model channel),
              f_auto_ban = Some (case c_auto_ban channel of Some (Some x) \<Rightarrow> x | _ \<Rightarrow> Fin 1), f_status = c_status channel,
              f_status_code_mapping = opt (c_status_code_mapping channel), f_tag = opt (c_tag channel),
              f_remark = Some (c_remark channel), f_setting = opt (c_setting channel),
              f_param_override = opt (c_param_override channel), f_header_override = opt (c_header_override channel),
              f_settings = Some (if c_settings channel = [] then js ''{}'' else c_settings channel),
              f_other = Some (c_other channel), f_multi_key_mode = Some (js ''single''),
              f_multi_key_type = Some (if multi_key_mode info = [] then js ''random'' else multi_key_mode info),
              f_batch_add_set_key_prefix_2_name = Some False, f_key_mode = Some (js ''append''),
              f_force_format = prop_or ''force_format'' extra (JBool False),
              f_thinking_to_content = prop_or ''thinking_to_content'' extra (JBool False),
              f_proxy = prop_or ''proxy'' extra (JStr []),
              f_pass_through_body_enabled = prop_or ''pass_through_body_enabled'' extra (JBool False),
              f_system_prompt = prop_or ''system_prompt'' extra (JStr []),
              f_system_prompt_override = prop_or ''system_prompt_override'' extra (JBool False),
              f_is_enterprise_account = is_true_prop ''openrouter_enterprise'' parsed,
              f_vertex_key_type = prop_or ''vertex_key_type'' parsed (JStr (js ''json'')),
              f_aws_key_type = prop_or ''aws_key_type'' parsed (JStr (js ''ak_sk'')),
              f_azure_responses_version = prop_or ''azure_responses_version'' parsed (JStr []),
              f_allow_service_tier = is_true_prop ''allow_service_tier'' parsed,
              f_disable_store = is_true_prop ''disable_store'' parsed,
              f_allow_safety_identifier = is_true_prop ''allow_safety_identifier'' parsed,
              f_allow_include_obfuscation = is_true_prop ''allow_include_obfuscation'' parsed,
              f_allow_inference_geo = is_true_prop ''allow_inference_geo'' parsed,
              f_allow_speed = is_true_prop ''allow_speed'' parsed,
              f_claude_beta_query = is_true_prop ''claude_beta_query'' parsed,
              f_upstream_model_update_check_enabled = is_true_prop ''upstream_model_update_check_enabled'' parsed,
              f_upstream_model_update_auto_sync_enabled = is_true_prop ''upstream_model_update_auto_sync_enabled'' parsed,
              f_upstream_model_update_ignored_models = Some (ignored_models_text parsed)\<rparr>))"

section \<open>Settings texts\<close>

definition setting_members :: "ChannelFormValues \<Rightarrow> (jstring \<times> json) list" where
  "setting_members formData =
     [(js ''force_format'', json_or (f_force_format formData) (JBool False)),
      (js ''thinking_to_content'', json_or (f_thinking_to_content formData) (JBool False)),
      (js ''proxy'', json_or (f_proxy formData) (JStr [])),
      (js ''pass_through_body_enabled'', json_or (f_pass_through_body_enabled formData) (JBool False)),
      (js ''system_prompt'', json_or (f_system_prompt formData) (JStr [])),
      (js ''system_prompt_override'', json_or (f_system_prompt_override formData) (JBool False))]"

definition buildSettingJSON :: "ChannelFormValues \<Rightarrow> jstring" where
  "buildSettingJSON formData = json_stringify (JObj (setting_members formData))"

definition MODEL_FETCHABLE_TYPES :: "rat list" where
  "MODEL_FETCHABLE_TYPES = [1, 4, 14, 17, 20, 23, 24, 25, 26, 27, 31, 34, 35, 40, 42, 43, 47, 48]"

text \<open>A setting is written when \<open>c\<close> holds and deleted otherwise.\<close>

definition put_or_delete :: "bool \<Rightarrow> string \<Rightarrow> json \<Rightarrow> (jstring \<times> json) list \<Rightarrow> (jstring \<times> json) list" where
  "put_or_delete c k v ps = (if c then obj_set (js k) v ps else obj_delete (js k) ps)"

definition flag :: "bool option \<Rightarrow> json" where
  "flag b = JBool (b = Some True)"

definition provider_settings :: "ChannelFormValues \<Rightarrow> (jstring \<times> json) list \<Rightarrow> (jstring \<times> json) list" where
  "provider_settings formData s0 =
     (let ty = (\<lambda>n. num_eq (f_type formData) (Fin n));
          s1 = put_or_delete (ty 41) ''vertex_key_type'' (json_or (f_vertex_key_type formData) (JStr (js ''json''))) s0;
          s2 = put_or_delete (ty 3 \<and> truthy (f_azure_responses_version formData)) ''azure_responses_version''
                 (json_or (f_azure_responses_version formData) (JStr [])) s1;
          s3 = put_or_delete (ty 20) ''openrouter_enterprise'' (flag (f_is_enterprise_account formData)) s2
      in put_or_delete (ty 33) ''aws_key_type'' (json_or (f_aws_key_type formData) (JStr (js ''ak_sk''))) s3)"

definition passthrough_settings :: "ChannelFormValues \<Rightarrow> (jstring \<times> json) list \<Rightarrow> (jstring \<times> json) list" where
  "passthrough_settings formData s0 =
     (let ty = (\<lambda>n. num_eq (f_type formData) (Fin n));
          s1 = put_or_delete (ty 1 \<or> ty 14) ''allow_service_tier'' (flag (f_allow_service_tier formData)) s0;
          s2 = put_or_delete (ty 1) ''disable_store'' (flag (f_disable_store formData)) s1;
          s3 = put_or_delete (ty 1) ''allow_safety_identifier'' (flag (f_allow_safety_identifier formData)) s2;
          s4 = put_or_delete (ty 1) ''allow_include_obfuscation'' (flag (f_allow_include_obfuscation formData)) s3;
          s5 = (if ty 1 then obj_set (js ''allow_inference_geo'') (flag (f_allow_inference_geo formData)) s4
                else if \<not> ty 14 then obj_delete (js ''allow_inference_geo'') s4 else s4);
          s6 = (if ty 14 then obj_set (js ''allow_inference_geo'') (flag (f_allow_inference_geo formData)) s5 else s5);
          s7 = put_or_delete (ty 14) ''allow_speed'' (flag (f_allow_speed formData)) s6
      in put_or_delete (ty 14) ''claude_beta_query'' (flag (f_claude_beta_query formData)) s7)"

definition upstream_settings :: "ChannelFormValues \<Rightarrow> (jstring \<times> json) list \<Rightarrow> (jstring \<times> json) list" where
  "upstream_settings formData s0 =
     (if \<not> list_ex (\<lambda>n. num_eq (f_type formData) (Fin n)) MODEL_FETCHABLE_TYPES then s0
      else
        let check = (f_upstream_model_update_check_enabled formData = Some True);
            s1 = obj_set (js ''upstream_model_update_check_enabled'') (JBool check) s0;
            s2 = obj_set (js ''upstream_model_update_auto_sync_enabled'')
                   (JBool (check \<and> f_upstream_model_update_auto_sync_enabled formData = Some True)) s1;
            s3 = obj_set (js ''upstream_model_update_ignored_models'')
                   (JArr (map JStr (js_set (parse_list (str_or (f_upstream_model_update_ignored_models formData) []))))) s2;
            s4 = (if (case map_of s3 (js ''upstream_model_update_last_detected_models'') of Some (JArr _) \<Rightarrow> check | _ \<Rightarrow> False) then s3
                  else obj_set (js ''upstream_model_update_last_detected_models'') (JArr []) s3)
        in case map_of s4 (js ''upstream_model_update_last_check_time'') of
             Some (JNum _) \<Rightarrow> s4
           | _ \<Rightarrow> obj_set (js ''upstream_model_update_last_check_time'') (JNum (Fin 0)) s4)"

definition settings_members :: "ChannelFormValues \<Rightarrow> (jstring \<times> json) list \<Rightarrow> (jstring \<times> json) list" where
  "settings_members formData s = upstream_settings formData (passthrough_settings formData (provider_settings formData s))"

text \<open>
  An array keeps its text, as the properties set on it are not printed; any other value that is not an object throws, at an
  assignment or at the operator \<^verbatim>\<open>in\<close>.
\<close>

definition buildSettingsJSON :: "ChannelFormValues \<Rightarrow> js_error + jstring" where
  "buildSettingsJSON formData =
     (case settings_value (str_or (f_settings formData) []) of
        JObj ps \<Rightarrow> Inr (json_stringify (JObj (settings_members formData ps)))
      | JArr vs \<Rightarrow> Inr (json_stringify (JArr vs))
      | _ \<Rightarrow> Inl TypeError)"

section \<open>Payloads\<close>

definition normalizeBaseUrl :: "jstring option \<Rightarrow> jstring" where
  "normalizeBaseUrl value = rev (dropWhile (\<lambda>c. c = 47) (rev (trim (str_or value []))))"

definition or_null :: "jstring option \<Rightarrow> json" where
  "or_null v = (if str_or v [] = [] then JNull else JStr (str_or v []))"

definition number_or_null :: "jsnum option \<Rightarrow> json" where
  "number_or_null v = (case v of Some x \<Rightarrow> if num_truthy x then JNum x else JNull | None \<Rightarrow> JNull)"

definition number_default :: "jsnum option \<Rightarrow> rat \<Rightarrow> json" where
  "number_default v d = JNum (case v of Some x \<Rightarrow> x | None \<Rightarrow> Fin d)"

text \<open>\<^verbatim>\<open>Object.keys(channel).forEach\<close>: empty texts become \<^verbatim>\<open>null\<close>.\<close>

definition empty_to_null :: "(jstring \<times> json) list \<Rightarrow> (jstring \<times> json) list" where
  "empty_to_null ps = map (\<lambda>(k, v). (k, if v = JStr [] then JNull else v)) ps"

record CreatePayload =
  cp_mode :: jstring
  cp_multi_key_mode :: "jstring option"
  cp_batch_add_set_key_prefix_2_name :: "bool option"
  cp_channel :: "(jstring \<times> json) list"

definition transformFormDataToCreatePayload :: "ChannelFormValues \<Rightarrow> js_error + CreatePayload" where
  "transformFormDataToCreatePayload formData =
     (case buildSettingsJSON formData of
        Inl err \<Rightarrow> Inl err
      | Inr settings \<Rightarrow>
          (let mode = (if str_or (f_multi_key_mode formData) [] = [] then js ''single'' else str_or (f_multi_key_mode formData) []);
               base = normalizeBaseUrl (f_base_url formData);
               channel =
                 [(js ''name'', JStr (f_name formData)), (js ''type'', JNum (f_type formData)), (js ''base_url'', or_null (Some base)),
                  (js ''key'', JStr (f_key formData)), (js ''openai_organization'', or_null (f_openai_organization formData)),
                  (js ''models'', JStr (f_models formData)), (js ''group'', JStr (formatGroups (f_group formData))),
                  (js ''model_mapping'', or_null (f_model_mapping formData)), (js ''priority'', number_or_null (f_priority formData)),
                  (js ''weight'', number_or_null (f_weight formData)), (js ''test_model'', or_null (f_test_model formData)),
                  (js ''auto_ban'', number_default (f_auto_ban formData) 1), (js ''status'', JNum (f_status formData)),
                  (js ''status_code_mapping'', or_null (f_status_code_mapping formData)), (js ''tag'', or_null (f_tag formData)),
                  (js ''remark'', JStr (str_or (f_remark formData) [])), (js ''setting'', JStr (buildSettingJSON formData)),
                  (js ''param_override'', or_null (f_param_override formData)),
                  (js ''header_override'', or_null (f_header_override formData)), (js ''settings'', JStr settings),
                  (js ''other'', JStr (str_or (f_other formData) []))]
           in Inr \<lparr>cp_mode = mode,
                cp_multi_key_mode = (if mode = js ''multi_to_single'' then f_multi_key_type formData else None),
                cp_batch_add_set_key_prefix_2_name =
                  (if mode = js ''batch'' then f_batch_add_set_key_prefix_2_name formData else None),
                cp_channel = empty_to_null channel\<rparr>))"

text \<open>The fields that are sent as an empty text rather than \<^verbatim>\<open>null\<close>.\<close>

definition cleared_fields :: "ChannelFormValues \<Rightarrow> (jstring \<times> json) list" where
  "cleared_fields formData =
     (let t = (\<lambda>v. JStr (str_or v []))
      in [(js ''base_url'', JStr (normalizeBaseUrl (f_base_url formData))), (js ''openai_organization'', t (f_openai_organization formData)),
          (js ''test_model'', t (f_test_model formData)), (js ''tag'', t (f_tag formData)), (js ''remark'', t (f_remark formData)),
          (js ''model_mapping'', t (f_model_mapping formData)), (js ''status_code_mapping'', t (f_status_code_mapping formData)),
          (js ''param_override'', t (f_param_override formData)), (js ''header_override'', t (f_header_override formData))])"

definition transformFormDataToUpdatePayload :: "ChannelFormValues \<Rightarrow> jsnum \<Rightarrow> js_error + (jstring \<times> json) list" where
  "transformFormDataToUpdatePayload formData channelId =
     (case buildSettingsJSON formData of
        Inl err \<Rightarrow> Inl err
      | Inr settings \<Rightarrow>
          (let base = normalizeBaseUrl (f_base_url formData);
               payload =
                 [(js ''id'', JNum channelId), (js ''name'', JStr (f_name formData)), (js ''type'', JNum (f_type formData)),
                  (js ''base_url'', or_null (Some base)), (js ''openai_organization'', or_null (f_openai_organization formData)),
                  (js ''models'', JStr (f_models formData)), (js ''group'', JStr (formatGroups (f_group formData))),
                  (js ''model_mapping'', or_null (f_model_mapping formData)), (js ''priority'', number_default (f_priority formData) 0),
                  (js ''weight'', number_default (f_weight formData) 0), (js ''test_model'', or_null (f_test_model formData)),
                  (js ''auto_ban'', number_default (f_auto_ban formData) 1),
                  (js ''status_code_mapping'', or_null (f_status_code_mapping formData)), (js ''tag'', or_null (f_tag formData)),
                  (js ''remark'', JStr (str_or (f_remark formData) [])), (js ''setting'', JStr (buildSettingJSON formData)),
                  (js ''param_override'', or_null (f_param_override formData)),
                  (js ''header_override'', or_null (f_header_override formData)), (js ''settings'', JStr settings),
                  (js ''other'', JStr (str_or (f_other formData) []))];
               keyed = (if f_key formData \<noteq> [] \<and> trim (f_key formData) \<noteq> []
                        then obj_set (js ''key'') (JStr (f_key formData)) payload else payload)
           in Inr (fold (\<lambda>(k, v). obj_set k v) (cleared_fields formData) (empty_to_null keyed))))"

section \<open>Helpers\<close>

definition validateJSON :: "jstring \<Rightarrow> bool" where
  "validateJSON value \<longleftrightarrow> value = [] \<or> trim value = [] \<or> json_parse value \<noteq> None"

definition validateModelMapping :: "jstring \<Rightarrow> bool" where
  "validateModelMapping value \<longleftrightarrow> value = [] \<or> trim value = [] \<or> validateJSON value"

definition ADVANCED_SETTINGS_FIELDS :: "jstring list" where
  "ADVANCED_SETTINGS_FIELDS =
     map js [''priority'', ''weight'', ''test_model'', ''auto_ban'', ''tag'', ''remark'', ''param_override'', ''header_override'',
       ''status_code_mapping'', ''force_format'', ''thinking_to_content'', ''pass_through_body_enabled'', ''proxy'', ''system_prompt'',
       ''system_prompt_override'', ''allow_service_tier'', ''disable_store'', ''allow_safety_identifier'', ''allow_include_obfuscation'',
       ''allow_inference_geo'', ''allow_speed'', ''claude_beta_query'', ''upstream_model_update_check_enabled'',
       ''upstream_model_update_auto_sync_enabled'', ''upstream_model_update_ignored_models'']"

definition isAdvancedSettingsField :: "jstring \<Rightarrow> bool" where
  "isAdvancedSettingsField fieldName \<longleftrightarrow> fieldName \<in> set ADVANCED_SETTINGS_FIELDS"

definition hasAdvancedSettingsErrors :: "jstring list \<Rightarrow> bool" where
  "hasAdvancedSettingsErrors errors \<longleftrightarrow> list_ex isAdvancedSettingsField errors"

end
