(* ===== verification/Form_Laws.thy ===== *)
theory Form_Laws
  imports Channel_Form JS_Integers
begin

text \<open>
  Laws of the channel form: which settings a save writes, keeps and deletes; that saving what was opened and opening it
  again is stable; what an update never sends; and how the checks of the form relate to the guard on status codes.
\<close>

section \<open>Settings\<close>

definition of_type :: "ChannelFormValues \<Rightarrow> rat list \<Rightarrow> bool" where
  "of_type f ns \<longleftrightarrow> list_ex (\<lambda>n. num_eq (f_type f) (Fin n)) ns"

definition kept_if :: "bool \<Rightarrow> json \<Rightarrow> json option" where
  "kept_if c v = (if c then Some v else None)"

text \<open>
  The settings the form decides on: for each name, what is stored after a save, \<open>None\<close> for nothing; \<open>m\<close> are the
  settings before it. Provider settings exist for their providers only.
\<close>

definition provider_table :: "ChannelFormValues \<Rightarrow> (jstring \<times> json option) list" where
  "provider_table f =
     [(js ''vertex_key_type'', kept_if (of_type f [41]) (json_or (f_vertex_key_type f) (JStr (js ''json'')))),
      (js ''azure_responses_version'', kept_if (of_type f [3] \<and> truthy (f_azure_responses_version f)) (json_or (f_azure_responses_version f) (JStr []))),
      (js ''openrouter_enterprise'', kept_if (of_type f [20]) (flag (f_is_enterprise_account f))),
      (js ''aws_key_type'', kept_if (of_type f [33]) (json_or (f_aws_key_type f) (JStr (js ''ak_sk'')))),
      (js ''allow_service_tier'', kept_if (of_type f [1, 14]) (flag (f_allow_service_tier f))),
      (js ''disable_store'', kept_if (of_type f [1]) (flag (f_disable_store f))),
      (js ''allow_safety_identifier'', kept_if (of_type f [1]) (flag (f_allow_safety_identifier f))),
      (js ''allow_include_obfuscation'', kept_if (of_type f [1]) (flag (f_allow_include_obfuscation f))),
      (js ''allow_inference_geo'', kept_if (of_type f [1, 14]) (flag (f_allow_inference_geo f))),
      (js ''allow_speed'', kept_if (of_type f [14]) (flag (f_allow_speed f))),
      (js ''claude_beta_query'', kept_if (of_type f [14]) (flag (f_claude_beta_query f)))]"

definition update_table :: "ChannelFormValues \<Rightarrow> (jstring \<rightharpoonup> json) \<Rightarrow> (jstring \<times> json option) list" where
  "update_table f m =
     (let check = (f_upstream_model_update_check_enabled f = Some True);
          detected = m (js ''upstream_model_update_last_detected_models''); checked = m (js ''upstream_model_update_last_check_time'')
      in if \<not> of_type f MODEL_FETCHABLE_TYPES then []
         else
          [(js ''upstream_model_update_check_enabled'', Some (JBool check)),
           (js ''upstream_model_update_auto_sync_enabled'', Some (JBool (check \<and> f_upstream_model_update_auto_sync_enabled f = Some True))),
           (js ''upstream_model_update_ignored_models'',
             Some (JArr (map JStr (js_set (parse_list (str_or (f_upstream_model_update_ignored_models f) [])))))),
           (js ''upstream_model_update_last_detected_models'', case detected of Some (JArr vs) \<Rightarrow> Some (JArr (if check then vs else [])) | _ \<Rightarrow> Some (JArr [])),
           (js ''upstream_model_update_last_check_time'', case checked of Some (JNum x) \<Rightarrow> Some (JNum x) | _ \<Rightarrow> Some (JNum (Fin 0)))])"

definition saved_setting :: "ChannelFormValues \<Rightarrow> (jstring \<rightharpoonup> json) \<Rightarrow> jstring \<rightharpoonup> json" where
  "saved_setting f m k = (case map_of (provider_table f @ update_table f m) k of Some r \<Rightarrow> r | None \<Rightarrow> m k)"

lemma map_of_put_or_delete: "map_of (put_or_delete c k v ps) = (map_of ps)(js k := kept_if c v)"
  by (simp add: put_or_delete_def map_of_obj_set map_of_delete kept_if_def)

lemma type_disjoint: "num_eq x (Fin a) \<Longrightarrow> num_eq x (Fin b) \<Longrightarrow> a = b"
  by (cases x) (auto simp: num_eq_def)

text \<open>Writes to distinct names are a lookup in the table of the writes.\<close>

definition writes :: "('a \<times> 'b option) list \<Rightarrow> ('a \<rightharpoonup> 'b) \<Rightarrow> 'a \<rightharpoonup> 'b" where
  "writes tab m = fold (\<lambda>(k, r) m. m(k := r)) tab m"

lemma writes_simps: "writes [] m = m" "writes ((k, r) # tab) m = writes tab (m(k := r))"
  by (simp_all add: writes_def)

lemma writes_append: "writes (a @ b) m = writes b (writes a m)"
  by (simp add: writes_def)

lemma writes_lookup:
  "distinct (map fst tab) \<Longrightarrow> writes tab m k = (case map_of tab k of Some r \<Rightarrow> r | None \<Rightarrow> m k)"
proof (induction tab arbitrary: m)
  case (Cons p tab)
  then have "map_of tab (fst p) = None" by (simp add: map_of_eq_None_iff)
  with Cons show ?case
    by (cases p; cases "fst p = k") (auto simp: writes_simps split: option.splits)
qed (simp add: writes_simps)

lemma distinct_js: "distinct (map js ss) \<longleftrightarrow> distinct ss"
  by (simp add: distinct_map inj_on_def js_inject)

lemma map_of_provider: "map_of (provider_settings f ps) = writes (take 4 (provider_table f)) (map_of ps)"
  by (simp add: provider_settings_def provider_table_def map_of_put_or_delete Let_def of_type_def writes_simps)

lemma passthrough_puts:
  defines "ty \<equiv> \<lambda>f n. num_eq (f_type f) (Fin n)"
  shows "passthrough_settings f ps =
    put_or_delete (ty f 14) ''claude_beta_query'' (flag (f_claude_beta_query f))
     (put_or_delete (ty f 14) ''allow_speed'' (flag (f_allow_speed f))
      (put_or_delete (ty f 1 \<or> ty f 14) ''allow_inference_geo'' (flag (f_allow_inference_geo f))
       (put_or_delete (ty f 1) ''allow_include_obfuscation'' (flag (f_allow_include_obfuscation f))
        (put_or_delete (ty f 1) ''allow_safety_identifier'' (flag (f_allow_safety_identifier f))
         (put_or_delete (ty f 1) ''disable_store'' (flag (f_disable_store f))
          (put_or_delete (ty f 1 \<or> ty f 14) ''allow_service_tier'' (flag (f_allow_service_tier f)) ps))))))"
proof -
  have geo: "(if b then obj_set (js k) v (if a then obj_set (js k) v s else if \<not> b then obj_delete (js k) s else s)
      else if a then obj_set (js k) v s else if \<not> b then obj_delete (js k) s else s) = put_or_delete (a \<or> b) k v s"
    if "\<not> (a \<and> b)" for a b k v s
    using that by (auto simp: put_or_delete_def)
  have "\<not> (ty f 1 \<and> ty f 14)" using type_disjoint [of "f_type f" 1 14] by (auto simp: ty_def)
  then show ?thesis unfolding passthrough_settings_def Let_def ty_def by (subst geo) (simp_all only: simp_thms)
qed

lemma of_type_simps: "of_type f [] = False" "of_type f (n # ns) \<longleftrightarrow> num_eq (f_type f) (Fin n) \<or> of_type f ns"
  by (simp_all add: of_type_def)

lemma drop_4: "drop 4 (a # b # c # d # xs) = xs"
  by (simp add: numeral_eq_Suc)

lemma map_of_passthrough: "map_of (passthrough_settings f ps) = writes (drop 4 (provider_table f)) (map_of ps)"
  by (simp only: passthrough_puts provider_table_def map_of_put_or_delete writes_simps drop_4 of_type_simps simp_thms)

lemma map_of_upstream: "map_of (upstream_settings f ps) = writes (update_table f (map_of ps)) (map_of ps)"
proof -
  define check where "check = (f_upstream_model_update_check_enabled f = Some True)"
  define detected where "detected = js ''upstream_model_update_last_detected_models''"
  define checked where "checked = js ''upstream_model_update_last_check_time''"
  define s3 where "s3 = obj_set (js ''upstream_model_update_ignored_models'')
      (JArr (map JStr (js_set (parse_list (str_or (f_upstream_model_update_ignored_models f) [])))))
      (obj_set (js ''upstream_model_update_auto_sync_enabled'')
        (JBool (check \<and> f_upstream_model_update_auto_sync_enabled f = Some True))
        (obj_set (js ''upstream_model_update_check_enabled'') (JBool check) ps))"
  have m3: "map_of s3 detected = map_of ps detected" "map_of s3 checked = map_of ps checked" "detected \<noteq> checked"
    unfolding s3_def detected_def checked_def by (simp_all add: map_of_obj_set js_inject)
  have up: "upstream_settings f ps = (if \<not> of_type f MODEL_FETCHABLE_TYPES then ps else
      let s4 = (if (case map_of s3 detected of Some (JArr _) \<Rightarrow> check | _ \<Rightarrow> False) then s3 else obj_set detected (JArr []) s3)
      in case map_of s4 checked of Some (JNum _) \<Rightarrow> s4 | _ \<Rightarrow> obj_set checked (JNum (Fin 0)) s4)"
    unfolding upstream_settings_def of_type_def s3_def check_def detected_def checked_def Let_def by (rule refl)
  have tab: "of_type f MODEL_FETCHABLE_TYPES \<Longrightarrow> writes (update_table f (map_of ps)) (map_of ps) =
     (map_of s3)(detected := (case map_of ps detected of Some (JArr vs) \<Rightarrow> Some (JArr (if check then vs else [])) | _ \<Rightarrow> Some (JArr [])),
       checked := (case map_of ps checked of Some (JNum x) \<Rightarrow> Some (JNum x) | _ \<Rightarrow> Some (JNum (Fin 0))))"
    unfolding update_table_def Let_def s3_def check_def detected_def checked_def
    by (simp only: if_not_P if_False not_True_eq_False writes_simps map_of_obj_set simp_thms)
  show ?thesis
  proof (cases "of_type f MODEL_FETCHABLE_TYPES")
    case True
    then show ?thesis unfolding up tab [OF True] using m3
      by (auto simp: map_of_obj_set fun_eq_iff Let_def split: option.splits json.splits)
  qed (simp add: up update_table_def writes_simps)
qed


definition provider_names :: "string list" where
  "provider_names = [''vertex_key_type'', ''azure_responses_version'', ''openrouter_enterprise'', ''aws_key_type'', ''allow_service_tier'',
     ''disable_store'', ''allow_safety_identifier'', ''allow_include_obfuscation'', ''allow_inference_geo'', ''allow_speed'', ''claude_beta_query'']"

definition update_names :: "string list" where
  "update_names = [''upstream_model_update_check_enabled'', ''upstream_model_update_auto_sync_enabled'',
     ''upstream_model_update_ignored_models'', ''upstream_model_update_last_detected_models'', ''upstream_model_update_last_check_time'']"

lemma names_distinct: "distinct (provider_names @ update_names)"
  by code_simp

lemma table_names:
  "map fst (provider_table f) = map js provider_names"
  "map fst (update_table f m) = (if of_type f MODEL_FETCHABLE_TYPES then map js update_names else [])"
  by (simp_all only: provider_table_def provider_names_def update_table_def update_names_def Let_def list.map fst_conv if_not_P
      split: if_split) simp_all

lemma table_distinct: "distinct (map fst (provider_table f @ update_table f m))"
proof -
  have "distinct (map js provider_names @ map js update_names)"
    using names_distinct distinct_js [of "provider_names @ update_names"] by simp
  then show ?thesis by (simp add: table_names)
qed

lemma map_of_settings: "map_of (settings_members f ps) = saved_setting f (map_of ps)"
proof -
  define m where "m = map_of (passthrough_settings f (provider_settings f ps))"
  have w: "m = writes (provider_table f) (map_of ps)"
    using writes_append [of "take 4 (provider_table f)" "drop 4 (provider_table f)" "map_of ps"]
    by (simp add: m_def map_of_passthrough map_of_provider)
  have other: "m (js k) = map_of ps (js k)" if "k \<in> set update_names" for k
  proof -
    have "map_of (provider_table f) (js k) = None"
      using that names_distinct arg_cong [OF table_names(1) [of f], of set]
      by (auto simp: map_of_eq_None_iff js_inject)
    then show ?thesis using table_distinct [of f m] by (simp add: w writes_lookup)
  qed
  have "update_table f m = update_table f (map_of ps)"
    using other [of "''upstream_model_update_last_detected_models''"] other [of "''upstream_model_update_last_check_time''"]
    by (simp add: update_table_def update_names_def)
  then have "map_of (settings_members f ps) = writes (provider_table f @ update_table f (map_of ps)) (map_of ps)"
    by (simp add: settings_members_def map_of_upstream m_def [symmetric] w [symmetric] writes_append)
  then show ?thesis by (auto simp: writes_lookup [OF table_distinct] saved_setting_def)
qed

lemma put_ok: "obj_ok ps \<Longrightarrow> json_ok v \<Longrightarrow> obj_ok (put_or_delete c k v ps)"
  by (simp add: put_or_delete_def obj_ok_set obj_ok_delete units_js)

text \<open>A form whose texts and extra settings JSON carries.\<close>

definition form_ok :: "ChannelFormValues \<Rightarrow> bool" where
  "form_ok f \<longleftrightarrow> list_all (\<lambda>v. case v of None \<Rightarrow> True | Some w \<Rightarrow> json_ok w)
      [f_force_format f, f_thinking_to_content f, f_proxy f, f_pass_through_body_enabled f, f_system_prompt f,
       f_system_prompt_override f, f_vertex_key_type f, f_aws_key_type f, f_azure_responses_version f]
    \<and> units (str_or (f_upstream_model_update_ignored_models f) [])"

lemma json_or_ok: "(case v of None \<Rightarrow> True | Some w \<Rightarrow> json_ok w) \<Longrightarrow> json_ok d \<Longrightarrow> json_ok (json_or v d)"
  by (auto simp: json_or_def split: option.splits)

lemma parse_list_units: "units s \<Longrightarrow> x \<in> set (parse_list s) \<Longrightarrow> units x"
proof -
  assume u: "units s" and "x \<in> set (parse_list s)"
  then obtain t where t: "t \<in> set (split_on 44 s)" "x = trim t" by (auto simp: parse_list_def)
  then have "units t" using u split_on_part [of t 44 s] by (auto simp: units_def list_all_iff)
  then show ?thesis using t(2) units_trim by simp
qed

lemma settings_members_ok:
  assumes "obj_ok ps" "form_ok f"
  shows "obj_ok (settings_members f ps)"
proof -
  have v: "json_ok (json_or (f_vertex_key_type f) (JStr (js ''json'')))" "json_ok (json_or (f_aws_key_type f) (JStr (js ''ak_sk'')))"
    "json_ok (json_or (f_azure_responses_version f) (JStr []))"
    using assms(2) units_js by (auto intro!: json_or_ok simp: form_ok_def units_def [of "[]"])
  have p: "obj_ok (provider_settings f ps)"
    unfolding provider_settings_def Let_def using assms(1) v by (intro put_ok) (simp_all add: flag_def)
  have q: "obj_ok (passthrough_settings f (provider_settings f ps))"
    unfolding passthrough_puts by (intro put_ok p) (simp_all add: flag_def)
  define s3 where "s3 = obj_set (js ''upstream_model_update_ignored_models'')
      (JArr (map JStr (js_set (parse_list (str_or (f_upstream_model_update_ignored_models f) [])))))
      (obj_set (js ''upstream_model_update_auto_sync_enabled'')
        (JBool (f_upstream_model_update_check_enabled f = Some True \<and> f_upstream_model_update_auto_sync_enabled f = Some True))
        (obj_set (js ''upstream_model_update_check_enabled'') (JBool (f_upstream_model_update_check_enabled f = Some True))
          (passthrough_settings f (provider_settings f ps))))"
  have "json_ok (JArr (map JStr (js_set (parse_list (str_or (f_upstream_model_update_ignored_models f) [])))))"
    using assms(2) parse_list_units by (auto simp: form_ok_def list_all_iff)
  then have s3: "obj_ok s3" unfolding s3_def by (intro obj_ok_set q units_js) simp_all
  then have s4: "obj_ok (if c then s3 else obj_set (js k) (JArr []) s3)" for c k
    by (auto intro: obj_ok_set units_js)
  have z: "json_ok (JNum (Fin 0))" using num_ok_nat [of 0] by simp
  have s5: "obj_ok (case x of Some (JNum _) \<Rightarrow> s | _ \<Rightarrow> obj_set (js k) (JNum (Fin 0)) s)" if "obj_ok s" for x s k
    using that z by (auto intro: obj_ok_set units_js split: option.split json.split)
  show ?thesis
    unfolding settings_members_def upstream_settings_def Let_def s3_def [symmetric] by (simp only: q s4 s5 split: if_split) simp
qed


section \<open>The settings a save keeps\<close>

lemma json_parse_blank:
  assumes "trim s = []"
  shows "json_parse s = None"
proof -
  have sp: "list_all is_space s" using assms by (simp add: trim_eq_Nil_iff)
  have "pvalue s = None"
  proof (cases "skip_ws s")
    case Nil
    then show ?thesis by (subst pvalue.simps) simp
  next
    case (Cons c t)
    then have "c \<in> set s" using set_dropWhileD [of c _ s] by (metis list.set_intros(1) skip_ws_def)
    then have "is_space c" using sp by (simp add: list_all_iff)
    then have "c \<notin> {34, 91, 123, 116, 102, 110, 45} \<and> \<not> is_digit c"
      by (auto simp: is_space_def white_space_def is_digit_def)
    then have "pnumber (c # t) = None" "c \<noteq> 34" "c \<noteq> 91" "c \<noteq> 123" "\<not> prefix (js ''true'') (c # t)" "\<not> prefix (js ''false'') (c # t)"
      "\<not> prefix (js ''null'') (c # t)"
      by (simp_all add: pnumber_def pint_def pdigits_def js_str)
    then show ?thesis using Cons by (subst pvalue.simps) simp
  qed
  then show ?thesis by (simp add: json_parse_def)
qed

lemma optional_object:
  assumes "isOptionalJsonObject v"
  obtains ps where "settings_value (str_or v []) = JObj ps"
  using assms json_parse_blank that
  by (fastforce simp: isOptionalJsonObject_def optional_json_def parseOptionalJson_def settings_value_def str_or_def isJsonObjectValue_def
      split: option.splits if_splits json.splits)

text \<open>C14: a save writes exactly the settings the form decides on. For a form that passed the check of its settings text,
  the new text parses to an object in which every setting of the form's provider has the value of the form,
  settings of other providers are gone, and every setting the form does not know is as it was.\<close>

theorem settings_saved_exact:
  assumes "isOptionalJsonObject (f_settings f)" "json_ok (settings_value (str_or (f_settings f) []))" "form_ok f"
  shows "\<exists>ps text qs. settings_value (str_or (f_settings f) []) = JObj ps \<and> buildSettingsJSON f = Inr text
    \<and> json_parse text = Some (JObj qs) \<and> map_of qs = saved_setting f (map_of ps)"
proof -
  obtain ps where ps: "settings_value (str_or (f_settings f) []) = JObj ps" by (rule optional_object [OF assms(1)])
  then have "obj_ok (settings_members f ps)" using assms(2,3) settings_members_ok by (simp add: obj_ok_def)
  then show ?thesis using ps map_of_settings parse_obj_ok by (fastforce simp: buildSettingsJSON_def)
qed

text \<open>Saving throws exactly when the settings text parses to a value that is neither an object nor an array, which the
  check of the form refuses.\<close>

theorem settings_throw_exact:
  "(\<exists>e. buildSettingsJSON f = Inl e) \<longleftrightarrow>
     (\<exists>v. str_or (f_settings f) [] \<noteq> [] \<and> json_parse (str_or (f_settings f) []) = Some v
        \<and> (case v of JObj _ \<Rightarrow> False | JArr _ \<Rightarrow> False | _ \<Rightarrow> True))"
  by (auto simp: buildSettingsJSON_def settings_value_def split: json.splits option.splits)

section \<open>Saving what was opened\<close>

text \<open>What the server stores of an update: the fields it is sent, and its own value where it is sent none. An explicit
  \<^verbatim>\<open>null\<close> is stored as sent here, while the server leaves the column as it is; the update payloads of the form carry
  texts and numbers in these fields, so the case does not arise.\<close>

definition sent_text :: "(jstring \<times> json) list \<Rightarrow> string \<Rightarrow> jstring \<Rightarrow> jstring" where
  "sent_text p k old = (case map_of p (js k) of Some (JStr s) \<Rightarrow> s | _ \<Rightarrow> old)"

definition sent_nullable :: "(jstring \<times> json) list \<Rightarrow> string \<Rightarrow> jstring nullable \<Rightarrow> jstring nullable" where
  "sent_nullable p k old = (case map_of p (js k) of Some (JStr s) \<Rightarrow> Some (Some s) | Some JNull \<Rightarrow> Some None | _ \<Rightarrow> old)"

definition sent_number :: "(jstring \<times> json) list \<Rightarrow> string \<Rightarrow> jsnum nullable \<Rightarrow> jsnum nullable" where
  "sent_number p k old = (case map_of p (js k) of Some (JNum x) \<Rightarrow> Some (Some x) | _ \<Rightarrow> old)"

definition stored :: "(jstring \<times> json) list \<Rightarrow> Channel \<Rightarrow> Channel" where
  "stored p ch = ch\<lparr>c_name := sent_text p ''name'' (c_name ch),
     c_type := (case map_of p (js ''type'') of Some (JNum x) \<Rightarrow> x | _ \<Rightarrow> c_type ch),
     c_base_url := sent_nullable p ''base_url'' (c_base_url ch),
     c_openai_organization := sent_nullable p ''openai_organization'' (c_openai_organization ch),
     c_models := sent_text p ''models'' (c_models ch), c_group := sent_text p ''group'' (c_group ch),
     c_model_mapping := sent_nullable p ''model_mapping'' (c_model_mapping ch),
     c_priority := sent_number p ''priority'' (c_priority ch), c_weight := sent_number p ''weight'' (c_weight ch),
     c_test_model := sent_nullable p ''test_model'' (c_test_model ch), c_auto_ban := sent_number p ''auto_ban'' (c_auto_ban ch),
     c_status_code_mapping := sent_nullable p ''status_code_mapping'' (c_status_code_mapping ch),
     c_tag := sent_nullable p ''tag'' (c_tag ch), c_remark := sent_text p ''remark'' (c_remark ch),
     c_setting := sent_nullable p ''setting'' (c_setting ch), c_param_override := sent_nullable p ''param_override'' (c_param_override ch),
     c_header_override := sent_nullable p ''header_override'' (c_header_override ch),
     c_settings := sent_text p ''settings'' (c_settings ch), c_other := sent_text p ''other'' (c_other ch)\<rparr>"

text \<open>Lookups in an update payload.\<close>

lemma map_of_fold_set: "map_of (fold (\<lambda>(k, v). obj_set k v) tab ps) = writes (map (apsnd Some) tab) (map_of ps)"
  by (induction tab arbitrary: ps) (auto simp: writes_simps map_of_obj_set)

lemma map_of_map_Some: "map_of (map (apsnd Some) tab) k = map_option Some (map_of tab k)"
  by (induction tab) auto

lemma map_of_empty_to_null:
  "map_of (empty_to_null ps) k = map_option (\<lambda>v. if v = JStr [] then JNull else v) (map_of ps k)"
  by (simp add: empty_to_null_def map_of_map)

lemma cleared_distinct: "distinct (map fst (map (apsnd Some) (cleared_fields f)))"
proof -
  have "map fst (map (apsnd Some) (cleared_fields f)) = map js [''base_url'', ''openai_organization'', ''test_model'', ''tag'',
    ''remark'', ''model_mapping'', ''status_code_mapping'', ''param_override'', ''header_override'']"
    by (simp add: cleared_fields_def Let_def)
  moreover have "distinct [''base_url'', ''openai_organization'', ''test_model'', ''tag'',
    ''remark'', ''model_mapping'', ''status_code_mapping'', ''param_override'', ''header_override'']" by code_simp
  ultimately show ?thesis by (simp only: distinct_js)
qed

lemma update_lookup:
  assumes "transformFormDataToUpdatePayload f i = Inr p" "buildSettingsJSON f = Inr text"
  defines "keyed \<equiv> f_key f \<noteq> [] \<and> trim (f_key f) \<noteq> []"
  shows "map_of p (js ''name'') = Some (if f_name f = [] then JNull else JStr (f_name f))"
    "map_of p (js ''type'') = Some (JNum (f_type f))"
    "map_of p (js ''models'') = Some (if f_models f = [] then JNull else JStr (f_models f))"
    "map_of p (js ''group'') = Some (if formatGroups (f_group f) = [] then JNull else JStr (formatGroups (f_group f)))"
    "map_of p (js ''priority'') = Some (number_default (f_priority f) 0)"
    "map_of p (js ''weight'') = Some (number_default (f_weight f) 0)"
    "map_of p (js ''auto_ban'') = Some (number_default (f_auto_ban f) 1)"
    "map_of p (js ''settings'') = Some (if text = [] then JNull else JStr text)"
    "map_of p (js ''setting'') = Some (if buildSettingJSON f = [] then JNull else JStr (buildSettingJSON f))"
    "map_of p (js ''other'') = Some (if str_or (f_other f) [] = [] then JNull else JStr (str_or (f_other f) []))"
    "map_of p (js ''status'') = None"
    "map_of p (js ''key'') = (if keyed then Some (JStr (f_key f)) else None)"
    "\<And>k v. map_of (cleared_fields f) k = Some v \<Longrightarrow> map_of p k = Some v"
proof -
  have e: "map_of p k = (case map_of (cleared_fields f) k of Some v \<Rightarrow> Some v | None \<Rightarrow>
      map_option (\<lambda>v. if v = JStr [] then JNull else v) (map_of ((if keyed then obj_set (js ''key'') (JStr (f_key f)) else id)
         [(js ''id'', JNum i), (js ''name'', JStr (f_name f)), (js ''type'', JNum (f_type f)),
          (js ''base_url'', or_null (Some (normalizeBaseUrl (f_base_url f)))), (js ''openai_organization'', or_null (f_openai_organization f)),
          (js ''models'', JStr (f_models f)), (js ''group'', JStr (formatGroups (f_group f))),
          (js ''model_mapping'', or_null (f_model_mapping f)), (js ''priority'', number_default (f_priority f) 0),
          (js ''weight'', number_default (f_weight f) 0), (js ''test_model'', or_null (f_test_model f)),
          (js ''auto_ban'', number_default (f_auto_ban f) 1),
          (js ''status_code_mapping'', or_null (f_status_code_mapping f)), (js ''tag'', or_null (f_tag f)),
          (js ''remark'', JStr (str_or (f_remark f) [])), (js ''setting'', JStr (buildSettingJSON f)),
          (js ''param_override'', or_null (f_param_override f)),
          (js ''header_override'', or_null (f_header_override f)), (js ''settings'', JStr text),
          (js ''other'', JStr (str_or (f_other f) []))]) k))"
    (is "_ = (case _ of Some v \<Rightarrow> Some v | None \<Rightarrow> map_option ?nul (map_of (?key ?fields) k))") for k
  proof -
    have "p = fold (\<lambda>(k, v). obj_set k v) (cleared_fields f) (empty_to_null (?key ?fields))"
      using assms(1) unfolding transformFormDataToUpdatePayload_def assms(2) Let_def keyed_def
      by (simp only: sum.case sum.inject if_distribR id_apply split: if_split)
    then show ?thesis
      by (simp only: map_of_fold_set writes_lookup [OF cleared_distinct] map_of_map_Some map_of_empty_to_null) (simp split: option.split)
  qed
  show "\<And>k v. map_of (cleared_fields f) k = Some v \<Longrightarrow> map_of p k = Some v" by (simp add: e)
  note ev = e cleared_fields_def Let_def map_of_obj_set js_inject number_default_def
  show "map_of p (js ''name'') = Some (if f_name f = [] then JNull else JStr (f_name f))" by (simp add: ev)
  show "map_of p (js ''type'') = Some (JNum (f_type f))" by (simp add: ev)
  show "map_of p (js ''models'') = Some (if f_models f = [] then JNull else JStr (f_models f))" by (simp add: ev)
  show "map_of p (js ''group'') = Some (if formatGroups (f_group f) = [] then JNull else JStr (formatGroups (f_group f)))" by (simp add: ev)
  show "map_of p (js ''priority'') = Some (number_default (f_priority f) 0)" by (simp add: ev)
  show "map_of p (js ''weight'') = Some (number_default (f_weight f) 0)" by (simp add: ev)
  show "map_of p (js ''auto_ban'') = Some (number_default (f_auto_ban f) 1)" by (simp add: ev)
  show "map_of p (js ''settings'') = Some (if text = [] then JNull else JStr text)" by (simp add: ev)
  show "map_of p (js ''setting'') = Some (if buildSettingJSON f = [] then JNull else JStr (buildSettingJSON f))" by (simp add: ev)
  show "map_of p (js ''other'') = Some (if str_or (f_other f) [] = [] then JNull else JStr (str_or (f_other f) []))" by (simp add: ev)
  show "map_of p (js ''status'') = None" by (simp add: ev)
  show "map_of p (js ''key'') = (if keyed then Some (JStr (f_key f)) else None)" by (simp add: ev keyed_def)
qed


lemma put_same: "distinct (map fst ps) \<Longrightarrow> map_of ps (js k) = kept_if c v \<Longrightarrow> put_or_delete c k v ps = ps"
  by (auto simp: put_or_delete_def kept_if_def obj_set_same obj_delete_absent split: if_splits)

lemma detected_fixed:
  "y = (case y of Some (JArr vs) \<Rightarrow> Some (JArr (if c then vs else [])) | _ \<Rightarrow> Some (JArr [])) \<Longrightarrow> \<exists>vs. y = Some (JArr vs) \<and> (c \<or> vs = [])"
proof (cases y)
  case (Some a)
  assume "y = (case y of Some (JArr vs) \<Rightarrow> Some (JArr (if c then vs else [])) | _ \<Rightarrow> Some (JArr []))"
  then show ?thesis unfolding Some by (cases a; cases c) simp_all
qed simp

lemma checked_fixed: "y = (case y of Some (JNum x) \<Rightarrow> Some (JNum x) | _ \<Rightarrow> Some (JNum z)) \<Longrightarrow> \<exists>x. y = Some (JNum x)"
proof (cases y)
  case (Some a)
  assume "y = (case y of Some (JNum x) \<Rightarrow> Some (JNum x) | _ \<Rightarrow> Some (JNum z))"
  then show ?thesis unfolding Some by (cases a) simp_all
qed simp

text \<open>Settings that agree with the tables are left alone.\<close>

lemma settings_fixed:
  assumes "distinct (map fst qs)" "\<And>k r. (k, r) \<in> set (provider_table f) \<Longrightarrow> map_of qs k = r"
    and "\<And>k r. (k, r) \<in> set (update_table f (map_of qs)) \<Longrightarrow> map_of qs k = r"
  shows "settings_members f qs = qs"
proof -
  have 1: "provider_settings f qs = qs"
    unfolding provider_settings_def Let_def using assms(2)
    by (simp add: provider_table_def put_same [OF assms(1)] of_type_def)
  have 2: "passthrough_settings f qs = qs"
    unfolding passthrough_puts using assms(2) by (simp add: provider_table_def put_same [OF assms(1)] of_type_def)
  have 3: "upstream_settings f qs = qs"
  proof (cases "of_type f MODEL_FETCHABLE_TYPES")
    case True
    then have t: "list_ex (\<lambda>n. num_eq (f_type f) (Fin n)) MODEL_FETCHABLE_TYPES" by (simp add: of_type_def)
    note u = assms(3) [unfolded update_table_def Let_def]
    have w: "map_of qs (js ''upstream_model_update_check_enabled'') = Some (JBool (f_upstream_model_update_check_enabled f = Some True))"
      "map_of qs (js ''upstream_model_update_auto_sync_enabled'')
        = Some (JBool (f_upstream_model_update_check_enabled f = Some True \<and> f_upstream_model_update_auto_sync_enabled f = Some True))"
      "map_of qs (js ''upstream_model_update_ignored_models'')
        = Some (JArr (map JStr (js_set (parse_list (str_or (f_upstream_model_update_ignored_models f) [])))))"
      by (rule u; simp add: True)+
    have d: "map_of qs (js ''upstream_model_update_last_detected_models'')
        = (case map_of qs (js ''upstream_model_update_last_detected_models'') of
             Some (JArr vs) \<Rightarrow> Some (JArr (if f_upstream_model_update_check_enabled f = Some True then vs else [])) | _ \<Rightarrow> Some (JArr []))"
      "map_of qs (js ''upstream_model_update_last_check_time'')
        = (case map_of qs (js ''upstream_model_update_last_check_time'') of Some (JNum x) \<Rightarrow> Some (JNum x) | _ \<Rightarrow> Some (JNum (Fin 0)))"
      by (rule u; simp add: True)+
    obtain vs where vs: "map_of qs (js ''upstream_model_update_last_detected_models'') = Some (JArr vs)"
      "f_upstream_model_update_check_enabled f = Some True \<or> vs = []"
      using detected_fixed [OF d(1)] by blast
    obtain x where x: "map_of qs (js ''upstream_model_update_last_check_time'') = Some (JNum x)"
      using checked_fixed [OF d(2)] by blast
    have "(if f_upstream_model_update_check_enabled f = Some True then qs
        else obj_set (js ''upstream_model_update_last_detected_models'') (JArr []) qs) = qs"
      using vs obj_set_same [OF assms(1) vs(1)] by auto
    then show ?thesis
      unfolding upstream_settings_def Let_def obj_set_same [OF assms(1) w(1)] obj_set_same [OF assms(1) w(2)]
        obj_set_same [OF assms(1) w(3)] vs(1) option.case json.case by (simp only: t x simp_thms if_False option.case json.case)
  qed (simp add: upstream_settings_def of_type_def)
  show ?thesis by (simp add: settings_members_def 1 2 3)
qed

lemma json_or_idem [simp]: "json_or (Some (json_or v d)) d = json_or v d"
  by (auto simp: json_or_def split: option.splits)

lemma parse_list_names: "parse_list s = parseModelsString s"
  by (auto simp: parse_list_def parseModelsString_def)

lemma parse_list_join: "parse_list (join [44] (js_set (parse_list s))) = js_set (parse_list s)"
  unfolding parse_list_names using parseModelsString_clean by (intro parse_join_clean) auto

lemma texts_joined: "json_to_string (JArr (map JStr xs)) = join [44] xs"
  by (simp add: comp_def)

text \<open>A form that was read from the settings \<open>qs\<close>, as far as they are concerned.\<close>

definition reads_settings :: "ChannelFormValues \<Rightarrow> json \<Rightarrow> bool" where
  "reads_settings f v \<longleftrightarrow>
     f_is_enterprise_account f = is_true_prop ''openrouter_enterprise'' v
     \<and> f_vertex_key_type f = prop_or ''vertex_key_type'' v (JStr (js ''json''))
     \<and> f_aws_key_type f = prop_or ''aws_key_type'' v (JStr (js ''ak_sk''))
     \<and> f_azure_responses_version f = prop_or ''azure_responses_version'' v (JStr [])
     \<and> f_allow_service_tier f = is_true_prop ''allow_service_tier'' v
     \<and> f_disable_store f = is_true_prop ''disable_store'' v
     \<and> f_allow_safety_identifier f = is_true_prop ''allow_safety_identifier'' v
     \<and> f_allow_include_obfuscation f = is_true_prop ''allow_include_obfuscation'' v
     \<and> f_allow_inference_geo f = is_true_prop ''allow_inference_geo'' v
     \<and> f_allow_speed f = is_true_prop ''allow_speed'' v
     \<and> f_claude_beta_query f = is_true_prop ''claude_beta_query'' v
     \<and> f_upstream_model_update_check_enabled f = is_true_prop ''upstream_model_update_check_enabled'' v
     \<and> f_upstream_model_update_auto_sync_enabled f = is_true_prop ''upstream_model_update_auto_sync_enabled'' v
     \<and> f_upstream_model_update_ignored_models f = Some (ignored_models_text v)"

lemma saved_setting_table:
  "(k, r) \<in> set (provider_table f @ update_table f m) \<Longrightarrow> saved_setting f m k = r"
  using map_of_eq_Some_iff [OF table_distinct, of f m k r] by (simp add: saved_setting_def)

lemma flag_again: "kept_if c (flag (Some (kept_if c (flag b) = Some (JBool True)))) = kept_if c (flag b)"
  by (auto simp: kept_if_def flag_def)

lemma or_again: "kept_if c (json_or (Some (json_or (kept_if c (json_or v d)) d)) d) = kept_if c (json_or v d)"
  by (auto simp: kept_if_def json_or_def split: option.splits)

lemma provider_reread:
  assumes "\<And>k r. (k, r) \<in> set (provider_table f) \<Longrightarrow> q k = r" "reads_settings g (JObj qs)" "f_type g = f_type f" "map_of qs = q"
  shows "provider_table g = provider_table f"
proof -
  have ty: "of_type g ns = of_type f ns" for ns by (simp add: of_type_def assms(3))
  have e: "q (js ''vertex_key_type'') = kept_if (of_type f [41]) (json_or (f_vertex_key_type f) (JStr (js ''json'')))"
    "q (js ''azure_responses_version'')
      = kept_if (of_type f [3] \<and> truthy (f_azure_responses_version f)) (json_or (f_azure_responses_version f) (JStr []))"
    "q (js ''openrouter_enterprise'') = kept_if (of_type f [20]) (flag (f_is_enterprise_account f))"
    "q (js ''aws_key_type'') = kept_if (of_type f [33]) (json_or (f_aws_key_type f) (JStr (js ''ak_sk'')))"
    "q (js ''allow_service_tier'') = kept_if (of_type f [1, 14]) (flag (f_allow_service_tier f))"
    "q (js ''disable_store'') = kept_if (of_type f [1]) (flag (f_disable_store f))"
    "q (js ''allow_safety_identifier'') = kept_if (of_type f [1]) (flag (f_allow_safety_identifier f))"
    "q (js ''allow_include_obfuscation'') = kept_if (of_type f [1]) (flag (f_allow_include_obfuscation f))"
    "q (js ''allow_inference_geo'') = kept_if (of_type f [1, 14]) (flag (f_allow_inference_geo f))"
    "q (js ''allow_speed'') = kept_if (of_type f [14]) (flag (f_allow_speed f))"
    "q (js ''claude_beta_query'') = kept_if (of_type f [14]) (flag (f_claude_beta_query f))"
    by (rule assms(1); simp add: provider_table_def)+
  have az: "kept_if (t \<and> truthy (Some (json_or (kept_if (t \<and> truthy v) (json_or v (JStr []))) (JStr []))))
      (json_or (Some (json_or (kept_if (t \<and> truthy v) (json_or v (JStr []))) (JStr []))) (JStr []))
    = kept_if (t \<and> truthy v) (json_or v (JStr []))" for t v
    by (cases v) (auto simp: kept_if_def json_or_def)
  show ?thesis
    using assms(2) unfolding reads_settings_def provider_table_def ty is_true_prop_def prop_or_def get_prop_simps assms(4)
    by (simp only: e flag_again or_again az)
qed

lemma update_reread:
  assumes "\<And>k r. (k, r) \<in> set (update_table f m) \<Longrightarrow> q k = r" "reads_settings g (JObj qs)" "f_type g = f_type f" "map_of qs = q"
  shows "update_table g q = update_table f m"
proof (cases "of_type f MODEL_FETCHABLE_TYPES")
  case True
  have g: "of_type g MODEL_FETCHABLE_TYPES" using True by (simp add: of_type_def assms(3))
  define check where "check = (f_upstream_model_update_check_enabled f = Some True)"
  define xs where "xs = js_set (parse_list (str_or (f_upstream_model_update_ignored_models f) []))"
  note u = assms(1) [unfolded update_table_def Let_def]
  have e: "q (js ''upstream_model_update_check_enabled'') = Some (JBool check)"
    "q (js ''upstream_model_update_auto_sync_enabled'') = Some (JBool (check \<and> f_upstream_model_update_auto_sync_enabled f = Some True))"
    "q (js ''upstream_model_update_ignored_models'') = Some (JArr (map JStr xs))"
    "q (js ''upstream_model_update_last_detected_models'')
      = (case m (js ''upstream_model_update_last_detected_models'') of Some (JArr vs) \<Rightarrow> Some (JArr (if check then vs else [])) | _ \<Rightarrow> Some (JArr []))"
    "q (js ''upstream_model_update_last_check_time'')
      = (case m (js ''upstream_model_update_last_check_time'') of Some (JNum x) \<Rightarrow> Some (JNum x) | _ \<Rightarrow> Some (JNum (Fin 0)))"
    unfolding check_def xs_def by (rule u; simp add: True)+
  have r: "f_upstream_model_update_check_enabled g = Some check"
    "f_upstream_model_update_auto_sync_enabled g = Some (check \<and> f_upstream_model_update_auto_sync_enabled f = Some True)"
    "f_upstream_model_update_ignored_models g = Some (join [44] xs)"
    using assms(2) e(1-3) by (simp_all add: reads_settings_def is_true_prop_def ignored_models_text_def assms(4) texts_joined comp_def)
  have i: "js_set (parse_list (str_or (Some (join [44] xs)) [])) = xs"
    using parse_list_join [of "str_or (f_upstream_model_update_ignored_models f) []"] by (auto simp: xs_def str_or_def)
  have d: "(case (case y of Some (JArr vs) \<Rightarrow> Some (JArr (if check then vs else [])) | _ \<Rightarrow> Some (JArr [])) of
      Some (JArr vs) \<Rightarrow> Some (JArr (if check then vs else [])) | _ \<Rightarrow> Some (JArr []))
    = (case y of Some (JArr vs) \<Rightarrow> Some (JArr (if check then vs else [])) | _ \<Rightarrow> Some (JArr []))" for y
    by (simp split: option.split json.split)
  have t: "(case (case y of Some (JNum x) \<Rightarrow> Some (JNum x) | _ \<Rightarrow> Some (JNum (Fin 0))) of
      Some (JNum x) \<Rightarrow> Some (JNum x) | _ \<Rightarrow> Some (JNum (Fin 0))) = (case y of Some (JNum x) \<Rightarrow> Some (JNum x) | _ \<Rightarrow> Some (JNum (Fin 0)))" for y
    by (simp split: option.split json.split)
  have sc: "(Some check = Some True) = check" by simp
  show ?thesis
    unfolding update_table_def Let_def r i e(4,5) check_def [symmetric] xs_def [symmetric] sc d t by (simp add: True g)
next
  case False
  then show ?thesis by (simp add: update_table_def of_type_def assms(3))
qed

lemma settings_reread:
  assumes "map_of qs = saved_setting f (map_of ps)" "distinct (map fst qs)" "reads_settings g (JObj qs)" "f_type g = f_type f"
  shows "settings_members g qs = qs"
proof (rule settings_fixed [OF assms(2)])
  have look: "map_of qs k = r" if "(k, r) \<in> set (provider_table f) \<or> (k, r) \<in> set (update_table f (map_of ps))" for k r
    using saved_setting_table [of k r f "map_of ps"] that by (auto simp: assms(1))
  have "provider_table g = provider_table f" using look by (intro provider_reread [OF _ assms(3,4) refl]) blast
  then show "map_of qs k = r" if "(k, r) \<in> set (provider_table g)" for k r using that look by simp
  have "update_table g (map_of qs) = update_table f (map_of ps)" using look by (intro update_reread [OF _ assms(3,4) refl]) blast
  then show "map_of qs k = r" if "(k, r) \<in> set (update_table g (map_of qs))" for k r using that look by simp
qed


text \<open>What a form opened from a channel holds.\<close>

lemma opened:
  assumes "transformChannelToFormDefaults ch = Inr f"
  shows "f_name f = c_name ch" "f_type f = c_type ch" "f_key f = []" "f_models f = c_models ch"
    "f_group f = parseGroups (if c_group ch = [] then js ''default'' else c_group ch)"
    "f_priority f = Some (number_or_zero (c_priority ch))" "f_weight f = Some (number_or_zero (c_weight ch))"
    "f_auto_ban f = Some (case c_auto_ban ch of Some (Some x) \<Rightarrow> x | _ \<Rightarrow> Fin 1)"
    "f_other f = Some (c_other ch)" "f_remark f = Some (c_remark ch)"
    "f_base_url f = Some (text_or (c_base_url ch) [])" "f_openai_organization f = Some (text_or (c_openai_organization ch) [])"
    "f_model_mapping f = Some (text_or (c_model_mapping ch) [])" "f_test_model f = Some (text_or (c_test_model ch) [])"
    "f_status_code_mapping f = Some (text_or (c_status_code_mapping ch) [])" "f_tag f = Some (text_or (c_tag ch) [])"
    "f_param_override f = Some (text_or (c_param_override ch) [])" "f_header_override f = Some (text_or (c_header_override ch) [])"
    "f_settings f = Some (if c_settings ch = [] then js ''{}'' else c_settings ch)"
    "reads_settings f (settings_value (c_settings ch))"
    "let v = settings_value (text_or (c_setting ch) [])
     in f_force_format f = prop_or ''force_format'' v (JBool False)
        \<and> f_thinking_to_content f = prop_or ''thinking_to_content'' v (JBool False)
        \<and> f_proxy f = prop_or ''proxy'' v (JStr [])
        \<and> f_pass_through_body_enabled f = prop_or ''pass_through_body_enabled'' v (JBool False)
        \<and> f_system_prompt f = prop_or ''system_prompt'' v (JStr [])
        \<and> f_system_prompt_override f = prop_or ''system_prompt_override'' v (JBool False)"
    "c_channel_info ch \<noteq> None"
proof -
  obtain info where i: "c_channel_info ch = Some info"
    using assms by (cases "c_channel_info ch") (simp_all add: transformChannelToFormDefaults_def)
  note f = assms [unfolded transformChannelToFormDefaults_def i option.case Let_def, THEN sum.inject(2) [THEN iffD1], symmetric]
  show "c_channel_info ch \<noteq> None" by (simp add: i)
  show "f_name f = c_name ch" "f_type f = c_type ch" "f_key f = []" "f_models f = c_models ch"
    "f_group f = parseGroups (if c_group ch = [] then js ''default'' else c_group ch)"
    "f_priority f = Some (number_or_zero (c_priority ch))" "f_weight f = Some (number_or_zero (c_weight ch))"
    "f_auto_ban f = Some (case c_auto_ban ch of Some (Some x) \<Rightarrow> x | _ \<Rightarrow> Fin 1)"
    "f_other f = Some (c_other ch)" "f_remark f = Some (c_remark ch)"
    "f_base_url f = Some (text_or (c_base_url ch) [])" "f_openai_organization f = Some (text_or (c_openai_organization ch) [])"
    "f_model_mapping f = Some (text_or (c_model_mapping ch) [])" "f_test_model f = Some (text_or (c_test_model ch) [])"
    "f_status_code_mapping f = Some (text_or (c_status_code_mapping ch) [])" "f_tag f = Some (text_or (c_tag ch) [])"
    "f_param_override f = Some (text_or (c_param_override ch) [])" "f_header_override f = Some (text_or (c_header_override ch) [])"
    "f_settings f = Some (if c_settings ch = [] then js ''{}'' else c_settings ch)"
    "reads_settings f (settings_value (c_settings ch))"
    "let v = settings_value (text_or (c_setting ch) [])
     in f_force_format f = prop_or ''force_format'' v (JBool False)
        \<and> f_thinking_to_content f = prop_or ''thinking_to_content'' v (JBool False)
        \<and> f_proxy f = prop_or ''proxy'' v (JStr [])
        \<and> f_pass_through_body_enabled f = prop_or ''pass_through_body_enabled'' v (JBool False)
        \<and> f_system_prompt f = prop_or ''system_prompt'' v (JStr [])
        \<and> f_system_prompt_override f = prop_or ''system_prompt_override'' v (JBool False)"
    by (simp_all only: f Let_def reads_settings_def ChannelFormValues.simps simp_thms)
qed

lemma update_cong:
  assumes "buildSettingsJSON g = buildSettingsJSON f" "setting_members g = setting_members f"
    "normalizeBaseUrl (f_base_url g) = normalizeBaseUrl (f_base_url f)"
    "f_name g = f_name f" "f_type g = f_type f" "f_key g = f_key f" "f_models g = f_models f" "f_group g = f_group f"
    "f_priority g = f_priority f" "f_weight g = f_weight f" "f_auto_ban g = f_auto_ban f" "f_other g = f_other f"
    "f_remark g = f_remark f" "f_openai_organization g = f_openai_organization f" "f_model_mapping g = f_model_mapping f"
    "f_test_model g = f_test_model f" "f_status_code_mapping g = f_status_code_mapping f" "f_tag g = f_tag f"
    "f_param_override g = f_param_override f" "f_header_override g = f_header_override f"
  shows "transformFormDataToUpdatePayload g i = transformFormDataToUpdatePayload f i"
  unfolding transformFormDataToUpdatePayload_def cleared_fields_def buildSettingJSON_def assms by (rule refl)


lemma opens: "c_channel_info ch \<noteq> None \<Longrightarrow> \<exists>f. transformChannelToFormDefaults ch = Inr f"
  by (auto simp: transformChannelToFormDefaults_def Let_def)

lemma units_join: "units sep \<Longrightarrow> list_all units ss \<Longrightarrow> units (join sep ss)"
  by (induction ss rule: induct_list012) (auto simp: units_def)

lemma units_to_string: "json_ok v \<Longrightarrow> units (json_to_string v)"
proof (induction v)
  case (JNum x)
  then have "pnumber (num_to_string x) = Some (x, [])" by (simp add: num_ok_def)
  then have "num_text (num_to_string x)" using pnumber_text by fastforce
  then show ?case by (auto simp: num_text_def units_def list_all_iff is_digit_def)
next
  case (JArr vs)
  then show ?case unfolding json_to_string.simps by (intro units_join) (auto simp: list_all_iff units_def)
qed (auto simp: units_js)

lemma prop_or_ok: "json_ok v \<Longrightarrow> json_ok d \<Longrightarrow> (case prop_or k v d of None \<Rightarrow> True | Some w \<Rightarrow> json_ok w)"
  by (cases v) (auto simp: prop_or_def json_or_def list_all_iff split: option.splits dest!: map_of_SomeD)

lemma opened_ok:
  assumes "transformChannelToFormDefaults ch = Inr f"
    and "json_ok (settings_value (c_settings ch))" "json_ok (settings_value (text_or (c_setting ch) []))"
  shows "form_ok f"
proof -
  note o = opened(20,21) [OF assms(1), unfolded reads_settings_def Let_def]
  note u = units_js [of "''json''"] units_js [of "''ak_sk''"]
  have n: "units []" by (simp add: units_def)
  have "units (ignored_models_text (settings_value (c_settings ch)))"
    using assms(2) units_to_string n
    by (cases "settings_value (c_settings ch)")
      (fastforce simp: ignored_models_text_def list_all_iff split: option.splits json.splits dest!: map_of_SomeD)+
  moreover have "str_or (Some s) [] = s" for s by (simp add: str_or_def)
  moreover have "json_ok (JStr (js ''json''))" "json_ok (JStr (js ''ak_sk''))" "json_ok (JStr [])" "json_ok (JBool False)"
    using u n by simp_all
  ultimately show ?thesis using o prop_or_ok [OF assms(2)] prop_or_ok [OF assms(3)]
    by (simp only: form_ok_def list.pred_inject simp_thms)
qed

lemma stringify_object: "json_stringify (JObj ps) \<noteq> []"
  by (simp add: json_stringify_def bracket_def)

lemma settings_value_text: "obj_ok ps \<Longrightarrow> settings_value (json_stringify (JObj ps)) = JObj ps"
  by (simp add: settings_value_def stringify_object parse_obj_ok)

lemma setting_members_ok: "form_ok f \<Longrightarrow> obj_ok (setting_members f)"
proof -
  assume f: "form_ok f"
  have "units []" by (simp add: units_def)
  then have v: "\<forall>(k, v)\<in>set (setting_members f). json_ok v"
    using f by (auto simp: setting_members_def form_ok_def intro!: json_or_ok)
  have names: "map fst (setting_members f) = map js [''force_format'', ''thinking_to_content'', ''proxy'', ''pass_through_body_enabled'',
    ''system_prompt'', ''system_prompt_override'']" by (simp add: setting_members_def)
  have "distinct [''force_format'', ''thinking_to_content'', ''proxy'', ''pass_through_body_enabled'', ''system_prompt'',
    ''system_prompt_override'']" by code_simp
  moreover have "\<not> is_index k" if "k \<in> set (map fst (setting_members f))" for k
    using that unfolding names by (auto simp: is_index_def all_digits_def js_str is_digit_def)
  ultimately have "canonical (setting_members f)"
    unfolding canonical_def by (simp only: names distinct_js no_index_sorted simp_thms)
  moreover have "units k" if "(k, v) \<in> set (setting_members f)" for k v
    using that by (auto simp: setting_members_def units_js)
  ultimately show ?thesis using v by (auto simp: obj_ok_iff)
qed

lemma setting_reread:
  assumes "let v = JObj (setting_members f)
     in f_force_format g = prop_or ''force_format'' v (JBool False)
        \<and> f_thinking_to_content g = prop_or ''thinking_to_content'' v (JBool False)
        \<and> f_proxy g = prop_or ''proxy'' v (JStr [])
        \<and> f_pass_through_body_enabled g = prop_or ''pass_through_body_enabled'' v (JBool False)
        \<and> f_system_prompt g = prop_or ''system_prompt'' v (JStr [])
        \<and> f_system_prompt_override g = prop_or ''system_prompt_override'' v (JBool False)"
  shows "setting_members g = setting_members f"
  using assms by (simp add: setting_members_def prop_or_def js_inject)

lemma groups_reread:
  assumes "g = parseGroups (if c = [] then js ''default'' else c)" "c' = (if formatGroups g = [] then c else formatGroups g)"
  shows "parseGroups (if c' = [] then js ''default'' else c') = g"
proof -
  have n: "parseGroups s = parseModelsString s" for s by (simp add: parseGroups_def parse_list_names) (simp add: parseModelsString_def)
  have clean: "m \<in> set g \<Longrightarrow> clean_name m" for m using assms(1) parseModelsString_clean by (simp add: n)
  show ?thesis
  proof (cases "g = []")
    case False
    then have "join [44] g \<noteq> []" using join_clean_not_Nil clean by blast
    then show ?thesis using parse_join_clean [of g] clean by (simp add: assms(2) formatGroups_def n)
  qed (use assms in \<open>auto simp: formatGroups_def split: if_splits\<close>)
qed


lemma stored_fields:
  assumes "transformChannelToFormDefaults ch = Inr f" "transformFormDataToUpdatePayload f i = Inr p" "buildSettingsJSON f = Inr text" "text \<noteq> []"
  defines "ch' \<equiv> stored p ch"
  shows "c_name ch' = c_name ch" "c_type ch' = c_type ch" "c_models ch' = c_models ch" "c_other ch' = c_other ch" "c_remark ch' = c_remark ch"
    "c_group ch' = (if formatGroups (f_group f) = [] then c_group ch else formatGroups (f_group f))"
    "c_priority ch' = Some (f_priority f)" "c_weight ch' = Some (f_weight f)" "c_auto_ban ch' = Some (f_auto_ban f)"
    "c_base_url ch' = Some (Some (normalizeBaseUrl (f_base_url f)))"
    "c_openai_organization ch' = Some (f_openai_organization f)" "c_model_mapping ch' = Some (f_model_mapping f)"
    "c_test_model ch' = Some (f_test_model f)" "c_status_code_mapping ch' = Some (f_status_code_mapping f)" "c_tag ch' = Some (f_tag f)"
    "c_param_override ch' = Some (f_param_override f)" "c_header_override ch' = Some (f_header_override f)"
    "c_settings ch' = text" "c_setting ch' = Some (Some (buildSettingJSON f))" "c_channel_info ch' = c_channel_info ch"
proof -
  note l = update_lookup [OF assms(2,3)] and o = opened [OF assms(1)]
  have so: "str_or (Some s) [] = s" for s by (simp add: str_or_def)
  have sb: "buildSettingJSON f \<noteq> []" by (simp add: buildSettingJSON_def stringify_object)
  note c = l(13) [unfolded cleared_fields_def Let_def]
  have m: "map_of p (js ''base_url'') = Some (JStr (normalizeBaseUrl (f_base_url f)))"
    "map_of p (js ''openai_organization'') = Some (JStr (str_or (f_openai_organization f) []))"
    "map_of p (js ''test_model'') = Some (JStr (str_or (f_test_model f) []))" "map_of p (js ''tag'') = Some (JStr (str_or (f_tag f) []))"
    "map_of p (js ''remark'') = Some (JStr (str_or (f_remark f) []))"
    "map_of p (js ''model_mapping'') = Some (JStr (str_or (f_model_mapping f) []))"
    "map_of p (js ''status_code_mapping'') = Some (JStr (str_or (f_status_code_mapping f) []))"
    "map_of p (js ''param_override'') = Some (JStr (str_or (f_param_override f) []))"
    "map_of p (js ''header_override'') = Some (JStr (str_or (f_header_override f) []))"
    by (rule c; simp add: js_inject)+
  show "c_name ch' = c_name ch" "c_type ch' = c_type ch" "c_models ch' = c_models ch" "c_other ch' = c_other ch" "c_remark ch' = c_remark ch"
    using o(1,2,4,9,10) by (simp_all add: ch'_def stored_def sent_text_def l m so)
  show "c_group ch' = (if formatGroups (f_group f) = [] then c_group ch else formatGroups (f_group f))"
    by (simp add: ch'_def stored_def sent_text_def l)
  show "c_priority ch' = Some (f_priority f)" "c_weight ch' = Some (f_weight f)" "c_auto_ban ch' = Some (f_auto_ban f)"
    using o(6,7,8) by (simp_all add: ch'_def stored_def sent_number_def l number_default_def)
  show "c_base_url ch' = Some (Some (normalizeBaseUrl (f_base_url f)))"
    "c_openai_organization ch' = Some (f_openai_organization f)" "c_model_mapping ch' = Some (f_model_mapping f)"
    "c_test_model ch' = Some (f_test_model f)" "c_status_code_mapping ch' = Some (f_status_code_mapping f)" "c_tag ch' = Some (f_tag f)"
    "c_param_override ch' = Some (f_param_override f)" "c_header_override ch' = Some (f_header_override f)"
    using o(11-18) by (simp_all add: ch'_def stored_def sent_nullable_def m so)
  show "c_settings ch' = text" "c_setting ch' = Some (Some (buildSettingJSON f))" "c_channel_info ch' = c_channel_info ch"
    using assms(4) sb by (simp_all add: ch'_def stored_def sent_text_def sent_nullable_def l)
qed

lemma text_or_Some: "text_or (Some (Some s)) [] = s" "text_or (Some (Some (text_or v []))) [] = text_or v []"
  by (simp_all add: text_or_def)

lemma number_or_zero_idem: "number_or_zero (Some (Some (number_or_zero v))) = number_or_zero v"
  by (auto simp: number_or_zero_def split: option.split)

lemma normalize_again:
  assumes "trim (normalizeBaseUrl v) = normalizeBaseUrl v"
  shows "normalizeBaseUrl (Some (normalizeBaseUrl v)) = normalizeBaseUrl v"
proof -
  have "dropWhile (\<lambda>c. c = 47) (dropWhile (\<lambda>c. c = 47) xs) = dropWhile (\<lambda>c. c = 47) xs" for xs :: jstring
    by (simp add: dropWhile_idem)
  then have "rev (dropWhile (\<lambda>c. c = 47) (rev (normalizeBaseUrl v))) = normalizeBaseUrl v" by (simp add: normalizeBaseUrl_def)
  moreover have "str_or (Some s) [] = s" for s by (simp add: str_or_def)
  ultimately show ?thesis using assms by (simp add: normalizeBaseUrl_def [of "Some _"])
qed

text \<open>C13: saving is stable. A channel is opened in the form and saved unchanged; when the stored channel is opened and saved
  again, the same update is sent. The hypotheses: the settings texts are what the form accepts and JSON carries,
  and no blank stands before the slashes at the end of the base URL.\<close>

theorem channel_save_stable:
  assumes f: "transformChannelToFormDefaults ch = Inr f" and p: "transformFormDataToUpdatePayload f i = Inr p"
    and s: "isOptionalJsonObject (f_settings f)" "json_ok (settings_value (c_settings ch))"
      "json_ok (settings_value (text_or (c_setting ch) []))"
    and url: "trim (normalizeBaseUrl (f_base_url f)) = normalizeBaseUrl (f_base_url f)"
  shows "\<exists>g. transformChannelToFormDefaults (stored p ch) = Inr g \<and> transformFormDataToUpdatePayload g i = Inr p"
proof -
  note o = opened [OF f]
  have so: "str_or (Some t) [] = t" for t by (simp add: str_or_def)
  have empty: "settings_value (js ''{}'') = JObj []" by code_simp
  have v: "settings_value (str_or (f_settings f) []) = settings_value (c_settings ch)"
    using o(19) empty by (simp add: so settings_value_def [of "[]"])
  obtain ps where ps: "settings_value (c_settings ch) = JObj ps" using optional_object [OF s(1)] v by metis
  have ok: "form_ok f" by (rule opened_ok [OF f s(2,3)])
  define qs where "qs = settings_members f ps"
  have q: "obj_ok qs" using settings_members_ok [OF _ ok] s(2) ps by (simp add: qs_def obj_ok_def)
  have b: "buildSettingsJSON f = Inr (json_stringify (JObj qs))" by (simp add: buildSettingsJSON_def v ps qs_def)
  note st = stored_fields [OF f p b stringify_object]
  obtain g where g: "transformChannelToFormDefaults (stored p ch) = Inr g" using opens st(20) o(22) by metis
  note og = opened [OF g]
  have rs: "reads_settings g (JObj qs)" using og(20) by (simp add: st settings_value_text [OF q])
  have ty: "f_type g = f_type f" by (simp add: og o st)
  have "settings_members g qs = qs"
    by (rule settings_reread [OF _ _ rs ty, of ps]) (use q map_of_settings in \<open>auto simp: qs_def obj_ok_iff canonical_def\<close>)
  then have bg: "buildSettingsJSON g = buildSettingsJSON f"
    unfolding b by (simp add: buildSettingsJSON_def og(19) so st stringify_object settings_value_text [OF q])
  have "setting_members g = setting_members f"
    using og(21) by (intro setting_reread)
      (simp only: st text_or_Some buildSettingJSON_def settings_value_text [OF setting_members_ok [OF ok]])
  moreover have "f_group g = f_group f" using groups_reread [OF o(5) st(6)] by (simp add: og)
  moreover have "normalizeBaseUrl (f_base_url g) = normalizeBaseUrl (f_base_url f)"
    using normalize_again [OF url] by (simp add: og(11) st text_or_Some)
  ultimately have "transformFormDataToUpdatePayload g i = transformFormDataToUpdatePayload f i"
    using bg ty by (intro update_cong) (simp_all add: og o st text_or_Some number_or_zero_idem)
  then show ?thesis using g p by auto
qed


text \<open>C26: an update never carries a status, which the server refuses in it, and carries a key exactly when one was typed; a form
  opened from a channel sends none.\<close>

theorem update_never_leaks:
  assumes "transformFormDataToUpdatePayload f i = Inr p"
  shows "map_of p (js ''status'') = None
    \<and> map_of p (js ''key'') = (if trim (f_key f) \<noteq> [] then Some (JStr (f_key f)) else None)
    \<and> (\<forall>ch. transformChannelToFormDefaults ch = Inr f \<longrightarrow> map_of p (js ''key'') = None)"
proof -
  obtain t where b: "buildSettingsJSON f = Inr t"
    using assms by (auto simp: transformFormDataToUpdatePayload_def split: sum.splits)
  show ?thesis using update_lookup(11,12) [OF assms b] opened(3) by auto
qed

section \<open>Two checks of status code mappings\<close>

lemma to_number_code:
  assumes "is_code_text (trim s)"
  shows "to_number s = Fin (of_nat (read_nat (trim s)))" "100 \<le> read_nat (trim s)" "read_nat (trim s) \<le> 599"
proof -
  obtain a b c where t: "trim s = [a, b, c]" and d: "49 \<le> a" "a \<le> 53" "is_digit b" "is_digit c"
    using assms by (auto simp: is_code_text_def length_Suc_conv numeral_3_eq_3)
  have dig: "pdigits [a, b, c] = ([a, b, c], [])" using d by (simp add: pdigits_def is_digit_def)
  define n where "n = read_nat [a, b, c]"
  have n: "n = (a - 48) * 100 + (b - 48) * 10 + (c - 48)" by (simp add: n_def read_nat_def)
  then have "100 \<le> n" "n \<le> 599" using d by (auto simp: is_digit_def)
  moreover have "unsigned_decimal [a, b, c] = Some (of_nat n)"
    by (simp add: unsigned_decimal_def dig pexp_def read_nat_def [of "[]"] pow10_def n_def)
  moreover have "js_round (of_nat n) = Fin (of_nat n)" using \<open>n \<le> 599\<close> by (intro js_round_of_nat_exact) simp
  ultimately show "to_number s = Fin (of_nat (read_nat (trim s)))" "100 \<le> read_nat (trim s)" "read_nat (trim s) \<le> 599"
    using d by (auto simp: to_number_def t decimal_number_def js_str n_def [symmetric])
qed

lemma http_code_nat: "100 \<le> n \<Longrightarrow> n \<le> 599 \<Longrightarrow> http_code (Fin (of_nat n))"
proof -
  assume n: "100 \<le> n" "n \<le> 599"
  then have "(100 :: rat) \<le> of_nat n" "of_nat n \<le> (599 :: rat)"
    using of_nat_mono [OF n(1), where 'a = rat] of_nat_mono [OF n(2), where 'a = rat] by simp_all
  then show ?thesis by (auto simp: http_code_def num_is_integer_def num_le_def num_eq_def)
qed

lemma entry_accepted:
  assumes "parseStatusCodeKey k \<noteq> None" "parseStatusCodeMappingTarget v \<noteq> None"
  shows "http_code (to_number k) \<and> http_code (number_of v)"
proof
  have "is_code_text (trim k)" using assms(1) by (auto simp: parseStatusCodeKey_def Let_def split: if_splits)
  then show "http_code (to_number k)" using to_number_code [of k] http_code_nat by simp
  show "http_code (number_of v)"
  proof (cases v)
    case (JNum x)
    then show ?thesis using assms(2)
      by (cases x) (auto simp: parseStatusCodeMappingTarget_def number_of_def http_code_def num_le_def num_eq_def split: if_splits)
  next
    case (JStr t)
    then have "is_code_text (trim t)"
      using assms(2) by (auto simp: parseStatusCodeMappingTarget_def Let_def split: if_splits)
    then show ?thesis using to_number_code [of t] http_code_nat by (simp add: number_of_def JStr)
  qed (use assms(2) in \<open>simp_all add: parseStatusCodeMappingTarget_def\<close>)
qed

text \<open>C27: the check of the form is no stricter than the guard on risky redirects: a status code mapping in which the guard finds no
  invalid entry passes the check of the form.\<close>

theorem guard_accepts_form_accepts:
  assumes "isOptionalJsonObject (Some s)" "collectInvalidStatusCodeEntries s = []"
  shows "isOptionalStatusCodeMapping (Some s)"
proof (cases "trim s = []")
  case True
  then show ?thesis by (simp add: isOptionalStatusCodeMapping_def optional_json_def parseOptionalJson_def)
next
  case False
  then obtain ps where ps: "json_parse s = Some (JObj ps)"
    using assms(1) by (auto simp: isOptionalJsonObject_def optional_json_def parseOptionalJson_def isJsonObjectValue_def
        split: option.splits json.splits)
  have "parseStatusCodeKey k \<noteq> None \<and> parseStatusCodeMappingTarget v \<noteq> None" if "(k, v) \<in> set ps" for k v
    using assms(2) False that
    by (fastforce simp: collectInvalidStatusCodeEntries_def parsed_object_def ps filter_empty_conv)
  then have "http_code (to_number k) \<and> http_code (number_of v)" if "(k, v) \<in> set ps" for k v using that entry_accepted by blast
  then show ?thesis
    by (auto simp: isOptionalStatusCodeMapping_def optional_json_def parseOptionalJson_def False ps list_all_iff)
qed

text \<open>The converse fails: the form reads the codes as numbers in any notation, which the guard and the server do not.\<close>

definition one_entry :: "string \<Rightarrow> string \<Rightarrow> jstring" where
  "one_entry k v = js ''{'' @ [34] @ js k @ [34] @ js '':'' @ [34] @ js v @ [34] @ js ''}''"

theorem form_accepts_exponent:
  "isOptionalStatusCodeMapping (Some (one_entry ''4e2'' ''500'')) \<and> collectInvalidStatusCodeEntries (one_entry ''4e2'' ''500'') \<noteq> []"
proof -
  have p: "json_parse (one_entry ''4e2'' ''500'') = Some (JObj [(js ''4e2'', JStr (js ''500''))])"
    "trim (one_entry ''4e2'' ''500'') \<noteq> []" "trim (js ''4e2'') = js ''4e2''" "is_code_text (trim (js ''500''))"
    "parseStatusCodeKey (js ''4e2'') = None" by code_simp+
  have "unsigned_decimal (js ''4e2'') = Some (of_nat 400)"
    by (simp add: unsigned_decimal_def js_str pdigits_def is_digit_def pexp_def read_nat_def pow10_def)
  moreover have "js_round (of_nat 400) = Fin (of_nat 400)" by (rule js_round_of_nat_exact) simp
  ultimately have "to_number (js ''4e2'') = Fin (of_nat 400)"
    by (simp add: to_number_def p(3), simp add: js_str radix_of_def decimal_number_def)
  then have "http_code (to_number (js ''4e2''))" using http_code_nat [of 400] by simp
  moreover have "http_code (to_number (js ''500''))" using to_number_code [OF p(4)] http_code_nat by simp
  ultimately show ?thesis
    by (simp add: isOptionalStatusCodeMapping_def optional_json_def parseOptionalJson_def p number_of_def
        collectInvalidStatusCodeEntries_def parsed_object_def)
qed

text \<open>A blank before the slashes at the end of a base URL survives the first save and is cut at the second.\<close>

theorem base_url_not_stable:
  "normalizeBaseUrl (Some (normalizeBaseUrl (Some (js ''http://a /'')))) \<noteq> normalizeBaseUrl (Some (js ''http://a /''))"
  by code_simp

section \<open>An example\<close>

definition sample_channel :: Channel where
  "sample_channel = \<lparr>c_id = Fin 7, c_type = Fin 14, c_key = js ''sk'', c_openai_organization = None, c_test_model = Some None,
     c_status = Fin 1, c_name = js ''claude'', c_weight = None, c_created_time = Fin 0, c_test_time = Fin 0, c_response_time = Fin 0,
     c_base_url = Some (Some (js ''https://api.example.com//'')), c_other = [], c_balance = Fin 0, c_balance_updated_time = Fin 0,
     c_models = js ''claude-3'', c_group = js ''default,vip'', c_used_quota = Fin 0, c_model_mapping = None,
     c_status_code_mapping = None, c_priority = Some (Some (Fin 3)), c_auto_ban = None, c_other_info = [], c_tag = None,
     c_setting = Some (Some (js ''{'' @ [34] @ js ''proxy'' @ [34] @ js '':'' @ [34] @ js ''p'' @ [34] @ js ''}'')),
     c_param_override = None, c_header_override = None, c_remark = [], c_max_input_tokens = Fin 0,
     c_channel_info = Some \<lparr>is_multi_key = False, multi_key_size = Fin 0, multi_key_status_list = None, multi_key_disabled_reason = None,
       multi_key_disabled_time = None, multi_key_polling_index = Fin 0, multi_key_mode = js ''random''\<rparr>,
     c_settings = js ''{'' @ [34] @ js ''allow_speed'' @ [34] @ js '':true,'' @ [34] @ js ''custom'' @ [34] @ js '':null}''\<rparr>"

definition sample_form :: ChannelFormValues where
  "sample_form = projr (transformChannelToFormDefaults sample_channel)"

lemma sample_open: "transformChannelToFormDefaults sample_channel = Inr sample_form"
  by (simp add: sample_form_def transformChannelToFormDefaults_def sample_channel_def Let_def)

lemma sample_texts:
  "settings_value (c_settings sample_channel) = JObj [(js ''allow_speed'', JBool True), (js ''custom'', JNull)]"
  "settings_value (text_or (c_setting sample_channel) []) = JObj [(js ''proxy'', JStr (js ''p''))]"
  "f_settings sample_form = Some (c_settings sample_channel)"
  "isOptionalJsonObject (f_settings sample_form)" "f_key sample_form = []"
  "trim (normalizeBaseUrl (f_base_url sample_form)) = normalizeBaseUrl (f_base_url sample_form)"
  by code_simp+

lemma sample_json_ok: "json_ok (settings_value (c_settings sample_channel))" "json_ok (settings_value (text_or (c_setting sample_channel) []))"
  unfolding sample_texts by (simp_all add: units_js obj_of_members_def obj_set_def is_index_def all_digits_def js_str is_digit_def units_def)

theorem settings_saved_exact_witness:
  "\<exists>text qs. buildSettingsJSON sample_form = Inr text \<and> json_parse text = Some (JObj qs)
    \<and> map_of qs (js ''allow_speed'') = Some (JBool True) \<and> map_of qs (js ''custom'') = Some JNull
    \<and> map_of qs (js ''vertex_key_type'') = None"
proof -
  have v: "settings_value (str_or (f_settings sample_form) []) = settings_value (c_settings sample_channel)"
    unfolding sample_texts(3) by (simp add: str_or_def sample_channel_def)
  obtain ps t qs where "settings_value (str_or (f_settings sample_form) []) = JObj ps" "buildSettingsJSON sample_form = Inr t"
    "json_parse t = Some (JObj qs)" and q: "map_of qs = saved_setting sample_form (map_of ps)"
    using settings_saved_exact [OF sample_texts(4)] sample_json_ok opened_ok [OF sample_open sample_json_ok] v by metis
  moreover from this have ps: "ps = [(js ''allow_speed'', JBool True), (js ''custom'', JNull)]" using v sample_texts(1) by simp
  moreover have "saved_setting sample_form (map_of [(js ''allow_speed'', JBool True), (js ''custom'', JNull)]) (js ''allow_speed'') = Some (JBool True)"
    "saved_setting sample_form (map_of [(js ''allow_speed'', JBool True), (js ''custom'', JNull)]) (js ''custom'') = Some JNull"
    "saved_setting sample_form (map_of [(js ''allow_speed'', JBool True), (js ''custom'', JNull)]) (js ''vertex_key_type'') = None"
    by code_simp+
  ultimately show ?thesis by metis
qed

lemma sample_update: "\<exists>p. transformFormDataToUpdatePayload sample_form (Fin 7) = Inr p"
proof -
  have "settings_value (str_or (f_settings sample_form) []) = settings_value (c_settings sample_channel)"
    unfolding sample_texts(3) by (simp add: str_or_def sample_channel_def)
  then have "\<exists>text. buildSettingsJSON sample_form = Inr text" by (simp add: buildSettingsJSON_def sample_texts(1))
  then show ?thesis by (auto simp: transformFormDataToUpdatePayload_def Let_def)
qed

theorem channel_save_stable_witness:
  "\<exists>p g. transformFormDataToUpdatePayload sample_form (Fin 7) = Inr p
    \<and> transformChannelToFormDefaults (stored p sample_channel) = Inr g \<and> transformFormDataToUpdatePayload g (Fin 7) = Inr p"
proof -
  obtain p where p: "transformFormDataToUpdatePayload sample_form (Fin 7) = Inr p" using sample_update by blast
  show ?thesis using channel_save_stable [OF sample_open p sample_texts(4) sample_json_ok sample_texts(6)] p by blast
qed

theorem update_never_leaks_witness:
  "\<exists>p. transformFormDataToUpdatePayload sample_form (Fin 7) = Inr p \<and> map_of p (js ''key'') = None"
  using sample_update update_never_leaks sample_texts(5) by fastforce

theorem guard_accepts_form_accepts_witness: "isOptionalStatusCodeMapping (Some (one_entry ''404'' ''500''))"
  by (rule guard_accepts_form_accepts; code_simp)

end
