(* ===== verification/Nav_Config.thy ===== *)
theory Nav_Config
  imports JS_Objects
begin

text \<open>
  The navigation settings of the administrator (\<^verbatim>\<open>features/system-settings/maintenance/config.ts\<close> and the submission in
  \<^verbatim>\<open>header-navigation-section.tsx\<close>). A configuration is an object of JSON values, as the code treats it; \<open>lower\<close> is
  \<^verbatim>\<open>toLowerCase\<close>. Keys are not the names of properties of \<^verbatim>\<open>Object.prototype\<close>.
\<close>

record HeaderNavAccessConfig =
  ac_enabled :: bool
  ac_requireAuth :: bool

definition access_json :: "HeaderNavAccessConfig \<Rightarrow> json" where
  "access_json a = JObj [(js ''enabled'', JBool (ac_enabled a)), (js ''requireAuth'', JBool (ac_requireAuth a))]"

definition HEADER_NAV_DEFAULT :: "(jstring \<times> json) list" where
  "HEADER_NAV_DEFAULT =
     [(js ''home'', JBool True), (js ''console'', JBool True), (js ''chat'', JBool True),
      (js ''pricing'', access_json \<lparr>ac_enabled = True, ac_requireAuth = False\<rparr>),
      (js ''rankings'', access_json \<lparr>ac_enabled = False, ac_requireAuth = False\<rparr>),
      (js ''apps'', JBool False), (js ''docs'', JBool True), (js ''about'', JBool False), (js ''status'', JBool True)]"

definition all_on :: "string list \<Rightarrow> (jstring \<times> json) list" where
  "all_on names = map (\<lambda>n. (js n, JBool True)) names"

definition SIDEBAR_MODULES_DEFAULT :: "(jstring \<times> json) list" where
  "SIDEBAR_MODULES_DEFAULT =
     [(js ''chat'', JObj (all_on [''enabled'', ''playground'', ''chat''])),
      (js ''console'', JObj (all_on [''enabled'', ''detail'', ''token'', ''log'', ''midjourney'', ''task''])),
      (js ''personal'', JObj (all_on [''enabled'', ''topup'', ''personal''])),
      (js ''admin'', JObj (all_on [''enabled'', ''channel'', ''models'', ''redemption'', ''user'', ''setting'', ''subscription'']))]"

definition toBoolean :: "(jstring \<Rightarrow> jstring) \<Rightarrow> json option \<Rightarrow> bool \<Rightarrow> bool" where
  "toBoolean lower value fallback =
     (case value of
        Some (JBool b) \<Rightarrow> b
      | Some (JNum x) \<Rightarrow> num_eq x (Fin 1)
      | Some (JStr s) \<Rightarrow>
          (let t = lower (trim s)
           in if t = js ''true'' \<or> t = js ''1'' then True
              else if t = js ''false'' \<or> t = js ''0'' then False else fallback)
      | _ \<Rightarrow> fallback)"

definition parseAccessModule :: "(jstring \<Rightarrow> jstring) \<Rightarrow> json \<Rightarrow> HeaderNavAccessConfig \<Rightarrow> HeaderNavAccessConfig" where
  "parseAccessModule lower raw fallback =
     (case raw of
        JNull \<Rightarrow> fallback
      | JObj ps \<Rightarrow> \<lparr>ac_enabled = toBoolean lower (map_of ps (js ''enabled'')) (ac_enabled fallback),
                   ac_requireAuth = toBoolean lower (map_of ps (js ''requireAuth'')) (ac_requireAuth fallback)\<rparr>
      | JArr _ \<Rightarrow> fallback
      | v \<Rightarrow> \<lparr>ac_enabled = toBoolean lower (Some v) (ac_enabled fallback), ac_requireAuth = ac_requireAuth fallback\<rparr>)"

definition default_access :: "string \<Rightarrow> HeaderNavAccessConfig" where
  "default_access k = \<lparr>ac_enabled = (k = ''pricing''), ac_requireAuth = False\<rparr>"

definition header_entry ::
  "(jstring \<Rightarrow> jstring) \<Rightarrow> jstring \<times> json \<Rightarrow> (jstring \<times> json) list \<Rightarrow> (jstring \<times> json) list" where
  "header_entry lower e result =
     (let (key, raw) = e
      in if key = js ''pricing'' then obj_set key (access_json (parseAccessModule lower raw (default_access ''pricing''))) result
         else if key = js ''rankings'' then obj_set key (access_json (parseAccessModule lower raw (default_access ''rankings''))) result
         else case raw of
           JBool b \<Rightarrow> obj_set key (JBool b) result
         | JStr _ \<Rightarrow> obj_set key (JBool (toBoolean lower (Some raw) (truthy (map_of HEADER_NAV_DEFAULT key)))) result
         | JNum _ \<Rightarrow> obj_set key (JBool (toBoolean lower (Some raw) (truthy (map_of HEADER_NAV_DEFAULT key)))) result
         | _ \<Rightarrow> result)"

text \<open>\<^verbatim>\<open>Object.entries(null)\<close> throws, which the \<^verbatim>\<open>catch\<close> turns into the defaults.\<close>

definition parseHeaderNavModules :: "(jstring \<Rightarrow> jstring) \<Rightarrow> jstring option \<Rightarrow> (jstring \<times> json) list" where
  "parseHeaderNavModules lower value =
     (if str_or value [] = [] then HEADER_NAV_DEFAULT
      else case json_parse (str_or value []) of
        None \<Rightarrow> HEADER_NAV_DEFAULT
      | Some JNull \<Rightarrow> HEADER_NAV_DEFAULT
      | Some parsed \<Rightarrow> fold (header_entry lower) (own_entries parsed) HEADER_NAV_DEFAULT)"

definition serializeHeaderNavModules :: "(jstring \<times> json) list \<Rightarrow> jstring" where
  "serializeHeaderNavModules config = json_stringify (JObj config)"

text \<open>\<^verbatim>\<open>section[moduleKey] ?? true\<close> of a default section; its values are booleans.\<close>

definition default_flag :: "(jstring \<times> json) list \<Rightarrow> jstring \<Rightarrow> bool" where
  "default_flag section k = (case map_of section k of Some (JBool b) \<Rightarrow> b | _ \<Rightarrow> True)"

definition default_section :: "jstring \<Rightarrow> (jstring \<times> json) list" where
  "default_section k = (case map_of SIDEBAR_MODULES_DEFAULT k of Some (JObj ps) \<Rightarrow> ps | _ \<Rightarrow> [(js ''enabled'', JBool True)])"

definition section_config :: "(jstring \<Rightarrow> jstring) \<Rightarrow> (jstring \<times> json) list \<Rightarrow> json \<Rightarrow> (jstring \<times> json) list" where
  "section_config lower dflt raw =
     fold (\<lambda>(k, v) cfg. if k = js ''enabled'' then cfg else obj_set k (JBool (toBoolean lower (Some v) (default_flag dflt k))) cfg)
       (own_entries raw)
       [(js ''enabled'', JBool (toBoolean lower (get_prop (js ''enabled'') raw) (default_flag dflt (js ''enabled''))))]"

definition sidebar_entry ::
  "(jstring \<Rightarrow> jstring) \<Rightarrow> jstring \<times> json \<Rightarrow> (jstring \<times> json) list \<Rightarrow> (jstring \<times> json) list" where
  "sidebar_entry lower e result =
     (let (k, raw) = e
      in case raw of
           JObj _ \<Rightarrow> obj_set k (JObj (section_config lower (default_section k) raw)) result
         | JArr _ \<Rightarrow> obj_set k (JObj (section_config lower (default_section k) raw)) result
         | _ \<Rightarrow> result)"

definition add_missing :: "(jstring \<times> json) list \<Rightarrow> (jstring \<times> json) list \<Rightarrow> (jstring \<times> json) list" where
  "add_missing dflt section = fold (\<lambda>(k, v) cfg. if map_of cfg k = None then obj_set k v cfg else cfg) dflt section"

definition merge_default :: "jstring \<times> json \<Rightarrow> (jstring \<times> json) list \<Rightarrow> (jstring \<times> json) list" where
  "merge_default e result =
     (let (k, config) = e
      in case map_of result k of
           Some (JObj ps) \<Rightarrow> obj_set k (JObj (add_missing (own_entries config) ps)) result
         | _ \<Rightarrow> obj_set k config result)"

definition parseSidebarModulesAdmin :: "(jstring \<Rightarrow> jstring) \<Rightarrow> jstring option \<Rightarrow> (jstring \<times> json) list" where
  "parseSidebarModulesAdmin lower value =
     (if trim (str_or value []) = [] then SIDEBAR_MODULES_DEFAULT
      else case json_parse (str_or value []) of
        None \<Rightarrow> SIDEBAR_MODULES_DEFAULT
      | Some JNull \<Rightarrow> SIDEBAR_MODULES_DEFAULT
      | Some parsed \<Rightarrow> fold merge_default SIDEBAR_MODULES_DEFAULT (fold (sidebar_entry lower) (own_entries parsed) []))"

definition serializeSidebarModulesAdmin :: "(jstring \<times> json) list \<Rightarrow> jstring" where
  "serializeSidebarModulesAdmin config = json_stringify (JObj config)"

section \<open>The form of the header modules\<close>

record HeaderNavFormValues =
  hf_home :: bool
  hf_console :: bool
  hf_chat :: bool
  hf_pricingEnabled :: bool
  hf_pricingRequireAuth :: bool
  hf_rankingsEnabled :: bool
  hf_rankingsRequireAuth :: bool
  hf_apps :: bool
  hf_docs :: bool
  hf_about :: bool
  hf_status :: bool

text \<open>\<^verbatim>\<open>v === undefined ? d : Boolean(v)\<close>.\<close>

definition boolean_or :: "json option \<Rightarrow> bool \<Rightarrow> bool" where
  "boolean_or v d = (case v of None \<Rightarrow> d | Some w \<Rightarrow> truthy (Some w))"

definition toFormValues :: "(jstring \<times> json) list \<Rightarrow> HeaderNavFormValues" where
  "toFormValues config =
     (let get = (\<lambda>k. map_of config (js k)); sub = (\<lambda>k p. opt_prop (js p) (get k))
      in \<lparr>hf_home = boolean_or (get ''home'') True, hf_console = boolean_or (get ''console'') True,
          hf_chat = boolean_or (get ''chat'') True,
          hf_pricingEnabled = boolean_or (sub ''pricing'' ''enabled'') True,
          hf_pricingRequireAuth = boolean_or (sub ''pricing'' ''requireAuth'') False,
          hf_rankingsEnabled = boolean_or (sub ''rankings'' ''enabled'') False,
          hf_rankingsRequireAuth = boolean_or (sub ''rankings'' ''requireAuth'') False,
          hf_apps = boolean_or (get ''apps'') False, hf_docs = boolean_or (get ''docs'') True,
          hf_about = boolean_or (get ''about'') False, hf_status = boolean_or (get ''status'') True\<rparr>)"

text \<open>\<^verbatim>\<open>{...(config[k] ?? default), enabled, requireAuth}\<close>.\<close>

definition access_with :: "(jstring \<times> json) list \<Rightarrow> string \<Rightarrow> bool \<Rightarrow> bool \<Rightarrow> json" where
  "access_with config k enabled requireAuth =
     (let base = (case map_of config (js k) of
          None \<Rightarrow> own_entries (access_json (default_access k)) | Some JNull \<Rightarrow> own_entries (access_json (default_access k))
        | Some v \<Rightarrow> own_entries v)
      in JObj (obj_set (js ''requireAuth'') (JBool requireAuth) (obj_set (js ''enabled'') (JBool enabled) base)))"

definition header_payload :: "(jstring \<times> json) list \<Rightarrow> HeaderNavFormValues \<Rightarrow> (jstring \<times> json) list" where
  "header_payload config values =
     fold (\<lambda>(k, v). obj_set (js k) v)
       [(''home'', JBool (hf_home values)), (''console'', JBool (hf_console values)), (''chat'', JBool (hf_chat values)),
        (''apps'', JBool (hf_apps values)), (''docs'', JBool (hf_docs values)), (''about'', JBool (hf_about values)),
        (''status'', JBool (hf_status values)),
        (''pricing'', access_with config ''pricing'' (hf_pricingEnabled values) (hf_pricingRequireAuth values)),
        (''rankings'', access_with config ''rankings'' (hf_rankingsEnabled values) (hf_rankingsRequireAuth values))] config"

text \<open>The value of the option that is updated, \<open>None\<close> when nothing changed.\<close>

definition onSubmit :: "(jstring \<times> json) list \<Rightarrow> jstring \<Rightarrow> HeaderNavFormValues \<Rightarrow> jstring option" where
  "onSubmit config initialSerialized values =
     (let serialized = serializeHeaderNavModules (header_payload config values)
      in if serialized = initialSerialized then None else Some serialized)"

end
