(* ===== verification/Nav_Modules.thy ===== *)
theory Nav_Modules
  imports Nav_Config
begin

text \<open>
  What visitors see of the navigation settings: \<^verbatim>\<open>lib/nav-modules.ts\<close>, the links of \<^verbatim>\<open>hooks/use-top-nav-links.ts\<close> and the gates of the
  routes for pricing, rankings and the playground. The cached status is the text under \<^verbatim>\<open>status\<close> in the local storage, and
  the request for a fresh one is a value: \<open>Inl\<close> when it fails.
\<close>

section \<open>Header modules\<close>

definition DEFAULT_HEADER_NAV_MODULES :: "(jstring \<times> json) list" where
  "DEFAULT_HEADER_NAV_MODULES =
     [(js ''home'', JBool True), (js ''console'', JBool True), (js ''chat'', JBool True),
      (js ''pricing'', access_json \<lparr>ac_enabled = True, ac_requireAuth = False\<rparr>),
      (js ''rankings'', access_json \<lparr>ac_enabled = False, ac_requireAuth = False\<rparr>),
      (js ''apps'', JBool False), (js ''docs'', JBool True), (js ''about'', JBool False), (js ''status'', JBool True)]"

definition parseHeaderNavBoolean :: "(jstring \<Rightarrow> jstring) \<Rightarrow> json option \<Rightarrow> bool \<Rightarrow> bool" where
  "parseHeaderNavBoolean lower raw fallback =
     (case raw of
        Some (JBool b) \<Rightarrow> b
      | Some (JNum x) \<Rightarrow> if num_eq x (Fin 1) then True else if num_eq x (Fin 0) then False else fallback
      | Some (JStr s) \<Rightarrow>
          (let normalized = lower (trim s)
           in if normalized = js ''true'' \<or> normalized = js ''1'' then True
              else if normalized = js ''false'' \<or> normalized = js ''0'' then False else fallback)
      | _ \<Rightarrow> fallback)"

type_synonym ModuleAccess = HeaderNavAccessConfig

definition parseAccess :: "(jstring \<Rightarrow> jstring) \<Rightarrow> json \<Rightarrow> ModuleAccess \<Rightarrow> ModuleAccess" where
  "parseAccess lower raw fallback =
     (case raw of
        JNull \<Rightarrow> fallback
      | JObj ps \<Rightarrow> \<lparr>ac_enabled = parseHeaderNavBoolean lower (map_of ps (js ''enabled'')) (ac_enabled fallback),
                   ac_requireAuth = parseHeaderNavBoolean lower (map_of ps (js ''requireAuth'')) (ac_requireAuth fallback)\<rparr>
      | JArr _ \<Rightarrow> fallback
      | v \<Rightarrow> \<lparr>ac_enabled = parseHeaderNavBoolean lower (Some v) (ac_enabled fallback), ac_requireAuth = ac_requireAuth fallback\<rparr>)"

text \<open>\<open>None\<close> is \<^verbatim>\<open>null\<close>.\<close>

definition parseHeaderNavRecord :: "json option \<Rightarrow> json option" where
  "parseHeaderNavRecord raw =
     (case raw of
        None \<Rightarrow> None
      | Some v \<Rightarrow>
          if \<not> truthy (Some v) \<or> trim (json_to_string v) = [] then None
          else case v of JObj _ \<Rightarrow> Some v | JArr _ \<Rightarrow> Some v | _ \<Rightarrow> json_parse (json_to_string v))"

text \<open>An access value of the result, which is an object with two booleans.\<close>

definition access_of :: "json option \<Rightarrow> ModuleAccess" where
  "access_of v = \<lparr>ac_enabled = (opt_prop (js ''enabled'') v = Some (JBool True)),
     ac_requireAuth = (opt_prop (js ''requireAuth'') v = Some (JBool True))\<rparr>"

definition module_entry ::
  "(jstring \<Rightarrow> jstring) \<Rightarrow> jstring \<times> json \<Rightarrow> (jstring \<times> json) list \<Rightarrow> (jstring \<times> json) list" where
  "module_entry lower e result =
     (let (key, value) = e
      in if key = js ''pricing'' \<or> key = js ''rankings''
         then obj_set key (access_json (parseAccess lower value (access_of (map_of result key)))) result
         else
           let fallback = map_of result key;
               dflt = (case fallback of Some (JBool b) \<Rightarrow> b | _ \<Rightarrow> True);
               boolean_fallback = (case fallback of Some (JBool _) \<Rightarrow> True | _ \<Rightarrow> False);
               primitive = (case value of JBool _ \<Rightarrow> True | JNum _ \<Rightarrow> True | JStr _ \<Rightarrow> True | _ \<Rightarrow> False)
           in if boolean_fallback \<or> primitive then obj_set key (JBool (parseHeaderNavBoolean lower (Some value) dflt)) result else result)"

definition parseHeaderNavModules :: "(jstring \<Rightarrow> jstring) \<Rightarrow> json option \<Rightarrow> (jstring \<times> json) list" where
  "parseHeaderNavModules lower raw =
     (case parseHeaderNavRecord raw of
        None \<Rightarrow> DEFAULT_HEADER_NAV_MODULES
      | Some parsed \<Rightarrow>
          if \<not> truthy (Some parsed) then DEFAULT_HEADER_NAV_MODULES else fold (module_entry lower) (own_entries parsed) DEFAULT_HEADER_NAV_MODULES)"

definition parseHeaderNavModulesFromStatus :: "(jstring \<Rightarrow> jstring) \<Rightarrow> json option \<Rightarrow> (jstring \<times> json) list" where
  "parseHeaderNavModulesFromStatus lower status = parseHeaderNavModules lower (opt_prop (js ''HeaderNavModules'') status)"

section \<open>The cached status\<close>

text \<open>\<open>None\<close> is \<^verbatim>\<open>null\<close>.\<close>

definition getCachedStatus :: "jstring option \<Rightarrow> json option" where
  "getCachedStatus storage = (if str_or storage [] = [] then None else json_parse (str_or storage []))"

text \<open>\<open>full\<close>: the storage refuses the write.\<close>

definition cacheStatus :: "bool \<Rightarrow> json option \<Rightarrow> jstring option \<Rightarrow> jstring option" where
  "cacheStatus full status storage =
     (case status of Some v \<Rightarrow> if truthy (Some v) \<and> \<not> full then Some (json_stringify v) else storage | None \<Rightarrow> storage)"

datatype HeaderNavModule = Rankings | Pricing

fun nav_key :: "HeaderNavModule \<Rightarrow> jstring" where
  "nav_key Rankings = js ''rankings''"
| "nav_key Pricing = js ''pricing''"

definition getModuleAccessFromStatus :: "(jstring \<Rightarrow> jstring) \<Rightarrow> json option \<Rightarrow> HeaderNavModule \<Rightarrow> ModuleAccess" where
  "getModuleAccessFromStatus lower status m =
     (case map_of (parseHeaderNavModulesFromStatus lower status) (nav_key m) of
        None \<Rightarrow> access_of (map_of DEFAULT_HEADER_NAV_MODULES (nav_key m))
      | Some JNull \<Rightarrow> access_of (map_of DEFAULT_HEADER_NAV_MODULES (nav_key m))
      | Some v \<Rightarrow> access_of (Some v))"

definition getModuleAccess :: "(jstring \<Rightarrow> jstring) \<Rightarrow> jstring option \<Rightarrow> HeaderNavModule \<Rightarrow> ModuleAccess" where
  "getModuleAccess lower storage m = getModuleAccessFromStatus lower (getCachedStatus storage) m"

definition getFreshModuleAccess ::
  "(jstring \<Rightarrow> jstring) \<Rightarrow> bool \<Rightarrow> js_error + json option \<Rightarrow> jstring option \<Rightarrow> HeaderNavModule \<Rightarrow> ModuleAccess \<times> jstring option" where
  "getFreshModuleAccess lower full response storage m =
     (case response of
        Inl _ \<Rightarrow> (\<lparr>ac_enabled = False, ac_requireAuth = True\<rparr>, storage)
      | Inr status \<Rightarrow> (getModuleAccessFromStatus lower status m, cacheStatus full status storage))"

definition isSidebarModuleEnabled :: "jstring option \<Rightarrow> jstring \<Rightarrow> jstring \<Rightarrow> bool" where
  "isSidebarModuleEnabled storage sec md =
     (let status = getCachedStatus storage; raw = opt_prop (js ''SidebarModulesAdmin'') status
      in if \<not> truthy status \<or> \<not> truthy raw \<or> trim (json_to_string (the raw)) = [] then True
         else case json_parse (json_to_string (the raw)) of
           None \<Rightarrow> True
         | Some parsed \<Rightarrow>
             (let sectionConfig = get_prop sec parsed
              in if \<not> truthy sectionConfig then True
                 else opt_prop (js ''enabled'') sectionConfig \<noteq> Some (JBool False) \<and> opt_prop md sectionConfig \<noteq> Some (JBool False)))"

text \<open>The argument is \<open>None\<close> when it is left out, and \<open>Some status\<close> otherwise.\<close>

definition isChatEntryEnabled :: "(jstring \<Rightarrow> jstring) \<Rightarrow> jstring option \<Rightarrow> json option option \<Rightarrow> bool" where
  "isChatEntryEnabled lower storage status =
     (let resolved = (case status of None \<Rightarrow> getCachedStatus storage | Some s \<Rightarrow> s);
          header = parseHeaderNavModulesFromStatus lower resolved
      in map_of header (js ''chat'') \<noteq> Some (JBool False) \<and> isSidebarModuleEnabled storage (js ''chat'') (js ''playground''))"

section \<open>Routes and links\<close>

datatype GateResult = Enter | RedirectHome | RedirectSignIn

definition module_gate :: "ModuleAccess \<Rightarrow> bool \<Rightarrow> GateResult" where
  "module_gate access authed =
     (if \<not> ac_enabled access then RedirectHome
      else if ac_requireAuth access \<and> \<not> authed then RedirectSignIn else Enter)"

record TopNavLink =
  tl_title :: jstring
  tl_href :: jstring
  tl_requiresAuth :: "bool option"
  tl_external :: "bool option"

definition plain_link :: "jstring \<Rightarrow> jstring \<Rightarrow> TopNavLink" where
  "plain_link title href = \<lparr>tl_title = title, tl_href = href, tl_requiresAuth = None, tl_external = None\<rparr>"

text \<open>\<^verbatim>\<open>/^https?:\/\//i\<close>.\<close>

definition is_external :: "jstring \<Rightarrow> bool" where
  "is_external s \<longleftrightarrow> (let t = map (\<lambda>c. if 65 \<le> c \<and> c \<le> 90 then c + 32 else c) s
     in prefix (js ''http://'') t \<or> prefix (js ''https://'') t)"

text \<open>
  \<open>ranked\<close> and \<open>marketing\<close> are the product features; \<open>docsLink\<close> is \<^verbatim>\<open>status.docs_link\<close>. A module of access
  kind is an object with \<^verbatim>\<open>enabled\<close>.
\<close>

definition link_when :: "bool \<Rightarrow> TopNavLink \<Rightarrow> TopNavLink list" where
  "link_when c l = (if c then [l] else [])"

definition access_link :: "(jstring \<Rightarrow> jstring) \<Rightarrow> bool \<Rightarrow> json option \<Rightarrow> bool \<Rightarrow> string \<Rightarrow> string \<Rightarrow> TopNavLink list" where
  "access_link t feature access authed title href =
     (case access of
        Some (JObj ps) \<Rightarrow>
          link_when (feature \<and> truthy (map_of ps (js ''enabled'')))
            ((plain_link (t (js title)) (js href))\<lparr>tl_requiresAuth := Some (truthy (map_of ps (js ''requireAuth'')) \<and> \<not> authed)\<rparr>)
      | _ \<Rightarrow> [])"

definition docs_entry :: "(jstring \<Rightarrow> jstring) \<Rightarrow> jstring option \<Rightarrow> TopNavLink" where
  "docs_entry t docsLink =
     (let d = str_or docsLink []
      in if d \<noteq> [] \<and> is_external d then (plain_link (t (js ''Docs'')) d)\<lparr>tl_external := Some True\<rparr>
         else plain_link (t (js ''Docs'')) (if d = [] \<or> d = js ''/api-docs'' then js ''/docs'' else d))"

definition useTopNavLinks ::
  "(jstring \<Rightarrow> jstring) \<Rightarrow> (jstring \<Rightarrow> jstring) \<Rightarrow> jstring option \<Rightarrow> json option \<Rightarrow> bool \<Rightarrow> bool \<Rightarrow> bool \<Rightarrow> jstring option \<Rightarrow> TopNavLink list" where
  "useTopNavLinks lower t storage status authed ranked marketing docsLink =
     (let modules = parseHeaderNavModulesFromStatus lower status;
          on = (\<lambda>k. map_of modules (js k) \<noteq> Some (JBool False));
          gated = (\<lambda>title href. (plain_link (t (js title)) (js href))\<lparr>tl_requiresAuth := Some (\<not> authed)\<rparr>)
      in link_when (on ''home'') (plain_link (t (js ''Home'')) (js ''/''))
       @ link_when (on ''console'') (gated ''Console'' ''/dashboard'')
       @ link_when (isChatEntryEnabled lower storage (Some status)) (gated ''Chat'' ''/playground'')
       @ access_link t True (map_of modules (js ''pricing'')) authed ''Model Square'' ''/pricing''
       @ access_link t ranked (map_of modules (js ''rankings'')) authed ''Rankings'' ''/rankings''
       @ link_when (ranked \<and> on ''apps'') (plain_link (t (js ''Apps'')) (js ''/apps''))
       @ link_when (on ''docs'') (docs_entry t docsLink)
       @ link_when (marketing \<and> on ''about'') (plain_link (t (js ''About'')) (js ''/about''))
       @ link_when (on ''status'') (plain_link (t (js ''Status'')) (js ''/status'')))"

end
