(* ===== verification/Nav_Sidebar.thy ===== *)
theory Nav_Sidebar
  imports Nav_Modules
begin

text \<open>
  The sidebar (\<^verbatim>\<open>hooks/use-sidebar-config.ts\<close>): the configuration of the administrator with its defaults, the narrower one of the
  user, and the filter of the navigation items.
\<close>

definition DEFAULT_SIDEBAR_MODULES :: "(jstring \<times> json) list" where
  "DEFAULT_SIDEBAR_MODULES =
     [(js ''chat'', JObj (all_on [''enabled'', ''playground'', ''chat''])),
      (js ''console'', JObj (all_on [''enabled'', ''detail'', ''token'', ''log'', ''midjourney'', ''task''])),
      (js ''personal'', JObj (all_on [''enabled'', ''topup'', ''personal''])),
      (js ''admin'', JObj (all_on [''enabled'', ''channel'', ''models'', ''redemption'', ''user'', ''setting'', ''subscription'']))]"

definition merge_section :: "jstring \<times> json \<Rightarrow> (jstring \<times> json) list \<Rightarrow> (jstring \<times> json) list" where
  "merge_section e merged =
     (let (sectionKey, defaultSection) = e; existing = map_of merged sectionKey
      in if \<not> truthy existing then obj_set sectionKey defaultSection merged
         else obj_set sectionKey (JObj (add_missing (own_entries defaultSection)
                (spread (own_entries defaultSection) (own_entries (the existing))))) merged)"

definition mergeWithDefaultSidebarModules :: "json \<Rightarrow> (jstring \<times> json) list" where
  "mergeWithDefaultSidebarModules config = fold merge_section DEFAULT_SIDEBAR_MODULES (own_entries config)"

definition URL_TO_CONFIG_MAP :: "(jstring \<times> jstring \<times> jstring) list" where
  "URL_TO_CONFIG_MAP = map (\<lambda>(u, s, m). (js u, js s, js m))
     [(''/playground'', ''chat'', ''playground''), (''/dashboard'', ''console'', ''detail''),
      (''/dashboard/overview'', ''console'', ''detail''), (''/dashboard/models'', ''console'', ''detail''),
      (''/dashboard/users'', ''console'', ''detail''), (''/keys'', ''console'', ''token''), (''/usage-logs'', ''console'', ''log''),
      (''/usage-logs/common'', ''console'', ''log''), (''/usage-logs/drawing'', ''console'', ''midjourney''),
      (''/usage-logs/task'', ''console'', ''task''), (''/wallet'', ''personal'', ''topup''), (''/profile'', ''personal'', ''personal''),
      (''/channels'', ''admin'', ''channel''), (''/models'', ''admin'', ''models''), (''/models/metadata'', ''admin'', ''models''),
      (''/models/deployments'', ''admin'', ''models''), (''/users'', ''admin'', ''user''),
      (''/redemption-codes'', ''admin'', ''redemption''), (''/subscriptions'', ''admin'', ''subscription''),
      (''/system-settings'', ''admin'', ''setting''), (''/system-settings/site'', ''admin'', ''setting'')]"

text \<open>Spreading \<^verbatim>\<open>null\<close> gives nothing, so every value that parses is merged.\<close>

definition parseSidebarConfig :: "jstring option \<Rightarrow> (jstring \<times> json) list" where
  "parseSidebarConfig value =
     (if trim (str_or value []) = [] then DEFAULT_SIDEBAR_MODULES
      else case json_parse (str_or value []) of
        None \<Rightarrow> DEFAULT_SIDEBAR_MODULES
      | Some parsed \<Rightarrow> mergeWithDefaultSidebarModules parsed)"

definition parseUserSidebarConfig :: "jstring option \<Rightarrow> json option" where
  "parseUserSidebarConfig value =
     (if trim (str_or value []) = [] then None
      else case json_parse (str_or value []) of
        Some (JObj ps) \<Rightarrow> Some (JObj ps)
      | Some (JArr vs) \<Rightarrow> Some (JArr vs)
      | _ \<Rightarrow> None)"

definition admin_allows :: "(jstring \<times> json) list \<Rightarrow> jstring \<Rightarrow> jstring \<Rightarrow> bool" where
  "admin_allows adminConfig sec m \<longleftrightarrow>
     (let adminSection = map_of adminConfig sec
      in truthy adminSection \<and> truthy (opt_prop (js ''enabled'') adminSection) \<and> opt_prop m adminSection = Some (JBool True))"

definition user_allows :: "json option \<Rightarrow> jstring \<Rightarrow> jstring \<Rightarrow> bool" where
  "user_allows userConfig sec m \<longleftrightarrow>
     (let userSection = opt_prop sec userConfig
      in userConfig = None \<or> \<not> truthy userSection
         \<or> (opt_prop (js ''enabled'') userSection \<noteq> Some (JBool False) \<and> opt_prop m userSection \<noteq> Some (JBool False)))"

definition isModuleEnabled :: "jstring \<Rightarrow> (jstring \<times> json) list \<Rightarrow> json option \<Rightarrow> bool" where
  "isModuleEnabled url adminConfig userConfig =
     (case map_of URL_TO_CONFIG_MAP url of
        None \<Rightarrow> True
      | Some (sec, m) \<Rightarrow> admin_allows adminConfig sec m \<and> user_allows userConfig sec m)"

text \<open>The items of the sidebar; \<open>n_title\<close> stands for what is shown of an item.\<close>

datatype NavItem =
    NavLink (n_title: jstring) (n_url: jstring) (n_configUrls: "jstring list option")
  | NavCollapsible (n_title: jstring) (n_items: "(jstring \<times> jstring) list")
  | NavChatPresets (n_title: jstring)

fun isNavItemVisible :: "NavItem \<Rightarrow> (jstring \<times> json) list \<Rightarrow> json option \<Rightarrow> bool" where
  "isNavItemVisible (NavChatPresets _) adminConfig userConfig \<longleftrightarrow>
     admin_allows adminConfig (js ''chat'') (js ''chat'') \<and> user_allows userConfig (js ''chat'') (js ''chat'')"
| "isNavItemVisible (NavLink _ url configUrls) adminConfig userConfig \<longleftrightarrow>
     (if url = [] then True
      else list_ex (\<lambda>u. isModuleEnabled u adminConfig userConfig) (case configUrls of Some us \<Rightarrow> us | None \<Rightarrow> [url]))"
| "isNavItemVisible (NavCollapsible _ items) adminConfig userConfig \<longleftrightarrow>
     list_ex (\<lambda>(_, u). isModuleEnabled u adminConfig userConfig) items"

fun filter_sub_items :: "(jstring \<times> json) list \<Rightarrow> json option \<Rightarrow> NavItem \<Rightarrow> NavItem" where
  "filter_sub_items adminConfig userConfig (NavCollapsible title items) =
     NavCollapsible title (filter (\<lambda>(_, u). isModuleEnabled u adminConfig userConfig) items)"
| "filter_sub_items adminConfig userConfig item = item"

definition filterNavItems :: "NavItem list \<Rightarrow> (jstring \<times> json) list \<Rightarrow> json option \<Rightarrow> NavItem list" where
  "filterNavItems items adminConfig userConfig =
     filter (\<lambda>item. isNavItemVisible item adminConfig userConfig) (map (filter_sub_items adminConfig userConfig) items)"

record NavGroup =
  ng_title :: jstring
  ng_items :: "NavItem list"

text \<open>\<open>may_configure\<close> is the permission \<^verbatim>\<open>sidebar_settings\<close> of the user, \<open>None\<close> when it is not given.\<close>

definition useSidebarConfig :: "jstring option \<Rightarrow> bool option \<Rightarrow> jstring option \<Rightarrow> NavGroup list \<Rightarrow> NavGroup list" where
  "useSidebarConfig sidebarModulesAdmin may_configure sidebar_modules navGroups =
     (let adminConfig = parseSidebarConfig sidebarModulesAdmin;
          userConfig = (if may_configure = Some False then None else parseUserSidebarConfig sidebar_modules)
      in filter (\<lambda>g. ng_items g \<noteq> [])
           (map (\<lambda>g. g\<lparr>ng_items := filterNavItems (ng_items g) adminConfig userConfig\<rparr>) navGroups))"

end
