(* ===== verification/Nav_Laws.thy ===== *)
theory Nav_Laws
  imports Nav_Sidebar
begin

text \<open>
  The navigation settings across their three readers: what the administrator saves is what the header, the sidebar and the routes
  enforce. The locale \<open>header_reader\<close> is the contract of a reader of the header modules; the editor and the site are
  two instances of it. The theory also shows where the readers part on texts the editor did not write.
\<close>

section \<open>Typed configurations\<close>

text \<open>What the type \<^verbatim>\<open>HeaderNavModules\<close> declares.\<close>

definition is_bool :: "json \<Rightarrow> bool" where
  "is_bool v \<longleftrightarrow> (case v of JBool _ \<Rightarrow> True | _ \<Rightarrow> False)"

definition is_access :: "json \<Rightarrow> bool" where
  "is_access v \<longleftrightarrow> v = access_json (access_of (Some v))"

definition entry_typed :: "jstring \<times> json \<Rightarrow> bool" where
  "entry_typed e \<longleftrightarrow> (if fst e = js ''pricing'' \<or> fst e = js ''rankings'' then is_access (snd e) else is_bool (snd e))"

definition header_names :: "jstring list" where
  "header_names = map js [''home'', ''console'', ''chat'', ''pricing'', ''rankings'', ''apps'', ''docs'', ''about'', ''status'']"

definition header_typed :: "(jstring \<times> json) list \<Rightarrow> bool" where
  "header_typed r \<longleftrightarrow> canonical r \<and> list_all entry_typed r \<and> set header_names \<subseteq> fst ` set r"

lemma access_of_json [simp]: "access_of (Some (access_json a)) = a"
  by (simp add: access_of_def access_json_def js_inject)

lemma is_access_json [simp]: "is_access (access_json a)"
  by (simp add: is_access_def)

lemma header_typed_set:
  assumes "header_typed r" "entry_typed (k, v)"
  shows "header_typed (obj_set k v r)"
  using assms canonical_obj_set [of r k v] set_obj_set [of k v r] dom_obj_set [of k v r]
  by (auto simp: header_typed_def list_all_iff)

lemma defaults_agree [simp]: "DEFAULT_HEADER_NAV_MODULES = HEADER_NAV_DEFAULT"
  by (simp add: DEFAULT_HEADER_NAV_MODULES_def HEADER_NAV_DEFAULT_def)

lemma header_default_typed: "header_typed HEADER_NAV_DEFAULT"
proof -
  have n: "map fst HEADER_NAV_DEFAULT = header_names" by (simp add: HEADER_NAV_DEFAULT_def header_names_def)
  have "distinct header_names" by code_simp
  moreover have "list_all (\<lambda>k. \<not> is_index k) header_names" by code_simp
  then have "sorted_wrt key_before header_names" by (intro no_index_sorted) (auto simp: list_all_iff)
  moreover have "list_all entry_typed HEADER_NAV_DEFAULT"
    by (simp add: HEADER_NAV_DEFAULT_def entry_typed_def is_bool_def js_inject)
  moreover have "fst ` set HEADER_NAV_DEFAULT = set header_names" by (metis n list.set_map)
  ultimately show ?thesis unfolding header_typed_def canonical_def n by simp
qed

section \<open>Readers of the header modules\<close>

locale header_reader =
  fixes entry :: "jstring \<times> json \<Rightarrow> (jstring \<times> json) list \<Rightarrow> (jstring \<times> json) list"
  assumes typed: "header_typed r \<Longrightarrow> header_typed (entry e r)"
    and exact: "header_typed r \<Longrightarrow> entry_typed (k, v) \<Longrightarrow> entry (k, v) r = obj_set k v r"
begin

lemma fold_typed: "header_typed r \<Longrightarrow> header_typed (fold entry es r)"
  by (induction es arbitrary: r) (auto simp: typed)

lemma reads_typed:
  "header_typed r \<Longrightarrow> list_all entry_typed c \<Longrightarrow> fold entry c r = fold (\<lambda>(k, v). obj_set k v) c r"
proof (induction c arbitrary: r)
  case (Cons e c)
  obtain k v where e: "e = (k, v)" by (cases e)
  then show ?case using Cons exact [of r k v] header_typed_set [of r k v] by simp
qed simp

lemma reads_back: "header_typed c \<Longrightarrow> map_of (fold entry c HEADER_NAV_DEFAULT) = map_of c"
proof
  fix k
  assume c: "header_typed c"
  have "map_of (fold (\<lambda>(k, v). obj_set k v) c r) k = (case map_of (rev c) k of Some v \<Rightarrow> Some v | None \<Rightarrow> map_of r k)" for r
    by (induction c arbitrary: r rule: rev_induct) (auto simp: map_of_obj_set split: option.splits)
  moreover have "map_of (rev c) = map_of c" using c by (simp add: header_typed_def canonical_def map_of_rev)
  moreover have "map_of c k = None \<Longrightarrow> map_of HEADER_NAV_DEFAULT k = None"
    using c header_default_typed
    by (auto simp: map_of_eq_None_iff header_typed_def HEADER_NAV_DEFAULT_def header_names_def)
  ultimately show "map_of (fold entry c HEADER_NAV_DEFAULT) k = map_of c k"
    using c reads_typed [OF header_default_typed, of c] by (auto simp: header_typed_def split: option.splits)
qed

end

lemma entry_typed_cases:
  assumes "entry_typed (k, v)"
  obtains (Access) a where "k = js ''pricing'' \<or> k = js ''rankings''" "v = access_json a"
    | (Bool) b where "k \<noteq> js ''pricing''" "k \<noteq> js ''rankings''" "v = JBool b"
  using assms by (auto simp: entry_typed_def is_access_def is_bool_def split: if_splits json.splits)

lemma toBoolean_bool [simp]: "toBoolean lower (Some (JBool b)) d = b"
  by (simp add: toBoolean_def)

lemma parseHeaderNavBoolean_bool [simp]: "parseHeaderNavBoolean lower (Some (JBool b)) d = b"
  by (simp add: parseHeaderNavBoolean_def)

lemma access_reads [simp]:
  "parseAccessModule lower (access_json a) d = a" "parseAccess lower (access_json a) d = a"
  by (simp_all add: parseAccessModule_def parseAccess_def access_json_def js_inject)

interpretation editor: header_reader "header_entry lower" for lower
proof
  fix r and e :: "jstring \<times> json" assume r: "header_typed r"
  obtain k raw where e: "e = (k, raw)" by (cases e)
  show "header_typed (header_entry lower e r)"
    using r by (auto simp: header_entry_def e entry_typed_def is_bool_def intro!: header_typed_set split: json.split)
next
  fix r k v assume "entry_typed (k, v)"
  then show "header_entry lower (k, v) r = obj_set k v r"
    by (cases rule: entry_typed_cases) (auto simp: header_entry_def Let_def)
qed

interpretation site: header_reader "module_entry lower" for lower
proof
  fix r and e :: "jstring \<times> json" assume r: "header_typed r"
  obtain k v where e: "e = (k, v)" by (cases e)
  show "header_typed (module_entry lower e r)"
    using r by (auto simp: module_entry_def e entry_typed_def is_bool_def Let_def intro!: header_typed_set)
next
  fix r k v assume "entry_typed (k, v)"
  then show "module_entry lower (k, v) r = obj_set k v r"
    by (cases rule: entry_typed_cases) (auto simp: module_entry_def Let_def)
qed

text \<open>C31: whatever the server sends, both readers return a configuration of the declared type: every declared module is there, pricing
  and rankings are pairs of booleans and every other value is a boolean.\<close>

theorem header_modules_typed:
  "header_typed (Nav_Modules.parseHeaderNavModules lower raw) \<and> header_typed (Nav_Config.parseHeaderNavModules lower value)"
  using header_default_typed site.fold_typed editor.fold_typed
  by (auto simp: Nav_Modules.parseHeaderNavModules_def Nav_Config.parseHeaderNavModules_def split: option.split json.split)


section \<open>From the editor to the site\<close>

lemma site_reads_text:
  assumes "header_typed c" "obj_ok c"
  shows "map_of (Nav_Modules.parseHeaderNavModules lower (Some (JStr (serializeHeaderNavModules c)))) = map_of c"
proof -
  have t: "json_parse (serializeHeaderNavModules c) = Some (JObj c)" "trim (serializeHeaderNavModules c) = serializeHeaderNavModules c"
      "serializeHeaderNavModules c \<noteq> []"
    using object_text [OF assms(2)] by (simp_all add: serializeHeaderNavModules_def)
  show ?thesis
    using site.reads_back [OF assms(1), of lower]
    by (simp add: Nav_Modules.parseHeaderNavModules_def parseHeaderNavRecord_def t own_entries_def)
qed

lemma access_with_typed:
  assumes "header_typed c" "k = ''pricing'' \<or> k = ''rankings''"
  shows "access_with c k e r = access_json \<lparr>ac_enabled = e, ac_requireAuth = r\<rparr>"
proof -
  have "js k \<in> fst ` set c" using assms by (auto simp: header_typed_def header_names_def)
  then obtain v where v: "map_of c (js k) = Some v" by (metis map_of_eq_None_iff not_Some_eq)
  then have "entry_typed (js k, v)" using assms(1) by (auto simp: header_typed_def list_all_iff dest: map_of_SomeD)
  then obtain a where "v = access_json a" using assms(2) by (cases rule: entry_typed_cases) (auto simp: js_inject)
  then show ?thesis
    by (simp add: access_with_def v own_entries_def access_json_def obj_set_def js_inject)
qed

lemma header_payload_typed: "header_typed c \<Longrightarrow> header_typed (header_payload c values)"
  unfolding header_payload_def
  by (simp add: access_with_typed) (intro header_typed_set; simp add: entry_typed_def is_bool_def js_inject)

lemma header_payload_ok:
  assumes "header_typed c" "list_all units (map fst c)"
  shows "obj_ok (header_payload c values)"
proof -
  have a: "json_ok (access_json x)" for x
    using obj_ok_set [OF obj_ok_set [OF obj_ok_Nil units_js], OF _ units_js, of "JBool (ac_enabled x)" "JBool (ac_requireAuth x)" "''requireAuth''" "''enabled''"]
    by (simp add: access_json_def obj_ok_def obj_set_def js_inject is_index_def all_digits_def js_str is_digit_def)
  have "json_ok v" if "(k, v) \<in> set c" for k v
    using that assms(1) a by (auto simp: header_typed_def list_all_iff elim!: entry_typed_cases)
  then have "obj_ok c" using assms by (auto simp: obj_ok_iff header_typed_def list_all_iff)
  then show ?thesis unfolding header_payload_def
    by (simp add: access_with_typed [OF assms(1)]) (intro obj_ok_set units_js; simp add: a)
qed

definition header_flags :: "HeaderNavFormValues \<Rightarrow> (string \<times> bool) list" where
  "header_flags v = [(''home'', hf_home v), (''console'', hf_console v), (''chat'', hf_chat v), (''apps'', hf_apps v),
     (''docs'', hf_docs v), (''about'', hf_about v), (''status'', hf_status v)]"

text \<open>C15: what the administrator submits is what visitors get. The editor opens any stored text, the form is submitted, and the site
  reads the saved text from the status: both access modules and every switch have the values of the form. The hypothesis
  on the configuration is that its keys are texts of code units.\<close>

theorem header_saved_enforced:
  assumes "onSubmit c initial values = Some text" "c = Nav_Config.parseHeaderNavModules lower value" "list_all units (map fst c)"
    and "opt_prop (js ''HeaderNavModules'') status = Some (JStr text)"
  shows "getModuleAccessFromStatus lower' status Pricing = \<lparr>ac_enabled = hf_pricingEnabled values, ac_requireAuth = hf_pricingRequireAuth values\<rparr>
    \<and> getModuleAccessFromStatus lower' status Rankings = \<lparr>ac_enabled = hf_rankingsEnabled values, ac_requireAuth = hf_rankingsRequireAuth values\<rparr>
    \<and> list_all (\<lambda>(k, b). map_of (parseHeaderNavModulesFromStatus lower' status) (js k) = Some (JBool b)) (header_flags values)"
proof -
  have c: "header_typed c" using header_default_typed editor.fold_typed
    by (auto simp: assms(2) Nav_Config.parseHeaderNavModules_def split: option.split json.split)
  have t: "text = serializeHeaderNavModules (header_payload c values)" using assms(1) by (auto simp: onSubmit_def Let_def split: if_splits)
  have m: "map_of (parseHeaderNavModulesFromStatus lower' status) = map_of (header_payload c values)"
    using site_reads_text [OF header_payload_typed [OF c] header_payload_ok [OF c assms(3)]]
    by (simp add: parseHeaderNavModulesFromStatus_def assms(4) t)
  have l: "map_of (header_payload c values) (js ''pricing'')
      = Some (access_json \<lparr>ac_enabled = hf_pricingEnabled values, ac_requireAuth = hf_pricingRequireAuth values\<rparr>)"
    "map_of (header_payload c values) (js ''rankings'')
      = Some (access_json \<lparr>ac_enabled = hf_rankingsEnabled values, ac_requireAuth = hf_rankingsRequireAuth values\<rparr>)"
    by (simp_all add: header_payload_def map_of_obj_set access_with_typed [OF c] js_inject)
  have j: "access_json a \<noteq> JNull" for a by (simp add: access_json_def)
  have f: "list_all (\<lambda>(k, b). map_of (header_payload c values) (js k) = Some (JBool b)) (header_flags values)"
    by (simp add: header_payload_def map_of_obj_set header_flags_def js_inject)
  have g: "getModuleAccessFromStatus lower' status md = a" if "map_of (header_payload c values) (nav_key md) = Some (access_json a)" for md a
    using that access_of_json [of a] by (simp add: getModuleAccessFromStatus_def m access_json_def)
  show ?thesis using g [of Pricing] g [of Rankings] l f by (simp add: m)
qed


section \<open>The sidebar\<close>

definition section_typed :: "json \<Rightarrow> bool" where
  "section_typed v \<longleftrightarrow> (case v of JObj ps \<Rightarrow> canonical ps \<and> list_all (\<lambda>(_, w). is_bool w) ps | _ \<Rightarrow> False)"

definition sections_typed :: "(jstring \<times> json) list \<Rightarrow> bool" where
  "sections_typed r \<longleftrightarrow> canonical r \<and> list_all (\<lambda>(_, v). section_typed v) r"

definition has_modules :: "(jstring \<times> json) list \<Rightarrow> jstring \<times> json \<Rightarrow> bool" where
  "has_modules r e \<longleftrightarrow> (case map_of r (fst e) of Some (JObj ps) \<Rightarrow> fst ` set (own_entries (snd e)) \<subseteq> fst ` set ps | _ \<Rightarrow> False)"

definition sidebar_typed :: "(jstring \<times> json) list \<Rightarrow> bool" where
  "sidebar_typed r \<longleftrightarrow> sections_typed r \<and> list_all (has_modules r) SIDEBAR_MODULES_DEFAULT"

lemma section_set: "section_typed (JObj ps) \<Longrightarrow> is_bool v \<Longrightarrow> section_typed (JObj (obj_set k v ps))"
  using canonical_obj_set [of ps k v] set_obj_set [of k v ps] by (auto simp: section_typed_def list_all_iff)

lemma sections_set: "sections_typed r \<Longrightarrow> section_typed v \<Longrightarrow> sections_typed (obj_set k v r)"
  using canonical_obj_set [of r k v] set_obj_set [of k v r] by (auto simp: sections_typed_def list_all_iff)

lemma sections_lookup: "sections_typed r \<Longrightarrow> map_of r k = Some v \<Longrightarrow> \<exists>ps. v = JObj ps \<and> section_typed (JObj ps)"
proof -
  assume "sections_typed r" "map_of r k = Some v"
  then have "section_typed v" by (auto simp: sections_typed_def list_all_iff dest!: map_of_SomeD)
  then show ?thesis by (cases v) (auto simp: section_typed_def)
qed

lemma section_config_typed: "section_typed (JObj (section_config lower d raw))"
proof -
  let ?f = "\<lambda>(k, v) cfg. if k = js ''enabled'' then cfg else obj_set k (JBool (toBoolean lower (Some v) (default_flag d k))) cfg"
  have "section_typed (JObj ps) \<Longrightarrow> section_typed (JObj (fold ?f es ps))" for es ps
  proof (induction es arbitrary: ps)
    case (Cons e es)
    have "section_typed (JObj (?f e ps))" using Cons.prems by (cases e) (auto intro: section_set simp: is_bool_def)
    then show ?case using Cons.IH by simp
  qed simp
  moreover have "section_typed (JObj [(k, JBool b)])" for k b by (simp add: section_typed_def canonical_def is_bool_def)
  ultimately show ?thesis by (simp add: section_config_def)
qed

lemma sidebar_entries_typed: "sections_typed r \<Longrightarrow> sections_typed (fold (sidebar_entry lower) es r)"
proof (induction es arbitrary: r)
  case (Cons e es)
  have "sections_typed (sidebar_entry lower e r)"
    using Cons.prems section_config_typed by (cases e) (auto simp: sidebar_entry_def intro: sections_set split: json.split)
  then show ?case using Cons.IH by simp
qed simp

lemma add_missing_typed:
  "section_typed (JObj ps) \<Longrightarrow> list_all (\<lambda>(_, w). is_bool w) d \<Longrightarrow> section_typed (JObj (add_missing d ps))"
proof (induction d arbitrary: ps)
  case (Cons e d)
  then show ?case
    using Cons.IH [of ps] Cons.IH [of "obj_set (fst e) (snd e) ps"] section_set [of ps "snd e" "fst e"]
    by (auto simp: add_missing_def split: prod.splits)
qed (simp add: add_missing_def)

lemma dom_add_missing: "fst ` set (add_missing d ps) = fst ` set ps \<union> fst ` set d"
proof (induction d arbitrary: ps)
  case (Cons e d)
  then show ?case by (cases e) (auto simp: add_missing_def dom_obj_set map_of_eq_None_iff)
qed (simp add: add_missing_def)

lemma merge_default_typed:
  assumes "sections_typed r" "section_typed d"
  shows "sections_typed (merge_default (k, d) r)" "has_modules (merge_default (k, d) r) (k, d)"
    "fst e \<noteq> k \<Longrightarrow> has_modules r e \<Longrightarrow> has_modules (merge_default (k, d) r) e"
proof -
  obtain ds where d: "d = JObj ds" using assms(2) by (cases d) (auto simp: section_typed_def)
  have b: "list_all (\<lambda>(_, w). is_bool w) ds" using assms(2) by (simp add: d section_typed_def)
  show "sections_typed (merge_default (k, d) r)" "has_modules (merge_default (k, d) r) (k, d)"
    using sections_lookup [OF assms(1), of k] assms add_missing_typed [OF _ b] sections_set
    by (auto simp: merge_default_def has_modules_def map_of_obj_set d own_entries_def dom_add_missing split: option.splits json.splits)
  show "fst e \<noteq> k \<Longrightarrow> has_modules r e \<Longrightarrow> has_modules (merge_default (k, d) r) e"
    by (auto simp: merge_default_def has_modules_def map_of_obj_set split: option.splits json.splits)
qed

lemma merge_defaults_typed:
  "sections_typed r \<Longrightarrow> distinct (map fst es) \<Longrightarrow> list_all (\<lambda>(_, d). section_typed d) es \<Longrightarrow>
   sections_typed (fold merge_default es r) \<and> list_all (has_modules (fold merge_default es r)) es
   \<and> (\<forall>e. fst e \<notin> fst ` set es \<longrightarrow> has_modules r e \<longrightarrow> has_modules (fold merge_default es r) e)"
proof (induction es arbitrary: r)
  case (Cons e es)
  obtain k d where e: "e = (k, d)" by (cases e)
  have d: "section_typed d" using Cons.prems(3) by (simp add: e)
  note m = merge_default_typed [OF Cons.prems(1) d]
  note ih = Cons.IH [OF m(1)]
  show ?case using ih m Cons.prems by (auto simp: e)
qed simp

lemma sidebar_default_facts:
  "distinct (map fst SIDEBAR_MODULES_DEFAULT)" "sections_typed SIDEBAR_MODULES_DEFAULT"
  "list_all (has_modules SIDEBAR_MODULES_DEFAULT) SIDEBAR_MODULES_DEFAULT"
  "list_all (\<lambda>(_, d). section_typed d) SIDEBAR_MODULES_DEFAULT"
  "DEFAULT_SIDEBAR_MODULES = SIDEBAR_MODULES_DEFAULT"
  "list_all (\<lambda>(_, sec, m). \<exists>ps\<in>set (map snd SIDEBAR_MODULES_DEFAULT). map_of SIDEBAR_MODULES_DEFAULT sec = Some ps \<and> m \<in> fst ` set (own_entries ps)
      \<and> js ''enabled'' \<in> fst ` set (own_entries ps)) URL_TO_CONFIG_MAP"
  by code_simp+

text \<open>The editor of the sidebar opens any stored text as a configuration of the declared type: sections of booleans that have every
  section and every module of the defaults.\<close>

theorem sidebar_config_typed: "sidebar_typed (parseSidebarModulesAdmin lower value)"
proof -
  have "sections_typed []" by (simp add: sections_typed_def)
  then have "sidebar_typed (fold merge_default SIDEBAR_MODULES_DEFAULT (fold (sidebar_entry lower) es []))" for es
    using merge_defaults_typed [OF sidebar_entries_typed sidebar_default_facts(1,4)] by (simp add: sidebar_typed_def)
  moreover have "sidebar_typed SIDEBAR_MODULES_DEFAULT" using sidebar_default_facts by (simp add: sidebar_typed_def)
  ultimately show ?thesis by (simp add: parseSidebarModulesAdmin_def split: option.split json.split)
qed


text \<open>What a configuration says of a module.\<close>

definition switched_on :: "(jstring \<times> json) list \<Rightarrow> jstring \<Rightarrow> jstring \<Rightarrow> bool" where
  "switched_on c sec m \<longleftrightarrow>
     opt_prop (js ''enabled'') (map_of c sec) = Some (JBool True) \<and> opt_prop m (map_of c sec) = Some (JBool True)"

lemma add_missing_none: "fst ` set d \<subseteq> fst ` set ps \<Longrightarrow> add_missing d ps = ps"
proof (induction d)
  case (Cons e d)
  then have "map_of ps (fst e) \<noteq> None" by (simp add: map_of_eq_None_iff)
  then show ?case using Cons by (cases e) (auto simp: add_missing_def)
qed (simp add: add_missing_def)

lemma merged_lookup:
  assumes "section_typed (JObj ps)" "fst ` set d \<subseteq> fst ` set ps"
  shows "map_of (add_missing d (spread d ps)) = map_of ps"
proof -
  have r: "map_of (rev ps) = map_of ps" using assms(1) by (simp add: section_typed_def canonical_def map_of_rev)
  have "map_of ps k = None \<Longrightarrow> map_of d k = None" for k using assms(2) by (auto simp: map_of_eq_None_iff)
  then have m: "map_of (spread d ps) = map_of ps" by (auto simp: fun_eq_iff map_of_spread r split: option.splits)
  moreover have "fst ` set (spread d ps) = dom (map_of (spread d ps))" "fst ` set ps = dom (map_of ps)"
    by (simp_all add: dom_map_of_conv_image_fst)
  ultimately show ?thesis using assms(2) by (simp add: add_missing_none)
qed

lemma merge_sections_lookup:
  assumes "list_all (\<lambda>(k, d). \<exists>ps. map_of r k = Some (JObj ps) \<and> section_typed (JObj ps) \<and> fst ` set (own_entries d) \<subseteq> fst ` set ps) es"
    "distinct (map fst es)"
  shows "opt_prop m (map_of (fold merge_section es r) k) = opt_prop m (map_of r k)
    \<and> truthy (map_of (fold merge_section es r) k) = truthy (map_of r k)"
  using assms
proof (induction es arbitrary: r)
  case (Cons e es)
  obtain k' d where e: "e = (k', d)" by (cases e)
  obtain ps where ps: "map_of r k' = Some (JObj ps)" "section_typed (JObj ps)" "fst ` set (own_entries d) \<subseteq> fst ` set ps"
    using Cons.prems by (auto simp: e)
  define qs where "qs = add_missing (own_entries d) (spread (own_entries d) ps)"
  have r': "merge_section e r = obj_set k' (JObj qs) r"
    by (simp add: qs_def merge_section_def e ps(1) own_entries_def [of "JObj ps"])
  have q: "map_of qs = map_of ps" unfolding qs_def by (rule merged_lookup [OF ps(2,3)])
  have same: "truthy (map_of (merge_section e r) x) = truthy (map_of r x)" "opt_prop y (map_of (merge_section e r) x) = opt_prop y (map_of r x)" for x y
    by (simp_all add: r' map_of_obj_set ps(1) q)
  have rest: "list_all (\<lambda>(k, d). \<exists>ps. map_of (merge_section e r) k = Some (JObj ps) \<and> section_typed (JObj ps)
      \<and> fst ` set (own_entries d) \<subseteq> fst ` set ps) es" "distinct (map fst es)"
  proof -
    have "map_of (merge_section e r) a = map_of r a" if "(a, b) \<in> set es" for a b
    proof -
      have "a \<noteq> k'" using Cons.prems(2) that by (force simp: e)
      then show ?thesis by (simp add: r' map_of_obj_set)
    qed
    then show "list_all (\<lambda>(k, d). \<exists>ps. map_of (merge_section e r) k = Some (JObj ps) \<and> section_typed (JObj ps)
      \<and> fst ` set (own_entries d) \<subseteq> fst ` set ps) es"
      using Cons.prems(1) unfolding list_all_iff by fastforce
    show "distinct (map fst es)" using Cons.prems(2) by simp
  qed
  show ?case using Cons.IH [OF rest] same by simp
qed simp

lemma typed_defaults:
  assumes "sidebar_typed c"
  shows "list_all (\<lambda>(k, d). \<exists>ps. map_of c k = Some (JObj ps) \<and> section_typed (JObj ps) \<and> fst ` set (own_entries d) \<subseteq> fst ` set ps) SIDEBAR_MODULES_DEFAULT"
proof -
  have "\<exists>ps. map_of c k = Some (JObj ps) \<and> section_typed (JObj ps) \<and> fst ` set (own_entries d) \<subseteq> fst ` set ps"
    if "(k, d) \<in> set SIDEBAR_MODULES_DEFAULT" for k d
  proof -
    have "has_modules c (k, d)" using assms that by (auto simp: sidebar_typed_def list_all_iff)
    then obtain ps where ps: "map_of c k = Some (JObj ps)" "fst ` set (own_entries d) \<subseteq> fst ` set ps"
      by (auto simp: has_modules_def split: option.splits json.splits)
    moreover have "section_typed (JObj ps)" using assms sections_lookup [OF _ ps(1)] by (auto simp: sidebar_typed_def)
    ultimately show ?thesis by blast
  qed
  then show ?thesis unfolding list_all_iff by blast
qed

lemma url_modules:
  assumes "map_of URL_TO_CONFIG_MAP url = Some (sec, m)" "sidebar_typed c"
  obtains ps where "map_of c sec = Some (JObj ps)" "section_typed (JObj ps)" "m \<in> fst ` set ps" "js ''enabled'' \<in> fst ` set ps"
proof -
  have "(url, sec, m) \<in> set URL_TO_CONFIG_MAP" by (rule map_of_SomeD [OF assms(1)])
  then obtain d where d: "map_of SIDEBAR_MODULES_DEFAULT sec = Some d" "m \<in> fst ` set (own_entries d)" "js ''enabled'' \<in> fst ` set (own_entries d)"
    using sidebar_default_facts(6) unfolding list_all_iff by blast
  have "(sec, d) \<in> set SIDEBAR_MODULES_DEFAULT" by (rule map_of_SomeD [OF d(1)])
  then obtain ps where "map_of c sec = Some (JObj ps)" "section_typed (JObj ps)" "fst ` set (own_entries d) \<subseteq> fst ` set ps"
    using typed_defaults [OF assms(2)] unfolding list_all_iff by blast
  then show ?thesis using d that by blast
qed

lemma section_flag: "section_typed (JObj ps) \<Longrightarrow> k \<in> fst ` set ps \<Longrightarrow> \<exists>b. map_of ps k = Some (JBool b)"
proof -
  assume t: "section_typed (JObj ps)" and "k \<in> fst ` set ps"
  then obtain v where v: "map_of ps k = Some v" by (metis map_of_eq_None_iff not_Some_eq)
  then have "is_bool v" using t by (auto simp: section_typed_def list_all_iff dest!: map_of_SomeD)
  then show ?thesis using v by (cases v) (auto simp: is_bool_def)
qed

lemma sidebar_reads_text:
  assumes "sidebar_typed c" "obj_ok c" "map_of URL_TO_CONFIG_MAP url = Some (sec, m)"
  shows "isModuleEnabled url (parseSidebarConfig (Some (serializeSidebarModulesAdmin c))) None = switched_on c sec m"
proof -
  have p: "json_parse (serializeSidebarModulesAdmin c) = Some (JObj c)" "trim (serializeSidebarModulesAdmin c) \<noteq> []"
    using object_text [OF assms(2)] by (simp_all add: serializeSidebarModulesAdmin_def)
  have "list_all (\<lambda>(k, d). \<exists>ps. map_of c k = Some (JObj ps) \<and> section_typed (JObj ps) \<and> fst ` set (own_entries d) \<subseteq> fst ` set ps) SIDEBAR_MODULES_DEFAULT"
    by (rule typed_defaults [OF assms(1)])
  note look = merge_sections_lookup [OF this sidebar_default_facts(1)]
  obtain ps where ps: "map_of c sec = Some (JObj ps)" "section_typed (JObj ps)" "m \<in> fst ` set ps" "js ''enabled'' \<in> fst ` set ps"
    by (rule url_modules [OF assms(3,1)])
  obtain b where "map_of ps (js ''enabled'') = Some (JBool b)" using section_flag [OF ps(2,4)] by blast
  moreover have "str_or (Some s) [] = s" for s by (simp add: str_or_def)
  ultimately show ?thesis
    by (simp add: isModuleEnabled_def assms(3) admin_allows_def user_allows_def switched_on_def parseSidebarConfig_def p
        mergeWithDefaultSidebarModules_def sidebar_default_facts(5) look own_entries_def [of "JObj c"] ps(1))
qed

section \<open>The two layers\<close>

text \<open>
  What the two layers say of a module: the administrator switches it on together with its section, and the user hides it by
  switching either off.
\<close>

definition module_shown :: "(jstring \<times> json) list \<Rightarrow> json option \<Rightarrow> jstring \<times> jstring \<Rightarrow> bool" where
  "module_shown a u = (\<lambda>(sec, m).
     truthy (opt_prop (js ''enabled'') (map_of a sec)) \<and> opt_prop m (map_of a sec) = Some (JBool True)
     \<and> opt_prop (js ''enabled'') (opt_prop sec u) \<noteq> Some (JBool False) \<and> opt_prop m (opt_prop sec u) \<noteq> Some (JBool False))"

definition page_shown :: "(jstring \<times> json) list \<Rightarrow> json option \<Rightarrow> jstring \<Rightarrow> bool" where
  "page_shown a u url = pred_option (module_shown a u) (map_of URL_TO_CONFIG_MAP url)"

definition item_shown :: "(jstring \<times> json) list \<Rightarrow> json option \<Rightarrow> NavItem \<Rightarrow> bool" where
  "item_shown a u item = (case item of
     NavLink _ url configUrls \<Rightarrow> url = [] \<or> list_ex (page_shown a u) (case configUrls of Some us \<Rightarrow> us | None \<Rightarrow> [url])
   | NavCollapsible _ items \<Rightarrow> list_ex (page_shown a u \<circ> snd) items
   | NavChatPresets _ \<Rightarrow> module_shown a u (js ''chat'', js ''chat''))"

lemma falsy_props: "\<not> truthy v \<Longrightarrow> opt_prop k v = None"
  by (cases v rule: option.exhaust; cases "the v") (auto simp: truthy_def get_prop_def split: if_splits)

lemma layers_shown: "admin_allows a sec m \<and> user_allows u sec m \<longleftrightarrow> module_shown a u (sec, m)"
proof -
  have "opt_prop m (map_of a sec) = Some (JBool True) \<Longrightarrow> truthy (map_of a sec)" using falsy_props by fastforce
  then show ?thesis using falsy_props [of "opt_prop sec u"]
    by (auto simp: admin_allows_def user_allows_def module_shown_def Let_def)
qed

lemma enabled_shown: "isModuleEnabled url a u = page_shown a u url"
  by (auto simp: isModuleEnabled_def page_shown_def layers_shown split: option.splits)

lemma visible_shown: "isNavItemVisible item a u = item_shown a u item"
  by (cases item)
    (simp_all add: item_shown_def enabled_shown layers_shown case_prod_beta' comp_def split: option.split)

lemma filtered_same:
  "n_title (filter_sub_items a u item) = n_title item"
  "item_shown a u (filter_sub_items a u item) = item_shown a u item"
proof -
  have "list_ex P (filter P xs) = list_ex P xs" for P and xs :: "(jstring \<times> jstring) list" by (induction xs) auto
  then show "item_shown a u (filter_sub_items a u item) = item_shown a u item"
    by (cases item) (simp_all add: item_shown_def enabled_shown case_prod_beta' comp_def)
qed (cases item; simp)

lemma shown_without_user:
  "module_shown a u p \<Longrightarrow> module_shown a None p" "page_shown a u url \<Longrightarrow> page_shown a None url"
  "item_shown a u item \<Longrightarrow> item_shown a None item"
proof -
  show m: "module_shown a u p \<Longrightarrow> module_shown a None p" for p by (auto simp: module_shown_def)
  show p: "page_shown a u url \<Longrightarrow> page_shown a None url" for url
    using m by (cases "map_of URL_TO_CONFIG_MAP url") (auto simp: page_shown_def)
  show "item_shown a u item \<Longrightarrow> item_shown a None item"
    using m p by (cases item) (auto simp: item_shown_def list_ex_iff)
qed

definition sub_items_shown :: "(jstring \<times> json) list \<Rightarrow> json option \<Rightarrow> NavItem \<Rightarrow> bool" where
  "sub_items_shown a u item = (case item of NavCollapsible _ items \<Rightarrow> list_all (page_shown a u \<circ> snd) items | _ \<Rightarrow> True)"

lemma filtered_sub_items: "sub_items_shown a u (filter_sub_items a u item)"
  by (cases item) (auto simp: sub_items_shown_def enabled_shown list_all_iff)

lemma filtered_titles:
  "map n_title (filterNavItems items a u) = map n_title (filter (item_shown a u) items)"
  unfolding filterNavItems_def by (induction items) (simp_all add: visible_shown filtered_same)


text \<open>A link with a page that has no module cannot be switched off: the console of the administrator is such a link.\<close>

definition admin_console :: NavItem where
  "admin_console = NavLink (js ''Admin console'') (js ''/channels'') (Some (map js
     [''/channels'', ''/models'', ''/users'', ''/redemption-codes'', ''/subscriptions'', ''/system-info'', ''/system-settings'']))"

theorem admin_console_always_shown: "isNavItemVisible admin_console a u"
proof -
  have "map_of URL_TO_CONFIG_MAP (js ''/system-info'') = None" by code_simp
  then have "isModuleEnabled (js ''/system-info'') a u" by (simp add: isModuleEnabled_def)
  then show ?thesis by (simp add: admin_console_def)
qed

section \<open>What the editor saved\<close>

lemma user_none [simp]: "user_allows None sec m"
  by (simp add: user_allows_def)

lemma enabled_split:
  "map_of URL_TO_CONFIG_MAP url = Some (sec, m) \<Longrightarrow> isModuleEnabled url a u \<longleftrightarrow> isModuleEnabled url a None \<and> user_allows u sec m"
  by (simp add: isModuleEnabled_def)

lemma user_allows_alt:
  "user_allows u sec m \<longleftrightarrow>
     opt_prop (js ''enabled'') (opt_prop sec u) \<noteq> Some (JBool False) \<and> opt_prop m (opt_prop sec u) \<noteq> Some (JBool False)"
  using falsy_props [of "opt_prop sec u"] by (cases u) (auto simp: user_allows_def)

text \<open>What a saved configuration and the settings of a user say of a page.\<close>

definition saved_shows :: "(jstring \<times> json) list \<Rightarrow> json option \<Rightarrow> jstring \<Rightarrow> bool" where
  "saved_shows c u page = (case map_of URL_TO_CONFIG_MAP page of
     None \<Rightarrow> True
   | Some (sec, m) \<Rightarrow> switched_on c sec m \<and> opt_prop (js ''enabled'') (opt_prop sec u) \<noteq> Some (JBool False)
       \<and> opt_prop m (opt_prop sec u) \<noteq> Some (JBool False))"

lemma saved_page:
  assumes "sidebar_typed c" "obj_ok c"
  shows "isModuleEnabled page (parseSidebarConfig (Some (serializeSidebarModulesAdmin c))) u = saved_shows c u page"
proof (cases "map_of URL_TO_CONFIG_MAP page")
  case (Some sm)
  obtain sec m where sm: "map_of URL_TO_CONFIG_MAP page = Some (sec, m)" using Some by (cases sm) simp
  show ?thesis
    by (subst enabled_split [OF sm]) (simp add: sidebar_reads_text [OF assms sm] saved_shows_def sm user_allows_alt)
qed (simp add: saved_shows_def isModuleEnabled_def)

lemma gate_reads_text:
  assumes "sidebar_typed c" "obj_ok c" "map_of URL_TO_CONFIG_MAP url = Some (sec, m)"
    and "json_ok (JObj status)" "map_of status (js ''SidebarModulesAdmin'') = Some (JStr (serializeSidebarModulesAdmin c))"
  shows "isSidebarModuleEnabled (Some (json_stringify (JObj status))) sec m = switched_on c sec m"
proof -
  have g: "getCachedStatus (Some (json_stringify (JObj status))) = Some (JObj status)"
    using object_text [of status] assms(4) by (simp add: getCachedStatus_def str_or_def obj_ok_def)
  have p: "json_parse (serializeSidebarModulesAdmin c) = Some (JObj c)" "trim (serializeSidebarModulesAdmin c) \<noteq> []"
      "serializeSidebarModulesAdmin c \<noteq> []"
    using object_text [OF assms(2)] by (simp_all add: serializeSidebarModulesAdmin_def)
  obtain ps where ps: "map_of c sec = Some (JObj ps)" "section_typed (JObj ps)" "m \<in> fst ` set ps" "js ''enabled'' \<in> fst ` set ps"
    by (rule url_modules [OF assms(3,1)])
  obtain a b where "map_of ps (js ''enabled'') = Some (JBool a)" "map_of ps m = Some (JBool b)"
    using section_flag [OF ps(2,4)] section_flag [OF ps(2,3)] by blast
  then show ?thesis by (simp add: isSidebarModuleEnabled_def g assms(5) p switched_on_def ps(1))
qed

text \<open>C16: the sidebar and the routes enforce what the editor saved. For a configuration of the editor's type and any
  settings \<open>u\<close> of the user, a link of the sidebar is shown exactly when at least one of the pages it stands for (its
  \<^verbatim>\<open>configUrls\<close>, or else its own address) has no module, or has one that the saved configuration switches on together
  with its section and that the user's settings do not switch off. The gate of the routes, which reads the cached
  status and no settings of the user, lets a module of a page through exactly when the saved configuration switches it
  on together with its section.\<close>

theorem sidebar_saved_enforced:
  assumes "sidebar_typed c" "obj_ok c" "url \<noteq> []"
    and "json_ok (JObj status)" "map_of status (js ''SidebarModulesAdmin'') = Some (JStr (serializeSidebarModulesAdmin c))"
  shows "(isNavItemVisible (NavLink title url configUrls) (parseSidebarConfig (Some (serializeSidebarModulesAdmin c))) u
      \<longleftrightarrow> (\<exists>page\<in>set (case configUrls of Some us \<Rightarrow> us | None \<Rightarrow> [url]). saved_shows c u page))
    \<and> (map_of URL_TO_CONFIG_MAP page = Some (sec, m) \<longrightarrow>
        isSidebarModuleEnabled (Some (json_stringify (JObj status))) sec m = switched_on c sec m)"
  using gate_reads_text [OF assms(1,2) _ assms(4,5)] assms(3)
  by (simp add: saved_page [OF assms(1,2)] list_ex_iff)

section \<open>Fresh and cached status\<close>

text \<open>C33: a failed request closes the module, and a fresh status that could be stored gives the same access again from the cache.\<close>

theorem fresh_access_cached:
  assumes "json_ok v" "truthy (Some v)"
  shows "getModuleAccess lower (snd (getFreshModuleAccess lower False (Inr (Some v)) storage md)) md
      = fst (getFreshModuleAccess lower False (Inr (Some v)) storage md)
    \<and> module_gate (fst (getFreshModuleAccess lower full (Inl e) storage md)) authed = RedirectHome"
proof -
  have "json_stringify v \<noteq> []" using stringify_head [OF assms(1), of "[]" "[]"] by (auto simp: json_stringify_def)
  then show ?thesis using assms(2) parse_stringify(1) [OF assms(1)]
    by (simp add: getFreshModuleAccess_def getModuleAccess_def cacheStatus_def getCachedStatus_def str_or_def module_gate_def)
qed

text \<open>C32: links and gates agree. The header links to the model list exactly when the gate of its route, given the same status, does not
  send the visitor home, and marks the link exactly when the gate asks for a sign-in. The hypothesis: the documentation is not
  configured to be that page.\<close>

theorem pricing_link_matches_gate:
  assumes "str_or docsLink [] \<noteq> js ''/pricing''"
  shows "map tl_requiresAuth (filter (\<lambda>l. tl_href l = js ''/pricing'') (useTopNavLinks lower t storage status authed ranked marketing docsLink))
    = (let gate = module_gate (getModuleAccessFromStatus lower status Pricing) authed
       in if gate = RedirectHome then [] else [Some (gate = RedirectSignIn)])"
proof -
  define modules where "modules = parseHeaderNavModulesFromStatus lower status"
  have typed: "header_typed modules" using header_default_typed site.fold_typed
    by (auto simp: modules_def parseHeaderNavModulesFromStatus_def Nav_Modules.parseHeaderNavModules_def split: option.split)
  have "js ''pricing'' \<in> fst ` set modules" using typed by (auto simp: header_typed_def header_names_def)
  then obtain v where v: "map_of modules (js ''pricing'') = Some v" by (metis map_of_eq_None_iff not_Some_eq)
  then have "entry_typed (js ''pricing'', v)" using typed by (auto simp: header_typed_def list_all_iff dest: map_of_SomeD)
  then obtain a where a: "v = access_json a" by (cases rule: entry_typed_cases) auto
  have acc: "getModuleAccessFromStatus lower status Pricing = a"
    using access_of_json [of a] by (simp add: getModuleAccessFromStatus_def modules_def [symmetric] v a access_json_def)
  have d: "tl_href (docs_entry t docsLink) \<noteq> js ''/pricing''"
    using assms(1) by (auto simp: docs_entry_def plain_link_def Let_def js_inject)
  have none: "filter (\<lambda>l. tl_href l = js ''/pricing'') (link_when c l) = []" if "tl_href l \<noteq> js ''/pricing''" for c l
    using that by (simp add: link_when_def)
  have other: "filter (\<lambda>l. tl_href l = js ''/pricing'') (access_link t ranked x authed ''Rankings'' ''/rankings'') = []" for x
    by (simp add: access_link_def link_when_def plain_link_def js_inject split: option.split json.split)
  have "filter (\<lambda>l. tl_href l = js ''/pricing'') (useTopNavLinks lower t storage status authed ranked marketing docsLink)
      = filter (\<lambda>l. tl_href l = js ''/pricing'') (access_link t True (Some v) authed ''Model Square'' ''/pricing'')"
    unfolding useTopNavLinks_def Let_def modules_def [symmetric]
    by (simp add: none d other v plain_link_def js_inject)
  then show ?thesis
    by (auto simp: access_link_def a access_json_def link_when_def plain_link_def js_inject acc module_gate_def Let_def)
qed

section \<open>Where the readers part\<close>

text \<open>A number other than 0 and 1 switches a module off in the editor and leaves its default on the site.\<close>

theorem numbers_read_differently:
  "map_of (header_entry lower (js ''docs'', JNum (Fin 2)) HEADER_NAV_DEFAULT) (js ''docs'') = Some (JBool False)
   \<and> map_of (module_entry lower (js ''docs'', JNum (Fin 2)) HEADER_NAV_DEFAULT) (js ''docs'') = Some (JBool True)"
  by (simp add: header_entry_def module_entry_def map_of_obj_set js_inject toBoolean_def parseHeaderNavBoolean_def HEADER_NAV_DEFAULT_def
      num_eq_def Let_def)

text \<open>
  A switch stored as the text \<^verbatim>\<open>"1"\<close> is on in the editor, on for the gate of the route and off in the sidebar.
\<close>

definition text_switch :: jstring where
  "text_switch = json_stringify (JObj [(js ''chat'', JObj [(js ''enabled'', JBool True), (js ''playground'', JStr (js ''1''))])])"

theorem text_switch_read_differently:
  "opt_prop (js ''playground'') (map_of (parseSidebarModulesAdmin id (Some text_switch)) (js ''chat'')) = Some (JBool True)
   \<and> isSidebarModuleEnabled (Some (json_stringify (JObj [(js ''SidebarModulesAdmin'', JStr text_switch)]))) (js ''chat'') (js ''playground'')
   \<and> \<not> isModuleEnabled (js ''/playground'') (parseSidebarConfig (Some text_switch)) None"
  by code_simp

text \<open>
  The switch of the sidebar is read from the cached status even when a status is given: the status at hand turns the playground off, and
  the entry is shown as long as nothing is cached.
\<close>

definition playground_off :: json where
  "playground_off = JObj [(js ''SidebarModulesAdmin'', JStr (json_stringify (JObj
     [(js ''chat'', JObj [(js ''enabled'', JBool True), (js ''playground'', JBool False)])])))]"

theorem given_status_ignored:
  "isChatEntryEnabled id None (Some (Some playground_off)) \<and> \<not> isChatEntryEnabled id (Some (json_stringify playground_off)) None"
  by code_simp

section \<open>Examples\<close>

definition sample_values :: HeaderNavFormValues where
  "sample_values = (toFormValues HEADER_NAV_DEFAULT)\<lparr>hf_pricingRequireAuth := True, hf_home := False\<rparr>"

theorem header_saved_enforced_witness:
  "\<exists>saved. onSubmit HEADER_NAV_DEFAULT [] sample_values = Some saved
    \<and> getModuleAccessFromStatus id (Some (JObj [(js ''HeaderNavModules'', JStr saved)])) Pricing
      = \<lparr>ac_enabled = True, ac_requireAuth = True\<rparr>"
proof -
  define saved where "saved = serializeHeaderNavModules (header_payload HEADER_NAV_DEFAULT sample_values)"
  have "saved \<noteq> []" by (simp add: saved_def serializeHeaderNavModules_def json_stringify_def bracket_def)
  then have o: "onSubmit HEADER_NAV_DEFAULT [] sample_values = Some saved" by (simp add: onSubmit_def saved_def [symmetric])
  have d: "HEADER_NAV_DEFAULT = Nav_Config.parseHeaderNavModules id None" by (simp add: Nav_Config.parseHeaderNavModules_def str_or_def)
  have u: "list_all units (map fst HEADER_NAV_DEFAULT)" by code_simp
  have v: "hf_pricingEnabled sample_values" "hf_pricingRequireAuth sample_values" by code_simp+
  show ?thesis
    using header_saved_enforced [OF o d u, of "Some (JObj [(js ''HeaderNavModules'', JStr saved)])" id] o v by simp
qed

theorem sidebar_saved_enforced_witness:
  "isNavItemVisible (NavLink (js ''API Keys'') (js ''/keys'') None)
     (parseSidebarConfig (Some (serializeSidebarModulesAdmin SIDEBAR_MODULES_DEFAULT))) None
   \<and> isSidebarModuleEnabled (Some (json_stringify (JObj
       [(js ''SidebarModulesAdmin'', JStr (serializeSidebarModulesAdmin SIDEBAR_MODULES_DEFAULT))]))) (js ''console'') (js ''token'')"
proof -
  have c: "sidebar_typed SIDEBAR_MODULES_DEFAULT" using sidebar_default_facts by (simp add: sidebar_typed_def)
  have ok: "obj_ok SIDEBAR_MODULES_DEFAULT" by code_simp
  have n: "js ''/keys'' \<noteq> []" by (simp add: js_str)
  have m: "map_of URL_TO_CONFIG_MAP (js ''/keys'') = Some (js ''console'', js ''token'')" by code_simp
  have st: "json_ok (JObj [(js ''SidebarModulesAdmin'', JStr (serializeSidebarModulesAdmin SIDEBAR_MODULES_DEFAULT))])" by code_simp
  have "switched_on SIDEBAR_MODULES_DEFAULT (js ''console'') (js ''token'')" by code_simp
  moreover from this m have "saved_shows SIDEBAR_MODULES_DEFAULT None (js ''/keys'')" by (simp add: saved_shows_def)
  ultimately show ?thesis
    using sidebar_saved_enforced [OF c ok n st, of "js ''API Keys''" None None "js ''/keys''" "js ''console''" "js ''token''"] m by simp
qed

definition sample_group :: NavGroup where
  "sample_group = \<lparr>ng_title = js ''Console'', ng_items = [NavLink (js ''Keys'') (js ''/keys'') None, NavLink (js ''Wallet'') (js ''/wallet'') None]\<rparr>"

definition hide_wallet :: jstring where
  "hide_wallet = json_stringify (JObj [(js ''personal'', JObj [(js ''topup'', JBool False)])])"


theorem fresh_access_cached_witness:
  "getModuleAccess id (snd (getFreshModuleAccess id False (Inr (Some playground_off)) None Pricing)) Pricing
    = \<lparr>ac_enabled = True, ac_requireAuth = False\<rparr>"
proof -
  have "json_ok playground_off" "truthy (Some playground_off)" by code_simp+
  note fresh_access_cached [OF this, of id None Pricing]
  moreover have "fst (getFreshModuleAccess id False (Inr (Some playground_off)) None Pricing) = \<lparr>ac_enabled = True, ac_requireAuth = False\<rparr>"
    by code_simp
  ultimately show ?thesis by simp
qed

theorem pricing_link_matches_gate_witness:
  "map tl_requiresAuth (filter (\<lambda>l. tl_href l = js ''/pricing'') (useTopNavLinks id id None None False False False None)) = [Some False]"
proof -
  have "str_or None [] \<noteq> js ''/pricing''" by (simp add: str_or_def js_str)
  from pricing_link_matches_gate [OF this, of id id None None False False False]
  show ?thesis by (simp add: getModuleAccessFromStatus_def parseHeaderNavModulesFromStatus_def Nav_Modules.parseHeaderNavModules_def
        parseHeaderNavRecord_def HEADER_NAV_DEFAULT_def js_inject access_json_def access_of_def module_gate_def)
qed

end
