(* ===== verification/Think_While.thy ===== *)
theory Think_While
  imports Message_Laws
begin

text \<open>
  The loop of \<^verbatim>\<open>parseThinkTags\<close> as it is written: \<^verbatim>\<open>while (true)\<close> over a position in the text with two arrays that grow. Not returning is
  the value \<open>None\<close>. It returns on every text, with the parts that \<open>think_loop\<close> gives.
\<close>

text \<open>\<^verbatim>\<open>s.indexOf(t, from)\<close>.\<close>

definition index_from :: "jstring \<Rightarrow> jstring \<Rightarrow> nat \<Rightarrow> nat option" where
  "index_from s t from = map_option (\<lambda>i. from + i) (index_of t (drop from s))"

definition substring :: "jstring \<Rightarrow> nat \<Rightarrow> nat \<Rightarrow> jstring" where
  "substring s a b = take (b - a) (drop a s)"

partial_function (option) think_while ::
  "jstring \<Rightarrow> nat \<Rightarrow> jstring list \<Rightarrow> jstring list \<Rightarrow> (jstring list \<times> jstring list \<times> bool) option" where
  "think_while content currentPos visibleParts reasoningParts =
     (case index_from content OPEN_TAG currentPos of
        None \<Rightarrow> Some (if currentPos < length content then visibleParts @ [drop currentPos content] else visibleParts, reasoningParts, False)
      | Some openPos \<Rightarrow>
          let visibleParts' = (if openPos > currentPos then visibleParts @ [substring content currentPos openPos] else visibleParts)
          in case index_from content CLOSE_TAG (openPos + 7) of
               None \<Rightarrow> Some (visibleParts', reasoningParts @ [drop (openPos + 7) content], True)
             | Some closePos \<Rightarrow>
                 think_while content (closePos + 8) visibleParts' (reasoningParts @ [substring content (openPos + 7) closePos]))"

lemma think_while_from:
  assumes "drop pos content = s"
  shows "think_while content pos vs rs = Some (case think_loop s of (v, r, u) \<Rightarrow> (vs @ v, rs @ r, u))"
  using assms
proof (induction s arbitrary: pos vs rs rule: think_loop.induct)
  case (1 s)
  show ?case
  proof (cases "index_of OPEN_TAG s")
    case None
    then show ?thesis using "1.prems"
      by (subst think_while.simps, subst think_loop.simps) (auto simp: index_from_def)
  next
    case (Some openPos)
    define after where "after = drop (openPos + 7) s"
    have d: "drop (pos + openPos + 7) content = after" using "1.prems" by (auto simp: after_def ac_simps)
    show ?thesis
    proof (cases "index_of CLOSE_TAG after")
      case None
      then show ?thesis using "1.prems" Some d
        by (subst think_while.simps, subst think_loop.simps) (auto simp: index_from_def substring_def after_def Let_def)
    next
      case (Some closePos)
      have "drop (pos + openPos + 7 + closePos + 8) content = drop (closePos + 8) after"
        using d by (metis add.assoc add.commute drop_drop)
      note ih = "1.IH" [OF \<open>index_of OPEN_TAG s = Some openPos\<close> refl after_def Some this]
      then show ?thesis using "1.prems" \<open>index_of OPEN_TAG s = Some openPos\<close> Some d
        by (subst think_while.simps, subst think_loop.simps)
          (auto simp: index_from_def substring_def after_def [symmetric] Let_def add.assoc split: prod.splits)
    qed
  qed
qed

text \<open>C21: the loop that takes the reasoning out of a message ends on every text, however the tags are nested, repeated or cut off, and
  what it has collected is what the parser returns.\<close>

theorem think_while_returns:
  "\<exists>v r u. think_while content 0 [] [] = Some (v, r, u)
    \<and> (str_includes content OPEN_TAG \<longrightarrow>
        parseThinkTags content = \<lparr>visibleContent = trim (join [] v), reasoning = trim (join [10, 10] r), hasUnclosedTag = u\<rparr>)"
  using think_while_from [of 0 content content "[]" "[]"]
  by (cases "think_loop content") (auto simp: parseThinkTags_def)

theorem think_while_returns_witness:
  "\<exists>v r u. think_while (js ''<think>a'') 0 [] [] = Some (v, r, u)
    \<and> parseThinkTags (js ''<think>a'') = \<lparr>visibleContent = trim (join [] v), reasoning = trim (join [10, 10] r), hasUnclosedTag = u\<rparr>"
proof -
  have "str_includes (js ''<think>a'') OPEN_TAG" by code_simp
  then show ?thesis using think_while_returns [of "js ''<think>a''"] by blast
qed

end
