(* ===== verification/Message_Codec.thy ===== *)
theory Message_Codec
  imports Message_Laws JS_Objects "HOL-Library.Monad_Syntax"
begin

text \<open>
  The messages of the playground as JSON: what \<^verbatim>\<open>JSON.stringify\<close> makes of a value of the interfaces of \<^verbatim>\<open>types.ts\<close>, and which
  JSON values are of these interfaces. A property that is undefined is left out. The members are listed in the order of the
  interface; the order in a message depends on how it was built, and no reader depends on it. The locale \<open>json_codec\<close> is the contract of a
  reader and a printer, with what follows for lists and for optional members.
\<close>

section \<open>Members\<close>

text \<open>An object of the properties that are not undefined.\<close>

definition fields :: "(string \<times> json option) list \<Rightarrow> (jstring \<times> json) list" where
  "fields fs = concat (map (\<lambda>(k, x). case x of None \<Rightarrow> [] | Some v \<Rightarrow> [(js k, v)]) fs)"

definition null_json :: "('a \<Rightarrow> json) \<Rightarrow> 'a option \<Rightarrow> json" where
  "null_json f x = (case x of None \<Rightarrow> JNull | Some a \<Rightarrow> f a)"

text \<open>A property that may be absent, and one that may also be null.\<close>

definition opt_value :: "(json \<Rightarrow> 'a option) \<Rightarrow> json option \<Rightarrow> 'a option option" where
  "opt_value r v = (case v of None \<Rightarrow> Some None | Some w \<Rightarrow> map_option Some (r w))"

definition null_value :: "(json \<Rightarrow> 'a option) \<Rightarrow> json \<Rightarrow> 'a option option" where
  "null_value r v = (if v = JNull then Some None else map_option Some (r v))"

definition read_member :: "(json \<Rightarrow> 'a option) \<Rightarrow> string \<Rightarrow> (jstring \<times> json) list \<Rightarrow> 'a option" where
  "read_member r k ps = Option.bind (map_of ps (js k)) r"

definition read_opt :: "(json \<Rightarrow> 'a option) \<Rightarrow> string \<Rightarrow> (jstring \<times> json) list \<Rightarrow> 'a option option" where
  "read_opt r k ps = opt_value r (map_of ps (js k))"

definition read_null :: "(json \<Rightarrow> 'a option) \<Rightarrow> string \<Rightarrow> (jstring \<times> json) list \<Rightarrow> 'a nullable option" where
  "read_null r k ps = opt_value (null_value r) (map_of ps (js k))"

definition read_list :: "(json \<Rightarrow> 'a option) \<Rightarrow> json \<Rightarrow> 'a list option" where
  "read_list r v = (case v of JArr vs \<Rightarrow> those (map r vs) | _ \<Rightarrow> None)"

definition read_object :: "((jstring \<times> json) list \<Rightarrow> 'a option) \<Rightarrow> json \<Rightarrow> 'a option" where
  "read_object r v = (case v of JObj ps \<Rightarrow> r ps | _ \<Rightarrow> None)"

definition read_str :: "json \<Rightarrow> jstring option" where
  "read_str v = (case v of JStr s \<Rightarrow> Some s | _ \<Rightarrow> None)"

definition read_num :: "json \<Rightarrow> jsnum option" where
  "read_num v = (case v of JNum x \<Rightarrow> Some x | _ \<Rightarrow> None)"

definition read_bool :: "json \<Rightarrow> bool option" where
  "read_bool v = (case v of JBool b \<Rightarrow> Some b | _ \<Rightarrow> None)"

definition int_json :: "int \<Rightarrow> json" where
  "int_json i = JNum (Fin (of_int i))"

definition read_int :: "json \<Rightarrow> int option" where
  "read_int v = (case v of JNum (Fin q) \<Rightarrow> if of_int \<lfloor>q\<rfloor> = q then Some \<lfloor>q\<rfloor> else None | _ \<Rightarrow> None)"

definition list_json :: "('a \<Rightarrow> json) \<Rightarrow> 'a list \<Rightarrow> json" where
  "list_json f xs = JArr (map f xs)"

section \<open>The interfaces\<close>

fun role_json :: "MessageRole \<Rightarrow> json" where
  "role_json RoleUser = JStr (js ''user'')"
| "role_json RoleAssistant = JStr (js ''assistant'')"
| "role_json RoleSystem = JStr (js ''system'')"
| "role_json RoleTool = JStr (js ''tool'')"

definition read_role :: "json \<Rightarrow> MessageRole option" where
  "read_role v = find (\<lambda>r. role_json r = v) [RoleUser, RoleAssistant, RoleSystem, RoleTool]"

fun status_json :: "MessageStatus \<Rightarrow> json" where
  "status_json Loading = JStr (js ''loading'')"
| "status_json Streaming = JStr (js ''streaming'')"
| "status_json Complete = JStr (js ''complete'')"
| "status_json ErrorStatus = JStr (js ''error'')"
| "status_json Truncated = JStr (js ''truncated'')"

definition read_status :: "json \<Rightarrow> MessageStatus option" where
  "read_status v = find (\<lambda>s. status_json s = v) [Loading, Streaming, Complete, ErrorStatus, Truncated]"

definition tool_call_json :: "ToolCall \<Rightarrow> json" where
  "tool_call_json c = JObj (fields [(''id'', Some (JStr (tc_id c))), (''type'', Some (JStr (js ''function''))),
     (''function'', Some (JObj (fields [(''name'', Some (JStr (tc_name c))), (''arguments'', Some (JStr (tc_arguments c)))])))])"

definition read_tool_call :: "json \<Rightarrow> ToolCall option" where
  "read_tool_call = read_object (\<lambda>ps. do {
     i \<leftarrow> read_member read_str ''id'' ps;
     t \<leftarrow> read_member read_str ''type'' ps;
     (n, a) \<leftarrow> read_member (read_object (\<lambda>qs. do {
        n \<leftarrow> read_member read_str ''name'' qs; a \<leftarrow> read_member read_str ''arguments'' qs; Some (n, a) })) ''function'' ps;
     if t = js ''function'' then Some \<lparr>tc_id = i, tc_name = n, tc_arguments = a\<rparr> else None })"

definition reasoning_json :: "Reasoning \<Rightarrow> json" where
  "reasoning_json r = JObj (fields [(''content'', Some (JStr (re_content r))), (''duration'', Some (JNum (re_duration r)))])"

definition read_reasoning :: "json \<Rightarrow> Reasoning option" where
  "read_reasoning = read_object (\<lambda>ps. do {
     c \<leftarrow> read_member read_str ''content'' ps; d \<leftarrow> read_member read_num ''duration'' ps;
     Some \<lparr>re_content = c, re_duration = d\<rparr> })"

definition version_json :: "MessageVersion \<Rightarrow> json" where
  "version_json v = JObj (fields [(''id'', Some (JStr (v_id v))), (''content'', Some (JStr (v_content v))),
     (''toolCalls'', map_option (list_json tool_call_json) (v_toolCalls v)), (''reasoning'', map_option reasoning_json (v_reasoning v)),
     (''refusal'', map_option JStr (v_refusal v)), (''finishReason'', map_option (null_json JStr) (v_finishReason v))])"

definition read_version :: "json \<Rightarrow> MessageVersion option" where
  "read_version = read_object (\<lambda>ps. do {
     i \<leftarrow> read_member read_str ''id'' ps; c \<leftarrow> read_member read_str ''content'' ps;
     t \<leftarrow> read_opt (read_list read_tool_call) ''toolCalls'' ps; r \<leftarrow> read_opt read_reasoning ''reasoning'' ps;
     f \<leftarrow> read_opt read_str ''refusal'' ps; e \<leftarrow> read_null read_str ''finishReason'' ps;
     Some \<lparr>v_id = i, v_content = c, v_toolCalls = t, v_reasoning = r, v_refusal = f, v_finishReason = e\<rparr> })"

definition details_json :: "jsnum option \<Rightarrow> json" where
  "details_json d = JObj (fields [(''cached_tokens'', map_option JNum d)])"

definition usage_json :: "TokenUsage \<Rightarrow> json" where
  "usage_json u = JObj (fields [(''prompt_tokens'', Some (JNum (prompt_tokens u))), (''completion_tokens'', Some (JNum (completion_tokens u))),
     (''total_tokens'', Some (JNum (total_tokens u))), (''prompt_tokens_details'', map_option details_json (prompt_tokens_details u))])"

definition read_usage :: "json \<Rightarrow> TokenUsage option" where
  "read_usage = read_object (\<lambda>ps. do {
     p \<leftarrow> read_member read_num ''prompt_tokens'' ps; c \<leftarrow> read_member read_num ''completion_tokens'' ps;
     t \<leftarrow> read_member read_num ''total_tokens'' ps;
     d \<leftarrow> read_opt (read_object (read_opt read_num ''cached_tokens'')) ''prompt_tokens_details'' ps;
     Some \<lparr>prompt_tokens = p, completion_tokens = c, total_tokens = t, prompt_tokens_details = d\<rparr> })"

definition source_json :: "MessageSource \<Rightarrow> json" where
  "source_json s = JObj (fields [(''href'', Some (JStr (src_href s))), (''title'', Some (JStr (src_title s)))])"

definition read_source :: "json \<Rightarrow> MessageSource option" where
  "read_source = read_object (\<lambda>ps. do {
     h \<leftarrow> read_member read_str ''href'' ps; t \<leftarrow> read_member read_str ''title'' ps; Some \<lparr>src_href = h, src_title = t\<rparr> })"

definition message_fields :: "Message \<Rightarrow> (string \<times> json option) list" where
  "message_fields m =
    [(''key'', Some (JStr (m_key m))), (''from'', Some (role_json (m_from m))),
     (''versions'', Some (list_json version_json (m_versions m))),
     (''activeVersionIndex'', map_option int_json (m_activeVersionIndex m)), (''model'', map_option JStr (m_model m)),
     (''imageUrls'', map_option (list_json JStr) (m_imageUrls m)), (''sources'', map_option (list_json source_json) (m_sources m)),
     (''reasoning'', map_option reasoning_json (m_reasoning m)),
     (''toolCalls'', map_option (list_json tool_call_json) (m_toolCalls m)), (''refusal'', map_option JStr (m_refusal m)),
     (''finishReason'', map_option (null_json JStr) (m_finishReason m)), (''toolCallId'', map_option JStr (m_toolCallId m)),
     (''toolName'', map_option JStr (m_toolName m)), (''isReasoningStreaming'', map_option JBool (m_isReasoningStreaming m)),
     (''isReasoningComplete'', map_option JBool (m_isReasoningComplete m)),
     (''isContentComplete'', map_option JBool (m_isContentComplete m)), (''status'', map_option status_json (m_status m)),
     (''errorCode'', map_option (null_json JStr) (m_errorCode m)), (''usage'', map_option usage_json (m_usage m)),
     (''costUsd'', map_option JNum (m_costUsd m)), (''latencyMs'', map_option int_json (m_latencyMs m))]"

definition message_json :: "Message \<Rightarrow> json" where
  "message_json m = JObj (fields (message_fields m))"

definition read_message :: "json \<Rightarrow> Message option" where
  "read_message = read_object (\<lambda>ps. do {
     k \<leftarrow> read_member read_str ''key'' ps; f \<leftarrow> read_member read_role ''from'' ps;
     vs \<leftarrow> read_member (read_list read_version) ''versions'' ps;
     a \<leftarrow> read_opt read_int ''activeVersionIndex'' ps; md \<leftarrow> read_opt read_str ''model'' ps;
     im \<leftarrow> read_opt (read_list read_str) ''imageUrls'' ps; so \<leftarrow> read_opt (read_list read_source) ''sources'' ps;
     re \<leftarrow> read_opt read_reasoning ''reasoning'' ps; tc \<leftarrow> read_opt (read_list read_tool_call) ''toolCalls'' ps;
     rf \<leftarrow> read_opt read_str ''refusal'' ps; fr \<leftarrow> read_null read_str ''finishReason'' ps;
     ti \<leftarrow> read_opt read_str ''toolCallId'' ps; tn \<leftarrow> read_opt read_str ''toolName'' ps;
     rs \<leftarrow> read_opt read_bool ''isReasoningStreaming'' ps; rc \<leftarrow> read_opt read_bool ''isReasoningComplete'' ps;
     cc \<leftarrow> read_opt read_bool ''isContentComplete'' ps; st \<leftarrow> read_opt read_status ''status'' ps;
     ec \<leftarrow> read_null read_str ''errorCode'' ps; us \<leftarrow> read_opt read_usage ''usage'' ps;
     co \<leftarrow> read_opt read_num ''costUsd'' ps; la \<leftarrow> read_opt read_int ''latencyMs'' ps;
     Some \<lparr>m_key = k, m_from = f, m_versions = vs, m_activeVersionIndex = a, m_model = md, m_imageUrls = im, m_sources = so,
       m_reasoning = re, m_toolCalls = tc, m_refusal = rf, m_finishReason = fr, m_toolCallId = ti, m_toolName = tn,
       m_isReasoningStreaming = rs, m_isReasoningComplete = rc, m_isContentComplete = cc, m_status = st, m_errorCode = ec,
       m_usage = us, m_costUsd = co, m_latencyMs = la\<rparr> })"

section \<open>Readers and printers\<close>

lemma map_of_fields: "distinct (map fst fs) \<Longrightarrow> map_of (fields fs) (js k) = Option.bind (map_of fs k) id"
proof (induction fs)
  case (Cons f fs)
  have "map_of fs (fst f) = None" using Cons.prems by (simp add: map_of_eq_None_iff)
  then show ?case using Cons by (cases f) (auto simp: fields_def js_inject split: option.split)
qed (simp add: fields_def)

lemma read_object_simp [simp]: "read_object r (JObj ps) = r ps"
  by (simp add: read_object_def)

lemmas read_defs = read_member_def read_opt_def read_null_def map_of_fields

locale json_codec =
  fixes enc :: "'a \<Rightarrow> json" and dec :: "json \<Rightarrow> 'a option"
  assumes dec_enc [simp]: "dec (enc x) = Some x"
begin

lemma dec_opt [simp]: "opt_value dec (map_option enc x) = Some x"
  by (cases x) (simp_all add: opt_value_def)

lemma dec_list: "read_list dec (list_json enc xs) = Some xs"
  by (induction xs) (simp_all add: read_list_def list_json_def)

end

locale json_codec_nonnull = json_codec +
  assumes enc_nonnull: "enc x \<noteq> JNull"
begin

lemma dec_null: "null_value dec (null_json enc x) = Some x"
  by (cases x) (simp_all add: null_value_def null_json_def enc_nonnull)

end

interpretation str_codec: json_codec_nonnull JStr read_str
  by unfold_locales (simp_all add: read_str_def)

interpretation num_codec: json_codec JNum read_num
  by unfold_locales (simp add: read_num_def)

interpretation bool_codec: json_codec JBool read_bool
  by unfold_locales (simp add: read_bool_def)

interpretation int_codec: json_codec int_json read_int
  by unfold_locales (simp add: read_int_def int_json_def)

interpretation role_codec: json_codec role_json read_role
proof
  fix r show "read_role (role_json r) = Some r" by (cases r) (simp_all add: read_role_def js_inject)
qed

interpretation status_codec: json_codec status_json read_status
proof
  fix s show "read_status (status_json s) = Some s" by (cases s) (simp_all add: read_status_def js_inject)
qed

interpretation null_str_codec: json_codec "null_json JStr" "null_value read_str"
  by unfold_locales (rule str_codec.dec_null)

interpretation strs_codec: json_codec "list_json JStr" "read_list read_str"
  by unfold_locales (rule str_codec.dec_list)

interpretation tool_call_codec: json_codec tool_call_json read_tool_call
  by unfold_locales (simp add: tool_call_json_def read_tool_call_def read_defs)

interpretation tool_calls_codec: json_codec "list_json tool_call_json" "read_list read_tool_call"
  by unfold_locales (rule tool_call_codec.dec_list)

interpretation reasoning_codec: json_codec reasoning_json read_reasoning
  by unfold_locales (simp add: reasoning_json_def read_reasoning_def read_defs)

interpretation version_codec: json_codec version_json read_version
  by unfold_locales (simp add: version_json_def read_version_def read_defs)

interpretation versions_codec: json_codec "list_json version_json" "read_list read_version"
  by unfold_locales (rule version_codec.dec_list)

interpretation details_codec: json_codec details_json "read_object (read_opt read_num ''cached_tokens'')"
  by unfold_locales (simp add: details_json_def read_defs)

interpretation usage_codec: json_codec usage_json read_usage
  by unfold_locales (simp add: usage_json_def read_usage_def read_defs)

interpretation source_codec: json_codec source_json read_source
  by unfold_locales (simp add: source_json_def read_source_def read_defs)

interpretation sources_codec: json_codec "list_json source_json" "read_list read_source"
  by unfold_locales (rule source_codec.dec_list)

lemma message_fields_distinct: "distinct (map fst (message_fields m))"
  by (simp add: message_fields_def)

interpretation message_codec: json_codec message_json read_message
  by unfold_locales (simp add: message_json_def read_message_def read_member_def read_opt_def read_null_def
      map_of_fields [OF message_fields_distinct], simp add: message_fields_def)

interpretation messages_codec: json_codec "list_json message_json" "read_list read_message"
  by unfold_locales (rule message_codec.dec_list)

end
