(* ===== verification/Play_Storage.thy ===== *)
theory Play_Storage
  imports Message_Codec JS_Integers
begin

text \<open>
  The browser storage of the playground (\<^verbatim>\<open>features/playground/lib/storage.ts\<close>). The storage maps keys to texts. A write may fail, for
  instance when the storage is full: the argument \<open>full\<close> says so, and the code then keeps going with the old text. The
  configuration and the switches of the parameters are JSON objects, since the code merges whatever it finds over the defaults.
\<close>

type_synonym storage = "jstring \<rightharpoonup> jstring"

type_synonym members = "(jstring \<times> json) list"

section \<open>Keys and defaults\<close>

datatype StorageKey =
    CONFIG | MESSAGES | PARAMETER_ENABLED | ACTIVE_CONVERSATION_ID | LEGACY_CONFIG | LEGACY_MESSAGES | LEGACY_PARAMETER_ENABLED

fun STORAGE_KEYS :: "StorageKey \<Rightarrow> jstring" where
  "STORAGE_KEYS CONFIG = js ''playground_config_v2''"
| "STORAGE_KEYS MESSAGES = js ''playground_messages_v2''"
| "STORAGE_KEYS PARAMETER_ENABLED = js ''playground_parameter_enabled_v2''"
| "STORAGE_KEYS ACTIVE_CONVERSATION_ID = js ''playground_active_conversation_id''"
| "STORAGE_KEYS LEGACY_CONFIG = js ''playground_config''"
| "STORAGE_KEYS LEGACY_MESSAGES = js ''playground_messages''"
| "STORAGE_KEYS LEGACY_PARAMETER_ENABLED = js ''playground_parameter_enabled''"

fun effort_json :: "ReasoningEffort \<Rightarrow> json" where
  "effort_json EffortOff = JStr (js ''off'')"
| "effort_json EffortMinimal = JStr (js ''minimal'')"
| "effort_json EffortLow = JStr (js ''low'')"
| "effort_json EffortMedium = JStr (js ''medium'')"
| "effort_json EffortHigh = JStr (js ''high'')"

definition tool_json :: "PlaygroundToolDefinition \<Rightarrow> json" where
  "tool_json d = JObj (fields [(''type'', Some (JStr (js ''function''))), (''function'', Some (JObj (fields [(''name'', Some (JStr (tool_name d))),
     (''description'', map_option JStr (tool_description d)), (''parameters'', (tool_parameters d))])))])"

fun choice_json :: "ToolChoice \<Rightarrow> json" where
  "choice_json ChoiceNone = JStr (js ''none'')"
| "choice_json ChoiceAuto = JStr (js ''auto'')"
| "choice_json ChoiceRequired = JStr (js ''required'')"
| "choice_json (ChoiceFunction n) =
     JObj (fields [(''type'', Some (JStr (js ''function''))), (''function'', Some (JObj (fields [(''name'', Some (JStr n))])))])"

fun format_json :: "ResponseFormat \<Rightarrow> json" where
  "format_json FormatText = JObj (fields [(''type'', Some (JStr (js ''text'')))])"
| "format_json FormatJsonObject = JObj (fields [(''type'', Some (JStr (js ''json_object'')))])"
| "format_json (FormatJsonSchema n strict schema) =
     JObj (fields [(''type'', Some (JStr (js ''json_schema''))), (''json_schema'', Some (JObj (fields [(''name'', Some (JStr n)),
     (''strict'', map_option JBool strict), (''schema'', Some schema)])))])"

definition config_members :: "PlaygroundConfig \<Rightarrow> members" where
  "config_members c = map (\<lambda>(k, v). (js k, v))
     [(''systemPrompt'', JStr (cf_systemPrompt c)), (''model'', JStr (cf_model c)),
      (''compareModels'', list_json JStr (cf_compareModels c)), (''group'', JStr (cf_group c)),
      (''temperature'', JNum (cf_temperature c)), (''top_p'', JNum (cf_top_p c)), (''max_tokens'', JNum (cf_max_tokens c)),
      (''frequency_penalty'', JNum (cf_frequency_penalty c)), (''presence_penalty'', JNum (cf_presence_penalty c)),
      (''seed'', null_json JNum (cf_seed c)), (''stream'', JBool (cf_stream c)),
      (''reasoningEffort'', effort_json (cf_reasoningEffort c)), (''reasoningMaxTokens'', JNum (cf_reasoningMaxTokens c)),
      (''webSearch'', JBool (cf_webSearch c)), (''tools'', list_json tool_json (cf_tools c)),
      (''toolChoice'', choice_json (cf_toolChoice c)), (''responseFormat'', format_json (cf_responseFormat c))]"

definition enabled_members :: "ParameterEnabled \<Rightarrow> members" where
  "enabled_members p = map (\<lambda>(k, b). (js k, JBool b))
     [(''temperature'', pe_temperature p), (''top_p'', pe_top_p p), (''max_tokens'', pe_max_tokens p),
      (''frequency_penalty'', pe_frequency_penalty p), (''presence_penalty'', pe_presence_penalty p), (''seed'', pe_seed p)]"

abbreviation default_config :: members where
  "default_config \<equiv> config_members DEFAULT_CONFIG"

abbreviation default_enabled :: members where
  "default_enabled \<equiv> enabled_members DEFAULT_PARAMETER_ENABLED"

section \<open>Operations\<close>

definition setItem :: "bool \<Rightarrow> StorageKey \<Rightarrow> jstring \<Rightarrow> storage \<Rightarrow> storage" where
  "setItem full k v s = (if full then s else s(STORAGE_KEYS k \<mapsto> v))"

definition removeItem :: "StorageKey \<Rightarrow> storage \<Rightarrow> storage" where
  "removeItem k s = s(STORAGE_KEYS k := None)"

definition readJson :: "jstring \<Rightarrow> storage \<Rightarrow> json option" where
  "readJson key s = (case s key of Some (c # saved) \<Rightarrow> json_parse (c # saved) | _ \<Rightarrow> None)"

text \<open>\<^verbatim>\<open>getItem(k) || getItem(l)\<close>, where an empty text counts as none.\<close>

definition saved_text :: "StorageKey \<Rightarrow> StorageKey \<Rightarrow> storage \<Rightarrow> jstring option" where
  "saved_text k l s =
     (case s (STORAGE_KEYS k) of
        Some (c # t) \<Rightarrow> Some (c # t)
      | _ \<Rightarrow> case s (STORAGE_KEYS l) of Some (c # t) \<Rightarrow> Some (c # t) | _ \<Rightarrow> None)"

text \<open>\<^verbatim>\<open>parsed[k] ?? d\<close>.\<close>

definition nullish_or :: "json option \<Rightarrow> json \<Rightarrow> json" where
  "nullish_or v d = (if nullish v then d else the v)"

definition repaired :: "string list" where
  "repaired = [''tools'', ''toolChoice'', ''responseFormat'', ''compareModels'']"

definition merge_config :: "json \<Rightarrow> members" where
  "merge_config parsed =
     fold (\<lambda>k. obj_set (js k) (nullish_or (get_prop (js k) parsed) (the (map_of default_config (js k))))) repaired
       (spread default_config (own_entries parsed))"

text \<open>Reading a property of null throws, and the throw is caught.\<close>

definition loadConfig :: "storage \<Rightarrow> members" where
  "loadConfig s =
     (case Option.bind (saved_text CONFIG LEGACY_CONFIG s) json_parse of
        None \<Rightarrow> []
      | Some JNull \<Rightarrow> []
      | Some parsed \<Rightarrow> merge_config parsed)"

definition saveConfig :: "bool \<Rightarrow> members \<Rightarrow> storage \<Rightarrow> storage" where
  "saveConfig full config = setItem full CONFIG (json_stringify (JObj config))"

definition loadParameterEnabled :: "storage \<Rightarrow> members" where
  "loadParameterEnabled s =
     (case Option.bind (saved_text PARAMETER_ENABLED LEGACY_PARAMETER_ENABLED s) json_parse of
        None \<Rightarrow> []
      | Some parsed \<Rightarrow> spread default_enabled (own_entries parsed))"

definition saveParameterEnabled :: "bool \<Rightarrow> members \<Rightarrow> storage \<Rightarrow> storage" where
  "saveParameterEnabled full enabled = setItem full PARAMETER_ENABLED (json_stringify (JObj enabled))"

definition saveMessages :: "bool \<Rightarrow> Message list \<Rightarrow> storage \<Rightarrow> storage" where
  "saveMessages full messages = setItem full MESSAGES (json_stringify (list_json message_json messages))"

text \<open>
  The parsed array is asserted to be one of messages. \<open>Untyped\<close> is an array that is not: the code goes on with values that are
  not of their type, which the model does not follow.
\<close>

datatype load_result = NoMessages | Loaded "Message list" | Untyped

definition loadMessages :: "(jstring \<Rightarrow> jstring) \<Rightarrow> bool \<Rightarrow> storage \<Rightarrow> load_result \<times> storage" where
  "loadMessages t full s =
     (case Option.bind (saved_text MESSAGES LEGACY_MESSAGES s) json_parse of
        Some (JArr vs) \<Rightarrow>
          (case read_list read_message (JArr vs) of
             None \<Rightarrow> (Untyped, s)
           | Some messages \<Rightarrow>
               (let sanitized = sanitizeMessagesOnLoad t messages in (Loaded sanitized, saveMessages full sanitized s)))
      | _ \<Rightarrow> (NoMessages, s))"

text \<open>\<^verbatim>\<open>Number.parseInt(s, 10)\<close>.\<close>

definition parse_int :: "jstring \<Rightarrow> jsnum" where
  "parse_int s =
     (let u = dropWhile is_space s;
          (neg, v) = (case u of c # w \<Rightarrow> if c = 45 then (True, w) else if c = 43 then (False, w) else (False, u) | [] \<Rightarrow> (False, u));
          ds = takeWhile is_digit v
      in if ds = [] then NaN else js_round (if neg then - of_nat (read_nat ds) else of_nat (read_nat ds)))"

definition loadActiveConversationId :: "storage \<Rightarrow> jsnum option" where
  "loadActiveConversationId s =
     (case s (STORAGE_KEYS ACTIVE_CONVERSATION_ID) of
        Some (c # raw) \<Rightarrow> (let n = parse_int (c # raw) in if is_finite n then Some n else None)
      | _ \<Rightarrow> None)"

definition saveActiveConversationId :: "bool \<Rightarrow> jsnum option \<Rightarrow> storage \<Rightarrow> storage" where
  "saveActiveConversationId full i s =
     (case i of
        None \<Rightarrow> removeItem ACTIVE_CONVERSATION_ID s
      | Some n \<Rightarrow> setItem full ACTIVE_CONVERSATION_ID (num_to_string n) s)"

definition clearPlaygroundData :: "storage \<Rightarrow> storage" where
  "clearPlaygroundData = fold removeItem
     [CONFIG, PARAMETER_ENABLED, MESSAGES, ACTIVE_CONVERSATION_ID, LEGACY_CONFIG, LEGACY_PARAMETER_ENABLED, LEGACY_MESSAGES]"

end
