(* ===== verification/Play_State.thy ===== *)
theory Play_State
  imports Play_Storage
begin

text \<open>
  The state of the playground (\<^verbatim>\<open>features/playground/hooks/use-playground-state.ts\<close>) with the storage it is mirrored in. Each action of the hook
  is an operation on both; \<open>full\<close> says that writing fails. A session mounts the hook and performs actions in any order. The theory
  shows that a page that is loaded again finds the state it was left in: the switches and the configuration as they were, the messages
  with interrupted answers closed.
\<close>

section \<open>The hook\<close>

record PlaygroundState =
  ps_config :: members
  ps_parameterEnabled :: members
  ps_messages :: "Message list"
  ps_models :: "ModelOption list"
  ps_groups :: "GroupOption list"
  ps_storage :: storage

text \<open>\<open>None\<close>: the stored array is not one of messages.\<close>

definition usePlaygroundState :: "(jstring \<Rightarrow> jstring) \<Rightarrow> bool \<Rightarrow> storage \<Rightarrow> PlaygroundState option" where
  "usePlaygroundState t full s =
     (case loadMessages t full s of (result, s') \<Rightarrow>
        if result = Untyped then None
        else Some \<lparr>ps_config = spread default_config (loadConfig s),
                   ps_parameterEnabled = spread default_enabled (loadParameterEnabled s),
                   ps_messages = (case result of Loaded messages \<Rightarrow> messages | _ \<Rightarrow> []),
                   ps_models = [], ps_groups = [], ps_storage = s'\<rparr>)"

definition updateConfig :: "bool \<Rightarrow> jstring \<Rightarrow> json \<Rightarrow> PlaygroundState \<Rightarrow> PlaygroundState" where
  "updateConfig full key value st =
     (let updated = obj_set key value (ps_config st)
      in st\<lparr>ps_config := updated, ps_storage := saveConfig full updated (ps_storage st)\<rparr>)"

definition updateParameterEnabled :: "bool \<Rightarrow> jstring \<Rightarrow> bool \<Rightarrow> PlaygroundState \<Rightarrow> PlaygroundState" where
  "updateParameterEnabled full key value st =
     (let updated = obj_set key (JBool value) (ps_parameterEnabled st)
      in st\<lparr>ps_parameterEnabled := updated, ps_storage := saveParameterEnabled full updated (ps_storage st)\<rparr>)"

definition updateMessages :: "bool \<Rightarrow> (Message list \<Rightarrow> Message list) \<Rightarrow> PlaygroundState \<Rightarrow> PlaygroundState" where
  "updateMessages full updater st =
     (let newMessages = updater (ps_messages st)
      in st\<lparr>ps_messages := newMessages, ps_storage := saveMessages full newMessages (ps_storage st)\<rparr>)"

definition clearMessages :: "bool \<Rightarrow> PlaygroundState \<Rightarrow> PlaygroundState" where
  "clearMessages full = updateMessages full (\<lambda>_. [])"

definition resetConfig :: "bool \<Rightarrow> PlaygroundState \<Rightarrow> PlaygroundState" where
  "resetConfig full st =
     st\<lparr>ps_config := default_config, ps_parameterEnabled := default_enabled,
        ps_storage := saveParameterEnabled full default_enabled (saveConfig full default_config (ps_storage st))\<rparr>"

definition applyPreset :: "bool \<Rightarrow> members \<Rightarrow> members option \<Rightarrow> PlaygroundState \<Rightarrow> PlaygroundState" where
  "applyPreset full nextConfig nextEnabled st =
     (let merged = spread default_config nextConfig;
          st' = st\<lparr>ps_config := merged, ps_storage := saveConfig full merged (ps_storage st)\<rparr>
      in case nextEnabled of
           None \<Rightarrow> st'
         | Some enabled \<Rightarrow>
             (let mergedEnabled = spread default_enabled enabled
              in st'\<lparr>ps_parameterEnabled := mergedEnabled,
                     ps_storage := saveParameterEnabled full mergedEnabled (ps_storage st')\<rparr>))"

datatype play_action =
    UpdateConfig jstring json
  | UpdateParameterEnabled jstring bool
  | UpdateMessages "Message list \<Rightarrow> Message list"
  | ClearMessages
  | ResetConfig
  | ApplyPreset members "members option"
  | SetModels "ModelOption list"
  | SetGroups "GroupOption list"

fun perform :: "bool \<Rightarrow> play_action \<Rightarrow> PlaygroundState \<Rightarrow> PlaygroundState" where
  "perform full (UpdateConfig k v) st = updateConfig full k v st"
| "perform full (UpdateParameterEnabled k b) st = updateParameterEnabled full k b st"
| "perform full (UpdateMessages f) st = updateMessages full f st"
| "perform full ClearMessages st = clearMessages full st"
| "perform full ResetConfig st = resetConfig full st"
| "perform full (ApplyPreset c e) st = applyPreset full c e st"
| "perform full (SetModels ms) st = st\<lparr>ps_models := ms\<rparr>"
| "perform full (SetGroups gs) st = st\<lparr>ps_groups := gs\<rparr>"

text \<open>
  What the types of the hook and JSON ask of a state: texts are code units and numbers finite doubles, and the values with a default
  of their own are not null.
\<close>

definition config_writable :: "members \<Rightarrow> bool" where
  "config_writable c \<longleftrightarrow> obj_ok c \<and> list_all (\<lambda>k. \<not> nullish (map_of c (js k))) repaired"

definition writable :: "PlaygroundState \<Rightarrow> bool" where
  "writable st \<longleftrightarrow> config_writable (ps_config st) \<and> obj_ok (ps_parameterEnabled st)
     \<and> json_ok (list_json message_json (ps_messages st))"

inductive play_session :: "(jstring \<Rightarrow> jstring) \<Rightarrow> PlaygroundState \<Rightarrow> bool" for t where
  mount: "usePlaygroundState t full s = Some st \<Longrightarrow> writable st \<Longrightarrow> play_session t st"
| act: "play_session t st \<Longrightarrow> writable (perform False a st) \<Longrightarrow> play_session t (perform False a st)"

section \<open>Stored texts\<close>

lemma STORAGE_KEYS_inj [simp]: "STORAGE_KEYS a = STORAGE_KEYS b \<longleftrightarrow> a = b"
  by (cases a; cases b) (simp_all add: js_inject)

lemma saved_text_set:
  "v \<noteq> [] \<Longrightarrow> saved_text k l (setItem False k v s) = Some v"
  "k' \<noteq> k \<Longrightarrow> k' \<noteq> l \<Longrightarrow> saved_text k l (setItem full k' v s) = saved_text k l s"
  by (auto simp: saved_text_def setItem_def split: list.split option.split)

lemma distinct_spread: "distinct (map fst a) \<Longrightarrow> distinct (map fst (spread a b))"
  unfolding spread_def by (induction b arbitrary: a) (auto simp: distinct_obj_set)

lemma dom_spread: "fst ` set (spread a b) = fst ` set a \<union> fst ` set b"
  unfolding spread_def by (induction b arbitrary: a) (simp_all add: dom_obj_set split_beta)

definition has_keys :: "members \<Rightarrow> members \<Rightarrow> bool" where
  "has_keys a b \<longleftrightarrow> fst ` set a \<subseteq> fst ` set b"

lemma has_keys_spread [simp]: "has_keys a (spread a b)"
  by (simp add: has_keys_def dom_spread)

lemma has_keys_set [simp]: "has_keys a b \<Longrightarrow> has_keys a (obj_set k v b)"
  by (auto simp: has_keys_def dom_obj_set)

lemma spread_all:
  assumes "distinct (map fst b)" "has_keys a b"
  shows "map_of (spread a b) = map_of b"
proof
  fix k
  show "map_of (spread a b) k = map_of b k"
  proof (cases "map_of b k")
    case None
    then have "map_of a k = None" using assms(2) by (auto simp: map_of_eq_None_iff has_keys_def)
    then show ?thesis using None by (simp add: map_of_spread map_of_rev [OF assms(1)])
  qed (simp add: map_of_spread map_of_rev [OF assms(1)])
qed

lemma default_keys: "distinct (map fst default_config)" "distinct (map fst default_enabled)"
  by (simp_all add: config_members_def enabled_members_def js_inject)

lemma spread_twice:
  assumes "distinct (map fst a)"
  shows "map_of (spread a (spread a b)) = map_of (spread a b)"
  by (rule spread_all [OF distinct_spread [OF assms] has_keys_spread])

text \<open>A configuration with every key of the defaults, once written, is what the hook starts from.\<close>

lemma merge_config_saved:
  assumes "config_writable c" "has_keys default_config c"
  shows "map_of (merge_config (JObj c)) = map_of c" "distinct (map fst (merge_config (JObj c)))"
proof -
  have d: "distinct (map fst c)" using assms(1) by (auto simp: config_writable_def obj_ok_iff canonical_def)
  have v: "nullish_or (map_of c (js k)) w = the (map_of c (js k)) \<and> map_of c (js k) \<noteq> None" if "k \<in> set repaired" for k w
    using assms(1) that by (auto simp: config_writable_def list_all_iff nullish_or_def nullish_def)
  have "map_of (fold (\<lambda>k. obj_set (js k) (nullish_or (get_prop (js k) (JObj c)) (f k))) ks ps) = map_of c"
    if "set ks \<subseteq> set repaired" "map_of ps = map_of c" for ks ps f
    using that v by (induction ks arbitrary: ps) (auto simp: map_of_obj_set fun_eq_iff)
  from this [OF subset_refl spread_all [OF d assms(2)]] show "map_of (merge_config (JObj c)) = map_of c"
    by (simp add: merge_config_def own_entries_def)
  have "distinct (map fst (fold (\<lambda>k. obj_set (js k) (f k)) ks ps))" if "distinct (map fst ps)" for ks f and ps :: members
    using that by (induction ks arbitrary: ps) (auto simp: distinct_obj_set)
  from this [OF distinct_spread [OF default_keys(1)]] show "distinct (map fst (merge_config (JObj c)))"
    by (simp add: merge_config_def)
qed

lemma config_saved:
  assumes "config_writable c" "has_keys default_config c"
  shows "map_of (spread default_config (loadConfig (saveConfig False c s))) = map_of c"
proof -
  have ok: "obj_ok c" using assms(1) by (simp add: config_writable_def)
  have "loadConfig (saveConfig False c s) = merge_config (JObj c)"
    using object_text [OF ok] by (simp add: loadConfig_def saveConfig_def saved_text_set)
  moreover have "has_keys default_config (merge_config (JObj c))"
    using assms(2) merge_config_saved(1) [OF assms] unfolding has_keys_def by (metis dom_map_of_conv_image_fst)
  ultimately show ?thesis using spread_all [OF merge_config_saved(2) [OF assms]] merge_config_saved(1) [OF assms] by simp
qed

lemma enabled_saved:
  assumes "obj_ok e" "has_keys default_enabled e"
  shows "map_of (spread default_enabled (loadParameterEnabled (saveParameterEnabled False e s))) = map_of e"
proof -
  have d: "distinct (map fst e)" using assms(1) by (auto simp: obj_ok_iff canonical_def)
  have "loadParameterEnabled (saveParameterEnabled False e s) = spread default_enabled e"
    using object_text [OF assms(1)] by (simp add: loadParameterEnabled_def saveParameterEnabled_def saved_text_set own_entries_def)
  then show ?thesis using spread_twice [OF default_keys(2)] spread_all [OF d assms(2)] by simp
qed

text \<open>The messages that the hook starts from.\<close>

definition loaded :: "(jstring \<Rightarrow> jstring) \<Rightarrow> storage \<Rightarrow> Message list option" where
  "loaded t s = (case fst (loadMessages t True s) of Untyped \<Rightarrow> None | NoMessages \<Rightarrow> Some [] | Loaded ms \<Rightarrow> Some ms)"

lemma list_text: "json_stringify (list_json f xs) \<noteq> []"
  by (simp add: list_json_def json_stringify_def bracket_def)

lemma messages_saved:
  assumes "json_ok (list_json message_json ms)"
  shows "loaded t (saveMessages False ms s) = Some (sanitizeMessagesOnLoad t ms)"
proof -
  have "json_parse (json_stringify (list_json message_json ms)) = Some (list_json message_json ms)"
    by (rule parse_stringify [OF assms])
  moreover have "list_json message_json ms = JArr (map message_json ms)" by (simp add: list_json_def)
  moreover have "read_list read_message (JArr (map message_json ms)) = Some ms"
    using messages_codec.dec_enc [of ms] by (simp add: list_json_def)
  moreover have "json_stringify (JArr (map message_json ms)) \<noteq> []" using list_text [of message_json ms] by (simp add: list_json_def)
  ultimately show ?thesis
    by (simp add: loaded_def loadMessages_def saveMessages_def saved_text_set Let_def)
qed

text \<open>Each text is read from keys of its own.\<close>

lemma other_texts [simp]:
  "loadConfig (saveParameterEnabled full e s) = loadConfig s" "loadConfig (saveMessages full ms s) = loadConfig s"
  "loadParameterEnabled (saveConfig full c s) = loadParameterEnabled s"
  "loadParameterEnabled (saveMessages full ms s) = loadParameterEnabled s"
  "loaded t (saveConfig full c s) = loaded t s" "loaded t (saveParameterEnabled full e s) = loaded t s"
  by (simp_all add: loadConfig_def loadParameterEnabled_def loaded_def loadMessages_def saveConfig_def saveParameterEnabled_def
      saveMessages_def saved_text_set Let_def split: option.split json.split)

lemma sanitize_again: "sanitizeMessagesOnLoad t (sanitizeMessagesOnLoad t ms) = sanitizeMessagesOnLoad t ms"
  using sanitize_one_not_in_progress by (auto simp: sanitizeMessagesOnLoad_def sanitize_one_def [of t "sanitize_one t _"])

section \<open>A page that is loaded again\<close>

definition mirrored :: "(jstring \<Rightarrow> jstring) \<Rightarrow> PlaygroundState \<Rightarrow> bool" where
  "mirrored t st \<longleftrightarrow>
     map_of (spread default_config (loadConfig (ps_storage st))) = map_of (ps_config st)
     \<and> map_of (spread default_enabled (loadParameterEnabled (ps_storage st))) = map_of (ps_parameterEnabled st)
     \<and> loaded t (ps_storage st) = Some (sanitizeMessagesOnLoad t (ps_messages st))
     \<and> has_keys default_config (ps_config st) \<and> has_keys default_enabled (ps_parameterEnabled st)"

lemma mounted:
  "usePlaygroundState t full s = map_option (\<lambda>ms.
     \<lparr>ps_config = spread default_config (loadConfig s), ps_parameterEnabled = spread default_enabled (loadParameterEnabled s),
      ps_messages = ms, ps_models = [], ps_groups = [], ps_storage = snd (loadMessages t full s)\<rparr>) (loaded t s)"
  by (auto simp: usePlaygroundState_def loaded_def loadMessages_def Let_def split: prod.split option.split json.split load_result.split)

lemma mounted_storage:
  assumes "loaded t s = Some ms" "json_ok (list_json message_json ms)"
  shows "loaded t (snd (loadMessages t full s)) = Some (sanitizeMessagesOnLoad t ms)"
    "loadConfig (snd (loadMessages t full s)) = loadConfig s"
    "loadParameterEnabled (snd (loadMessages t full s)) = loadParameterEnabled s"
proof -
  let ?s = "snd (loadMessages t full s)"
  have c: "(?s = s \<or> ?s = saveMessages full ms s) \<and> sanitizeMessagesOnLoad t ms = ms"
    using assms(1) sanitize_again by (auto simp: loaded_def loadMessages_def Let_def sanitizeMessagesOnLoad_def [of t "[]"]
        split: option.splits json.splits)
  show "loadConfig ?s = loadConfig s" "loadParameterEnabled ?s = loadParameterEnabled s" using c by auto
  have "loaded t (saveMessages full ms s) = Some ms"
    using assms(1) c messages_saved [OF assms(2), of t s] by (cases full) (simp_all add: saveMessages_def setItem_def)
  then show "loaded t ?s = Some (sanitizeMessagesOnLoad t ms)" using c assms(1) by auto
qed

lemma mount_kept:
  assumes "usePlaygroundState t full s = Some st" "writable st"
  shows "mirrored t st"
proof -
  obtain ms where ms: "loaded t s = Some ms" using assms(1) by (auto simp: mounted)
  then have "json_ok (list_json message_json ms)" using assms by (auto simp: mounted writable_def)
  note m = mounted_storage [OF ms this, of full]
  have "st = \<lparr>ps_config = spread default_config (loadConfig s), ps_parameterEnabled = spread default_enabled (loadParameterEnabled s),
      ps_messages = ms, ps_models = [], ps_groups = [], ps_storage = snd (loadMessages t full s)\<rparr>"
    using assms(1) ms by (simp add: mounted)
  then show ?thesis using m by (simp add: mirrored_def)
qed

text \<open>Writing a state that JSON carries keeps it, whatever the action.\<close>

lemma config_kept:
  assumes "mirrored t st" "config_writable c" "has_keys default_config c"
  shows "mirrored t (st\<lparr>ps_config := c, ps_storage := saveConfig False c (ps_storage st)\<rparr>)"
  using assms config_saved [OF assms(2,3)] by (simp add: mirrored_def)

lemma enabled_kept:
  assumes "mirrored t st" "obj_ok e" "has_keys default_enabled e"
  shows "mirrored t (st\<lparr>ps_parameterEnabled := e, ps_storage := saveParameterEnabled False e (ps_storage st)\<rparr>)"
  using assms enabled_saved [OF assms(2,3)] by (simp add: mirrored_def)

lemma messages_kept:
  assumes "mirrored t st" "json_ok (list_json message_json ms)"
  shows "mirrored t (st\<lparr>ps_messages := ms, ps_storage := saveMessages False ms (ps_storage st)\<rparr>)"
  using assms messages_saved [OF assms(2)] by (simp add: mirrored_def)

lemma preset_kept:
  assumes "mirrored t st" "writable (applyPreset False c e st)"
  shows "mirrored t (applyPreset False c e st)"
proof -
  let ?c = "spread default_config c"
  have "config_writable ?c" using assms(2) by (auto simp: applyPreset_def Let_def writable_def split: option.splits)
  from config_kept [OF assms(1) this] have k: "mirrored t (st\<lparr>ps_config := ?c, ps_storage := saveConfig False ?c (ps_storage st)\<rparr>)"
    by simp
  show ?thesis
  proof (cases e)
    case (Some e')
    have "obj_ok (spread default_enabled e')" using assms(2) Some by (auto simp: applyPreset_def Let_def writable_def)
    from enabled_kept [OF k this] show ?thesis by (simp add: applyPreset_def Let_def Some)
  qed (use k in \<open>simp add: applyPreset_def Let_def\<close>)
qed

lemma reset_is_preset: "resetConfig full st = applyPreset full [] (Some []) st"
  by (simp add: resetConfig_def applyPreset_def spread_def Let_def)

lemma perform_kept:
  assumes "mirrored t st" "writable (perform False a st)"
  shows "mirrored t (perform False a st)"
proof (cases a)
  case (UpdateConfig k v)
  then show ?thesis using assms config_kept [OF assms(1), of "obj_set k v (ps_config st)"]
    by (simp add: updateConfig_def Let_def writable_def mirrored_def)
next
  case (UpdateParameterEnabled k b)
  then show ?thesis using assms enabled_kept [OF assms(1), of "obj_set k (JBool b) (ps_parameterEnabled st)"]
    by (simp add: updateParameterEnabled_def Let_def writable_def mirrored_def)
next
  case (UpdateMessages f)
  then show ?thesis using assms messages_kept [OF assms(1), of "f (ps_messages st)"]
    by (simp add: updateMessages_def Let_def writable_def)
next
  case ClearMessages
  then show ?thesis using assms messages_kept [OF assms(1), of "[]"]
    by (simp add: clearMessages_def updateMessages_def Let_def writable_def)
qed (use assms preset_kept in \<open>auto simp: reset_is_preset, auto simp: mirrored_def\<close>)

text \<open>C20: a page that is loaded again finds the state it was left in. After any sequence of actions on a mounted playground whose
  state JSON carries and whose writes succeed, mounting again gives the same configuration and switches, and the same messages except that
  interrupted answers are closed.\<close>

theorem reload_restores:
  assumes "play_session t st"
  shows "\<exists>st'. usePlaygroundState t full (ps_storage st) = Some st'
    \<and> map_of (ps_config st') = map_of (ps_config st) \<and> map_of (ps_parameterEnabled st') = map_of (ps_parameterEnabled st)
    \<and> ps_messages st' = sanitizeMessagesOnLoad t (ps_messages st)"
proof -
  have "mirrored t st" using assms by induction (auto intro: mount_kept perform_kept)
  then show ?thesis by (auto simp: mirrored_def mounted)
qed

section \<open>Clearing and the open conversation\<close>

text \<open>Clearing leaves nothing of the playground behind: whatever was stored under the current or the old keys, the next page
  starts from the defaults and without messages, and finds no open conversation; other keys keep their texts.\<close>

theorem clear_is_fresh:
  "usePlaygroundState t full (clearPlaygroundData s) = Some \<lparr>ps_config = default_config, ps_parameterEnabled = default_enabled,
     ps_messages = [], ps_models = [], ps_groups = [], ps_storage = clearPlaygroundData s\<rparr>
   \<and> loadActiveConversationId (clearPlaygroundData s) = None
   \<and> clearPlaygroundData s = s |` (- range STORAGE_KEYS)"
proof -
  have n: "clearPlaygroundData s (STORAGE_KEYS i) = None" for i
    by (cases i) (simp_all add: clearPlaygroundData_def removeItem_def del: STORAGE_KEYS.simps)
  then have "saved_text i j (clearPlaygroundData s) = None" for i j by (simp add: saved_text_def)
  moreover have "clearPlaygroundData s k = s k" if "k \<notin> range STORAGE_KEYS" for k
    using that unfolding clearPlaygroundData_def removeItem_def by (simp del: STORAGE_KEYS.simps) (metis rangeI)
  then have "clearPlaygroundData s = s |` (- range STORAGE_KEYS)" using n by (auto simp: restrict_map_def fun_eq_iff)
  ultimately show ?thesis
    using n [of ACTIVE_CONVERSATION_ID]
    by (simp add: usePlaygroundState_def loadMessages_def loadConfig_def loadParameterEnabled_def spread_def loadActiveConversationId_def)
qed

text \<open>The open conversation is found again: a saved id below \<open>10\<^sup>15\<close> is read back, and saving none forgets it.\<close>

theorem conversation_id_roundtrip:
  assumes "n < 10 ^ 15"
  shows "loadActiveConversationId (saveActiveConversationId False (Some (Fin (of_nat n))) s) = Some (Fin (of_nat n))
    \<and> loadActiveConversationId (saveActiveConversationId full None s) = None"
proof -
  obtain c r where cr: "show_nat n = c # r" by (cases "show_nat n") auto
  have dg: "is_digit d" if "d \<in> set (c # r)" for d using that set_show_nat cr by metis
  have "\<not> is_space c" "c \<noteq> 45" "c \<noteq> 43" using dg [of c] by (auto simp: is_digit_def is_space_def white_space_def)
  moreover have "takeWhile is_digit (c # r) = c # r" using dg by (simp add: takeWhile_eq_all_conv)
  moreover have "js_round (of_nat n) = Fin (of_nat n)" using assms by (intro js_round_of_nat_exact) simp
  ultimately have "parse_int (c # r) = Fin (of_nat n)" using read_show_nat [of n] cr by (simp add: parse_int_def)
  then show ?thesis using show_integer [OF assms] cr
    by (simp add: saveActiveConversationId_def loadActiveConversationId_def setItem_def removeItem_def is_finite_def)
qed

section \<open>Examples\<close>

lemma seven_tenths: "js_round (7/10) = Fin (3152519739159347/4503599627370496)"
proof -
  have "quotient_of (7/10 :: rat) = (7, 10)" by code_simp
  then have e: "exponent_of (7/10) = -1" by (simp add: exponent_of_def pow2_def bit_len.simps)
  have "\<lfloor>31525197391593472 / 5 :: rat\<rfloor> = 6305039478318694" by (simp add: floor_eq_iff)
  then show ?thesis by (simp add: js_round_def round_pos_def ulp_exp_def e pow2_def round_half_even_def Let_def)
qed

lemma seven_tenths_ok: "num_ok (js_round (7/10))"
proof -
  define x :: rat where "x = 3152519739159347/4503599627370496"
  have r: "js_round (7/10) = Fin x" by (simp add: seven_tenths x_def)
  have f: "\<lfloor>x * 10\<rfloor> = 6" by (simp add: x_def floor_eq_iff)
  have sc: "scale10 x = 0" by (simp add: scale10_def x_def eval_nat_numeral)
  have sh: "shortest_at x 0 1 = Some (7, 0)"
    using f r by (simp add: shortest_at_def pow10_def reads_back_def Let_def) (simp add: x_def)
  have "[1..<18] = 1 # [2..<18]" by (simp add: upt_rec)
  then have "show_pos x = js ''0.7''" by (simp add: show_pos_def sc sh [unfolded One_nat_def] layout_def js_str show_nat.simps)
  then have "num_to_string (Fin x) = js ''0.7''" by (simp add: x_def)
  then show ?thesis unfolding r num_ok_def
    by (simp add: is_finite_def js_str pnumber_def pint_def pdigits_def is_digit_def pfrac_def pexp_def read_nat_def pow10_def r)
qed

lemma config_keys: "canonical default_config" "canonical default_enabled"
proof -
  have "list_all (\<lambda>k. \<not> is_index (js k)) [''systemPrompt'', ''model'', ''compareModels'', ''group'', ''temperature'', ''top_p'', ''max_tokens'',
    ''frequency_penalty'', ''presence_penalty'', ''seed'', ''stream'', ''reasoningEffort'', ''reasoningMaxTokens'', ''webSearch'', ''tools'',
    ''toolChoice'', ''responseFormat'']" by code_simp
  then have "list_all (\<lambda>p. \<not> is_index (fst p)) default_config" "list_all (\<lambda>p. \<not> is_index (fst p)) default_enabled"
    by (simp_all add: config_members_def enabled_members_def)
  then show "canonical default_config" "canonical default_enabled"
    using default_keys by (auto simp: canonical_def list_all_iff intro!: no_index_sorted)
qed

lemma defaults_ok: "config_writable default_config" "obj_ok default_enabled"
proof -
  have text_format: "json_ok (format_json FormatText)" by code_simp
  have "list_all (\<lambda>v. json_ok (snd v)) default_config"
    using seven_tenths_ok num_ok_nat [of 0] num_ok_nat [of 1] num_ok_nat [of 4096] text_format
    by (simp add: config_members_def DEFAULT_CONFIG_def DEFAULT_GROUP_def units_js units_def [of "[]"] list_json_def null_json_def
        del: format_json.simps)
  moreover have "list_all (\<lambda>v. json_ok (snd v)) default_enabled" by (simp add: enabled_members_def)
  moreover have "list_all (\<lambda>v. units (fst v)) default_config" "list_all (\<lambda>v. units (fst v)) default_enabled"
    by (simp_all add: config_members_def enabled_members_def units_js)
  ultimately have "obj_ok default_config" "obj_ok default_enabled" using config_keys by (auto simp: obj_ok_iff list_all_iff)
  moreover have "list_all (\<lambda>k. \<not> nullish (map_of default_config (js k))) repaired"
    by (simp add: repaired_def config_members_def js_inject DEFAULT_CONFIG_def list_json_def nullish_def)
  ultimately show "config_writable default_config" "obj_ok default_enabled" by (simp_all add: config_writable_def)
qed

theorem conversation_id_roundtrip_witness:
  "loadActiveConversationId (saveActiveConversationId False (Some (Fin 42)) Map.empty) = Some (Fin 42)"
  using conversation_id_roundtrip [of 42] by simp

text \<open>
  The texts under the old keys are read as long as nothing is written; a mount copies only the messages to the new keys.
\<close>

definition legacy_storage :: storage where
  "legacy_storage = [STORAGE_KEYS LEGACY_CONFIG \<mapsto> js ''{\"model\":\"m\"}'', STORAGE_KEYS LEGACY_MESSAGES \<mapsto> js ''[]'']"

theorem only_messages_migrate:
  "\<exists>st. usePlaygroundState id False legacy_storage = Some st \<and> map_of (ps_config st) (js ''model'') = Some (JStr (js ''m''))
    \<and> ps_storage st (STORAGE_KEYS CONFIG) = None \<and> ps_storage st (STORAGE_KEYS MESSAGES) = Some (js ''[]'')"
proof -
  have p: "json_parse (js ''{\"model\":\"m\"}'') = Some (JObj [(js ''model'', JStr (js ''m''))])" by code_simp
  have q: "json_parse (js ''[]'') = Some (JArr [])" "json_stringify (JArr []) = js ''[]''" by code_simp+
  have "saved_text CONFIG LEGACY_CONFIG legacy_storage = Some (js ''{\"model\":\"m\"}'')"
    "saved_text MESSAGES LEGACY_MESSAGES legacy_storage = Some (js ''[]'')"
    by (simp_all add: saved_text_def legacy_storage_def js_inject split: list.split)
  note t = this
  have "loadMessages id False legacy_storage = (Loaded [], legacy_storage(STORAGE_KEYS MESSAGES \<mapsto> js ''[]''))"
    by (simp add: loadMessages_def t q read_list_def sanitizeMessagesOnLoad_def saveMessages_def setItem_def list_json_def)
  moreover have "map_of (spread default_config (loadConfig legacy_storage)) (js ''model'') = Some (JStr (js ''m''))"
    by (simp add: loadConfig_def t p merge_config_def map_of_spread repaired_def own_entries_def map_of_obj_set js_inject
        map_of_rev distinct_obj_set distinct_spread default_keys)
  moreover have "legacy_storage (STORAGE_KEYS CONFIG) = None" by (simp add: legacy_storage_def js_inject)
  ultimately show ?thesis by (simp add: usePlaygroundState_def js_inject)
qed

definition first_page :: PlaygroundState where
  "first_page = the (usePlaygroundState id False Map.empty)"

theorem reload_restores_witness:
  "\<exists>st'. usePlaygroundState id False (ps_storage (updateConfig False (js ''model'') (JStr (js ''m'')) first_page)) = Some st'
    \<and> map_of (ps_config st') (js ''model'') = Some (JStr (js ''m''))"
proof -
  have m: "usePlaygroundState id False Map.empty = Some first_page"
    by (simp add: first_page_def usePlaygroundState_def loadMessages_def saved_text_def)
  have f: "ps_config first_page = default_config" "ps_parameterEnabled first_page = default_enabled" "ps_messages first_page = []"
    by (simp_all add: first_page_def usePlaygroundState_def loadMessages_def saved_text_def loadConfig_def loadParameterEnabled_def
        spread_def)
  have "writable first_page" using defaults_ok by (simp add: writable_def f list_json_def)
  note s = play_session.mount [OF m this]
  have "config_writable (obj_set (js ''model'') (JStr (js ''m'')) default_config)"
    using defaults_ok(1) by (simp add: config_writable_def obj_ok_set units_js map_of_obj_set repaired_def js_inject)
  then have "writable (perform False (UpdateConfig (js ''model'') (JStr (js ''m''))) first_page)"
    using defaults_ok(2) by (simp add: writable_def updateConfig_def Let_def f list_json_def)
  from reload_restores [OF play_session.act [OF s this], of False]
  show ?thesis by (auto simp: updateConfig_def Let_def map_of_obj_set)
qed

end
