(* ===== verification/Status_Page.thy ===== *)
theory Status_Page
  imports Pricing_Types
begin

text \<open>
  The status page (\<^verbatim>\<open>features/status/lib/status-helpers.ts\<close>, \<^verbatim>\<open>vendor-rollup.ts\<close> and the formatting of latencies in
  \<^verbatim>\<open>features/performance-metrics/lib/format.ts\<close>): the health of the service, the state of its monitors, the titles of incidents
  and the models rolled up by vendor. \<^verbatim>\<open>toUpperCase\<close> is the argument \<open>upper\<close>. The theory shows that the roll-up is a group-by: every
  model is counted once, under its vendor, and its count, median and mean are those of the models of the vendor, written out.
\<close>

section \<open>Health and monitors\<close>

datatype StatusVariant = Success | Warning | Danger | Neutral | Info

record OverallHealth =
  oh_label :: jstring
  oh_variant :: StatusVariant
  oh_description :: jstring

definition healthForSuccessRate :: "jsnum \<Rightarrow> OverallHealth" where
  "healthForSuccessRate rate =
     (if \<not> is_finite rate then
        \<lparr>oh_label = js ''Unknown'', oh_variant = Neutral, oh_description = js ''Metrics unavailable''\<rparr>
      else if num_le (js_round (999/10)) rate then
        \<lparr>oh_label = js ''All systems operational'', oh_variant = Success, oh_description = js ''All monitored services are healthy''\<rparr>
      else if num_le (Fin 99) rate then
        \<lparr>oh_label = js ''Partial degradation'', oh_variant = Warning, oh_description = js ''Some services are experiencing issues''\<rparr>
      else
        \<lparr>oh_label = js ''Major outage'', oh_variant = Danger, oh_description = js ''Multiple services are down or degraded''\<rparr>)"

text \<open>The code reads the uptimes of a monitor as values that may be missing.\<close>

record UptimeMonitor =
  um_name :: jstring
  um_uptime :: "jsnum option"
  um_uptime_24h :: "jsnum option"
  um_status :: jsnum
  um_history :: "jsnum list option"

record UptimeGroupResult =
  ug_categoryName :: jstring
  ug_monitors :: "UptimeMonitor list option"

definition flattenMonitors :: "UptimeGroupResult list \<Rightarrow> UptimeMonitor list" where
  "flattenMonitors groups = concat (map (\<lambda>g. case ug_monitors g of Some ms \<Rightarrow> ms | None \<Rightarrow> []) groups)"

definition or_zero :: "jsnum option \<Rightarrow> jsnum" where
  "or_zero x = (case x of Some v \<Rightarrow> v | None \<Rightarrow> Fin 0)"

definition averageMonitorUptime :: "UptimeMonitor list \<Rightarrow> jsnum" where
  "averageMonitorUptime monitors =
     (if monitors = [] then NaN
      else let total = foldl (\<lambda>sum m. num_add sum (or_zero (um_uptime m))) (Fin 0) monitors
           in num_mul (num_div_lit total (of_nat (length monitors))) (Fin 100))"

definition worstMonitorStatus :: "UptimeMonitor list \<Rightarrow> jsnum" where
  "worstMonitorStatus monitors =
     (if monitors = [] then Fin 1
      else foldl (\<lambda>worst m. if num_lt (um_status m) worst then um_status m else worst) (Fin 1) monitors)"

definition monitorStatusVariant :: "jsnum \<Rightarrow> StatusVariant" where
  "monitorStatusVariant status =
     (if num_eq status (Fin 1) then Success
      else if num_eq status (Fin 2) then Warning
      else if num_eq status (Fin 0) then Danger
      else Info)"

definition monitorStatusLabel :: "jsnum \<Rightarrow> jstring" where
  "monitorStatusLabel status =
     (if num_eq status (Fin 1) then js ''Operational''
      else if num_eq status (Fin 2) then js ''Degraded''
      else if num_eq status (Fin 0) then js ''Down''
      else js ''Info'')"

record PerfModelSummary =
  pf_model_name :: jstring
  pf_avg_latency_ms :: jsnum
  pf_success_rate :: jsnum

definition average :: "jsnum \<times> nat \<Rightarrow> jsnum" where
  "average = (\<lambda>(total, count). if 0 < count then num_div_lit total (of_nat count) else NaN)"

definition averageLatencyMs :: "PerfModelSummary list \<Rightarrow> jsnum" where
  "averageLatencyMs models =
     average (foldl (\<lambda>(total, count) row.
        let v = pf_avg_latency_ms row
        in if \<not> is_finite v \<or> num_le v (Fin 0) then (total, count) else (num_add total v, count + 1)) (Fin 0, 0) models)"

definition averageErrorRate :: "PerfModelSummary list \<Rightarrow> jsnum" where
  "averageErrorRate models =
     average (foldl (\<lambda>(total, count) row.
        let rate = pf_success_rate row
        in if \<not> is_finite rate then (total, count) else (num_add total (num_sub (Fin 100) rate), count + 1)) (Fin 0, 0) models)"

definition statusToBarClass :: "jsnum \<Rightarrow> jstring" where
  "statusToBarClass status =
     (if num_eq status (Fin 1) then js ''bg-success''
      else if num_eq status (Fin 2) then js ''bg-warning''
      else if num_eq status (Fin 0) then js ''bg-danger''
      else js ''bg-muted-foreground/30'')"

definition buildUptimeBars :: "jsnum \<Rightarrow> jsnum list option \<Rightarrow> nat \<Rightarrow> jstring list" where
  "buildUptimeBars status history n =
     (if has_items history then map statusToBarClass (the history)
      else replicate n (statusToBarClass status))"

definition hasLongUptimeWindow :: "UptimeMonitor list \<Rightarrow> bool" where
  "hasLongUptimeWindow monitors =
     list_ex (\<lambda>m. pred_option is_finite (um_uptime m) \<and> um_uptime m \<noteq> None
        \<and> pred_option is_finite (um_uptime_24h m) \<and> um_uptime_24h m \<noteq> None
        \<and> num_gt (num_abs (num_sub (or_zero (um_uptime m)) (or_zero (um_uptime_24h m)))) (js_round (1/10000))) monitors"

section \<open>Incidents\<close>

text \<open>\<^verbatim>\<open>replace(/\*\*/g, '')\<close>.\<close>

fun strip_stars :: "jstring \<Rightarrow> jstring" where
  "strip_stars (a # b # s) = (if a = 42 \<and> b = 42 then strip_stars s else a # strip_stars (b # s))"
| "strip_stars s = s"

text \<open>\<^verbatim>\<open>replace(/^#+\s*/, '')\<close>.\<close>

definition strip_heading :: "jstring \<Rightarrow> jstring" where
  "strip_heading s = (if s \<noteq> [] \<and> hd s = 35 then dropWhile is_space (dropWhile (\<lambda>c. c = 35) s) else s)"

text \<open>\<^verbatim>\<open>match(/^[^.!?]+[.!?]?/)\<close>.\<close>

definition ends_sentence :: "nat \<Rightarrow> bool" where
  "ends_sentence c \<longleftrightarrow> c = 46 \<or> c = 33 \<or> c = 63"

definition first_sentence :: "jstring \<Rightarrow> jstring option" where
  "first_sentence s =
     (let w = takeWhile (\<lambda>c. \<not> ends_sentence c) s in if w = [] then None else Some (take (Suc (length w)) s))"

definition incidentTitleFromContent :: "jstring \<Rightarrow> jstring" where
  "incidentTitleFromContent content =
     (let trimmed = trim content
      in if trimmed = [] then []
         else let firstLine = trim (takeWhile (\<lambda>c. c \<noteq> 10) trimmed);
                  plain = strip_stars (strip_heading firstLine)
              in if length plain \<le> 120 then plain
                 else case map_option trim (first_sentence plain) of
                   Some sentence \<Rightarrow> if sentence \<noteq> [] \<and> length sentence \<le> 120 then sentence else take 117 plain @ [8230]
                 | None \<Rightarrow> take 117 plain @ [8230])"

section \<open>Vendors\<close>

definition formatThroughput :: "jsnum \<Rightarrow> jstring" where
  "formatThroughput tps =
     (if \<not> is_finite tps \<or> num_le tps (Fin 0) then [8212]
      else if num_le (Fin 1000) tps then to_fixed (num_div_lit tps 1000) 1 @ js ''K t/s''
      else to_fixed tps (if num_lt tps (Fin 10) then 2 else 1) @ js '' t/s'')"

definition formatUptimePct :: "jsnum \<Rightarrow> jstring" where
  "formatUptimePct pct = (if \<not> is_finite pct then [8212] else to_fixed pct 2 @ js ''%'')"

definition formatLatency :: "jsnum \<Rightarrow> jstring" where
  "formatLatency ms =
     (case ms of
        Fin a \<Rightarrow>
          if a \<le> 0 then [8212]
          else if 1000 \<le> a then to_fixed (num_div_lit ms 1000) 2 @ js ''s''
          else show_int \<lfloor>a + 1/2\<rfloor> @ js ''ms''
      | _ \<Rightarrow> [8212])"

record VendorRollupRow =
  vr_vendor :: jstring
  vr_initials :: jstring
  vr_modelCount :: nat
  vr_medianLatencyMs :: jsnum
  vr_successRate :: jsnum
  vr_latencyLabel :: jstring

definition vendorFromModel :: "(jstring \<Rightarrow> jstring) \<Rightarrow> jstring \<Rightarrow> (jstring \<rightharpoonup> jstring) \<Rightarrow> jstring" where
  "vendorFromModel upper modelName vendorByModel =
     (case vendorByModel modelName of
        Some (c # v) \<Rightarrow> c # v
      | _ \<Rightarrow>
          (case index_of [47] modelName of
             Some (Suc slash) \<Rightarrow>
               (case trim (take (Suc slash) modelName) of c # p \<Rightarrow> upper [c] @ p | [] \<Rightarrow> modelName)
           | _ \<Rightarrow> modelName))"

text \<open>\<^verbatim>\<open>split(/\s+/)\<close>.\<close>

function split_ws :: "jstring \<Rightarrow> jstring list" where
  "split_ws s =
     (case dropWhile (\<lambda>c. \<not> is_space c) s of
        [] \<Rightarrow> [takeWhile (\<lambda>c. \<not> is_space c) s]
      | c # r \<Rightarrow> takeWhile (\<lambda>c. \<not> is_space c) s # split_ws (dropWhile is_space r))"
  by pat_completeness auto
termination
proof (relation "measure length", simp)
  fix s c r
  assume "dropWhile (\<lambda>c. \<not> is_space c) s = c # r"
  then have "length (c # r) \<le> length s" by (metis length_dropWhile_le)
  then show "(dropWhile is_space r, s) \<in> measure length" using length_dropWhile_le [of is_space r] by simp
qed

declare split_ws.simps [simp del]

definition initialsForVendor :: "(jstring \<Rightarrow> jstring) \<Rightarrow> jstring \<Rightarrow> jstring" where
  "initialsForVendor upper name =
     (case split_ws (trim name) of
        a # b # _ \<Rightarrow> upper (take 1 a @ take 1 b)
      | _ \<Rightarrow> upper (take 2 name))"

definition median :: "jsnum list \<Rightarrow> jsnum" where
  "median values =
     (if values = [] then NaN
      else let sorted = js_sort (\<lambda>a b. num_gt (num_sub a b) (Fin 0)) values;
               mid = length sorted div 2
           in if even (length sorted) then num_div_lit (num_add (sorted ! (mid - 1)) (sorted ! mid)) 2
              else sorted ! mid)"

record vendor_bucket =
  bk_latencies :: "jsnum list"
  bk_successRates :: "jsnum list"
  bk_count :: nat

definition empty_bucket :: vendor_bucket where
  "empty_bucket = \<lparr>bk_latencies = [], bk_successRates = [], bk_count = 0\<rparr>"

definition vendor_by_model :: "'a PricingModel_scheme list \<Rightarrow> jstring \<rightharpoonup> jstring" where
  "vendor_by_model = foldl (\<lambda>m model.
     case vendor_name model of
       Some (c # v) \<Rightarrow> if model_name model \<noteq> [] then m(model_name model \<mapsto> c # v) else m
     | _ \<Rightarrow> m) Map.empty"

definition add_to_bucket :: "vendor_bucket \<Rightarrow> PerfModelSummary \<Rightarrow> vendor_bucket" where
  "add_to_bucket bucket row =
     (let latency = pf_avg_latency_ms row; rate = pf_success_rate row
      in \<lparr>bk_latencies = bk_latencies bucket @ (if is_finite latency \<and> num_gt latency (Fin 0) then [latency] else []),
          bk_successRates = bk_successRates bucket @ (if is_finite rate then [rate] else []),
          bk_count = bk_count bucket + 1\<rparr>)"

definition add_row :: "(PerfModelSummary \<Rightarrow> jstring) \<Rightarrow> (jstring \<times> vendor_bucket) list \<Rightarrow> PerfModelSummary \<Rightarrow> (jstring \<times> vendor_bucket) list" where
  "add_row vendor buckets row =
     AList.update (vendor row)
       (add_to_bucket (case map_of buckets (vendor row) of Some b \<Rightarrow> b | None \<Rightarrow> empty_bucket) row) buckets"

definition rollup_row :: "(jstring \<Rightarrow> jstring) \<Rightarrow> jstring \<times> vendor_bucket \<Rightarrow> VendorRollupRow" where
  "rollup_row upper = (\<lambda>(vendor, bucket).
     let medianLatencyMs = median (bk_latencies bucket); rates = bk_successRates bucket
     in \<lparr>vr_vendor = vendor, vr_initials = initialsForVendor upper vendor, vr_modelCount = bk_count bucket,
         vr_medianLatencyMs = medianLatencyMs,
         vr_successRate = (if rates \<noteq> [] then num_div_lit (foldl num_add (Fin 0) rates) (of_nat (length rates)) else NaN),
         vr_latencyLabel = (if is_finite medianLatencyMs then formatLatency medianLatencyMs else [8212])\<rparr>)"

definition buildVendorRollup ::
  "(jstring \<Rightarrow> jstring) \<Rightarrow> PerfModelSummary list \<Rightarrow> 'a PricingModel_scheme list \<Rightarrow> VendorRollupRow list" where
  "buildVendorRollup upper perfModels pricingModels =
     (let vendorByModel = vendor_by_model pricingModels;
          buckets = foldl (add_row (\<lambda>row. vendorFromModel upper (pf_model_name row) vendorByModel)) [] perfModels
      in js_sort (\<lambda>a b. vr_modelCount a < vr_modelCount b) (map (rollup_row upper) buckets))"

section \<open>The roll-up is a group-by\<close>

lemma update_row:
  "distinct ks \<Longrightarrow> AList.update k w (map (\<lambda>v. (v, f v)) ks)
     = map (\<lambda>v. (v, if v = k then w else f v)) (if k \<in> set ks then ks else ks @ [k])"
  by (induction ks) (auto intro!: map_cong)

lemma map_of_rows: "map_of (map (\<lambda>v. (v, f v)) ks) k = (if k \<in> set ks then Some (f k) else None)"
  by (induction ks) auto

definition bucket_of :: "PerfModelSummary list \<Rightarrow> vendor_bucket" where
  "bucket_of rows =
     \<lparr>bk_latencies = filter (\<lambda>l. is_finite l \<and> num_gt l (Fin 0)) (map pf_avg_latency_ms rows),
      bk_successRates = filter is_finite (map pf_success_rate rows), bk_count = length rows\<rparr>"

lemma bucket_of_snoc: "add_to_bucket (bucket_of rows) row = bucket_of (rows @ [row])"
  by (simp add: add_to_bucket_def bucket_of_def Let_def)

lemma bucket_of_Nil: "bucket_of [] = empty_bucket"
  by (simp add: bucket_of_def empty_bucket_def)

lemma buckets_grouped:
  "foldl (add_row vendor) [] rows = map (\<lambda>v. (v, bucket_of (filter (\<lambda>r. vendor r = v) rows))) (js_set (map vendor rows))"
proof (induction rows rule: rev_induct)
  case (snoc r rows)
  let ?g = "\<lambda>v. bucket_of (filter (\<lambda>r. vendor r = v) rows)"
  have "(case map_of (map (\<lambda>v. (v, ?g v)) (js_set (map vendor rows))) (vendor r) of Some b \<Rightarrow> b | None \<Rightarrow> empty_bucket) = ?g (vendor r)"
  proof (cases "vendor r \<in> vendor ` set rows")
    case False
    then have "filter (\<lambda>r'. vendor r' = vendor r) rows = []" by (intro filter_False) (metis image_eqI)
    then show ?thesis using False by (simp add: map_of_rows bucket_of_Nil)
  qed (simp add: map_of_rows)
  then have "foldl (add_row vendor) [] (rows @ [r])
      = AList.update (vendor r) (bucket_of (filter (\<lambda>r'. vendor r' = vendor r) rows @ [r])) (map (\<lambda>v. (v, ?g v)) (js_set (map vendor rows)))"
    by (simp add: snoc add_row_def bucket_of_snoc)
  also have "\<dots> = map (\<lambda>v. (v, bucket_of (filter (\<lambda>r. vendor r = v) (rows @ [r])))) (js_set (map vendor rows @ [vendor r]))"
    by (simp add: update_row js_set_snoc)
  finally show ?case by simp
qed simp

interpretation count_order: comparator "\<lambda>a b. vr_modelCount a < vr_modelCount b"
  by unfold_locales auto

lemma sum_groups:
  "sum_list (map (\<lambda>v. length (filter (\<lambda>r. f r = v) rows)) (js_set (map f rows))) = length rows"
proof -
  have "sum_list (map (\<lambda>v. length (filter (\<lambda>r. f r = v) rows)) vs) = length (filter (\<lambda>r. f r \<in> set vs) rows)" if "distinct vs" for vs
    using that
  proof (induction vs)
    case (Cons v vs)
    have "length (filter (\<lambda>r. f r = v \<or> f r \<in> set vs) rows)
        = length (filter (\<lambda>r. f r = v) rows) + length (filter (\<lambda>r. f r \<in> set vs) rows)"
      using Cons.prems by (induction rows) auto
    then show ?case using Cons by simp
  qed simp
  from this [OF distinct_js_set] show ?thesis by (simp add: filter_id_conv [THEN iffD2])
qed

text \<open>On doubles the comparator \<^verbatim>\<open>a - b\<close> sorts as the order of numbers does.\<close>

lemma js_sort_doubles:
  assumes "list_all is_double as"
  shows "js_sort (\<lambda>a b. num_gt (num_sub a b) (Fin 0)) (map Fin as) = map Fin (sort as)"
  using assms
proof (induction as)
  case (Cons a as)
  have "insert_by (\<lambda>a b. num_gt (num_sub a b) (Fin 0)) (Fin a) (map Fin bs) = map Fin (insort a bs)" if "list_all is_double bs" for bs
    using that Cons.prems by (induction bs) (auto simp: num_sub_sign_double)
  moreover have "list_all is_double (sort as)" using Cons.prems by (simp add: list_all_iff)
  ultimately show ?case using Cons by simp
qed simp

text \<open>The positive latencies of some models as numbers in rising order.\<close>

definition sorted_latencies :: "PerfModelSummary list \<Rightarrow> rat list" where
  "sorted_latencies rows =
     sort (List.map_filter (\<lambda>r. case pf_avg_latency_ms r of Fin a \<Rightarrow> if 0 < a then Some a else None | _ \<Rightarrow> None) rows)"

definition double_latency :: "PerfModelSummary \<Rightarrow> bool" where
  "double_latency r \<longleftrightarrow> (case pf_avg_latency_ms r of Fin a \<Rightarrow> is_double a | _ \<Rightarrow> True)"

lemma sorted_bucket:
  assumes "list_all double_latency rows"
  shows "js_sort (\<lambda>a b. num_gt (num_sub a b) (Fin 0)) (bk_latencies (bucket_of rows)) = map Fin (sorted_latencies rows)"
proof -
  let ?as = "List.map_filter (\<lambda>r. case pf_avg_latency_ms r of Fin a \<Rightarrow> if 0 < a then Some a else None | _ \<Rightarrow> None) rows"
  have "bk_latencies (bucket_of rows) = map Fin ?as"
    by (induction rows) (auto simp: bucket_of_def map_filter_simps is_finite_def num_gt_def split: jsnum.splits)
  moreover have "list_all is_double ?as"
    using assms by (induction rows) (auto simp: map_filter_simps double_latency_def split: jsnum.splits)
  ultimately show ?thesis using js_sort_doubles by (simp add: sorted_latencies_def)
qed

lemma bucket_median:
  assumes "list_all double_latency rows" and ls: "ls = sorted_latencies rows"
  shows "median (bk_latencies (bucket_of rows)) =
    (if ls = [] then NaN
     else if odd (length ls) then Fin (ls ! (length ls div 2))
     else num_div_lit (num_add (Fin (ls ! (length ls div 2 - 1))) (Fin (ls ! (length ls div 2)))) 2)"
proof -
  note s = sorted_bucket [OF assms(1), folded ls]
  then have n: "length (bk_latencies (bucket_of rows)) = length ls" by (metis length_js_sort length_map)
  show ?thesis
  proof (cases "ls = []")
    case False
    then have "length ls div 2 < length ls" "length ls div 2 - 1 < length ls" "bk_latencies (bucket_of rows) \<noteq> []"
      using n by (auto simp: less_imp_diff_less)
    then show ?thesis using False by (simp add: median_def s Let_def)
  qed (use n in \<open>simp add: median_def\<close>)
qed

text \<open>The figures of a row, for the models of its vendor.\<close>

definition figures_ok :: "(jstring \<Rightarrow> jstring) \<Rightarrow> PerfModelSummary list \<Rightarrow> VendorRollupRow \<Rightarrow> bool" where
  "figures_ok upper own row \<longleftrightarrow>
     vr_modelCount row = length own \<and> vr_initials row = initialsForVendor upper (vr_vendor row)
     \<and> vr_medianLatencyMs row =
         (if sorted_latencies own = [] then NaN
          else if odd (length (sorted_latencies own)) then Fin (sorted_latencies own ! (length (sorted_latencies own) div 2))
          else num_div_lit (num_add (Fin (sorted_latencies own ! (length (sorted_latencies own) div 2 - 1)))
            (Fin (sorted_latencies own ! (length (sorted_latencies own) div 2)))) 2)
     \<and> vr_successRate row = (if filter is_finite (map pf_success_rate own) = [] then NaN
          else num_div_lit (foldl num_add (Fin 0) (filter is_finite (map pf_success_rate own)))
            (of_nat (length (filter is_finite (map pf_success_rate own)))))
     \<and> vr_latencyLabel row = (if is_finite (vr_medianLatencyMs row) then formatLatency (vr_medianLatencyMs row) else [8212])"

lemma figures_of_row:
  assumes "list_all double_latency own"
  shows "figures_ok upper own (rollup_row upper (v, bucket_of own))"
proof -
  have "bk_successRates (bucket_of own) = filter is_finite (map pf_success_rate own)" "bk_count (bucket_of own) = length own"
    by (simp_all add: bucket_of_def)
  then show ?thesis
    using bucket_median [OF assms refl] by (simp add: figures_ok_def rollup_row_def Let_def)
qed

text \<open>C36: the vendors of the status page are a group-by of the models. Every vendor has one row, and its figures are those of the models of
  the vendor: the count is their number; the median latency is the middle one of their positive finite latencies in rising order, or half the sum of
  the two middle ones, and is missing when there is none; the success rate is the sum of their finite rates, added up in order, divided by
  the number of these, and is missing when there is none; the label is the median formatted, or a dash. Every model is counted once, and the rows are ordered by the number
  of models. The hypothesis: the latencies are doubles.\<close>

theorem vendor_rollup_exact:
  assumes "list_all double_latency perf"
  shows "let vendor = (\<lambda>r. vendorFromModel upper (pf_model_name r) (vendor_by_model pricing)); rows = buildVendorRollup upper perf pricing
   in distinct (map vr_vendor rows) \<and> vr_vendor ` set rows = vendor ` set perf
      \<and> list_all (\<lambda>row.
          let own = filter (\<lambda>r. vendor r = vr_vendor row) perf; ls = sorted_latencies own;
              rates = filter is_finite (map pf_success_rate own)
          in vr_modelCount row = length own \<and> vr_initials row = initialsForVendor upper (vr_vendor row)
             \<and> vr_medianLatencyMs row =
                 (if ls = [] then NaN
                  else if odd (length ls) then Fin (ls ! (length ls div 2))
                  else num_div_lit (num_add (Fin (ls ! (length ls div 2 - 1))) (Fin (ls ! (length ls div 2)))) 2)
             \<and> vr_successRate row = (if rates = [] then NaN else num_div_lit (foldl num_add (Fin 0) rates) (of_nat (length rates)))
             \<and> vr_latencyLabel row = (if is_finite (vr_medianLatencyMs row) then formatLatency (vr_medianLatencyMs row) else [8212])) rows
      \<and> sum_list (map vr_modelCount rows) = length perf
      \<and> sorted_wrt (\<lambda>a b. vr_modelCount b \<le> vr_modelCount a) rows"
proof -
  define vendor :: "PerfModelSummary \<Rightarrow> jstring" where "vendor = (\<lambda>r. vendorFromModel upper (pf_model_name r) (vendor_by_model pricing))"
  define own where "own v = filter (\<lambda>r. vendor r = v) perf" for v
  define row where "row v = rollup_row upper (v, bucket_of (own v))" for v
  define rows where "rows = buildVendorRollup upper perf pricing"
  have r: "rows = js_sort (\<lambda>a b. vr_modelCount a < vr_modelCount b) (map row (js_set (map vendor perf)))"
    by (simp add: rows_def buildVendorRollup_def buckets_grouped row_def [abs_def] own_def comp_def vendor_def Let_def)
  have v: "vr_vendor (row v) = v" "vr_modelCount (row v) = length (own v)" for v
    by (simp_all add: row_def rollup_row_def Let_def bucket_of_def)
  have m: "mset rows = mset (map row (js_set (map vendor perf)))" by (simp add: r mset_js_sort)
  have "mset (map vr_vendor rows) = mset (js_set (map vendor perf))"
    using arg_cong [OF m, of "image_mset vr_vendor"] by (simp add: v image_mset.compositionality comp_def del: map_map)
  then have "distinct (map vr_vendor rows)" by (metis distinct_js_set mset_eq_imp_distinct_iff)
  moreover have "vr_vendor ` set rows = vendor ` set perf" by (simp add: r image_comp comp_def v)
  moreover have "list_all (\<lambda>x. figures_ok upper (own (vr_vendor x)) x) rows"
  proof -
    have "list_all double_latency (own v)" for v using assms by (auto simp: own_def list_all_iff)
    then have "figures_ok upper (own v) (row v)" for v unfolding row_def by (rule figures_of_row)
    then show ?thesis by (auto simp: r list_all_iff v)
  qed
  moreover have "sum_list (map vr_modelCount rows) = sum_list (map vr_modelCount (map row (js_set (map vendor perf))))"
    using m by (metis mset_map sum_mset_sum_list)
  then have "sum_list (map vr_modelCount rows) = length perf" by (simp add: comp_def v own_def sum_groups)
  moreover have "sorted_wrt (\<lambda>a b. vr_modelCount b \<le> vr_modelCount a) rows"
    using count_order.sorted_js_sort by (simp add: r not_less)
  ultimately show ?thesis
    unfolding vendor_def [symmetric] rows_def [symmetric] Let_def own_def [symmetric] figures_ok_def by blast
qed

definition demo_perf :: "PerfModelSummary list" where
  "demo_perf =
     [\<lparr>pf_model_name = js ''a/one'', pf_avg_latency_ms = Fin 4, pf_success_rate = Fin 99\<rparr>,
      \<lparr>pf_model_name = js ''b/two'', pf_avg_latency_ms = Fin 8, pf_success_rate = NaN\<rparr>,
      \<lparr>pf_model_name = js ''a/three'', pf_avg_latency_ms = Fin 2, pf_success_rate = Fin 99\<rparr>,
      \<lparr>pf_model_name = js ''a/four'', pf_avg_latency_ms = Fin 1, pf_success_rate = NaN\<rparr>]"

theorem vendor_rollup_exact_witness:
  "\<exists>row\<in>set (buildVendorRollup id demo_perf ([] :: PricingModel list)).
     vr_vendor row = js ''a'' \<and> vr_modelCount row = 3 \<and> vr_medianLatencyMs row = Fin 2"
proof -
  define rows where "rows = buildVendorRollup id demo_perf ([] :: PricingModel list)"
  let ?vendor = "\<lambda>r. vendorFromModel id (pf_model_name r) (vendor_by_model ([] :: PricingModel list))"
  have d: "list_all double_latency demo_perf"
    using js_round_of_nat_exact [of 4] js_round_of_nat_exact [of 8] js_round_of_nat_exact [of 2] js_round_of_nat_exact [of 1]
    by (simp add: demo_perf_def double_latency_def is_double_def)
  note ex = vendor_rollup_exact [OF d, of id "[] :: PricingModel list", unfolded Let_def, folded rows_def]
  have vs: "map ?vendor demo_perf = [js ''a'', js ''b'', js ''a'', js ''a'']" by code_simp
  then have "js ''a'' \<in> ?vendor ` set demo_perf" by (metis list.set_intros(1) set_map)
  then obtain row where row: "row \<in> set rows" "vr_vendor row = js ''a''" using ex by (metis (no_types, lifting) imageE)
  have own: "filter (\<lambda>r. ?vendor r = js ''a'') demo_perf = [demo_perf ! 0, demo_perf ! 2, demo_perf ! 3]" by code_simp
  have ls: "sorted_latencies [demo_perf ! 0, demo_perf ! 2, demo_perf ! 3] = [1, 2, 4]"
    by (simp add: demo_perf_def sorted_latencies_def map_filter_simps)
  have "vr_modelCount row = 3 \<and> vr_medianLatencyMs row = Fin 2"
    using ex row by (simp add: list_all_iff own ls)
  then show ?thesis using row unfolding rows_def by blast
qed

section \<open>Titles\<close>

text \<open>The title of an incident never exceeds 120 characters, whatever the announcement is.\<close>

theorem incident_title_bounded: "length (incidentTitleFromContent content) \<le> 120"
  by (auto simp: incidentTitleFromContent_def Let_def split: option.split)

text \<open>The worst state of monitors is never "degraded": the state 2 is larger than the state 1 the fold starts with.\<close>

definition degraded_monitor :: UptimeMonitor where
  "degraded_monitor = \<lparr>um_name = js ''api'', um_uptime = None, um_uptime_24h = None, um_status = Fin 2, um_history = None\<rparr>"

theorem degraded_not_worst:
  "monitorStatusLabel (um_status degraded_monitor) = js ''Degraded''
   \<and> monitorStatusLabel (worstMonitorStatus [degraded_monitor]) = js ''Operational''"
  by (simp add: degraded_monitor_def worstMonitorStatus_def monitorStatusLabel_def num_eq_def)

end
