(* ===== verification/JS_Rounding.thy ===== *)
theory JS_Rounding
  imports JS_Number
begin

text \<open>
  Division and \<^verbatim>\<open>Math.round\<close> on numbers, and the rounding error of binary64: a positive result in the normal range differs from the exact
  one by at most one part in $2^{53}$. Errors of several operations multiply, which bounds the error of a computation.
\<close>

section \<open>Operations\<close>

text \<open>Division by a zero takes the zero to be positive.\<close>

fun num_div :: "jsnum \<Rightarrow> jsnum \<Rightarrow> jsnum" where
  "num_div (Fin a) (Fin b) = (if b \<noteq> 0 then js_round (a / b) else if a = 0 then NaN else inf_of (0 < a))"
| "num_div (Fin a) PInf = Fin 0"
| "num_div (Fin a) NInf = Fin 0"
| "num_div PInf (Fin b) = inf_of (0 \<le> b)"
| "num_div NInf (Fin b) = inf_of (b < 0)"
| "num_div _ _ = NaN"

fun math_round :: "jsnum \<Rightarrow> jsnum" where
  "math_round (Fin a) = Fin (of_int \<lfloor>a + 1/2\<rfloor>)"
| "math_round x = x"

section \<open>The error of one rounding\<close>

lemma round_half_even_near: "\<bar>of_int (round_half_even y) - y\<bar> \<le> 1/2"
proof -
  have "0 \<le> y - of_int \<lfloor>y\<rfloor>" "y - of_int \<lfloor>y\<rfloor> < 1" by linarith+
  then show ?thesis unfolding round_half_even_def Let_def by (simp split: if_split)
qed

lemma pow2_add: "pow2 (a + b) = pow2 a * pow2 b"
  by (simp add: pow2_powi power_int_add)

text \<open>The unit roundoff.\<close>

definition eps :: rat where
  "eps = 1 / 2 ^ 53"

lemma round_pos_near:
  assumes "pow2 (- 1022) \<le> x"
  shows "\<bar>round_pos x - x\<bar> \<le> x * eps"
proof -
  have x: "0 < x" using assms pow2_pos less_le_trans by blast
  let ?u = "ulp_exp x"
  have "\<bar>round_pos x - x\<bar> = \<bar>(of_int (round_half_even (x / pow2 ?u)) - x / pow2 ?u) * pow2 ?u\<bar>"
    using pow2_pos [of ?u] by (simp add: round_pos_def left_diff_distrib del: pow2_pos)
  also have "\<dots> \<le> 1/2 * pow2 ?u"
    unfolding abs_mult using round_half_even_near by (intro mult_mono) (auto simp: less_imp_le)
  finally have n: "\<bar>round_pos x - x\<bar> \<le> 1/2 * pow2 ?u" .
  have "pow2 (exponent_of x) * pow2 (- 52) \<le> x * pow2 (- 52)" "pow2 (- 1022) * pow2 (- 52) \<le> x * pow2 (- 52)"
    using pow2_exponent_of_le [OF x] assms by (auto intro: mult_right_mono simp: less_imp_le)
  then have "pow2 ?u \<le> x * pow2 (- 52)"
    by (simp add: ulp_exp_def max_def flip: pow2_add)
  moreover have "1/2 * pow2 (- 52) = eps" by (simp add: pow2_def eps_def)
  ultimately show ?thesis using n x by (simp add: field_simps)
qed

text \<open>A result far from the ends of the range.\<close>

lemma js_round_near:
  assumes "pow2 (- 1000) \<le> x" "x \<le> pow2 1000"
  obtains y where "js_round x = Fin y" "\<bar>y - x\<bar> \<le> x * eps"
proof
  have x: "0 < x" using assms(1) pow2_pos less_le_trans by blast
  have "pow2 (- 1022) \<le> pow2 (- 1000)" by (simp add: pow2_le_iff)
  then show "\<bar>round_pos x - x\<bar> \<le> x * eps" using assms(1) by (intro round_pos_near) linarith
  have "round_pos x \<le> pow2 1000" by (rule round_pos_le [OF x assms(2)]) simp
  also have "pow2 1000 < 2 ^ 1024" by (simp add: pow2_def)
  finally show "js_round x = Fin (round_pos x)" using x by (simp add: js_round_def Let_def)
qed

section \<open>Errors of several operations\<close>

text \<open>\<open>near k x y\<close>: \<open>y\<close> is \<open>x\<close> up to \<open>k\<close> roundings.\<close>

definition near :: "nat \<Rightarrow> rat \<Rightarrow> rat \<Rightarrow> bool" where
  "near k x y \<longleftrightarrow> x * (1 - eps) ^ k \<le> y \<and> y \<le> x * (1 + eps) ^ k"

lemma near_0 [simp]: "near 0 x x"
  by (simp add: near_def)

lemma eps_small: "0 < eps" "eps < 1"
  by (simp_all add: eps_def)

lemma near_mult: "near k x y \<Longrightarrow> 0 \<le> c \<Longrightarrow> near k (x * c) (y * c)"
  unfolding near_def using mult_right_mono [of _ _ c] by (fastforce simp: ac_simps)

lemma near_div: "near k x y \<Longrightarrow> 0 < c \<Longrightarrow> near k (x / c) (y / c)"
  using near_mult [of k x y "1 / c"] by simp

lemma near_round:
  assumes "near k x y" "\<bar>z - y\<bar> \<le> y * eps" "0 \<le> x"
  shows "near (Suc k) x z"
proof -
  have z: "y * (1 - eps) \<le> z" "z \<le> y * (1 + eps)" using assms(2) by (simp_all add: abs_le_iff right_diff_distrib distrib_left)
  have "x * (1 - eps) ^ k * (1 - eps) \<le> y * (1 - eps)" "y * (1 + eps) \<le> x * (1 + eps) ^ k * (1 + eps)"
    using assms(1) eps_small by (auto simp: near_def intro!: mult_right_mono)
  then show ?thesis using z by (simp add: near_def ac_simps)
qed

lemma eps_powers: "1 / 2 \<le> (1 - eps) ^ 4" "(1 + eps) ^ 4 \<le> 2" "1 - 5 * eps \<le> (1 - eps) ^ 4" "(1 + eps) ^ 4 \<le> 1 + 5 * eps"
  by (simp_all add: eps_def power_divide)

lemma near_bounds:
  assumes "near k x y" "k \<le> 4" "0 \<le> x"
  shows "x / 2 \<le> y" "y \<le> 2 * x"
proof -
  have "1 / 2 \<le> (1 - eps) ^ k"
    using power_decreasing [OF assms(2), of "1 - eps"] eps_small eps_powers(1) by linarith
  then have "x * (1 / 2) \<le> x * (1 - eps) ^ k" using assms(3) by (rule mult_left_mono)
  then show "x / 2 \<le> y" using assms(1) by (simp add: near_def)
  have "(1 + eps) ^ k \<le> 2" using power_increasing [OF assms(2), of "1 + eps"] eps_small eps_powers(2) by linarith
  then have "x * (1 + eps) ^ k \<le> x * 2" using assms(3) by (rule mult_left_mono)
  then show "y \<le> 2 * x" using assms(1) by (simp add: near_def)
qed

lemma near_4: "near 4 x y \<Longrightarrow> 0 \<le> x \<Longrightarrow> \<bar>y - x\<bar> \<le> 5 * x * eps"
  unfolding near_def using mult_left_mono [OF eps_powers(3), of x] mult_left_mono [OF eps_powers(4), of x]
  by (simp add: abs_le_iff algebra_simps)

end
