(* ===== verification/Currency.thy ===== *)
theory Currency
  imports JS_Rounding JS_Integers
begin

text \<open>
  Amounts of money (\<^verbatim>\<open>lib/currency.ts\<close>, the currency part of \<^verbatim>\<open>stores/system-config-store.ts\<close> and the conversion of quotas in
  \<^verbatim>\<open>lib/format.ts\<close>). The gateway counts quota in units; the console shows them in a currency, or as tokens, and reads amounts back.
  The configuration of the store is an argument. \<^verbatim>\<open>Intl.NumberFormat\<close> is the argument \<open>intl\<close>, given the currency code, if any, and
  the largest number of fraction digits. The theory shows that an amount shown for a quota is read back as the same quota, through
  four roundings of double arithmetic.
\<close>

section \<open>Configuration\<close>

datatype CurrencyDisplayType = DisplayUSD | DisplayCNY | DisplayTokens | DisplayCustom

record CurrencyConfig =
  cc_displayInCurrency :: bool
  cc_quotaDisplayType :: CurrencyDisplayType
  cc_quotaPerUnit :: jsnum
  cc_usdExchangeRate :: jsnum
  cc_customCurrencySymbol :: jstring
  cc_customCurrencyExchangeRate :: jsnum

definition DEFAULT_CURRENCY_CONFIG :: CurrencyConfig where
  "DEFAULT_CURRENCY_CONFIG =
     \<lparr>cc_displayInCurrency = True, cc_quotaDisplayType = DisplayUSD, cc_quotaPerUnit = Fin 500000, cc_usdExchangeRate = Fin 1,
      cc_customCurrencySymbol = [164], cc_customCurrencyExchangeRate = Fin 1\<rparr>"

datatype DisplayMeta =
    MetaCurrency (dm_symbol: jstring) (dm_currencyCode: jstring) (dm_exchangeRate: jsnum)
  | MetaCustom (dm_symbol: jstring) (dm_exchangeRate: jsnum)
  | MetaTokens (dm_quotaPerUnit: jsnum)

fun display_type_text :: "CurrencyDisplayType \<Rightarrow> jstring" where
  "display_type_text DisplayUSD = js ''USD''"
| "display_type_text DisplayCNY = js ''CNY''"
| "display_type_text DisplayTokens = js ''TOKENS''"
| "display_type_text DisplayCustom = js ''CUSTOM''"

definition display_type_of :: "json option \<Rightarrow> CurrencyDisplayType option" where
  "display_type_of v =
     find (\<lambda>d. v = Some (JStr (display_type_text d))) [DisplayUSD, DisplayCNY, DisplayTokens, DisplayCustom]"

definition isCurrencyDisplayType :: "json option \<Rightarrow> bool" where
  "isCurrencyDisplayType v \<longleftrightarrow> display_type_of v \<noteq> None"

definition parseCurrencyDisplayType :: "json option \<Rightarrow> CurrencyDisplayType \<Rightarrow> CurrencyDisplayType" where
  "parseCurrencyDisplayType v fallback = (case display_type_of v of Some d \<Rightarrow> d | None \<Rightarrow> fallback)"

definition positive_or :: "jsnum \<Rightarrow> jsnum \<Rightarrow> jsnum" where
  "positive_or x d = (if num_truthy x \<and> num_gt x (Fin 0) then x else d)"

definition getConfig :: "CurrencyConfig option \<Rightarrow> CurrencyConfig" where
  "getConfig stored =
     (let currency = (case stored of Some c \<Rightarrow> c | None \<Rightarrow> DEFAULT_CURRENCY_CONFIG)
      in currency
        \<lparr>cc_quotaPerUnit := positive_or (cc_quotaPerUnit currency) (cc_quotaPerUnit DEFAULT_CURRENCY_CONFIG),
         cc_usdExchangeRate := positive_or (cc_usdExchangeRate currency) (cc_usdExchangeRate DEFAULT_CURRENCY_CONFIG),
         cc_customCurrencyExchangeRate :=
           positive_or (cc_customCurrencyExchangeRate currency) (cc_customCurrencyExchangeRate DEFAULT_CURRENCY_CONFIG),
         cc_customCurrencySymbol :=
           (let t = trim (cc_customCurrencySymbol currency)
            in if t \<noteq> [] then t else cc_customCurrencySymbol DEFAULT_CURRENCY_CONFIG)\<rparr>)"

definition getDisplayMeta :: "CurrencyConfig \<Rightarrow> DisplayMeta" where
  "getDisplayMeta config =
     (case cc_quotaDisplayType config of
        DisplayCNY \<Rightarrow> MetaCurrency [165] (js ''CNY'') (cc_usdExchangeRate config)
      | DisplayCustom \<Rightarrow> MetaCustom (cc_customCurrencySymbol config) (cc_customCurrencyExchangeRate config)
      | DisplayTokens \<Rightarrow> MetaTokens (cc_quotaPerUnit config)
      | DisplayUSD \<Rightarrow> MetaCurrency (js ''$'') (js ''USD'') (Fin 1))"

definition getBillingDisplayMeta :: "CurrencyConfig \<Rightarrow> DisplayMeta" where
  "getBillingDisplayMeta config =
     (case getDisplayMeta config of
        MetaTokens _ \<Rightarrow> MetaCurrency (js ''$'') (js ''USD'') (Fin 1)
      | meta \<Rightarrow> meta)"

definition getCurrencyDisplay :: "CurrencyConfig option \<Rightarrow> CurrencyConfig \<times> DisplayMeta" where
  "getCurrencyDisplay stored = (let config = getConfig stored in (config, getDisplayMeta config))"

section \<open>Texts\<close>

record CurrencyFormatOptions =
  fm_digitsLarge :: "nat option"
  fm_digitsSmall :: "nat option"
  fm_abbreviate :: "bool option"
  fm_minimumNonZero :: "jsnum option"

record RequiredFormatOptions =
  rf_digitsLarge :: nat
  rf_digitsSmall :: nat
  rf_abbreviate :: bool
  rf_minimumNonZero :: jsnum

definition DEFAULT_FORMAT_OPTIONS :: RequiredFormatOptions where
  "DEFAULT_FORMAT_OPTIONS = \<lparr>rf_digitsLarge = 2, rf_digitsSmall = 4, rf_abbreviate = True, rf_minimumNonZero = Fin 0\<rparr>"

definition mergeOptions :: "CurrencyFormatOptions option \<Rightarrow> RequiredFormatOptions" where
  "mergeOptions options =
     (case options of
        None \<Rightarrow> DEFAULT_FORMAT_OPTIONS
      | Some o' \<Rightarrow>
          \<lparr>rf_digitsLarge = case_option (rf_digitsLarge DEFAULT_FORMAT_OPTIONS) id (fm_digitsLarge o'),
           rf_digitsSmall = case_option (rf_digitsSmall DEFAULT_FORMAT_OPTIONS) id (fm_digitsSmall o'),
           rf_abbreviate = case_option (rf_abbreviate DEFAULT_FORMAT_OPTIONS) id (fm_abbreviate o'),
           rf_minimumNonZero = case_option (rf_minimumNonZero DEFAULT_FORMAT_OPTIONS) id (fm_minimumNonZero o')\<rparr>)"

text \<open>The texts of \<^verbatim>\<open>toFixed\<close> have at most one point.\<close>

definition removeTrailingZeros :: "jstring \<Rightarrow> jstring" where
  "removeTrailingZeros s =
     (case dropWhile (\<lambda>c. c \<noteq> 46) s of
        [] \<Rightarrow> s
      | _ # post \<Rightarrow>
          (let pre = takeWhile (\<lambda>c. c \<noteq> 46) s;
               t = (if list_all is_digit post then pre @ [46] @ rev (dropWhile (\<lambda>c. c = 48) (rev post)) else s)
           in if last t = 46 then butlast t else t))"

definition formatNumberWithSuffix :: "jsnum \<Rightarrow> nat \<Rightarrow> nat \<Rightarrow> bool \<Rightarrow> jstring" where
  "formatNumberWithSuffix v digitsLarge digitsSmall abbreviate =
     (if abbreviate \<and> num_le (Fin 1000) (num_abs v) then removeTrailingZeros (to_fixed (num_div_lit v 1000) 1) @ js ''k''
      else removeTrailingZeros (to_fixed v (if num_le (Fin 1) (num_abs v) then digitsLarge else digitsSmall)))"

definition adjustForMinimum :: "jsnum \<Rightarrow> nat \<Rightarrow> jsnum \<Rightarrow> jsnum" where
  "adjustForMinimum v digits minimumNonZero =
     (if num_eq v (Fin 0) then v
      else let threshold = (if num_gt minimumNonZero (Fin 0) then minimumNonZero else js_round (1 / 10 ^ digits))
           in if num_gt (num_abs v) (Fin 0) \<and> num_lt (num_abs v) threshold
              then if num_gt v (Fin 0) then threshold else num_neg threshold
              else v)"

definition formatCurrencyValue ::
  "(jstring option \<Rightarrow> nat \<Rightarrow> jsnum \<Rightarrow> jstring) \<Rightarrow> jsnum \<Rightarrow> RequiredFormatOptions \<Rightarrow> DisplayMeta \<Rightarrow> jstring" where
  "formatCurrencyValue intl v options meta =
     (let digits = (if num_le (Fin 1) (num_abs v) then rf_digitsLarge options else rf_digitsSmall options);
          adjusted = adjustForMinimum v digits (rf_minimumNonZero options)
      in case meta of
           MetaTokens _ \<Rightarrow>
             formatNumberWithSuffix v (rf_digitsLarge options) (rf_digitsSmall options) (rf_abbreviate options)
         | MetaCurrency _ code _ \<Rightarrow> intl (Some code) digits adjusted
         | MetaCustom symbol _ \<Rightarrow> symbol @ [32] @ intl None digits adjusted)"

text \<open>The value of an amount that may be missing; a missing amount and \<open>NaN\<close> are shown as a dash.\<close>

definition dash_or :: "(jsnum \<Rightarrow> jstring) \<Rightarrow> jsnum option \<Rightarrow> jstring" where
  "dash_or f v = (case v of Some x \<Rightarrow> if x = NaN then js ''-'' else f x | None \<Rightarrow> js ''-'')"

definition formatCurrencyFromUSD ::
  "(jstring option \<Rightarrow> nat \<Rightarrow> jsnum \<Rightarrow> jstring) \<Rightarrow> CurrencyConfig option \<Rightarrow> jsnum option \<Rightarrow> CurrencyFormatOptions option \<Rightarrow> jstring" where
  "formatCurrencyFromUSD intl stored amountUSD options =
     dash_or (\<lambda>usd.
       let (config, meta) = getCurrencyDisplay stored; merged = mergeOptions options
       in case meta of
            MetaTokens _ \<Rightarrow>
              formatNumberWithSuffix (num_mul usd (cc_quotaPerUnit config)) 0 (rf_digitsSmall merged) (rf_abbreviate merged)
          | _ \<Rightarrow> formatCurrencyValue intl (num_mul usd (dm_exchangeRate meta)) merged meta) amountUSD"

definition formatBillingCurrencyFromUSD ::
  "(jstring option \<Rightarrow> nat \<Rightarrow> jsnum \<Rightarrow> jstring) \<Rightarrow> CurrencyConfig option \<Rightarrow> jsnum option \<Rightarrow> CurrencyFormatOptions option \<Rightarrow> jstring" where
  "formatBillingCurrencyFromUSD intl stored amountUSD options =
     dash_or (\<lambda>usd.
       let (config, _) = getCurrencyDisplay stored; meta = getBillingDisplayMeta config; merged = mergeOptions options
       in formatCurrencyValue intl (case meta of MetaTokens _ \<Rightarrow> usd | _ \<Rightarrow> num_mul usd (dm_exchangeRate meta)) merged meta) amountUSD"

definition formatQuotaWithCurrency ::
  "(jstring option \<Rightarrow> nat \<Rightarrow> jsnum \<Rightarrow> jstring) \<Rightarrow> CurrencyConfig option \<Rightarrow> jsnum option \<Rightarrow> CurrencyFormatOptions option \<Rightarrow> jstring" where
  "formatQuotaWithCurrency intl stored quota options =
     dash_or (\<lambda>q. formatCurrencyFromUSD intl stored (Some (num_div q (cc_quotaPerUnit (fst (getCurrencyDisplay stored))))) options) quota"

definition getCurrencyLabel :: "CurrencyConfig option \<Rightarrow> jstring" where
  "getCurrencyLabel stored =
     (let (config, meta) = getCurrencyDisplay stored
      in case meta of
           MetaTokens _ \<Rightarrow> js ''Tokens''
         | _ \<Rightarrow>
             (case cc_quotaDisplayType config of
                DisplayCNY \<Rightarrow> js ''CNY''
              | DisplayCustom \<Rightarrow> (case meta of MetaCustom symbol _ \<Rightarrow> symbol | _ \<Rightarrow> js ''Custom'')
              | _ \<Rightarrow> js ''USD''))"

definition isCurrencyDisplayEnabled :: "CurrencyConfig option \<Rightarrow> bool" where
  "isCurrencyDisplayEnabled stored = (case snd (getCurrencyDisplay stored) of MetaTokens _ \<Rightarrow> False | _ \<Rightarrow> True)"

definition formatLocalCurrencyAmount ::
  "(jstring option \<Rightarrow> nat \<Rightarrow> jsnum \<Rightarrow> jstring) \<Rightarrow> CurrencyConfig option \<Rightarrow> jsnum option \<Rightarrow> CurrencyFormatOptions option \<Rightarrow> jstring" where
  "formatLocalCurrencyAmount intl stored amount options =
     dash_or (\<lambda>v. formatCurrencyValue intl v (mergeOptions options)
        (getBillingDisplayMeta (fst (getCurrencyDisplay stored)))) amount"

section \<open>Quotas\<close>

definition exchange_rate :: "DisplayMeta \<Rightarrow> jsnum" where
  "exchange_rate meta = (case meta of MetaTokens _ \<Rightarrow> Fin 1 | _ \<Rightarrow> dm_exchangeRate meta)"

definition parseQuotaFromDollars :: "CurrencyConfig option \<Rightarrow> jsnum \<Rightarrow> jsnum" where
  "parseQuotaFromDollars stored amount =
     (if \<not> is_finite amount then Fin 0
      else let (config, meta) = getCurrencyDisplay stored
           in case meta of
                MetaTokens _ \<Rightarrow> math_round amount
              | _ \<Rightarrow>
                  (let exchangeRate = exchange_rate meta;
                       usdAmount = (if num_gt exchangeRate (Fin 0) then num_div amount exchangeRate else amount)
                   in math_round (num_mul usdAmount (cc_quotaPerUnit config))))"

definition quotaUnitsToDollars :: "CurrencyConfig option \<Rightarrow> jsnum \<Rightarrow> jsnum" where
  "quotaUnitsToDollars stored quota =
     (let (config, meta) = getCurrencyDisplay stored
      in case meta of
           MetaTokens _ \<Rightarrow> quota
         | _ \<Rightarrow> num_mul (num_div quota (cc_quotaPerUnit config)) (exchange_rate meta))"

section \<open>A quota that is shown is read back\<close>

definition rate_ok :: "jsnum \<Rightarrow> bool" where
  "rate_ok x \<longleftrightarrow> (case x of Fin a \<Rightarrow> pow2 (- 100) \<le> a \<and> a \<le> pow2 100 | _ \<Rightarrow> False)"

definition rates_ok :: "CurrencyConfig option \<Rightarrow> bool" where
  "rates_ok stored \<longleftrightarrow>
     (let (config, meta) = getCurrencyDisplay stored in rate_ok (cc_quotaPerUnit config) \<and> rate_ok (exchange_rate meta))"

text \<open>One more operation on a number in the middle of the range.\<close>

lemma round_step:
  assumes "near k x y" "k < 4" "pow2 (- 900) \<le> x" "x \<le> pow2 900"
  obtains z where "js_round y = Fin z" "near (Suc k) x z"
proof -
  have x: "0 < x" using assms(3) pow2_pos less_le_trans by blast
  have b: "x / 2 \<le> y" "y \<le> 2 * x" using near_bounds [OF assms(1)] assms(2) x by auto
  have "pow2 (- 1000) \<le> pow2 (- 900) / 2" "2 * pow2 900 \<le> pow2 1000" by (simp_all add: pow2_def)
  then have "pow2 (- 1000) \<le> y" "y \<le> pow2 1000" using b assms(3,4) by linarith+
  then obtain z where "js_round y = Fin z" "\<bar>z - y\<bar> \<le> y * eps" by (rule js_round_near)
  then show ?thesis using that near_round [OF assms(1)] x by simp
qed

lemma rate_bounds:
  assumes "pow2 (- 100) \<le> q" "q \<le> pow2 100"
  shows "0 < q" "pow2 (- 100) \<le> 1 / q" "1 / q \<le> pow2 100"
proof -
  show q: "0 < q" using assms(1) pow2_pos less_le_trans by blast
  have i: "pow2 100 * pow2 (- 100) = 1" by (simp add: pow2_def)
  have "q * pow2 (- 100) \<le> pow2 100 * pow2 (- 100)" "pow2 (- 100) * pow2 100 \<le> q * pow2 100"
    using assms by (auto intro: mult_right_mono simp: less_imp_le)
  then show "pow2 (- 100) \<le> 1 / q" "1 / q \<le> pow2 100"
    using q i by (simp_all add: divide_le_eq le_divide_eq mult.commute)
qed

lemma four_roundings:
  assumes n: "0 < n" "n < 2 ^ 49" and q: "pow2 (- 100) \<le> q" "q \<le> pow2 100" and r: "pow2 (- 100) \<le> r" "r \<le> pow2 100"
  shows "\<exists>a b c d. js_round (of_nat n / q) = Fin a \<and> js_round (a * r) = Fin b \<and> js_round (b / r) = Fin c \<and> js_round (c * q) = Fin d
    \<and> \<lfloor>d + 1/2\<rfloor> = int n"
proof -
  let ?x = "of_nat n :: rat"
  have x: "1 \<le> ?x" "?x \<le> pow2 49" using n by (simp_all add: pow2_def)
  note Q = rate_bounds [OF q] and R = rate_bounds [OF r]
  have i: "pow2 (- 100) \<le> ?x / q" "?x / q \<le> pow2 49 * pow2 100"
    using mult_mono [of 1 ?x "pow2 (- 100)" "1 / q"] mult_mono [of ?x "pow2 49" "1 / q" "pow2 100"] x Q by (simp_all add: less_imp_le)
  then have j: "pow2 (- 100) * pow2 (- 100) \<le> ?x / q * r" "?x / q * r \<le> pow2 49 * pow2 100 * pow2 100"
    using mult_mono [of "pow2 (- 100)" "?x / q" "pow2 (- 100)" r] mult_mono [of "?x / q" "pow2 49 * pow2 100" r "pow2 100"] r x Q R(1)
    by (simp_all add: less_imp_le)
  have p: "pow2 (- 900) \<le> pow2 (- 100)" "pow2 49 * pow2 100 \<le> pow2 900" "pow2 (- 900) \<le> pow2 (- 100) * pow2 (- 100)"
    "pow2 49 * pow2 100 * pow2 100 \<le> pow2 900" "pow2 (- 900) \<le> 1" "pow2 49 \<le> pow2 900"
    by (simp_all add: pow2_def)
  obtain a where a: "js_round (?x / q) = Fin a" "near 1 (?x / q) a"
    using round_step [of 0 "?x / q" "?x / q"] i p by auto
  have "near 1 (?x / q * r) (a * r)" using near_mult [OF a(2)] R(1) by simp
  then obtain b where b: "js_round (a * r) = Fin b" "near 2 (?x / q * r) b"
    using round_step [of 1 "?x / q * r" "a * r"] j p by (auto simp: numeral_2_eq_2)
  have "near 2 (?x / q) (b / r)" using near_div [OF b(2) R(1)] R(1) by simp
  then obtain c where c: "js_round (b / r) = Fin c" "near 3 (?x / q) c"
    using round_step [of 2 "?x / q" "b / r"] i p by (auto simp: numeral_3_eq_3 numeral_2_eq_2)
  have "near 3 ?x (c * q)" using near_mult [OF c(2), of q] Q(1) by simp
  then obtain d where d: "js_round (c * q) = Fin d" "near 4 ?x d"
    using round_step [of 3 ?x "c * q"] x p by (auto simp: eval_nat_numeral)
  have "5 * ?x * eps \<le> 5 * pow2 49 * eps" using x(2) eps_small by (intro mult_right_mono) auto
  also have "\<dots> < 1/2" by (simp add: eps_def pow2_def)
  finally have "\<bar>d - ?x\<bar> < 1/2" using near_4 [OF d(2)] by simp
  then have "?x \<le> d + 1/2 \<and> d + 1/2 < ?x + 1" by linarith
  then have "\<lfloor>d + 1/2\<rfloor> = int n" by (simp add: floor_eq_iff)
  then show ?thesis using a b c d by blast
qed

lemma quota_reads_rates:
  assumes n: "n < 2 ^ 49" and q: "rate_ok q" and r: "rate_ok r"
  shows "math_round (num_mul (num_div (num_mul (num_div (Fin (of_nat n)) q) r) r) q) = Fin (of_nat n)
    \<and> is_finite (num_mul (num_div (Fin (of_nat n)) q) r) \<and> num_gt r (Fin 0)"
proof -
  obtain a b where ab: "q = Fin a" "pow2 (- 100) \<le> a" "a \<le> pow2 100" "r = Fin b" "pow2 (- 100) \<le> b" "b \<le> pow2 100"
    using q r by (auto simp: rate_ok_def split: jsnum.splits)
  have p: "0 < a" "0 < b" using ab(2,5) pow2_pos less_le_trans by blast+
  show ?thesis
  proof (cases "n = 0")
    case True
    have "js_round 0 = Fin 0" "\<lfloor>1/2 :: rat\<rfloor> = 0" by (simp_all add: js_round_def floor_eq_iff)
    then show ?thesis using p True by (simp add: ab(1,4) is_finite_def num_gt_def)
  next
    case False
    then show ?thesis using four_roundings [OF _ n ab(2,3,5,6)] p by (auto simp: ab(1,4) is_finite_def num_gt_def)
  qed
qed

lemma quota_reads:
  assumes "n < 2 ^ 49" "rates_ok stored"
  shows "parseQuotaFromDollars stored (quotaUnitsToDollars stored (Fin (of_nat n))) = Fin (of_nat n)"
proof -
  obtain config meta where cm: "getCurrencyDisplay stored = (config, meta)" by fastforce
  have ok: "rate_ok (cc_quotaPerUnit config)" "rate_ok (exchange_rate meta)" using assms(2) by (simp_all add: rates_ok_def cm)
  note q = quota_reads_rates [OF assms(1) ok]
  show ?thesis
  proof (cases meta)
    case (MetaTokens x)
    have "\<lfloor>of_nat n + 1/2 :: rat\<rfloor> = int n" by (simp add: floor_eq_iff)
    then show ?thesis by (simp add: parseQuotaFromDollars_def quotaUnitsToDollars_def cm MetaTokens is_finite_def)
  qed (use q in \<open>simp_all add: parseQuotaFromDollars_def quotaUnitsToDollars_def cm\<close>)
qed

text \<open>C18: a quota that is shown in the configured currency is read back as the same quota. For every quota below \<open>2\<^sup>49\<close>, a quota
  per unit and an exchange rate between \<open>2\<^sup>-\<^sup>1\<^sup>0\<^sup>0\<close> and \<open>2\<^sup>1\<^sup>0\<^sup>0\<close>, and any currency, the four roundings of the conversion to the displayed amount and
  back never change the quota by a unit.\<close>

theorem quota_display_roundtrip:
  assumes "n < 2 ^ 49" "rates_ok stored"
  shows "parseQuotaFromDollars stored (quotaUnitsToDollars stored (Fin (of_nat n))) = Fin (of_nat n)"
  by (rule quota_reads [OF assms])

definition seven_yuan :: CurrencyConfig where
  "seven_yuan = DEFAULT_CURRENCY_CONFIG\<lparr>cc_quotaDisplayType := DisplayCNY, cc_usdExchangeRate := Fin 7\<rparr>"

lemma seven_yuan_ok: "rates_ok (Some seven_yuan)"
  by (simp add: rates_ok_def getCurrencyDisplay_def getConfig_def seven_yuan_def DEFAULT_CURRENCY_CONFIG_def positive_or_def num_truthy_def
      num_gt_def rate_ok_def getDisplayMeta_def exchange_rate_def pow2_def Let_def)

theorem quota_display_roundtrip_witness:
  "parseQuotaFromDollars (Some seven_yuan) (quotaUnitsToDollars (Some seven_yuan) (Fin 123457)) = Fin 123457"
proof -
  have "(123457::nat) < 2 ^ 49" by simp
  from quota_display_roundtrip [OF this seven_yuan_ok] show ?thesis by simp
qed

end
