(* ===== verification/Key_Form.thy ===== *)
theory Key_Form
  imports Currency
begin

text \<open>
  The forms that grant quota: API keys (\<^verbatim>\<open>features/keys/lib/api-key-form.ts\<close>), redemption codes
  (\<^verbatim>\<open>features/redemption-codes/lib/redemption-form.ts\<close>) and users (\<^verbatim>\<open>features/users/lib/user-form.ts\<close>), with the properties of the records that they read and write.
  A time is a number of seconds, and a \<^verbatim>\<open>Date\<close> of the form the number of its milliseconds, both integers. The currency configuration
  of the store is the argument \<open>stored\<close>. The theory shows that opening a key and saving it keeps what was granted, when the switch of its model limits
  agrees with their list, and that an edit of a key with a recurring budget does not give back what was spent.
\<close>

section \<open>API keys\<close>

text \<open>The properties of a key that the form reads or overwrites; \<^verbatim>\<open>id\<close>, \<^verbatim>\<open>key\<close>, \<^verbatim>\<open>status\<close> and the counters and dates of its use are not among them.\<close>

record ApiKey =
  ak_name :: jstring
  ak_remain_quota :: jsnum
  ak_unlimited_quota :: bool
  ak_expired_time :: int
  ak_group :: "jstring option"
  ak_cross_group_retry :: bool
  ak_model_limits_enabled :: bool
  ak_model_limits :: "jstring option"
  ak_allow_ips :: "jstring option"
  ak_spend_limit :: "jsnum option"
  ak_reset_period :: "jstring option"
  ak_next_reset_time :: "int option"

record ApiKeyFormValues =
  kf_name :: jstring
  kf_remain_quota_dollars :: "jsnum option"
  kf_expired_time :: "int option"
  kf_unlimited_quota :: bool
  kf_model_limits :: "jstring list"
  kf_allow_ips :: "jstring option"
  kf_group :: "jstring option"
  kf_cross_group_retry :: "bool option"
  kf_reset_period :: "jstring option"
  kf_tokenCount :: "nat option"

record ApiKeyFormData =
  kd_name :: jstring
  kd_remain_quota :: jsnum
  kd_expired_time :: int
  kd_unlimited_quota :: bool
  kd_model_limits_enabled :: bool
  kd_model_limits :: jstring
  kd_allow_ips :: jstring
  kd_group :: jstring
  kd_cross_group_retry :: bool
  kd_spend_limit :: jsnum
  kd_reset_period :: jstring
  kd_next_reset_time :: int

text \<open>The refinement of the schema: a limited key needs a quota that is not negative.\<close>

definition quota_accepted :: "ApiKeyFormValues \<Rightarrow> bool" where
  "quota_accepted data \<longleftrightarrow> kf_unlimited_quota data
     \<or> (case kf_remain_quota_dollars data of None \<Rightarrow> False | Some q \<Rightarrow> \<not> num_lt q (Fin 0))"

definition API_KEY_FORM_DEFAULT_VALUES :: ApiKeyFormValues where
  "API_KEY_FORM_DEFAULT_VALUES =
     \<lparr>kf_name = [], kf_remain_quota_dollars = Some (Fin 10), kf_expired_time = None, kf_unlimited_quota = True, kf_model_limits = [],
      kf_allow_ips = Some [], kf_group = Some [], kf_cross_group_retry = Some True, kf_reset_period = Some (js ''none''),
      kf_tokenCount = Some 1\<rparr>"

definition getApiKeyFormDefaultValues :: "bool \<Rightarrow> ApiKeyFormValues" where
  "getApiKeyFormDefaultValues defaultUseAutoGroup =
     API_KEY_FORM_DEFAULT_VALUES
       \<lparr>kf_group := Some (if defaultUseAutoGroup then js ''auto'' else []), kf_cross_group_retry := Some defaultUseAutoGroup\<rparr>"

definition or_text :: "jstring option \<Rightarrow> jstring \<Rightarrow> jstring" where
  "or_text s d = (case s of Some (c # t) \<Rightarrow> c # t | _ \<Rightarrow> d)"

definition or_number :: "jsnum option \<Rightarrow> jsnum" where
  "or_number x = (case x of Some v \<Rightarrow> v | None \<Rightarrow> Fin 0)"

definition recurring_data :: "CurrencyConfig option \<Rightarrow> ApiKeyFormValues \<Rightarrow> jsnum \<Rightarrow> bool" where
  "recurring_data stored data remainQuota \<longleftrightarrow>
     \<not> kf_unlimited_quota data
     \<and> (case kf_reset_period data of None \<Rightarrow> False | Some p \<Rightarrow> p \<noteq> js ''none'')
     \<and> num_gt remainQuota (Fin 0)"

definition transformFormDataToPayload :: "CurrencyConfig option \<Rightarrow> ApiKeyFormValues \<Rightarrow> ApiKey option \<Rightarrow> ApiKeyFormData" where
  "transformFormDataToPayload stored data original =
     (let remainQuota = (if kf_unlimited_quota data then Fin 0
            else parseQuotaFromDollars stored (num_or (kf_remain_quota_dollars data) (Fin 0)));
          recurring = recurring_data stored data remainQuota;
          remainToSend = (case original of
             Some key \<Rightarrow>
               if recurring \<and> (case ak_reset_period key of Some p \<Rightarrow> p | None \<Rightarrow> js ''none'') \<noteq> js ''none''
                  \<and> num_gt (or_number (ak_spend_limit key)) (Fin 0) \<and> num_eq remainQuota (or_number (ak_spend_limit key))
               then ak_remain_quota key else remainQuota
           | None \<Rightarrow> remainQuota)
      in \<lparr>kd_name = kf_name data, kd_remain_quota = remainToSend,
          kd_expired_time = (case kf_expired_time data of Some ms \<Rightarrow> ms div 1000 | None \<Rightarrow> - 1),
          kd_unlimited_quota = kf_unlimited_quota data, kd_model_limits_enabled = (kf_model_limits data \<noteq> []),
          kd_model_limits = join [44] (kf_model_limits data), kd_allow_ips = or_text (kf_allow_ips data) [],
          kd_group = or_text (kf_group data) [],
          kd_cross_group_retry = (kf_group data = Some (js ''auto'') \<and> kf_cross_group_retry data = Some True),
          kd_spend_limit = (if recurring then remainQuota else Fin 0),
          kd_reset_period = (if recurring then the (kf_reset_period data) else js ''none''), kd_next_reset_time = 0\<rparr>)"

definition recurring_key :: "ApiKey \<Rightarrow> bool" where
  "recurring_key key \<longleftrightarrow>
     or_text (ak_reset_period key) (js ''none'') \<noteq> js ''none'' \<and> num_gt (or_number (ak_spend_limit key)) (Fin 0)"

definition transformApiKeyToFormDefaults :: "CurrencyConfig option \<Rightarrow> ApiKey \<Rightarrow> ApiKeyFormValues" where
  "transformApiKeyToFormDefaults stored key =
     (let recurring = recurring_key key
      in \<lparr>kf_name = ak_name key,
          kf_remain_quota_dollars = Some (if ak_unlimited_quota key then Fin 0
            else quotaUnitsToDollars stored (if recurring then or_number (ak_spend_limit key) else ak_remain_quota key)),
          kf_expired_time = (if 0 < ak_expired_time key then Some (ak_expired_time key * 1000) else None),
          kf_unlimited_quota = ak_unlimited_quota key,
          kf_model_limits = (case ak_model_limits key of
             Some (c # s) \<Rightarrow> filter (\<lambda>m. m \<noteq> []) (split_on 44 (c # s)) | _ \<Rightarrow> []),
          kf_allow_ips = Some (or_text (ak_allow_ips key) []), kf_group = Some (or_text (ak_group key) []),
          kf_cross_group_retry = Some (ak_cross_group_retry key),
          kf_reset_period = Some (if recurring then or_text (ak_reset_period key) (js ''none'') else js ''none''),
          kf_tokenCount = Some 1\<rparr>)"

section \<open>Redemption codes and users\<close>

record Redemption =
  rd_name :: jstring
  rd_quota :: jsnum
  rd_expired_time :: int

record RedemptionFormValues =
  rv_name :: jstring
  rv_quota_dollars :: jsnum
  rv_expired_time :: "int option"
  rv_count :: "nat option"

record RedemptionFormData =
  rp_name :: jstring
  rp_quota :: jsnum
  rp_expired_time :: int
  rp_count :: nat

definition REDEMPTION_FORM_DEFAULT_VALUES :: RedemptionFormValues where
  "REDEMPTION_FORM_DEFAULT_VALUES = \<lparr>rv_name = [], rv_quota_dollars = Fin 10, rv_expired_time = None, rv_count = Some 1\<rparr>"

definition redemption_payload :: "CurrencyConfig option \<Rightarrow> RedemptionFormValues \<Rightarrow> RedemptionFormData" where
  "redemption_payload stored data =
     \<lparr>rp_name = rv_name data, rp_quota = parseQuotaFromDollars stored (rv_quota_dollars data),
      rp_expired_time = (case rv_expired_time data of Some ms \<Rightarrow> ms div 1000 | None \<Rightarrow> 0),
      rp_count = (case rv_count data of Some (Suc n) \<Rightarrow> Suc n | _ \<Rightarrow> 1)\<rparr>"

definition transformRedemptionToFormDefaults :: "CurrencyConfig option \<Rightarrow> Redemption \<Rightarrow> RedemptionFormValues" where
  "transformRedemptionToFormDefaults stored redemption =
     \<lparr>rv_name = rd_name redemption, rv_quota_dollars = quotaUnitsToDollars stored (rd_quota redemption),
      rv_expired_time = (if 0 < rd_expired_time redemption then Some (rd_expired_time redemption * 1000) else None),
      rv_count = Some 1\<rparr>"

record User =
  us_username :: jstring
  us_display_name :: jstring
  us_role :: jsnum
  us_quota :: jsnum
  us_group :: jstring
  us_remark :: "jstring option"

record UserFormValues =
  uf_username :: jstring
  uf_display_name :: "jstring option"
  uf_password :: "jstring option"
  uf_role :: "jsnum option"
  uf_quota_dollars :: "jsnum option"
  uf_group :: "jstring option"
  uf_remark :: "jstring option"

text \<open>A property that is undefined is not sent.\<close>

record UserFormData =
  ud_id :: "jsnum option"
  ud_username :: jstring
  ud_display_name :: jstring
  ud_password :: "jstring option"
  ud_role :: "jsnum option"
  ud_group :: "jstring option"
  ud_remark :: "jstring option"

definition USER_FORM_DEFAULT_VALUES :: UserFormValues where
  "USER_FORM_DEFAULT_VALUES =
     \<lparr>uf_username = [], uf_display_name = Some [], uf_password = Some [], uf_role = Some (Fin 1), uf_quota_dollars = Some (Fin 0),
      uf_group = Some (js ''default''), uf_remark = Some []\<rparr>"

definition or_none :: "jstring option \<Rightarrow> jstring option" where
  "or_none s = (case s of Some (c # t) \<Rightarrow> Some (c # t) | _ \<Rightarrow> None)"

definition user_payload :: "UserFormValues \<Rightarrow> jsnum option \<Rightarrow> UserFormData" where
  "user_payload data userId =
     (let payload = \<lparr>ud_id = None, ud_username = uf_username data, ud_display_name = or_text (uf_display_name data) (uf_username data),
            ud_password = or_none (uf_password data), ud_role = None, ud_group = None, ud_remark = None\<rparr>
      in case userId of
           None \<Rightarrow> payload\<lparr>ud_role := Some (num_or (uf_role data) (Fin 1))\<rparr>
         | Some i \<Rightarrow> payload\<lparr>ud_group := uf_group data, ud_remark := or_none (uf_remark data), ud_id := Some i\<rparr>)"

definition transformUserToFormDefaults :: "CurrencyConfig option \<Rightarrow> User \<Rightarrow> UserFormValues" where
  "transformUserToFormDefaults stored user =
     \<lparr>uf_username = us_username user, uf_display_name = Some (us_display_name user), uf_password = Some [],
      uf_role = Some (us_role user), uf_quota_dollars = Some (quotaUnitsToDollars stored (us_quota user)),
      uf_group = Some (or_text (Some (us_group user)) (js ''default'')), uf_remark = Some (or_text (us_remark user) [])\<rparr>"

section \<open>What was granted is kept\<close>

lemma parse_nothing: "rates_ok stored \<Longrightarrow> parseQuotaFromDollars stored (Fin 0) = Fin 0"
proof -
  assume r: "rates_ok stored"
  have "quotaUnitsToDollars stored (Fin 0) = Fin 0"
    using r by (auto simp: quotaUnitsToDollars_def rates_ok_def rate_ok_def split_beta js_round_def pow2_def split: DisplayMeta.splits jsnum.splits)
  then show ?thesis using quota_reads [of 0, OF _ r] by simp
qed

text \<open>The quota of a form whose amount was shown for \<open>n\<close> units.\<close>

lemma form_quota:
  assumes "rates_ok stored" "n < 2 ^ 49"
  shows "parseQuotaFromDollars stored (num_or (Some (quotaUnitsToDollars stored (Fin (of_nat n)))) (Fin 0)) = Fin (of_nat n)"
proof -
  let ?d = "quotaUnitsToDollars stored (Fin (of_nat n))"
  have q: "parseQuotaFromDollars stored ?d = Fin (of_nat n)" by (rule quota_reads [OF assms(2,1)])
  have "\<not> num_truthy ?d \<Longrightarrow> parseQuotaFromDollars stored ?d = parseQuotaFromDollars stored (Fin 0)"
    using parse_nothing [OF assms(1)] by (auto simp: num_truthy_def parseQuotaFromDollars_def [of stored NaN] is_finite_def)
  then show ?thesis using q by (auto simp: num_or_def)
qed

text \<open>C17: an edit of a key with a recurring budget gives nothing back. Whatever else of the form is changed, a key that keeps its budget
  and stays recurring is saved with the quota that is left of it, the same budget and the period of the form. The budget is below
  \<open>2\<^sup>49\<close> units and the rates of the configuration are between \<open>2\<^sup>-\<^sup>1\<^sup>0\<^sup>0\<close> and \<open>2\<^sup>1\<^sup>0\<^sup>0\<close>.\<close>

theorem recurring_edit_no_refund:
  assumes "rates_ok stored" "0 < n" "n < 2 ^ 49"
    and "ak_spend_limit key = Some (Fin (of_nat n))" "recurring_key key" "\<not> ak_unlimited_quota key"
    and "kf_remain_quota_dollars data = kf_remain_quota_dollars (transformApiKeyToFormDefaults stored key)"
    and "\<not> kf_unlimited_quota data" "kf_reset_period data = Some p" "p \<noteq> js ''none''"
  shows "let payload = transformFormDataToPayload stored data (Some key)
    in kd_remain_quota payload = ak_remain_quota key \<and> kd_spend_limit payload = Fin (of_nat n) \<and> kd_reset_period payload = p"
proof -
  have q: "parseQuotaFromDollars stored (num_or (kf_remain_quota_dollars data) (Fin 0)) = Fin (of_nat n)"
    using form_quota [OF assms(1,3)] assms(4-7) by (simp add: transformApiKeyToFormDefaults_def or_number_def)
  have "num_gt (Fin (of_nat n)) (Fin 0)" using assms(2) by (simp add: num_gt_def)
  moreover have "(case ak_reset_period key of Some p \<Rightarrow> p | None \<Rightarrow> js ''none'') \<noteq> js ''none''"
    using assms(5) by (auto simp: recurring_key_def or_text_def split: option.splits list.splits)
  ultimately show ?thesis
    using assms(4,8-10) by (simp add: transformFormDataToPayload_def q recurring_data_def or_number_def num_eq_def Let_def)
qed

text \<open>The models a key is limited to.\<close>

definition limits_of :: "ApiKey \<Rightarrow> jstring list" where
  "limits_of key = filter (\<lambda>m. m \<noteq> []) (split_on 44 (or_text (ak_model_limits key) []))"

lemma limits_opened: "kf_model_limits (transformApiKeyToFormDefaults stored key) = limits_of key"
  by (auto simp: transformApiKeyToFormDefaults_def limits_of_def or_text_def Let_def split: option.split list.split)


text \<open>The switch of the model limits is not read: a key whose limits were switched off with the list of models kept is limited to them
  after it was opened and saved.\<close>

theorem kept_limits_switched_on:
  assumes "\<not> ak_model_limits_enabled key" "limits_of key \<noteq> []"
  shows "kd_model_limits_enabled (transformFormDataToPayload stored (transformApiKeyToFormDefaults stored key) (Some key))"
  using assms limits_opened [of stored key] by (simp add: transformFormDataToPayload_def Let_def)

text \<open>A redemption code that is opened and saved keeps its quota and its date.\<close>

theorem redemption_saved_unchanged:
  assumes "rates_ok stored" "rd_quota redemption = Fin (of_nat n)" "n < 2 ^ 49" "0 \<le> rd_expired_time redemption"
  shows "redemption_payload stored (transformRedemptionToFormDefaults stored redemption)
    = \<lparr>rp_name = rd_name redemption, rp_quota = rd_quota redemption, rp_expired_time = rd_expired_time redemption, rp_count = 1\<rparr>"
  using assms quota_reads [OF assms(3,1)] by (simp add: redemption_payload_def transformRedemptionToFormDefaults_def)

text \<open>Editing a user sends neither a role nor an empty password, and creating one sends no group; a password that was not typed
  is not sent.\<close>

theorem user_payload_safe:
  "ud_role (user_payload data (Some i)) = None \<and> ud_id (user_payload data (Some i)) = Some i
   \<and> ud_group (user_payload data None) = None \<and> ud_id (user_payload data None) = None
   \<and> ud_password (user_payload data who) \<noteq> Some []
   \<and> ud_password (user_payload (transformUserToFormDefaults stored user) who) = None"
  by (auto simp: user_payload_def transformUserToFormDefaults_def or_none_def Let_def split: option.split list.split)

text \<open>A key that has spent more than its quota cannot be edited at all: the form opens with an amount its own check rejects.\<close>

definition overdrawn :: ApiKey where
  "overdrawn = \<lparr>ak_name = js ''ci'', ak_remain_quota = Fin (- 500000), ak_unlimited_quota = False, ak_expired_time = - 1, ak_group = None,
     ak_cross_group_retry = False, ak_model_limits_enabled = False, ak_model_limits = None, ak_allow_ips = None, ak_spend_limit = None,
     ak_reset_period = None, ak_next_reset_time = None\<rparr>"

theorem overdrawn_key_rejected: "\<not> quota_accepted (transformApiKeyToFormDefaults None overdrawn)"
proof -
  have "js_round (- 1) = Fin (- 1)" using js_round_of_nat_exact [of 1] by (simp add: js_round_def Let_def split: if_splits)
  then show ?thesis
    by (simp add: quota_accepted_def transformApiKeyToFormDefaults_def overdrawn_def recurring_key_def or_text_def or_number_def
        quotaUnitsToDollars_def getCurrencyDisplay_def getConfig_def DEFAULT_CURRENCY_CONFIG_def positive_or_def num_truthy_def num_gt_def
        getDisplayMeta_def exchange_rate_def)
qed

section \<open>Examples\<close>

definition monthly_key :: ApiKey where
  "monthly_key = overdrawn\<lparr>ak_remain_quota := Fin 300000, ak_spend_limit := Some (Fin 500000), ak_reset_period := Some (js ''monthly'')\<rparr>"

lemma monthly_recurring: "recurring_key monthly_key" "\<not> ak_unlimited_quota monthly_key" "ak_spend_limit monthly_key = Some (Fin 500000)"
  by (simp_all add: recurring_key_def monthly_key_def overdrawn_def or_text_def or_number_def num_gt_def js_str)

theorem recurring_edit_no_refund_witness:
  "kd_remain_quota (transformFormDataToPayload (Some seven_yuan)
      ((transformApiKeyToFormDefaults (Some seven_yuan) monthly_key)\<lparr>kf_name := js ''renamed''\<rparr>) (Some monthly_key)) = Fin 300000"
proof -
  let ?d = "(transformApiKeyToFormDefaults (Some seven_yuan) monthly_key)\<lparr>kf_name := js ''renamed''\<rparr>"
  have d: "kf_remain_quota_dollars ?d = kf_remain_quota_dollars (transformApiKeyToFormDefaults (Some seven_yuan) monthly_key)"
    "\<not> kf_unlimited_quota ?d" "kf_reset_period ?d = Some (js ''monthly'')"
    using monthly_recurring by (simp_all add: transformApiKeyToFormDefaults_def) (simp add: monthly_key_def or_text_def js_str)
  have n: "(0::nat) < 500000" "(500000::nat) < 2 ^ 49" "ak_spend_limit monthly_key = Some (Fin (of_nat 500000))" "js ''monthly'' \<noteq> js ''none''"
    using monthly_recurring by (simp_all add: js_inject)
  show ?thesis
    using recurring_edit_no_refund [OF seven_yuan_ok n(1-3) monthly_recurring(1,2) d n(4)] by (simp add: Let_def monthly_key_def)
qed


theorem kept_limits_switched_on_witness:
  "kd_model_limits_enabled (transformFormDataToPayload None
     (transformApiKeyToFormDefaults None (overdrawn\<lparr>ak_model_limits := Some (js ''gpt-4o'')\<rparr>))
     (Some (overdrawn\<lparr>ak_model_limits := Some (js ''gpt-4o'')\<rparr>)))"
  by (rule kept_limits_switched_on) code_simp+

theorem redemption_saved_unchanged_witness:
  "rp_quota (redemption_payload (Some seven_yuan)
     (transformRedemptionToFormDefaults (Some seven_yuan) \<lparr>rd_name = js ''gift'', rd_quota = Fin 250000, rd_expired_time = 0\<rparr>)) = Fin 250000"
proof -
  let ?r = "\<lparr>rd_name = js ''gift'', rd_quota = Fin 250000, rd_expired_time = 0\<rparr>"
  have n: "rd_quota ?r = Fin (of_nat 250000)" "(250000::nat) < 2 ^ 49" "0 \<le> rd_expired_time ?r" by simp_all
  show ?thesis by (simp add: redemption_saved_unchanged [OF seven_yuan_ok n])
qed

end
