(* ===== verification/Price_Display.thy ===== *)
theory Price_Display
  imports Currency Billing_Expr Pricing_Types
begin

text \<open>
  The prices of the pricing page (\<^verbatim>\<open>features/pricing/lib/price.ts\<close> and \<^verbatim>\<open>dynamic-price.ts\<close>): the price of a model in its cheapest group or in
  a given one, with and without the recharge rate, and the prices that a billing expression gives. The texts come from \<open>Currency\<close>;
  \<open>intl\<close> is \<^verbatim>\<open>Intl.NumberFormat\<close> and \<open>stored\<close> the currency configuration. Splitting an expression may throw, which is a value here. The
  theory shows that exactly the positive prices of the first tier are listed, the input and output prices first.
\<close>

section \<open>Prices per token and per request\<close>

fun TOKEN_UNIT_DIVISORS :: "TokenUnit \<Rightarrow> rat" where
  "TOKEN_UNIT_DIVISORS UnitM = 1"
| "TOKEN_UNIT_DIVISORS UnitK = 1000"

definition getMinGroupRatio :: "jstring list \<Rightarrow> (jstring \<times> jsnum) list \<Rightarrow> jsnum" where
  "getMinGroupRatio enableGroups groupRatio =
     (if enableGroups = [] then Fin 1
      else let minRatio = foldl (\<lambda>least g.
             case map_of groupRatio g of Some r \<Rightarrow> if num_lt r least then r else least | None \<Rightarrow> least) PInf enableGroups
           in if minRatio = PInf then Fin 1 else minRatio)"

definition hasRatio :: "jsnum nullable \<Rightarrow> bool" where
  "hasRatio v = (case v of Some (Some x) \<Rightarrow> is_finite x | _ \<Rightarrow> False)"

definition times_ratio :: "jsnum \<Rightarrow> jsnum nullable \<Rightarrow> jsnum" where
  "times_ratio base v = (if hasRatio v then num_mul base (the (the v)) else NaN)"

definition calculateTokenPrice :: "'a PricingModel_scheme \<Rightarrow> PriceType \<Rightarrow> jsnum \<Rightarrow> jsnum" where
  "calculateTokenPrice model type ratio =
     (let base = num_mul (num_mul (model_ratio model) (Fin 2)) ratio
      in case type of
           PriceInput \<Rightarrow> base
         | PriceOutput \<Rightarrow> num_mul base (completion_ratio model)
         | PriceCache \<Rightarrow> times_ratio base (cache_ratio model)
         | PriceCreateCache \<Rightarrow> times_ratio base (create_cache_ratio model)
         | PriceImage \<Rightarrow> times_ratio base (image_ratio model)
         | PriceAudioInput \<Rightarrow> times_ratio base (audio_ratio model)
         | PriceAudioOutput \<Rightarrow>
             if hasRatio (audio_ratio model) \<and> hasRatio (audio_completion_ratio model)
             then times_ratio (times_ratio base (audio_ratio model)) (audio_completion_ratio model) else NaN)"

definition applyRechargeRate :: "jsnum \<Rightarrow> bool \<Rightarrow> jsnum \<Rightarrow> jsnum \<Rightarrow> jsnum" where
  "applyRechargeRate price showWithRecharge priceRate usdExchangeRate =
     (if \<not> showWithRecharge then price else num_div (num_mul price priceRate) usdExchangeRate)"

definition four_six :: CurrencyFormatOptions where
  "four_six = \<lparr>fm_digitsLarge = Some 4, fm_digitsSmall = Some 6, fm_abbreviate = Some False, fm_minimumNonZero = None\<rparr>"

definition four_four :: CurrencyFormatOptions where
  "four_four = \<lparr>fm_digitsLarge = Some 4, fm_digitsSmall = Some 4, fm_abbreviate = Some False, fm_minimumNonZero = None\<rparr>"

definition ratios_of :: "'a PricingModel_scheme \<Rightarrow> (jstring \<times> jsnum) list" where
  "ratios_of model = (case group_ratio model of Some rs \<Rightarrow> rs | None \<Rightarrow> [])"

definition formatPrice ::
  "(jstring option \<Rightarrow> nat \<Rightarrow> jsnum \<Rightarrow> jstring) \<Rightarrow> CurrencyConfig option \<Rightarrow> 'a PricingModel_scheme \<Rightarrow> PriceType \<Rightarrow> TokenUnit \<Rightarrow> bool
    \<Rightarrow> jsnum \<Rightarrow> jsnum \<Rightarrow> jstring" where
  "formatPrice intl stored model type tokenUnit showWithRecharge priceRate usdExchangeRate =
     (if num_eq (quota_type model) QUOTA_REQUEST_VALUE then js ''-''
      else let minRatio = getMinGroupRatio (enable_groups model) (ratios_of model);
               priceInUSD = applyRechargeRate (calculateTokenPrice model type minRatio) showWithRecharge priceRate usdExchangeRate
           in formatCurrencyFromUSD intl stored (Some (num_div_lit priceInUSD (TOKEN_UNIT_DIVISORS tokenUnit))) (Some four_six))"

definition formatGroupPrice ::
  "(jstring option \<Rightarrow> nat \<Rightarrow> jsnum \<Rightarrow> jstring) \<Rightarrow> CurrencyConfig option \<Rightarrow> 'a PricingModel_scheme \<Rightarrow> jstring \<Rightarrow> PriceType \<Rightarrow> TokenUnit \<Rightarrow> bool
    \<Rightarrow> jsnum \<Rightarrow> jsnum \<Rightarrow> (jstring \<times> jsnum) list \<Rightarrow> jstring" where
  "formatGroupPrice intl stored model grp type tokenUnit showWithRecharge priceRate usdExchangeRate groupRatio =
     (if num_eq (quota_type model) QUOTA_REQUEST_VALUE then js ''-''
      else let ratio = (case map_of groupRatio grp of Some r \<Rightarrow> r | None \<Rightarrow> Fin 1);
               priceInUSD = applyRechargeRate (calculateTokenPrice model type ratio) showWithRecharge priceRate usdExchangeRate
           in formatCurrencyFromUSD intl stored (Some (num_div_lit priceInUSD (TOKEN_UNIT_DIVISORS tokenUnit))) (Some four_six))"

definition formatFixedPrice ::
  "(jstring option \<Rightarrow> nat \<Rightarrow> jsnum \<Rightarrow> jstring) \<Rightarrow> CurrencyConfig option \<Rightarrow> 'a PricingModel_scheme \<Rightarrow> jstring \<Rightarrow> bool
    \<Rightarrow> jsnum \<Rightarrow> jsnum \<Rightarrow> (jstring \<times> jsnum) list \<Rightarrow> jstring" where
  "formatFixedPrice intl stored model grp showWithRecharge priceRate usdExchangeRate groupRatio =
     (if \<not> num_eq (quota_type model) QUOTA_REQUEST_VALUE then js ''-''
      else let ratio = (case map_of groupRatio grp of Some r \<Rightarrow> r | None \<Rightarrow> Fin 1);
               priceInUSD = applyRechargeRate (num_mul (num_or (model_price model) (Fin 0)) ratio) showWithRecharge priceRate usdExchangeRate
           in formatCurrencyFromUSD intl stored (Some priceInUSD) (Some four_four))"

definition formatRequestPrice ::
  "(jstring option \<Rightarrow> nat \<Rightarrow> jsnum \<Rightarrow> jstring) \<Rightarrow> CurrencyConfig option \<Rightarrow> 'a PricingModel_scheme \<Rightarrow> bool \<Rightarrow> jsnum \<Rightarrow> jsnum \<Rightarrow> jstring" where
  "formatRequestPrice intl stored model showWithRecharge priceRate usdExchangeRate =
     (if \<not> num_eq (quota_type model) QUOTA_REQUEST_VALUE then js ''-''
      else let minRatio = getMinGroupRatio (enable_groups model) (ratios_of model);
               priceInUSD = applyRechargeRate (num_mul (num_or (model_price model) (Fin 0)) minRatio) showWithRecharge priceRate usdExchangeRate
           in formatCurrencyFromUSD intl stored (Some priceInUSD) (Some four_four))"

section \<open>Prices of a billing expression\<close>

record DynamicPriceOptions =
  dp_tokenUnit :: TokenUnit
  dp_showRechargePrice :: "bool option"
  dp_priceRate :: "jsnum option"
  dp_usdExchangeRate :: "jsnum option"
  dp_groupRatioMultiplier :: "jsnum option"

record DynamicPriceEntry =
  de_key :: jstring
  de_field :: jstring
  de_label :: jstring
  de_shortLabel :: jstring
  de_value :: jsnum
  de_formatted :: jstring
  de_variable :: BillingVar

record DynamicPricingSummary =
  ds_tiers :: "ParsedTier list"
  ds_tier :: "ParsedTier option"
  ds_tierCount :: nat
  ds_hasRequestRules :: bool
  ds_isSpecialExpression :: bool
  ds_rawExpression :: jstring
  ds_entries :: "DynamicPriceEntry list"
  ds_primaryEntries :: "DynamicPriceEntry list"
  ds_secondaryEntries :: "DynamicPriceEntry list"

definition PRIMARY_DYNAMIC_FIELDS :: "jstring list" where
  "PRIMARY_DYNAMIC_FIELDS = [js ''inputPrice'', js ''outputPrice'']"

definition expr_of :: "'a PricingModel_scheme \<Rightarrow> jstring" where
  "expr_of model = (case billing_expr model of Some e \<Rightarrow> e | None \<Rightarrow> [])"

definition isDynamicPricingModel :: "'a PricingModel_scheme \<Rightarrow> bool" where
  "isDynamicPricingModel model \<longleftrightarrow> billing_mode model = Some (js ''tiered_expr'') \<and> expr_of model \<noteq> []"

definition getDynamicDisplayGroupRatio :: "'a PricingModel_scheme \<Rightarrow> jsnum" where
  "getDynamicDisplayGroupRatio model = getMinGroupRatio (enable_groups model) (ratios_of model)"

definition formatDynamicUnitPrice ::
  "(jstring option \<Rightarrow> nat \<Rightarrow> jsnum \<Rightarrow> jstring) \<Rightarrow> CurrencyConfig option \<Rightarrow> jsnum \<Rightarrow> DynamicPriceOptions \<Rightarrow> jstring" where
  "formatDynamicUnitPrice intl stored valuePerMillionTokens options =
     (let groupRatio = case_option (Fin 1) id (dp_groupRatioMultiplier options);
          priceRate = case_option (Fin 1) id (dp_priceRate options);
          usdExchangeRate = case_option (Fin 1) id (dp_usdExchangeRate options);
          priceUSD = num_div_lit (num_mul valuePerMillionTokens groupRatio) (TOKEN_UNIT_DIVISORS (dp_tokenUnit options));
          displayPrice = applyRechargeRate priceUSD (dp_showRechargePrice options = Some True) priceRate usdExchangeRate
      in formatBillingCurrencyFromUSD intl stored (Some displayPrice) (Some four_six))"

definition getDynamicPricingTiers :: "'a PricingModel_scheme \<Rightarrow> js_error + ParsedTier list" where
  "getDynamicPricingTiers model =
     (if \<not> isDynamicPricingModel model then Inr []
      else case splitBillingExprAndRequestRules (expr_of model) of
        Inl e \<Rightarrow> Inl e
      | Inr (billingExpr, _) \<Rightarrow> Inr (parseTiersFromExpr billingExpr))"

definition hasDynamicRequestRules :: "'a PricingModel_scheme \<Rightarrow> js_error + bool" where
  "hasDynamicRequestRules model =
     (if \<not> isDynamicPricingModel model then Inr False
      else case splitBillingExprAndRequestRules (expr_of model) of
        Inl e \<Rightarrow> Inl e
      | Inr (_, requestRuleExpr) \<Rightarrow>
          (case tryParseRequestRuleExpr requestRuleExpr of
             Inl e \<Rightarrow> Inl e
           | Inr groups \<Rightarrow> Inr (has_items groups)))"

definition is_primary :: "DynamicPriceEntry \<Rightarrow> bool" where
  "is_primary entry \<longleftrightarrow> de_field entry \<in> set PRIMARY_DYNAMIC_FIELDS"

definition price_entry ::
  "(jstring option \<Rightarrow> nat \<Rightarrow> jsnum \<Rightarrow> jstring) \<Rightarrow> CurrencyConfig option \<Rightarrow> ParsedTier \<Rightarrow> DynamicPriceOptions \<Rightarrow> BillingVar \<Rightarrow> DynamicPriceEntry list" where
  "price_entry intl stored tier options variable =
     (case bv_field variable of
        None \<Rightarrow> []
      | Some field \<Rightarrow>
          (case map_of (pt_fields tier) field of
             Some v \<Rightarrow>
               if \<not> is_finite v \<or> num_le v (Fin 0) then []
               else [\<lparr>de_key = bv_key variable, de_field = field, de_label = bv_label variable, de_shortLabel = bv_shortLabel variable,
                      de_value = v, de_formatted = formatDynamicUnitPrice intl stored v options, de_variable = variable\<rparr>]
           | None \<Rightarrow> []))"

definition getDynamicPriceEntries ::
  "(jstring option \<Rightarrow> nat \<Rightarrow> jsnum \<Rightarrow> jstring) \<Rightarrow> CurrencyConfig option \<Rightarrow> ParsedTier option \<Rightarrow> DynamicPriceOptions \<Rightarrow> DynamicPriceEntry list" where
  "getDynamicPriceEntries intl stored tier options =
     (case tier of
        None \<Rightarrow> []
      | Some t \<Rightarrow>
          js_sort (\<lambda>a b. is_primary a \<noteq> is_primary b \<and> \<not> is_primary a)
            (concat (map (price_entry intl stored t options) BILLING_PRICING_VARS)))"

definition getDynamicPricingSummary ::
  "(jstring option \<Rightarrow> nat \<Rightarrow> jsnum \<Rightarrow> jstring) \<Rightarrow> CurrencyConfig option \<Rightarrow> 'a PricingModel_scheme \<Rightarrow> DynamicPriceOptions
    \<Rightarrow> js_error + DynamicPricingSummary option" where
  "getDynamicPricingSummary intl stored model options =
     (if \<not> isDynamicPricingModel model then Inr None
      else case getDynamicPricingTiers model of
        Inl e \<Rightarrow> Inl e
      | Inr tiers \<Rightarrow>
          (let tier = (case tiers of [] \<Rightarrow> None | t # _ \<Rightarrow> Some t);
               entries = getDynamicPriceEntries intl stored tier options
           in case hasDynamicRequestRules model of
                Inl e \<Rightarrow> Inl e
              | Inr rules \<Rightarrow>
                  Inr (Some \<lparr>ds_tiers = tiers, ds_tier = tier, ds_tierCount = length tiers, ds_hasRequestRules = rules,
                    ds_isSpecialExpression = (trim (expr_of model) \<noteq> [] \<and> tiers = []), ds_rawExpression = expr_of model,
                    ds_entries = entries, ds_primaryEntries = filter is_primary entries,
                    ds_secondaryEntries = filter (\<lambda>e. \<not> is_primary e) entries\<rparr>)))"

section \<open>The prices that are listed\<close>

interpretation primary_order: comparator "\<lambda>a b. is_primary a \<noteq> is_primary b \<and> \<not> is_primary a"
  by unfold_locales auto

lemma insert_first: "p x \<Longrightarrow> insert_by (\<lambda>a b. p a \<noteq> p b \<and> \<not> p a) x xs = x # xs"
  by (cases xs) auto

lemma insert_behind:
  "\<not> p x \<Longrightarrow> \<forall>u\<in>set us. p u \<Longrightarrow> \<forall>v\<in>set vs. \<not> p v \<Longrightarrow> insert_by (\<lambda>a b. p a \<noteq> p b \<and> \<not> p a) x (us @ vs) = us @ x # vs"
  by (induction us) (cases vs, auto)

lemma sort_primary: "js_sort (\<lambda>a b. p a \<noteq> p b \<and> \<not> p a) es = filter p es @ filter (\<lambda>e. \<not> p e) es"
proof (induction es)
  case (Cons e es)
  show ?case
  proof (cases "p e")
    case False
    then have "insert_by (\<lambda>a b. p a \<noteq> p b \<and> \<not> p a) e (filter p es @ filter (\<lambda>e. \<not> p e) es) = filter p es @ e # filter (\<lambda>e. \<not> p e) es"
      by (intro insert_behind) auto
    then show ?thesis using False by (simp only: js_sort.simps Cons filter.simps if_False if_True not_False_eq_True)
  qed (simp only: js_sort.simps Cons insert_first filter.simps if_True not_True_eq_False if_False append_Cons)
qed simp

text \<open>The positive prices of a tier in the order of the registry.\<close>

definition positive_prices :: "ParsedTier \<Rightarrow> (jstring \<times> jsnum) list" where
  "positive_prices tier = concat (map (\<lambda>v. case bv_field v of
     Some f \<Rightarrow> (case map_of (pt_fields tier) f of Some x \<Rightarrow> if is_finite x \<and> num_gt x (Fin 0) then [(f, x)] else [] | None \<Rightarrow> [])
   | None \<Rightarrow> []) BILLING_PRICING_VARS)"

lemma finite_positive: "is_finite v \<Longrightarrow> \<not> num_le v (Fin 0) \<longleftrightarrow> num_gt v (Fin 0)"
  by (cases v) (auto simp: is_finite_def num_le_def num_eq_def num_gt_def)

lemma entry_price:
  "map (\<lambda>e. (de_field e, de_value e)) (price_entry intl stored t options v) = (case bv_field v of
     Some f \<Rightarrow> (case map_of (pt_fields t) f of Some x \<Rightarrow> if is_finite x \<and> num_gt x (Fin 0) then [(f, x)] else [] | None \<Rightarrow> [])
   | None \<Rightarrow> [])"
  using finite_positive by (auto simp: price_entry_def split: option.split)

text \<open>C29: the prices that are listed for a tier are exactly its positive prices: first the input and the output price, then the others, each in
  the order of the registry, with nothing listed twice or left out.\<close>

theorem listed_prices_exact:
  "map (\<lambda>e. (de_field e, de_value e)) (getDynamicPriceEntries intl stored (Some tier) options)
    = filter (\<lambda>(f, _). f \<in> set PRIMARY_DYNAMIC_FIELDS) (positive_prices tier)
      @ filter (\<lambda>(f, _). f \<notin> set PRIMARY_DYNAMIC_FIELDS) (positive_prices tier)"
proof -
  let ?es = "concat (map (price_entry intl stored tier options) BILLING_PRICING_VARS)" and ?g = "\<lambda>e. (de_field e, de_value e)"
  have p: "map ?g ?es = positive_prices tier" by (simp add: map_concat comp_def entry_price positive_prices_def)
  have "map ?g (filter is_primary es) = filter (\<lambda>(f, _). f \<in> set PRIMARY_DYNAMIC_FIELDS) (map ?g es)"
    "map ?g (filter (\<lambda>e. \<not> is_primary e) es) = filter (\<lambda>(f, _). f \<notin> set PRIMARY_DYNAMIC_FIELDS) (map ?g es)" for es
    by (simp_all add: filter_map comp_def is_primary_def [abs_def])
  from this [of ?es] show ?thesis by (simp only: getDynamicPriceEntries_def option.case sort_primary map_append p)
qed

section \<open>The price that is shown and the price that is sorted by\<close>

lemma min_ratio_fold:
  assumes "x \<noteq> NInf" "x \<noteq> NaN" "\<forall>(_, r)\<in>set rs. r \<noteq> NInf"
  shows "foldl (\<lambda>least g. case map_of rs g of Some r \<Rightarrow> if num_lt r least then r else least | None \<Rightarrow> least) x gs \<notin> {NInf, NaN}"
  using assms(1,2)
proof (induction gs arbitrary: x)
  case (Cons g gs)
  have "r \<noteq> NaN" if "num_lt r y" for r y using that by (cases y) auto
  moreover have "r \<noteq> NInf" if "map_of rs g = Some r" for r using that assms(3) by (auto dest: map_of_SomeD)
  ultimately show ?case using Cons by (auto split: option.split)
qed simp

lemma min_ratio_agrees:
  assumes "\<forall>(_, r)\<in>set (ratios_of model). r \<noteq> NInf"
  shows "getMinGroupRatio (enable_groups model) (ratios_of model) = minGroupRatio model"
proof -
  let ?m = "foldl (\<lambda>least g. case map_of (ratios_of model) g of Some r \<Rightarrow> if num_lt r least then r else least | None \<Rightarrow> least) PInf (enable_groups model)"
  have "minGroupRatio model = (if is_finite ?m then ?m else Fin 1)"
    by (simp add: minGroupRatio_def ratios_of_def Let_def foldl_conv_fold)
  moreover have "?m \<notin> {NInf, NaN}" using min_ratio_fold [OF _ _ assms] by simp
  then have "is_finite ?m \<longleftrightarrow> ?m \<noteq> PInf" by (cases ?m) (auto simp: is_finite_def)
  ultimately show ?thesis by (auto simp: getMinGroupRatio_def Let_def)
qed



end
