(* ===== verification/Spec2Isabelle.thy ===== *)
theory Spec2Isabelle
  imports Status_Codes Model_Mapping Chat_Laws Pricing_Laws Model_Capabilities Channel_Utils Billing_Laws Tier_Laws
    Param_Session Form_Laws Nav_Laws Think_While Play_State Status_Page Key_Form Price_Display
begin

text \<open>
  \<^bold>\<open>The program.\<close> You Box is a gateway for language model APIs with a web console. This development
  models the logic of the console (TypeScript, \<^verbatim>\<open>src/web/default/src\<close>): the playground, which streams
  chat completions; the pricing page, which lists, filters and prices models; the billing
  expressions that the price editors compile and the price display reads; the channel pages,
  which validate the routing configuration of the gateway; and the navigation, which shows and guards the pages.

  \<^bold>\<open>JavaScript.\<close> \<open>JS_Prelude\<close> has strings as lists of UTF-16 code units with \<^verbatim>\<open>trim\<close>, \<^verbatim>\<open>split\<close>, \<^verbatim>\<open>join\<close>,
  and stable sorting, with the locale \<open>comparator\<close> for what a sort relies on. \<open>JS_Number\<close> has IEEE
  binary64 numbers as rationals under round-half-even, with their shortest decimal text, and \<open>JS_Rounding\<close> the error of their
  operations. \<open>JS_JSON\<close> has
  JSON values and \<^verbatim>\<open>JSON.parse\<close>; every step of the parser is guarded by the progress it makes and
  \<open>pvalue_consumes\<close> shows that the guards never bite. \<open>JS_Convert\<close> has \<^verbatim>\<open>Number(text)\<close> and the quoting of
  \<^verbatim>\<open>JSON.stringify\<close>, and \<open>JS_Stringify\<close> the whole of it, compact and indented, with the round trip through the
  parser; \<open>JS_Objects\<close> has the order of keys, \<^verbatim>\<open>delete\<close> and \<^verbatim>\<open>Object.entries\<close>; \<open>JS_Integers\<close> shows how integers are printed. \<open>JS_Regex\<close> has the backtracking matcher: a pattern gives all its matches at a position
  in the order of the search, and a repetition gives up empty iterations, as the language does.
  Global matching, splitting and replacing are defined by the progress of each match, and the
  patterns of the program never match the empty text.

  \<^bold>\<open>The playground\<close> (\<^verbatim>\<open>features/playground\<close>).
  \<^item> \<open>Playground_Types\<close>: \<^verbatim>\<open>types.ts\<close> and \<^verbatim>\<open>constants.ts\<close> as records and datatypes.
  \<^item> \<open>Message_Utils\<close>, \<open>Message_Laws\<close>: \<^verbatim>\<open>lib/message-utils.ts\<close>. The active version of a message is one of its
    versions and every operation keeps it so; reasoning between \<^verbatim>\<open>think\<close> tags is taken apart and put
    back; loading repairs interrupted messages. The locale \<open>keyed_update\<close> is the contract of the update
    by key. \<open>Think_While\<close> has the loop of \<^verbatim>\<open>parseThinkTags\<close> with its positions, as a loop that need not end, and shows
    that it ends on every text with the result of the structured definition.
  \<^item> \<open>Stream_Parser\<close>: \<^verbatim>\<open>lib/stream-parser.ts\<close>. Fragments of tool calls are put together by index in
    any interleaving; exactly which payloads throw, end the stream or report an error.
  \<^item> \<open>Stream_Request\<close>: \<^verbatim>\<open>hooks/use-stream-request.ts\<close> as a step relation. The refs of the hook are a record and
    each listener an operation, and every connection may deliver any event at any time; no connection leaks, and a
    completed request reports no error any more.
  \<^item> \<open>Payload_Builder\<close>: \<^verbatim>\<open>lib/payload-builder.ts\<close> and the transcript of \<^verbatim>\<open>lib/export.ts\<close>.
  \<^item> \<open>Cost\<close>: \<^verbatim>\<open>lib/cost.ts\<close> in double arithmetic, with bounds.
  \<^item> \<open>Chat_Session\<close>, \<open>Chat_Laws\<close>: \<^verbatim>\<open>hooks/use-chat-handler.ts\<close> on top of the hook. A session refines the hook's step
    relation, compared streams commute, an answer is shown from its chunks, stopping comes to rest.
    The locale \<open>message_updater\<close> is what a callback may do to a message.
  \<^item> \<open>Model_Capabilities\<close>: \<^verbatim>\<open>lib/model-capabilities.ts\<close>.
  \<^item> \<open>Message_Codec\<close>: the messages as JSON. The locale \<open>json_codec\<close> is the contract of a reader and a printer, interpreted for each
    interface of \<^verbatim>\<open>types.ts\<close> that is stored.
  \<^item> \<open>Play_Storage\<close>, \<open>Play_State\<close>: \<^verbatim>\<open>lib/storage.ts\<close> over a map from keys to texts, and \<^verbatim>\<open>hooks/use-playground-state.ts\<close> with its actions as
    a session. A page that is loaded again finds the state it was left in, and clearing leaves nothing behind.

  \<^bold>\<open>Pricing\<close> (\<^verbatim>\<open>features/pricing\<close>).
  \<^item> \<open>Pricing_Types\<close>, \<open>Pricing_Filters\<close>, \<open>Pricing_Laws\<close>: \<^verbatim>\<open>types.ts\<close>, \<^verbatim>\<open>lib/model-helpers.ts\<close>, \<^verbatim>\<open>lib/model-type.ts\<close>,
    \<^verbatim>\<open>lib/filters.ts\<close>. A facet's count is the number of models its filter keeps; filtering and sorting give
    exactly the models that pass every filter, each written out, in order. The locale \<open>collation\<close> is what \<^verbatim>\<open>localeCompare\<close> promises and
    \<open>facet_source\<close> what the four facets share.
  \<^item> \<open>Billing_Expr\<close>, \<open>Billing_Laws\<close>: \<^verbatim>\<open>lib/billing-expr.ts\<close>. Request rules survive printing and parsing, and a
    combined expression splits into its parts, for texts without the marks of the language; the rules and labels that are
    not read back are listed.
  \<^item> \<open>Tier_Expr\<close>, \<open>Tier_Laws\<close>: \<^verbatim>\<open>lib/tier-expr.ts\<close>. What the visual editor compiles, the tier parser reads back.
    Below, both come together: a saved expression with tiers and rules is shown as it was edited.
  \<^item> \<open>Price_Display\<close>: \<^verbatim>\<open>lib/price.ts\<close> and \<^verbatim>\<open>lib/dynamic-price.ts\<close>. The listed prices are exactly the positive ones, and a model
    without a tiered expression is sorted by the price that is shown.

  \<^bold>\<open>Money.\<close>
  \<^item> \<open>Currency\<close>: \<^verbatim>\<open>lib/currency.ts\<close> and the quota conversions of \<^verbatim>\<open>lib/format.ts\<close>. A quota that is shown in a currency is read back as the
    same quota, through four roundings.
  \<^item> \<open>Key_Form\<close>: the forms of API keys, redemption codes and users (\<^verbatim>\<open>features/keys\<close>, \<^verbatim>\<open>features/redemption-codes\<close>, \<^verbatim>\<open>features/users\<close>).
    Saving what was opened keeps what was granted, and an edit of a recurring budget gives nothing back.

  \<^bold>\<open>Channels\<close> (\<^verbatim>\<open>features/channels\<close>, \<^verbatim>\<open>lib\<close>).
  \<^item> \<open>Status_Codes\<close>: \<^verbatim>\<open>lib/http-status-code-rules.ts\<close> and \<^verbatim>\<open>lib/status-code-risk-guard.ts\<close>. The parsed ranges denote
    exactly the codes of the tokens, merged and sorted, and are read back from their text.
  \<^item> \<open>Model_Mapping\<close>: \<^verbatim>\<open>lib/model-mapping-validation.ts\<close>.
  \<^item> \<open>Channel_Utils\<close>: \<^verbatim>\<open>lib/channel-utils.ts\<close>, \<^verbatim>\<open>upstream-update-utils.ts\<close> and parts of the multi-key and Ollama helpers.
  \<^item> \<open>Channel_Form\<close>, \<open>Form_Laws\<close>: \<^verbatim>\<open>lib/channel-form.ts\<close> and \<^verbatim>\<open>channel-form-errors.ts\<close>. The checks of the form, a channel as form
    values and the payloads of a save. A save writes exactly the settings the form decides on and keeps the rest, saving
    what was opened is stable, and an update carries neither a status nor a key that was not typed.
  \<^item> \<open>Param_Override\<close>: the rules of \<^verbatim>\<open>components/dialogs/param-override-editor-dialog.tsx\<close>, which rewrite the parameters of a
    request: reading, checking, printing and the drafts of two kinds of rules. Local ids come from a clock and
    the module's counter, which every operation that makes an id passes on.
  \<^item> \<open>Param_Laws\<close>, \<open>Param_Drafts\<close>: saved rules open as they were edited, pass the check again and save to the same text, but for
    required values that are empty strings; the check accepts exactly the complete rules; the drafts survive their text, with the cases in which they do not.
  \<^item> \<open>Param_Editor\<close>, \<open>Param_Session\<close>: the dialog as a state machine. Its state is a record, each handler an operation
    that returns the new state and its effects, and \<open>editor_step\<close> the handlers in any order with renders between
    them. The ids of rules and conditions stay distinct, and the two views of the rules agree.

  \<^bold>\<open>Navigation.\<close> The server stores two texts, the modules of the header and those of the sidebar, and three parts of the
  console read them, each with a parser of its own.
  \<^item> \<open>Nav_Config\<close>: \<^verbatim>\<open>features/system-settings/maintenance/config.ts\<close> and the submission of \<^verbatim>\<open>header-navigation-section.tsx\<close>.
  \<^item> \<open>Nav_Modules\<close>: \<^verbatim>\<open>lib/nav-modules.ts\<close>, the gate of \<^verbatim>\<open>routes/_public/pricing\<close> and \<^verbatim>\<open>hooks/use-top-nav-links.ts\<close>. The text in
    the browser's storage is an argument, and the answer of a fresh status request is a value or an error.
  \<^item> \<open>Nav_Sidebar\<close>: \<^verbatim>\<open>hooks/use-sidebar-config.ts\<close>.
  \<^item> \<open>Nav_Laws\<close>: whatever is stored, the readers return configurations of the declared type; what the administrator saves is
    what links, gates and sidebar enforce; the sidebar shows exactly what administrator and user allow, and the user's settings
    only narrow it; a failed request closes a module.
    The locale \<open>header_reader\<close> is what the two readers of the header share. An object is the list of its own members, so the
    model is for keys that are not names of \<^verbatim>\<open>Object.prototype\<close>.

  \<^bold>\<open>Status page.\<close> \<open>Status_Page\<close>: \<^verbatim>\<open>features/status/lib\<close> and the formats of \<^verbatim>\<open>features/performance-metrics\<close>. The roll-up by vendor is a
  group-by that counts every model once, with the median and the mean of each vendor written out.

  \<^bold>\<open>Parameters.\<close> \<^verbatim>\<open>nanoid\<close>, \<^verbatim>\<open>i18next.t\<close>, \<^verbatim>\<open>toLowerCase\<close>, \<^verbatim>\<open>toUpperCase\<close>, \<^verbatim>\<open>Date.now\<close>, \<^verbatim>\<open>Intl.NumberFormat\<close> and \<^verbatim>\<open>localeCompare\<close> are arguments of the definitions that use
  them. A connection of \<^verbatim>\<open>sse.js\<close> is a record of its identity and of whether the hook closed it;
  nothing is assumed of the events it delivers.

  \<^bold>\<open>Bounds.\<close> The shortest text of a number tries 17 digits, which always suffice for binary64; the
  scaling of a number to one leading digit allows 330 steps, more than the exponents of binary64 have.
  The laws on printed integers are for those below \<open>10\<^sup>15\<close>, which cover status codes and counts; the law on displayed quotas
  is for those below \<open>2\<^sup>49\<close> units, a billion dollars at the default rate.

  \<^bold>\<open>Not modelled.\<close> The React components and their hooks outside the ones above, HTTP clients
  and DOM code carry no logic of their own or rest on libraries. \<^verbatim>\<open>evalExprLocally\<close> runs an expression
  with \<^verbatim>\<open>new Function\<close>. The declarative parts of the zod schemas, the dashboard charts, the remaining
  channel helpers and the Go server are outside the model.
\<close>

section \<open>Saved prices\<close>

text \<open>The price of a model as the editors save it is shown as it was edited: for a readable configuration whose
  labels have no parentheses and a non-empty set of readable request rules, the combined expression splits into a
  part whose tiers are those of the configuration and a part that parses to exactly the rules.\<close>

theorem saved_pricing_shown:
  assumes "config_ok c" "list_all (\<lambda>t. no_parens (vt_label t)) (vc_tiers c)"
    and "list_all rule_ok gs" "gs \<noteq> []"
  shows "map_sum id (\<lambda>(base, rules). (parseTiersFromExpr base, tryParseRequestRuleExpr rules))
      (splitBillingExprAndRequestRules
        (combineBillingExpr (generateExprFromVisualConfig (Some c)) (buildRequestRuleExpr gs)))
    = Inr (map view_shown (config_views c), Inr (Some gs))"
  using split_combined [OF assms(3,4) generated_shape [OF assms(1,2)]] generated_tiers_reads [OF assms(1)]
    request_rules_reads [OF assms(3)]
  by simp

theorem saved_pricing_shown_witness:
  "map_sum id (\<lambda>(base, rules). (map pt_label (parseTiersFromExpr base), tryParseRequestRuleExpr rules))
      (splitBillingExprAndRequestRules
        (combineBillingExpr (generateExprFromVisualConfig (Some sample_config)) (buildRequestRuleExpr demo_rules)))
    = Inr ([js ''base'', js ''tier_2''], Inr (Some demo_rules))"
proof -
  have "list_all (\<lambda>t. no_parens (vt_label t)) (vc_tiers sample_config)" "demo_rules \<noteq> []"
    by (simp_all add: sample_config_def no_parens_def js_str demo_rules_def)
  note saved_pricing_shown [OF sample_ok this(1) demo_rules_ok this(2)]
  moreover have "map pt_label (map view_shown (config_views sample_config)) = [js ''base'', js ''tier_2'']"
    by (simp add: config_views_def sample_config_def tier_view_def numeral_2_eq_2 [symmetric] small_digits js_str)
  ultimately show ?thesis by (auto simp: map_sum_def split: sum.splits prod.splits)
qed

text \<open>C24: the pricing page shows a saved price as it was edited: for a model whose expression was saved from the editors, the summary exists,
  its tiers are those of the configuration, it says that there are request rules, and it lists the prices of the first tier. The
  hypotheses: there is a tier and there is a rule; the prices and thresholds are numbers whose decimal text denotes them; the tier
  labels have no quotes and no parentheses; the rules are of the readable kinds and their texts are plain. The editors do not
  enforce the conditions on labels and texts, and without them the rules may be lost on the page (\<open>paren_label_hides_rules\<close>,
  \<open>quoted_conjunction_not_read_back\<close>).\<close>

theorem saved_price_summary:
  assumes "config_ok c" "list_all (\<lambda>t. no_parens (vt_label t)) (vc_tiers c)" "list_all rule_ok gs" "gs \<noteq> []" "vc_tiers c \<noteq> []"
    and "billing_mode model = Some (js ''tiered_expr'')"
    and "billing_expr model = Some (combineBillingExpr (generateExprFromVisualConfig (Some c)) (buildRequestRuleExpr gs))"
  shows "\<exists>s. getDynamicPricingSummary intl currency model options = Inr (Some s)
    \<and> ds_tiers s = map view_shown (config_views c) \<and> ds_hasRequestRules s \<and> \<not> ds_isSpecialExpression s
    \<and> ds_entries s = getDynamicPriceEntries intl currency (Some (view_shown (hd (config_views c)))) options"
proof -
  let ?base = "generateExprFromVisualConfig (Some c)" and ?rules = "buildRequestRuleExpr gs"
  note shape = generated_shape [OF assms(1,2)]
  have split: "splitBillingExprAndRequestRules (expr_of model) = Inr (?base, ?rules)"
    using split_combined [OF assms(3,4) shape] by (simp add: expr_of_def assms(7))
  have "expr_of model \<noteq> []" using shape(1,2) by (simp add: expr_of_def assms(7) combineBillingExpr_def Let_def js_str)
  then have dyn: "isDynamicPricingModel model" using assms(6) by (simp add: isDynamicPricingModel_def)
  have "config_views c \<noteq> []" using assms(5) by (cases "vc_tiers c" rule: list.exhaust) (auto simp: config_views_def split: list.split)
  then obtain v vs where v: "config_views c = v # vs" by (cases "config_views c") auto
  have tiers: "getDynamicPricingTiers model = Inr (map view_shown (config_views c))"
    using generated_tiers_reads [OF assms(1)] by (simp add: getDynamicPricingTiers_def dyn split)
  have rules: "hasDynamicRequestRules model = Inr True"
    using request_rules_reads [OF assms(3)] assms(4) by (simp add: hasDynamicRequestRules_def dyn split)
  show ?thesis by (simp add: getDynamicPricingSummary_def dyn tiers rules v Let_def)
qed

definition saved_model :: PricingModel where
  "saved_model = blank_model\<lparr>billing_mode := Some (js ''tiered_expr''),
     billing_expr := Some (combineBillingExpr (generateExprFromVisualConfig (Some sample_config)) (buildRequestRuleExpr demo_rules))\<rparr>"

definition per_million :: DynamicPriceOptions where
  "per_million = \<lparr>dp_tokenUnit = UnitM, dp_showRechargePrice = None, dp_priceRate = None, dp_usdExchangeRate = None,
     dp_groupRatioMultiplier = None\<rparr>"

theorem saved_price_summary_witness:
  "\<exists>s. getDynamicPricingSummary (\<lambda>_ _ _. []) None saved_model per_million = Inr (Some s)
    \<and> ds_tiers s = map view_shown (config_views sample_config) \<and> ds_hasRequestRules s"
proof -
  have c: "list_all (\<lambda>t. no_parens (vt_label t)) (vc_tiers sample_config)" "demo_rules \<noteq> []" "vc_tiers sample_config \<noteq> []"
    by (simp_all add: sample_config_def no_parens_def js_str demo_rules_def)
  have m: "billing_mode saved_model = Some (js ''tiered_expr'')"
    "billing_expr saved_model = Some (combineBillingExpr (generateExprFromVisualConfig (Some sample_config)) (buildRequestRuleExpr demo_rules))"
    by (simp_all add: saved_model_def)
  from saved_price_summary [OF sample_ok c(1) demo_rules_ok c(2,3) m, of "\<lambda>_ _ _. []" None per_million] show ?thesis by blast
qed

text \<open>The filters, the sort and the mark for free models do not read the expression: a model with a tiered expression and the ratio 0 is
  marked as free while its first tier has an input price.\<close>

theorem tiered_model_marked_free:
  "isFreeModel (saved_model\<lparr>model_ratio := Fin 0\<rparr>)
   \<and> (\<exists>tiers. getDynamicPricingTiers (saved_model\<lparr>model_ratio := Fin 0\<rparr>) = Inr tiers
        \<and> map (\<lambda>t. map_of (pt_fields t) (js ''inputPrice'')) tiers = [Some (Fin 2), Some (Fin 4)])"
proof
  let ?model = "saved_model\<lparr>model_ratio := Fin 0\<rparr>"
  show "isFreeModel ?model"
    by (simp add: isFreeModel_def getInputPriceUsdPerM_def minGroupRatio_def saved_model_def blank_model_def num_eq_def QUOTA_TOKEN_VALUE_def
        is_finite_def num_le_def js_round_def)
  have c: "list_all (\<lambda>t. no_parens (vt_label t)) (vc_tiers sample_config)" "demo_rules \<noteq> []"
    by (simp_all add: sample_config_def no_parens_def js_str demo_rules_def)
  note shape = generated_shape [OF sample_ok c(1)]
  have e: "expr_of ?model = combineBillingExpr (generateExprFromVisualConfig (Some sample_config)) (buildRequestRuleExpr demo_rules)"
    by (simp add: expr_of_def saved_model_def)
  have "expr_of ?model \<noteq> []" using shape(1,2) by (simp add: e combineBillingExpr_def Let_def js_str)
  then have "isDynamicPricingModel ?model" by (simp add: isDynamicPricingModel_def) (simp add: saved_model_def)
  then have "getDynamicPricingTiers ?model = Inr (map view_shown (config_views sample_config))"
    using generated_tiers_reads [OF sample_ok] split_combined [OF demo_rules_ok c(2) shape] by (simp add: getDynamicPricingTiers_def e)
  moreover have "map (\<lambda>t. map_of (pt_fields t) (js ''inputPrice'')) (map view_shown (config_views sample_config)) = [Some (Fin 2), Some (Fin 4)]"
    by (simp add: config_views_def sample_config_def tier_view_def display_fields_def unit_price_def num_or_def num_truthy_def
        numeral_2_eq_2 [symmetric] small_digits js_str)
  ultimately show "\<exists>tiers. getDynamicPricingTiers ?model = Inr tiers
      \<and> map (\<lambda>t. map_of (pt_fields t) (js ''inputPrice'')) tiers = [Some (Fin 2), Some (Fin 4)]" by (intro exI conjI)
qed

end
